(* ===== verification/Go_Prelude.thy ===== *)
theory Go_Prelude
  imports Main "HOL-Library.Sublist" "HOL-Library.Multiset" "HOL-Library.Char_ord" "HOL-Library.List_Lexorder"
begin

text \<open>
  Shared vocabulary of the development: Go's 64-bit \<^verbatim>\<open>int\<close> arithmetic, the functions of
  the standard packages \<^verbatim>\<open>strings\<close>, \<^verbatim>\<open>slices\<close>, \<^verbatim>\<open>sort\<close> and \<^verbatim>\<open>bufio\<close> that the
  repository calls, and generic list lemmas. A Go string is a sequence of bytes, which is
  what HOL's \<^typ>\<open>string\<close> is (a \<^typ>\<open>char\<close> is one of 256 bytes).
\<close>

named_theorems go_defs \<open>definitions of small Go helpers, unfolded by the component proofs\<close>
named_theorems go_bounds \<open>length and range facts\<close>

section \<open>Go's 64-bit signed int\<close>

definition wrap64 :: "int \<Rightarrow> int" where
  "wrap64 x = (x + 2 ^ 63) mod 2 ^ 64 - 2 ^ 63"

definition in64 :: "int \<Rightarrow> bool" where
  "in64 x \<longleftrightarrow> - (2 ^ 63) \<le> x \<and> x < 2 ^ 63"

definition add64 :: "int \<Rightarrow> int \<Rightarrow> int" where
  "add64 a b = wrap64 (a + b)"

definition sub64 :: "int \<Rightarrow> int \<Rightarrow> int" where
  "sub64 a b = wrap64 (a - b)"

lemma wrap64_id: "in64 x \<Longrightarrow> wrap64 x = x"
  unfolding wrap64_def in64_def by (subst mod_pos_pos_trivial) auto

lemma wrap64_in64: "in64 (wrap64 x)"
  unfolding wrap64_def in64_def using pos_mod_bound [of "2 ^ 64 :: int"] pos_mod_sign [of "2 ^ 64 :: int"]
  by (simp add: algebra_simps)

lemma add64_id: "in64 (a + b) \<Longrightarrow> add64 a b = a + b"
  by (simp add: add64_def wrap64_id)

lemma sub64_id: "in64 (a - b) \<Longrightarrow> sub64 a b = a - b"
  by (simp add: sub64_def wrap64_id)

lemma in64I: "- (2 ^ 62) \<le> x \<Longrightarrow> x \<le> 2 ^ 63 - 1 \<Longrightarrow> in64 x"
  by (simp add: in64_def)

section \<open>Package strings\<close>

abbreviation HasPrefix :: "string \<Rightarrow> string \<Rightarrow> bool" where
  "HasPrefix s p \<equiv> prefix p s"

abbreviation HasSuffix :: "string \<Rightarrow> string \<Rightarrow> bool" where
  "HasSuffix s p \<equiv> suffix p s"

text \<open>\<^verbatim>\<open>strings.TrimPrefix\<close>.\<close>

definition TrimPrefix :: "string \<Rightarrow> string \<Rightarrow> string" where
  "TrimPrefix s p = (if prefix p s then drop (length p) s else s)"

text \<open>\<^verbatim>\<open>strings.Contains\<close> and \<^verbatim>\<open>strings.ContainsAny\<close> (the latter with an ASCII set).\<close>

definition str_contains :: "string \<Rightarrow> string \<Rightarrow> bool" where
  "str_contains s sub = sublist sub s"

definition ContainsAny :: "string \<Rightarrow> string \<Rightarrow> bool" where
  "ContainsAny s cs = list_ex (\<lambda>c. c \<in> set cs) s"

text \<open>\<^verbatim>\<open>strings.Join\<close> with a separator string.\<close>

fun join_str :: "string \<Rightarrow> string list \<Rightarrow> string" where
  "join_str sep [] = []"
| "join_str sep [x] = x"
| "join_str sep (x # y # ys) = x @ sep @ join_str sep (y # ys)"

text \<open>\<^verbatim>\<open>strings.Split\<close> with a one-byte separator.\<close>

fun split_byte :: "char \<Rightarrow> string \<Rightarrow> string list" where
  "split_byte c [] = [[]]"
| "split_byte c (x # xs) =
     (if x = c then [] # split_byte c xs
      else (case split_byte c xs of [] \<Rightarrow> [[x]] | y # ys \<Rightarrow> (x # y) # ys))"

lemma split_byte_ne [simp]: "split_byte c s \<noteq> []"
  by (induction s) (auto split: list.splits)

lemma split_byte_no_sep: "c \<notin> set s \<Longrightarrow> split_byte c s = [s]"
  by (induction s) auto

lemma split_byte_parts: "p \<in> set (split_byte c s) \<Longrightarrow> c \<notin> set p"
  by (induction s arbitrary: p) (fastforce split: list.splits if_splits)+

lemma split_byte_append: "c \<notin> set p \<Longrightarrow> split_byte c (p @ c # s) = p # split_byte c s"
  by (induction p) auto

lemma join_split: "join_str [c] (split_byte c s) = s"
proof (induction s)
  case (Cons x xs)
  then show ?case
    by (cases "split_byte c xs"; cases "tl (split_byte c xs)") (auto split: list.splits)
qed simp

lemma split_join:
  "xs \<noteq> [] \<Longrightarrow> \<forall>x \<in> set xs. c \<notin> set x \<Longrightarrow> split_byte c (join_str [c] xs) = xs"
  by (induction "[c]" xs rule: join_str.induct) (auto simp: split_byte_no_sep split_byte_append)

section \<open>Package strconv\<close>

text \<open>\<^verbatim>\<open>strconv.Itoa\<close> (and \<^verbatim>\<open>%d\<close>) on a non-negative number.\<close>

fun itoa_nat :: "nat \<Rightarrow> string" where
  "itoa_nat n = (if n < 10 then [char_of (48 + n)] else itoa_nat (n div 10) @ [char_of (48 + n mod 10)])"

declare itoa_nat.simps [simp del]

lemma itoa_ne: "itoa_nat n \<noteq> []" "[] \<noteq> itoa_nat n"
  using itoa_nat.simps [of n] by auto

lemma char_digit_inj: "a < 10 \<Longrightarrow> b < 10 \<Longrightarrow> char_of (48 + a) = (char_of (48 + b) :: char) \<longleftrightarrow> a = (b :: nat)"
  by (auto simp: char_of_eq_iff take_bit_nat_def)

lemma itoa_inj: "itoa_nat a = itoa_nat b \<Longrightarrow> a = b"
proof (induction a arbitrary: b rule: itoa_nat.induct)
  case (1 a)
  note eq = "1.prems" [unfolded itoa_nat.simps [of a] itoa_nat.simps [of b]]
  show ?case
  proof (cases "a < 10 \<or> b < 10")
    case True
    with eq show ?thesis by (auto simp: itoa_ne char_digit_inj append_eq_Cons_conv split: if_splits)
  next
    case False
    with eq have "itoa_nat (a div 10) = itoa_nat (b div 10)"
      and "(char_of (48 + a mod 10) :: char) = char_of (48 + b mod 10)" by auto
    with "1.IH" False have "a div 10 = b div 10" "a mod 10 = b mod 10" by (auto simp: char_digit_inj)
    then show ?thesis by (metis div_mult_mod_eq)
  qed
qed

end
