(* ===== verification/Hashline.thy ===== *)
theory Hashline
  imports Go_Sha256
begin

text \<open>
  \<^verbatim>\<open>internal/hashline/hashline.go\<close>: content-anchored line edits. A read hands out one anchor
  per line; a patch names anchors, and \<open>ApplyLines\<close> resolves every hunk against one snapshot of
  the file, rejects stale, ambiguous and overlapping hunks, splices the rest bottom-up and
  reports the affected regions. Line counts are \<^typ>\<open>int\<close> with Go's 64-bit wrap-around written
  out wherever a number that comes from the model's JSON takes part; a slice expression that Go
  would panic on is the error value \<open>Panic\<close>.
\<close>

section \<open>Data\<close>

record line =
  line_number :: int
  line_hash :: string
  line_text :: string

record hunk =
  hunk_anchor :: string
  hunk_line :: int
  hunk_offset :: int
  hunk_delete :: int
  hunk_insert :: "string list"

record patch =
  patch_path :: string
  patch_hunks :: "hunk list"

datatype anchor_mode = AnchorLine | AnchorContextual | AnchorText

datatype hl_error =
    StaleError string "line list"
  | AmbiguousError string "int list" "line list list" bool
  | OverlapError
  | ErrNoChanges
  | ErrTooLong
  | Panic

record affected_region =
  reg_start :: int
  reg_end :: int

record apply_result =
  res_lines :: "line list"
  res_affected :: "affected_region list"

section \<open>Operations\<close>

definition lineTolerance :: int where
  "lineTolerance = 40"

fun near_loop :: "int \<Rightarrow> int list \<Rightarrow> int \<times> int \<Rightarrow> int \<times> int" where
  "near_loop want [] acc = acc"
| "near_loop want (idx # is) (near, within) =
     near_loop want is
       (if \<bar>idx - want\<bar> \<le> lineTolerance then (idx, within + 1) else (near, within))"

fun best_loop :: "int \<Rightarrow> int list \<Rightarrow> int \<times> int \<Rightarrow> int \<times> int" where
  "best_loop want [] acc = acc"
| "best_loop want (idx # is) (best, second) =
     (let d = \<bar>idx - want\<bar> in
      best_loop want is
        (if best < 0 \<or> d < \<bar>best - want\<bar> then (idx, best)
         else if second < 0 \<or> d < \<bar>second - want\<bar> then (best, idx)
         else (best, second)))"

definition pickOccurrence :: "int list \<Rightarrow> int \<Rightarrow> bool \<Rightarrow> int option" where
  "pickOccurrence occurrences line deleting =
     (if line \<le> 0 then None
      else let want = line - 1 in
        case List.find (\<lambda>idx. idx = want) occurrences of
          Some idx \<Rightarrow> Some idx
        | None \<Rightarrow>
            (case near_loop want occurrences (- 1, 0) of (near, within) \<Rightarrow>
               if within = 1 then Some near
               else if deleting then None
               else (case best_loop want occurrences (- 1, - 1) of (best, second) \<Rightarrow>
                       let d = \<bar>best - want\<bar> in
                       if d \<le> lineTolerance \<and> (second < 0 \<or> 2 * d < \<bar>second - want\<bar>)
                       then Some best else None)))"

definition window :: "line list \<Rightarrow> int \<Rightarrow> line list" where
  "window lines at =
     (let lo = max 0 (at - 2); hi = min (int (length lines)) (at + 3)
      in take (nat (hi - lo)) (drop (nat lo) lines))"

definition ambiguous :: "string \<Rightarrow> line list \<Rightarrow> int list \<Rightarrow> bool \<Rightarrow> hl_error" where
  "ambiguous anchor lines occurrences newFileAnchor =
     AmbiguousError anchor (map (\<lambda>idx. idx + 1) occurrences)
       (map (window lines) (take 6 occurrences)) newFileAnchor"

definition hash :: "string \<Rightarrow> string" where
  "hash s = take 8 (hex_encode (sha256 s))"

definition anchor_text :: "anchor_mode \<Rightarrow> string list \<Rightarrow> nat \<Rightarrow> string" where
  "anchor_text mode text i =
     (if mode = AnchorContextual
      then (if i > 0 then text ! (i - 1) else []) @ [CHR 0x00] @ text ! i @ [CHR 0x00]
             @ (if i + 1 < length text then text ! (i + 1) else [])
      else text ! i)"

definition hashes :: "string list \<Rightarrow> anchor_mode \<Rightarrow> line list" where
  "hashes text mode =
     map (\<lambda>i. \<lparr>line_number = int i + 1,
               line_hash = (if mode = AnchorText then text ! i else hash (anchor_text mode text i)),
               line_text = text ! i\<rparr>) [0..<length text]"

text \<open>
  \<^verbatim>\<open>bufio.Scanner\<close> with \<^verbatim>\<open>ScanLines\<close>: lines end at a newline, one trailing carriage return is
  dropped, a last line without newline counts when it is not empty. A line that does not fit
  the 8 MiB buffer together with its newline stops the scan with \<^verbatim>\<open>ErrTooLong\<close>.
\<close>

definition drop_cr :: "string \<Rightarrow> string" where
  "drop_cr s = (if s \<noteq> [] \<and> last s = CHR 0x0D then butlast s else s)"

definition raw_lines :: "string \<Rightarrow> string list" where
  "raw_lines data =
     (let parts = split_byte CHR 0x0A data in if last parts = [] then butlast parts else parts)"

definition maxTokenSize :: int where
  "maxTokenSize = 8388608"

definition Parse :: "string \<Rightarrow> anchor_mode \<Rightarrow> hl_error + line list" where
  "Parse data mode =
     (if list_ex (\<lambda>l. int (length l) \<ge> maxTokenSize) (raw_lines data) then Inl ErrTooLong
      else Inr (hashes (map drop_cr (raw_lines data)) mode))"

definition newFileAnchor :: "anchor_mode \<Rightarrow> string" where
  "newFileAnchor mode = (if mode = AnchorText then [] else hash [])"

definition anchor_matches :: "anchor_mode \<Rightarrow> line \<Rightarrow> string \<Rightarrow> bool" where
  "anchor_matches mode l anchor =
     (if mode = AnchorText then line_hash l = anchor else HasPrefix (line_hash l) anchor)"

definition find_occurrences :: "anchor_mode \<Rightarrow> line list \<Rightarrow> hunk \<Rightarrow> int list" where
  "find_occurrences mode lines h =
     (if lines = [] \<and> hunk_anchor h = newFileAnchor mode \<and> hunk_offset h = 0 \<and> hunk_delete h = 0
      then [0]
      else map int (filter (\<lambda>i. anchor_matches mode (lines ! i) (hunk_anchor h)) [0..<length lines]))"

definition settle_occurrences ::
  "anchor_mode \<Rightarrow> line list \<Rightarrow> hunk \<Rightarrow> int list \<Rightarrow> hl_error + int list" where
  "settle_occurrences mode lines h occurrences =
     (if length occurrences > 1
      then (case pickOccurrence occurrences (hunk_line h) (hunk_delete h > 0) of
              Some idx \<Rightarrow> Inr [idx]
            | None \<Rightarrow>
                if hunk_delete h > 0
                then Inl (ambiguous (hunk_anchor h) lines occurrences (hunk_anchor h = newFileAnchor mode))
                else Inr occurrences)
      else Inr occurrences)"

definition valid_target :: "nat \<Rightarrow> hunk \<Rightarrow> int \<Rightarrow> bool" where
  "valid_target n h idx =
     (let target = add64 idx (hunk_offset h) in
      target \<ge> 0 \<and> target \<le> int n \<and> hunk_delete h \<ge> 0 \<and> add64 target (hunk_delete h) \<le> int n)"

definition locate :: "anchor_mode \<Rightarrow> line list \<Rightarrow> hunk \<Rightarrow> hl_error + int" where
  "locate mode lines h =
     (let occurrences = find_occurrences mode lines h in
      if occurrences = [] then Inl (StaleError (hunk_anchor h) (window lines 0))
      else case settle_occurrences mode lines h occurrences of
        Inl e \<Rightarrow> Inl e
      | Inr occs \<Rightarrow>
          (let validOccurrences = filter (valid_target (length lines) h) occs in
           if validOccurrences = [] then Inl (StaleError (hunk_anchor h) (window lines (hd occs)))
           else if length validOccurrences > 1
           then Inl (ambiguous (hunk_anchor h) lines validOccurrences (hunk_anchor h = newFileAnchor mode))
           else Inr (add64 (hd validOccurrences) (hunk_offset h))))"

type_synonym located = "int \<times> hunk"

fun locate_all :: "anchor_mode \<Rightarrow> line list \<Rightarrow> hunk list \<Rightarrow> hl_error + located list" where
  "locate_all mode lines [] = Inr []"
| "locate_all mode lines (h # hs) =
     (case locate mode lines h of
        Inl e \<Rightarrow> Inl e
      | Inr at \<Rightarrow>
          (case locate_all mode lines hs of Inl e \<Rightarrow> Inl e | Inr loc \<Rightarrow> Inr ((at, h) # loc)))"

fun overlapping :: "located list \<Rightarrow> bool" where
  "overlapping ((at0, h0) # (at1, h1) # xs) =
     (at1 < add64 at0 (hunk_delete h0) \<or> overlapping ((at1, h1) # xs))"
| "overlapping _ = False"

fun affected_regions :: "int \<Rightarrow> located list \<Rightarrow> affected_region list" where
  "affected_regions delta [] = []"
| "affected_regions delta ((at, h) # xs) =
     (let start = add64 at delta; n = int (length (hunk_insert h)) in
      \<lparr>reg_start = start, reg_end = add64 start n\<rparr>
        # affected_regions (add64 delta (sub64 n (hunk_delete h))) xs)"

definition splice :: "int \<Rightarrow> hunk \<Rightarrow> string list \<Rightarrow> string list option" where
  "splice at h raw =
     (let e = add64 at (hunk_delete h) in
      if 0 \<le> at \<and> 0 \<le> e \<and> e \<le> int (length raw)
      then Some (take (nat at) raw @ hunk_insert h @ drop (nat e) raw) else None)"

fun splice_all :: "located list \<Rightarrow> string list \<Rightarrow> string list option" where
  "splice_all [] raw = Some raw"
| "splice_all ((at, h) # xs) raw =
     (case splice_all xs raw of None \<Rightarrow> None | Some raw' \<Rightarrow> splice at h raw')"

definition file_content :: "string list \<Rightarrow> string" where
  "file_content raw = join_str [CHR 0x0A] raw @ [CHR 0x0A]"

definition ApplyLines ::
  "line list \<Rightarrow> patch \<Rightarrow> anchor_mode \<Rightarrow> hl_error + string \<times> apply_result" where
  "ApplyLines lines p mode =
     (let original = map line_text lines in
      case locate_all mode lines (patch_hunks p) of
        Inl e \<Rightarrow> Inl e
      | Inr loc0 \<Rightarrow>
          (let loc = sort_key fst loc0 in
           if overlapping loc then Inl OverlapError
           else case splice_all loc original of
             None \<Rightarrow> Inl Panic
           | Some raw \<Rightarrow>
               if raw = original then Inl ErrNoChanges
               else Inr (file_content raw,
                         \<lparr>res_lines = hashes raw mode, res_affected = affected_regions 0 loc\<rparr>)))"

section \<open>Settling an ambiguous anchor\<close>

definition near :: "int \<Rightarrow> int \<Rightarrow> bool" where
  "near want idx \<longleftrightarrow> \<bar>idx - want\<bar> \<le> lineTolerance"

lemma near_loop_eq:
  "near_loop want is (n, w) =
     (if filter (near want) is = [] then n else last (filter (near want) is),
      w + int (length (filter (near want) is)))"
  by (induction "is" arbitrary: n w) (auto simp: near_def [symmetric])

text \<open>What \<open>best_loop\<close> keeps: the nearest index so far and the runner-up's distance.\<close>

definition best_inv :: "int \<Rightarrow> int set \<Rightarrow> int \<times> int \<Rightarrow> bool" where
  "best_inv want S bs \<longleftrightarrow>
     (case bs of (best, second) \<Rightarrow>
        (best < 0 \<longrightarrow> S = {}) \<and> (0 \<le> best \<longrightarrow> best \<in> S) \<and>
        (\<forall>o' \<in> S. o' \<noteq> best \<longrightarrow> 0 \<le> second \<and> \<bar>second - want\<bar> \<le> \<bar>o' - want\<bar>) \<and>
        (0 \<le> second \<longrightarrow> \<bar>best - want\<bar> \<le> \<bar>second - want\<bar>))"

lemma best_loop_inv:
  assumes "\<forall>i \<in> set is. 0 \<le> i" and "best_inv want S (b, s)"
  shows "best_inv want (S \<union> set is) (best_loop want is (b, s))"
  using assms
proof (induction "is" arbitrary: b s S)
  case (Cons i "is")
  let ?next = "if b < 0 \<or> \<bar>i - want\<bar> < \<bar>b - want\<bar> then (i, b)
     else if s < 0 \<or> \<bar>i - want\<bar> < \<bar>s - want\<bar> then (b, i) else (b, s)"
  have "best_inv want (insert i S) ?next"
    using Cons.prems unfolding best_inv_def by (auto split: if_splits)
  then have "best_inv want (insert i S \<union> set is) (best_loop want is ?next)"
    using Cons.IH [of "insert i S" "fst ?next" "snd ?next"] Cons.prems(1) by simp
  then show ?case by (simp add: Let_def)
qed simp

lemma find_eq_Some: "List.find (\<lambda>x. x = w) xs = Some y \<longleftrightarrow> w \<in> set xs \<and> y = w"
  by (induction xs) auto

lemma pick_nearest:
  assumes "best_loop want occ (- 1, - 1) = (best, second)" and "occ \<noteq> []"
    and "\<forall>i \<in> set occ. 0 \<le> i" and "second < 0 \<or> 2 * \<bar>best - want\<bar> < \<bar>second - want\<bar>"
  shows "best \<in> set occ \<and> (\<forall>o' \<in> set occ. o' \<noteq> best \<longrightarrow> 2 * \<bar>best - want\<bar> < \<bar>o' - want\<bar>)"
proof -
  have "best_inv want (set occ) (best, second)"
    using best_loop_inv [of occ want "{}" "- 1" "- 1"] assms(1,3) by (simp add: best_inv_def)
  then have "best \<in> set occ"
    and far: "\<And>o'. o' \<in> set occ \<Longrightarrow> o' \<noteq> best \<Longrightarrow> 0 \<le> second \<and> \<bar>second - want\<bar> \<le> \<bar>o' - want\<bar>"
    using assms(2) by (auto simp: best_inv_def not_less)
  moreover have "2 * \<bar>best - want\<bar> < \<bar>o' - want\<bar>" if "o' \<in> set occ" "o' \<noteq> best" for o'
    using far [OF that] assms(4) by linarith
  ultimately show ?thesis by blast
qed

lemma pick_only_near:
  assumes "near_loop want occ (- 1, 0) = (n, 1)"
  shows "n \<in> set occ \<and> \<bar>n - want\<bar> \<le> lineTolerance
    \<and> (\<forall>o' \<in> set occ. o' \<noteq> n \<longrightarrow> lineTolerance < \<bar>o' - want\<bar>)"
proof -
  from assms have "length (filter (near want) occ) = 1" and n: "n = last (filter (near want) occ)"
    by (auto simp: near_loop_eq split: if_splits)
  then have eq: "filter (near want) occ = [n]"
    by (cases "filter (near want) occ") auto
  have "o' = n" if "o' \<in> set occ" "near want o'" for o'
  proof -
    from that have "o' \<in> set (filter (near want) occ)" by simp
    then show ?thesis by (simp only: eq) simp
  qed
  moreover have "n \<in> set (filter (near want) occ)" by (simp add: eq)
  ultimately show ?thesis by (auto simp: near_def not_le [symmetric])
qed

lemma pickOccurrence_sound:
  assumes "pickOccurrence occ line deleting = Some idx" and "occ \<noteq> []" and "\<forall>i \<in> set occ. 0 \<le> i"
  shows "idx \<in> set occ \<and>
    (idx = line - 1
     \<or> \<bar>idx - (line - 1)\<bar> \<le> lineTolerance
       \<and> ((\<forall>o' \<in> set occ. o' \<noteq> idx \<longrightarrow> lineTolerance < \<bar>o' - (line - 1)\<bar>)
          \<or> \<not> deleting \<and> (\<forall>o' \<in> set occ. o' \<noteq> idx \<longrightarrow> 2 * \<bar>idx - (line - 1)\<bar> < \<bar>o' - (line - 1)\<bar>)))"
proof (cases "List.find (\<lambda>i. i = line - 1) occ")
  case (Some i)
  with assms(1) have "idx = i" by (auto simp: pickOccurrence_def Let_def split: if_splits)
  with Some show ?thesis by (simp add: find_eq_Some)
next
  case None
  obtain n w where nl: "near_loop (line - 1) occ (- 1, 0) = (n, w)" by force
  obtain b s where bl: "best_loop (line - 1) occ (- 1, - 1) = (b, s)" by force
  show ?thesis
  proof (cases "w = 1")
    case True
    with None nl assms(1) have "idx = n" by (auto simp: pickOccurrence_def Let_def split: if_splits)
    with pick_only_near nl True show ?thesis by blast
  next
    case False
    with None nl bl assms(1)
    have "idx = b" "\<not> deleting" "\<bar>b - (line - 1)\<bar> \<le> lineTolerance"
      and "s < 0 \<or> 2 * \<bar>b - (line - 1)\<bar> < \<bar>s - (line - 1)\<bar>"
      by (auto simp: pickOccurrence_def Let_def split: if_splits)
    with pick_nearest [OF bl assms(2,3)] show ?thesis by blast
  qed
qed

end
