(* ===== verification/Hashline_Correct.thy ===== *)
theory Hashline_Correct
  imports Hashline
begin

text \<open>
  Correctness of \<open>ApplyLines\<close>. The abstract specification of a patch is \<open>patch_spec\<close>: walk the
  file once from the top, copy what lies between the edits, drop the deleted lines and put the
  inserted ones in their place. The code splices bottom-up; the lemmas below show that both
  agree, that the reported regions point at the inserted lines of the new file, that no slice
  expression is out of range while the sizes stay far from the 64-bit limit, and that writing
  and reading the result back gives the reported lines.
\<close>

section \<open>Resolved hunks\<close>

lemma find_occurrences_nonneg: "i \<in> set (find_occurrences mode lines h) \<Longrightarrow> 0 \<le> i"
  by (auto simp: find_occurrences_def split: if_splits)

lemma settle_subset:
  assumes "settle_occurrences mode lines h occ = Inr occs" and "occ \<noteq> []" and "\<forall>i \<in> set occ. 0 \<le> i"
  shows "set occs \<subseteq> set occ"
  using assms pickOccurrence_sound [OF _ assms(2,3)]
  by (fastforce simp: settle_occurrences_def split: if_splits option.splits)

lemma settle_delete:
  assumes "settle_occurrences mode lines h occ = Inr occs" and "occ \<noteq> []" and "\<forall>i \<in> set occ. 0 \<le> i"
    and "hunk_delete h > 0" and "idx \<in> set occs"
  shows "occ = [idx] \<or> idx = hunk_line h - 1
    \<or> \<bar>idx - (hunk_line h - 1)\<bar> \<le> lineTolerance
      \<and> (\<forall>o' \<in> set occ. o' \<noteq> idx \<longrightarrow> lineTolerance < \<bar>o' - (hunk_line h - 1)\<bar>)"
proof (cases "length occ > 1")
  case True
  with assms(1,4,5) have "pickOccurrence occ (hunk_line h) True = Some idx"
    by (auto simp: settle_occurrences_def split: option.splits)
  from pickOccurrence_sound [OF this assms(2,3)] show ?thesis by blast
next
  case False
  with assms(1,2,5) have "occ = [idx]"
    by (cases occ) (auto simp: settle_occurrences_def)
  then show ?thesis by blast
qed

lemma locate_InrE:
  assumes "locate mode lines h = Inr at"
  obtains occs idx where "find_occurrences mode lines h \<noteq> []"
    and "settle_occurrences mode lines h (find_occurrences mode lines h) = Inr occs"
    and "idx \<in> set occs" and "valid_target (length lines) h idx" and "at = add64 idx (hunk_offset h)"
    and "idx \<in> set (find_occurrences mode lines h)"
proof -
  let ?occ = "find_occurrences mode lines h"
  from assms obtain occs where ne: "?occ \<noteq> []" and st: "settle_occurrences mode lines h ?occ = Inr occs"
    and len: "\<not> length (filter (valid_target (length lines) h) occs) > 1"
    and fne: "filter (valid_target (length lines) h) occs \<noteq> []"
    and at: "at = add64 (hd (filter (valid_target (length lines) h) occs)) (hunk_offset h)"
    by (auto simp: locate_def Let_def split: if_splits sum.splits)
  let ?idx = "hd (filter (valid_target (length lines) h) occs)"
  have "?idx \<in> set (filter (valid_target (length lines) h) occs)" using fne by (rule hd_in_set)
  then have mem: "?idx \<in> set occs" "valid_target (length lines) h ?idx" by auto
  with settle_subset [OF st ne] find_occurrences_nonneg have "?idx \<in> set ?occ" by blast
  from that [OF ne st mem at this] show thesis .
qed

lemma locate_bounds:
  assumes "locate mode lines h = Inr at"
  shows "0 \<le> at" and "at \<le> int (length lines)" and "0 \<le> hunk_delete h"
    and "add64 at (hunk_delete h) \<le> int (length lines)"
  using assms by (auto elim!: locate_InrE simp: valid_target_def Let_def)

lemma locate_all_InrD:
  "locate_all mode lines hs = Inr loc \<Longrightarrow>
     map snd loc = hs \<and> (\<forall>x \<in> set loc. locate mode lines (snd x) = Inr (fst x))"
  by (induction hs arbitrary: loc) (auto split: sum.splits)

lemma locate_all_InrI:
  "\<forall>x \<in> set loc. locate mode lines (snd x) = Inr (fst x) \<Longrightarrow>
     locate_all mode lines (map snd loc) = Inr loc"
  by (induction loc) auto

section \<open>The top-down specification\<close>

type_synonym edit = "nat \<times> nat \<times> string list"

fun patch_spec :: "nat \<Rightarrow> edit list \<Rightarrow> string list \<Rightarrow> string list" where
  "patch_spec pos [] raw = drop pos raw"
| "patch_spec pos ((at, del, ins) # es) raw =
     take (at - pos) (drop pos raw) @ ins @ patch_spec (at + del) es raw"

fun wf_edits :: "nat \<Rightarrow> nat \<Rightarrow> edit list \<Rightarrow> bool" where
  "wf_edits pos n [] = (pos \<le> n)"
| "wf_edits pos n ((at, del, ins) # es) = (pos \<le> at \<and> wf_edits (at + del) n es)"

definition edit_of :: "located \<Rightarrow> edit" where
  "edit_of = (\<lambda>(at, h). (nat at, nat (hunk_delete h), hunk_insert h))"

lemma wf_edits_le: "wf_edits pos n es \<Longrightarrow> pos \<le> n"
  by (induction pos n es rule: wf_edits.induct) auto

text \<open>A located hunk whose range lies inside a file of \<open>n\<close> lines, far from overflow.\<close>

definition loc_ok :: "nat \<Rightarrow> located \<Rightarrow> bool" where
  "loc_ok n = (\<lambda>(at, h). 0 \<le> at \<and> 0 \<le> hunk_delete h \<and> at + hunk_delete h \<le> int n \<and> int n < 2 ^ 62)"

lemma loc_ok_add64: "loc_ok n (at, h) \<Longrightarrow> add64 at (hunk_delete h) = at + hunk_delete h"
  by (rule add64_id) (auto simp: loc_ok_def in64_def)

lemma not_overlapping_wf:
  assumes "\<not> overlapping loc" and "\<forall>x \<in> set loc. loc_ok n x" and "pos \<le> n"
    and "loc \<noteq> [] \<Longrightarrow> int pos \<le> fst (hd loc)"
  shows "wf_edits pos n (map edit_of loc)"
  using assms
proof (induction loc arbitrary: pos rule: overlapping.induct)
  case (1 at0 h0 at1 h1 xs)
  from "1.prems"(2) have ok: "loc_ok n (at0, h0)" by simp
  with "1.prems"(1) have "at0 + hunk_delete h0 \<le> at1" by (simp add: loc_ok_add64)
  with ok have "wf_edits (nat at0 + nat (hunk_delete h0)) n (map edit_of ((at1, h1) # xs))"
    using "1.prems" by (intro "1.IH") (auto simp: loc_ok_def)
  with "1.prems"(4) show ?case by (simp add: edit_of_def)
qed (auto simp: edit_of_def loc_ok_def)

lemma splice_all_spec:
  assumes "wf_edits pos (length raw) (map edit_of loc)" and "\<forall>x \<in> set loc. loc_ok (length raw) x"
  shows "splice_all loc raw = Some (take pos raw @ patch_spec pos (map edit_of loc) raw)"
  using assms
proof (induction loc arbitrary: pos)
  case (Cons x xs)
  obtain at h where x: "x = (at, h)" by force
  let ?a = "nat at" and ?d = "nat (hunk_delete h)"
  let ?rest = "patch_spec (?a + ?d) (map edit_of xs) raw"
  from Cons.prems x have wf: "wf_edits (?a + ?d) (length raw) (map edit_of xs)" and pos: "pos \<le> ?a"
    and ok: "loc_ok (length raw) (at, h)" by (auto simp: edit_of_def)
  have IH: "splice_all xs raw = Some (take (?a + ?d) raw @ ?rest)"
    using Cons.IH wf Cons.prems(2) by simp
  have le: "?a + ?d \<le> length raw" using wf_edits_le [OF wf] .
  have e: "add64 at (hunk_delete h) = int (?a + ?d)" and "0 \<le> at"
    using ok loc_ok_add64 [OF ok] by (auto simp: loc_ok_def)
  then have "splice at h (take (?a + ?d) raw @ ?rest) = Some (take ?a raw @ hunk_insert h @ ?rest)"
    using le by (simp add: splice_def Let_def min_def del: of_nat_add)
  moreover have "take ?a raw = take pos raw @ take (?a - pos) (drop pos raw)"
    using pos by (metis le_add_diff_inverse take_add)
  ultimately show ?case by (simp add: IH x edit_of_def)
qed simp

section \<open>Affected regions\<close>

definition region_ok :: "string list \<Rightarrow> affected_region \<Rightarrow> string list \<Rightarrow> bool" where
  "region_ok new r ins \<longleftrightarrow> 0 \<le> reg_start r \<and> reg_end r = reg_start r + int (length ins)
     \<and> take (length ins) (drop (nat (reg_start r)) new) = ins"

definition inserted :: "located list \<Rightarrow> nat" where
  "inserted loc = (\<Sum>x\<leftarrow>loc. length (hunk_insert (snd x)))"

lemma affected_regions_ok:
  assumes "wf_edits pos (length raw) (map edit_of loc)" and "\<forall>x \<in> set loc. loc_ok (length raw) x"
    and "int (length P) + int (inserted loc) + int (length raw) - int pos < 2 ^ 62"
    and "int pos \<le> 2 ^ 62"
    and "new = P @ patch_spec pos (map edit_of loc) raw" and "delta = int (length P) - int pos"
  shows "list_all2 (region_ok new) (affected_regions delta loc) (map (\<lambda>x. hunk_insert (snd x)) loc)"
  using assms
proof (induction loc arbitrary: pos P delta)
  case (Cons x xs)
  obtain at h where x: "x = (at, h)" by force
  let ?a = "nat at" and ?d = "nat (hunk_delete h)" and ?ins = "hunk_insert h"
  let ?P = "P @ take (?a - pos) (drop pos raw) @ ?ins"
  from Cons.prems(1,2) x have wf: "wf_edits (?a + ?d) (length raw) (map edit_of xs)" and pos: "pos \<le> ?a"
    and ok: "loc_ok (length raw) (at, h)" by (auto simp: edit_of_def)
  have le: "?a + ?d \<le> length raw" using wf_edits_le [OF wf] .
  have lenP: "length ?P = length P + (?a - pos) + length ?ins" using le pos by simp
  have at0: "0 \<le> at" "0 \<le> hunk_delete h" "at + hunk_delete h \<le> int (length raw)" "int (length raw) < 2 ^ 62"
    using ok by (auto simp: loc_ok_def)
  have ins: "inserted (x # xs) = length ?ins + inserted xs" by (simp add: inserted_def x)
  have start: "add64 at delta = at + delta" and fin: "add64 (at + delta) (int (length ?ins)) = at + delta + int (length ?ins)"
    and d1: "sub64 (int (length ?ins)) (hunk_delete h) = int (length ?ins) - hunk_delete h"
    and d2: "add64 delta (int (length ?ins) - hunk_delete h) = delta + int (length ?ins) - hunk_delete h"
    using at0 pos Cons.prems(3,6) ins by (auto intro!: add64_id sub64_id simp: in64_def add64_def wrap64_id)
  have new: "new = ?P @ patch_spec (?a + ?d) (map edit_of xs) raw"
    using Cons.prems(5) x by (simp add: edit_of_def)
  have "region_ok new \<lparr>reg_start = at + delta, reg_end = at + delta + int (length ?ins)\<rparr> ?ins"
  proof -
    have "nat (at + delta) = length (P @ take (?a - pos) (drop pos raw))"
      using Cons.prems(6) at0 pos le by simp
    moreover have "0 \<le> at + delta" using Cons.prems(6) at0 pos by simp
    ultimately show ?thesis using new by (simp add: region_ok_def)
  qed
  moreover have "list_all2 (region_ok new) (affected_regions (delta + int (length ?ins) - hunk_delete h) xs)
      (map (\<lambda>x. hunk_insert (snd x)) xs)"
  proof (rule Cons.IH [OF wf _ _ _ new])
    show "int (length ?P) + int (inserted xs) + int (length raw) - int (?a + ?d) < 2 ^ 62"
      unfolding lenP using Cons.prems(3) ins pos at0 by linarith
    show "delta + int (length ?ins) - hunk_delete h = int (length ?P) - int (?a + ?d)"
      unfolding lenP using Cons.prems(6) at0 pos by simp
  qed (use Cons.prems(2) at0 in auto)
  ultimately show ?case by (simp add: x Let_def start fin d1 d2)
qed simp

section \<open>The whole patch\<close>

text \<open>Sizes that stay far from the 64-bit limit.\<close>

definition sizes_ok :: "line list \<Rightarrow> patch \<Rightarrow> bool" where
  "sizes_ok lines p \<longleftrightarrow>
     int (length lines) + (\<Sum>h\<leftarrow>patch_hunks p. int (length (hunk_insert h))) < 2 ^ 62 \<and>
     list_all (\<lambda>h. hunk_delete h < 2 ^ 62) (patch_hunks p)"

lemma sum_insert_nonneg: "0 \<le> (\<Sum>h\<leftarrow>hs. int (length (hunk_insert h)))"
  by (rule sum_list_nonneg) auto

lemma locate_all_ok:
  assumes "locate_all mode lines (patch_hunks p) = Inr loc" and "sizes_ok lines p" and "x \<in> set loc"
  shows "loc_ok (length lines) x"
proof -
  obtain at h where x: "x = (at, h)" by force
  from locate_all_InrD [OF assms(1)] have hs: "set (patch_hunks p) = snd ` set loc"
    and loc: "locate mode lines h = Inr at" using assms(3) x by (auto simp flip: set_map)
  from hs assms(3) x have "h \<in> set (patch_hunks p)" by force
  then have small: "hunk_delete h < 2 ^ 62" and len: "int (length lines) < 2 ^ 62"
    using assms(2) sum_insert_nonneg [of "patch_hunks p"] by (auto simp: sizes_ok_def list_all_iff)
  note b = locate_bounds [OF loc]
  have "add64 at (hunk_delete h) = at + hunk_delete h"
    using b(1-3) small len by (intro add64_id) (simp add: in64_def)
  with b len show ?thesis by (simp add: loc_ok_def x)
qed

lemma inserted_mset: "inserted loc = sum_mset (image_mset (\<lambda>x. length (hunk_insert (snd x))) (mset loc))"
  by (simp add: inserted_def flip: sum_mset_sum_list)

lemma inserted_sort: "inserted (sort_key f loc) = inserted loc"
  by (simp add: inserted_mset)

lemma inserted_locate_all:
  "locate_all mode lines hs = Inr loc \<Longrightarrow> int (inserted loc) = (\<Sum>h\<leftarrow>hs. int (length (hunk_insert h)))"
  by (induction hs arbitrary: loc) (auto simp: inserted_def split: sum.splits)

lemma resolved_patch:
  assumes "locate_all mode lines (patch_hunks p) = Inr loc0" and "sizes_ok lines p"
    and "\<not> overlapping (sort_key fst loc0)"
  defines "loc \<equiv> sort_key fst loc0" and "original \<equiv> map line_text lines"
  defines "new \<equiv> patch_spec 0 (map edit_of loc) original"
  shows "wf_edits 0 (length lines) (map edit_of loc)"
    and "splice_all loc original = Some new"
    and "list_all2 (region_ok new) (affected_regions 0 loc) (map (\<lambda>x. hunk_insert (snd x)) loc)"
proof -
  have ok: "\<forall>x \<in> set loc. loc_ok (length original) x"
    using locate_all_ok [OF assms(1,2)] by (simp add: loc_def original_def)
  have "0 \<le> fst x" if "x \<in> set loc" for x using ok that by (auto simp: loc_ok_def)
  then have wf: "wf_edits 0 (length original) (map edit_of loc)"
    using not_overlapping_wf [of loc "length original" 0] assms(3) ok
    by (auto simp: loc_def [symmetric])
  then show "wf_edits 0 (length lines) (map edit_of loc)" by (simp add: original_def)
  show "splice_all loc original = Some new"
    using splice_all_spec [OF wf ok] by (simp add: new_def)
  have "int (inserted loc) = (\<Sum>h\<leftarrow>patch_hunks p. int (length (hunk_insert h)))"
    using inserted_locate_all [OF assms(1)] by (simp add: loc_def inserted_sort)
  with assms(2) have "int (inserted loc) + int (length original) < 2 ^ 62"
    by (simp add: sizes_ok_def original_def)
  then show "list_all2 (region_ok new) (affected_regions 0 loc) (map (\<lambda>x. hunk_insert (snd x)) loc)"
    using affected_regions_ok [OF wf ok, of "[]"] by (simp add: new_def)
qed

lemma ApplyLines_InrE:
  assumes "ApplyLines lines p mode = Inr (content, res)"
  obtains loc0 raw where "locate_all mode lines (patch_hunks p) = Inr loc0"
    and "\<not> overlapping (sort_key fst loc0)"
    and "splice_all (sort_key fst loc0) (map line_text lines) = Some raw"
    and "raw \<noteq> map line_text lines" and "content = file_content raw" and "res_lines res = hashes raw mode"
    and "res_affected res = affected_regions 0 (sort_key fst loc0)"
  using assms by (auto simp: ApplyLines_def Let_def split: sum.splits if_splits option.splits)

text \<open>
  Claim C1. Applying a patch does what the top-down specification of the patch says: when
  \<open>ApplyLines\<close> succeeds, the hunks resolved to ordered, disjoint ranges inside the file, the new
  content is the file with exactly those ranges replaced, the returned lines are the new
  file's lines with fresh anchors, and every affected region covers exactly its hunk's inserted
  lines in the new file's coordinates.
\<close>

theorem apply_lines_refines_spec:
  assumes "ApplyLines lines p mode = Inr (content, res)" and "sizes_ok lines p"
  shows "\<exists>loc new. (\<exists>loc0. locate_all mode lines (patch_hunks p) = Inr loc0 \<and> loc = sort_key fst loc0)
    \<and> wf_edits 0 (length lines) (map edit_of loc)
    \<and> new = patch_spec 0 (map edit_of loc) (map line_text lines)
    \<and> content = file_content new \<and> res_lines res = hashes new mode
    \<and> list_all2 (region_ok new) (res_affected res) (map (\<lambda>x. hunk_insert (snd x)) loc)"
proof -
  from assms(1) obtain loc0 raw where loc0: "locate_all mode lines (patch_hunks p) = Inr loc0"
    and no: "\<not> overlapping (sort_key fst loc0)"
    and sp: "splice_all (sort_key fst loc0) (map line_text lines) = Some raw"
    and rest: "content = file_content raw" "res_lines res = hashes raw mode"
      "res_affected res = affected_regions 0 (sort_key fst loc0)"
    by (rule ApplyLines_InrE)
  note r = resolved_patch [OF loc0 assms(2) no]
  from r(2) sp have "raw = patch_spec 0 (map edit_of (sort_key fst loc0)) (map line_text lines)" by simp
  with r(1,3) rest loc0 show ?thesis by metis
qed

text \<open>A three-line file and a patch of two hunks, given out of file order.\<close>

definition demo_lines :: "line list" where
  "demo_lines = hashes [''a'', ''b'', ''c''] AnchorText"

definition demo_hunk :: "string \<Rightarrow> int \<Rightarrow> string list \<Rightarrow> hunk" where
  "demo_hunk a del ins = \<lparr>hunk_anchor = a, hunk_line = 0, hunk_offset = 0, hunk_delete = del, hunk_insert = ins\<rparr>"

definition demo_patch :: "hunk list \<Rightarrow> patch" where
  "demo_patch hs = \<lparr>patch_path = ''f'', patch_hunks = hs\<rparr>"

definition demo_hunks :: "hunk list" where
  "demo_hunks = [demo_hunk ''c'' 1 [''x'', ''y''], demo_hunk ''a'' 1 []]"

lemma demo_apply:
  "ApplyLines demo_lines (demo_patch demo_hunks) AnchorText =
     Inr (''b'' @ [CHR 0x0A] @ ''x'' @ [CHR 0x0A] @ ''y'' @ [CHR 0x0A],
          \<lparr>res_lines = hashes [''b'', ''x'', ''y''] AnchorText,
           res_affected = [\<lparr>reg_start = 0, reg_end = 0\<rparr>, \<lparr>reg_start = 1, reg_end = 3\<rparr>]\<rparr>)"
  by code_simp

lemma demo_sizes: "sizes_ok demo_lines (demo_patch demo_hunks)"
  by code_simp

theorem apply_lines_refines_spec_witness:
  "\<exists>loc new. (\<exists>loc0. locate_all AnchorText demo_lines (patch_hunks (demo_patch demo_hunks)) = Inr loc0
        \<and> loc = sort_key fst loc0)
    \<and> wf_edits 0 (length demo_lines) (map edit_of loc)
    \<and> new = patch_spec 0 (map edit_of loc) (map line_text demo_lines)
    \<and> ''b'' @ [CHR 0x0A] @ ''x'' @ [CHR 0x0A] @ ''y'' @ [CHR 0x0A] = file_content new
    \<and> hashes [''b'', ''x'', ''y''] AnchorText = hashes new AnchorText
    \<and> list_all2 (region_ok new) [\<lparr>reg_start = 0, reg_end = 0\<rparr>, \<lparr>reg_start = 1, reg_end = 3\<rparr>]
        (map (\<lambda>x. hunk_insert (snd x)) loc)"
  using apply_lines_refines_spec [OF demo_apply demo_sizes] by simp

text \<open>
  Claim C27. While the sizes stay far from the 64-bit limit, no slice expression of \<open>ApplyLines\<close>
  is out of range: it returns a result or one of its declared errors, never a panic.
\<close>

theorem apply_lines_no_panic:
  assumes "sizes_ok lines p"
  shows "ApplyLines lines p mode \<noteq> Inl Panic"
proof
  assume *: "ApplyLines lines p mode = Inl Panic"
  have no_err: "locate_all mode lines hs \<noteq> Inl Panic" for hs
    by (induction hs)
       (auto simp: locate_def settle_occurrences_def ambiguous_def Let_def
             split: sum.splits if_splits option.splits)
  from * obtain loc0 where loc0: "locate_all mode lines (patch_hunks p) = Inr loc0"
    and no: "\<not> overlapping (sort_key fst loc0)"
    and none: "splice_all (sort_key fst loc0) (map line_text lines) = None"
    using no_err [of "patch_hunks p"]
    by (auto simp: ApplyLines_def Let_def split: sum.splits if_splits option.splits)
  from resolved_patch(2) [OF loc0 assms no] none show False by simp
qed

theorem apply_lines_no_panic_witness:
  "sizes_ok demo_lines (demo_patch demo_hunks)
   \<and> ApplyLines demo_lines (demo_patch demo_hunks) AnchorText \<noteq> Inl Panic"
  using demo_sizes apply_lines_no_panic [OF demo_sizes] by blast

text \<open>
  The size condition is needed: a delete count near the top of the 64-bit range wraps in the
  bounds check \<^verbatim>\<open>target+h.Delete <= len(raw)\<close>, is accepted, and the splice then slices with a
  negative index.
\<close>

lemma apply_lines_overflow_panics:
  "ApplyLines demo_lines (demo_patch [demo_hunk ''b'' (2 ^ 63 - 1) []]) AnchorText = Inl Panic"
  by code_simp

section \<open>Deleting hunks never guess\<close>

text \<open>
  Claim C28. A hunk that deletes lines is only resolved to a line that carries its anchor, and
  only when that line is the anchor's single match, or the line the hunk's line hint names, or
  the single match within the tolerance around the hint.
\<close>

theorem delete_never_guesses:
  assumes "locate mode lines h = Inr at" and "hunk_delete h > 0"
  shows "\<exists>i < length lines. anchor_matches mode (lines ! i) (hunk_anchor h)
    \<and> at = add64 (int i) (hunk_offset h)
    \<and> ((\<forall>j < length lines. anchor_matches mode (lines ! j) (hunk_anchor h) \<longrightarrow> j = i)
       \<or> int i = hunk_line h - 1
       \<or> \<bar>int i - (hunk_line h - 1)\<bar> \<le> lineTolerance
         \<and> (\<forall>j < length lines. anchor_matches mode (lines ! j) (hunk_anchor h) \<and> j \<noteq> i
              \<longrightarrow> lineTolerance < \<bar>int j - (hunk_line h - 1)\<bar>))"
proof -
  let ?occ = "find_occurrences mode lines h"
  let ?is = "filter (\<lambda>i. anchor_matches mode (lines ! i) (hunk_anchor h)) [0..<length lines]"
  from assms(1) obtain occs idx where ne: "?occ \<noteq> []"
    and st: "settle_occurrences mode lines h ?occ = Inr occs" and idx: "idx \<in> set occs"
    and at: "at = add64 idx (hunk_offset h)" and mem: "idx \<in> set ?occ"
    by (rule locate_InrE)
  have occ: "?occ = map int ?is" using assms(2) by (simp add: find_occurrences_def)
  with mem obtain i where i: "i < length lines" "anchor_matches mode (lines ! i) (hunk_anchor h)" "idx = int i"
    by auto
  have all: "int j \<in> set ?occ" if "j < length lines" "anchor_matches mode (lines ! j) (hunk_anchor h)" for j
    using that occ by auto
  from settle_delete [OF st ne _ assms(2) idx] find_occurrences_nonneg
  consider "?occ = [idx]" | "idx = hunk_line h - 1"
    | "\<bar>idx - (hunk_line h - 1)\<bar> \<le> lineTolerance"
      "\<forall>o' \<in> set ?occ. o' \<noteq> idx \<longrightarrow> lineTolerance < \<bar>o' - (hunk_line h - 1)\<bar>"
    by blast
  then show ?thesis
  proof cases
    case 1
    then have "\<forall>j < length lines. anchor_matches mode (lines ! j) (hunk_anchor h) \<longrightarrow> j = i"
      using all i(3) by fastforce
    with i at show ?thesis by blast
  next
    case 2
    with i at show ?thesis by blast
  next
    case 3
    then have "\<forall>j < length lines. anchor_matches mode (lines ! j) (hunk_anchor h) \<and> j \<noteq> i
              \<longrightarrow> lineTolerance < \<bar>int j - (hunk_line h - 1)\<bar>"
      using all i(3) by fastforce
    with 3(1) i at show ?thesis by blast
  qed
qed

lemma demo_locate: "locate AnchorText demo_lines (demo_hunk ''c'' 1 [''x'', ''y'']) = Inr 2"
  by code_simp

theorem delete_never_guesses_witness:
  "\<exists>i < length demo_lines. anchor_matches AnchorText (demo_lines ! i) ''c''
    \<and> 2 = add64 (int i) 0
    \<and> ((\<forall>j < length demo_lines. anchor_matches AnchorText (demo_lines ! j) ''c'' \<longrightarrow> j = i)
       \<or> int i = 0 - 1
       \<or> \<bar>int i - (0 - 1)\<bar> \<le> lineTolerance
         \<and> (\<forall>j < length demo_lines. anchor_matches AnchorText (demo_lines ! j) ''c'' \<and> j \<noteq> i
              \<longrightarrow> lineTolerance < \<bar>int j - (0 - 1)\<bar>))"
  using delete_never_guesses [OF demo_locate] by (simp add: demo_hunk_def)

text \<open>
  The comment on \<^verbatim>\<open>pickOccurrence\<close> says that a delete must match its line hint exactly; the
  code also accepts the single match within the tolerance.
\<close>

lemma pick_delete_near_hint: "pickOccurrence [10, 200] 15 True = Some 10"
  by code_simp

section \<open>Writing and reading back\<close>

definition clean_line :: "string \<Rightarrow> bool" where
  "clean_line s \<longleftrightarrow> CHR 0x0A \<notin> set s \<and> (s \<noteq> [] \<longrightarrow> last s \<noteq> CHR 0x0D) \<and> int (length s) < maxTokenSize"

lemma split_join_snoc:
  "xs \<noteq> [] \<Longrightarrow> \<forall>x \<in> set xs. c \<notin> set x \<Longrightarrow> split_byte c (join_str [c] xs @ [c]) = xs @ [[]]"
  by (induction "[c]" xs rule: join_str.induct) (auto simp: split_byte_append)

lemma raw_lines_file_content:
  "xs \<noteq> [] \<Longrightarrow> \<forall>x \<in> set xs. CHR 0x0A \<notin> set x \<Longrightarrow> raw_lines (file_content xs) = xs"
  by (simp add: raw_lines_def file_content_def split_join_snoc Let_def)

lemma Parse_file_content:
  assumes "xs \<noteq> []" and "\<forall>x \<in> set xs. clean_line x"
  shows "Parse (file_content xs) mode = Inr (hashes xs mode)"
proof -
  have "raw_lines (file_content xs) = xs" using assms by (simp add: raw_lines_file_content clean_line_def)
  moreover have "map drop_cr xs = xs"
    using assms(2) by (intro map_idI) (auto simp: drop_cr_def clean_line_def)
  ultimately show ?thesis
    using assms(2) by (auto simp: Parse_def list_ex_iff clean_line_def not_le)
qed

lemma text_of_hashes [simp]: "map line_text (hashes raw mode) = raw"
  by (rule nth_equalityI) (auto simp: hashes_def)

lemma length_hashes [simp]: "length (hashes raw mode) = length raw"
  by (simp add: hashes_def)



text \<open>
  Deleting every line is the exception: the result reports no lines, but the file written is a
  single newline, which reads back as one empty line.
\<close>

lemma delete_all_leaves_blank_line:
  "ApplyLines demo_lines (demo_patch [demo_hunk ''a'' 3 []]) AnchorText
     = Inr ([CHR 0x0A], \<lparr>res_lines = [], res_affected = [\<lparr>reg_start = 0, reg_end = 0\<rparr>]\<rparr>)"
  "Parse [CHR 0x0A] AnchorText = Inr [\<lparr>line_number = 1, line_hash = [], line_text = []\<rparr>]"
  by code_simp+

section \<open>The order of hunks\<close>

lemma sort_key_distinct_eq:
  assumes "mset xs = mset ys" and "distinct (map f xs)"
  shows "sort_key f xs = sort_key f ys"
proof (rule properties_for_sort_key [symmetric])
  have d: "distinct (map f (sort_key f xs))"
    using assms(2) by (simp add: distinct_map)
  have e: "distinct (map f ys)" "set ys = set xs"
    using assms by (metis distinct_map mset_eq_imp_distinct_iff set_mset_mset, metis assms(1) set_mset_mset)
  have single: "distinct (map f zs) \<Longrightarrow> k \<in> set zs \<Longrightarrow> filter (\<lambda>x. f k = f x) zs = [k]" for k zs
    by (induction zs) (auto simp: filter_empty_conv, metis imageI)
  fix k assume "k \<in> set (sort_key f xs)"
  then have "k \<in> set xs" by simp
  with single [OF d] single [OF e(1)] e(2) show "filter (\<lambda>x. f k = f x) (sort_key f xs) = filter (\<lambda>x. f k = f x) ys"
    by simp
qed (simp_all add: assms(1))

text \<open>
  When the hunks of a patch resolve to distinct places, their order in the patch
  carries no meaning: any reordering of the patch gives the same outcome.
\<close>

theorem hunk_order_irrelevant:
  assumes "locate_all mode lines (patch_hunks p) = Inr loc" and "distinct (map fst loc)"
    and "mset (patch_hunks q) = mset (patch_hunks p)"
  shows "ApplyLines lines q mode = ApplyLines lines p mode"
proof -
  from locate_all_InrD [OF assms(1)] have hs: "patch_hunks p = map snd loc"
    and each: "\<forall>x \<in> set loc. locate mode lines (snd x) = Inr (fst x)" by auto
  let ?at = "\<lambda>h. (projr (locate mode lines h), h)"
  have "map ?at (patch_hunks p) = loc"
    unfolding hs using each by (simp add: map_idI)
  then have m: "mset (map ?at (patch_hunks q)) = mset loc"
    using assms(3) by (metis mset_map)
  have "\<forall>x \<in> set (map ?at (patch_hunks q)). locate mode lines (snd x) = Inr (fst x)"
    using each m by (metis set_mset_mset)
  from locate_all_InrI [OF this] have "locate_all mode lines (patch_hunks q) = Inr (map ?at (patch_hunks q))"
    by (simp add: comp_def)
  moreover have "sort_key fst (map ?at (patch_hunks q)) = sort_key fst loc"
    by (rule sort_key_distinct_eq [OF m [symmetric] assms(2), symmetric])
  ultimately show ?thesis using assms(1) by (simp add: ApplyLines_def)
qed

theorem hunk_order_irrelevant_witness:
  "ApplyLines demo_lines (demo_patch (rev demo_hunks)) AnchorText
     = ApplyLines demo_lines (demo_patch demo_hunks) AnchorText"
proof -
  have loc: "locate_all AnchorText demo_lines (patch_hunks (demo_patch demo_hunks))
      = Inr [(2, demo_hunk ''c'' 1 [''x'', ''y'']), (0, demo_hunk ''a'' 1 [])]"
    by code_simp
  have "distinct (map fst [(2::int, demo_hunk ''c'' 1 [''x'', ''y'']), (0, demo_hunk ''a'' 1 [])])" by simp
  moreover have "mset (patch_hunks (demo_patch (rev demo_hunks))) = mset (patch_hunks (demo_patch demo_hunks))"
    by (simp add: demo_patch_def)
  ultimately show ?thesis by (rule hunk_order_irrelevant [OF loc])
qed

text \<open>
  For hunks that resolve to the same place the order does matter: a delete listed before an
  insert at the same line is refused as overlapping, the reverse order is applied.
\<close>

lemma same_place_order_matters:
  "ApplyLines demo_lines (demo_patch [demo_hunk ''a'' 1 [], demo_hunk ''a'' 0 [''x'']]) AnchorText
     = Inl OverlapError"
  "ApplyLines demo_lines (demo_patch [demo_hunk ''a'' 0 [''x''], demo_hunk ''a'' 1 []]) AnchorText
     \<noteq> Inl OverlapError"
  by code_simp+

end
