(* ===== verification/Line_Align.thy ===== *)
theory Line_Align
  imports Go_Prelude
begin

text \<open>
  Line alignment by common prefix, common suffix and a longest-common-subsequence table, as
  \<^verbatim>\<open>retainedLine\<close> and \<^verbatim>\<open>changedSpan\<close> of \<^verbatim>\<open>internal/tools\<close> and \<^verbatim>\<open>diffScript\<close> of
  \<^verbatim>\<open>internal/core/unified_diff.go\<close> do it. The table is filled row by row from the end, the way
  the Go loops fill it; \<open>lcs_len\<close> is the plain recursion it is compared with.
\<close>

section \<open>The table\<close>

fun lcs_row :: "string \<Rightarrow> string list \<Rightarrow> nat list \<Rightarrow> nat list" where
  "lcs_row x [] below = [0]"
| "lcs_row x (y # ys) below =
     (let row = lcs_row x ys (tl below)
      in (if x = y then hd (tl below) + 1 else max (hd below) (hd row)) # row)"

fun lcs_table :: "string list \<Rightarrow> string list \<Rightarrow> nat list list" where
  "lcs_table [] a = [replicate (length a + 1) 0]"
| "lcs_table (x # xs) a = (let t = lcs_table xs a in lcs_row x a (hd t) # t)"

fun lcs_len :: "string list \<Rightarrow> string list \<Rightarrow> nat" where
  "lcs_len [] ys = 0"
| "lcs_len xs [] = 0"
| "lcs_len (x # xs) (y # ys) =
     (if x = y then lcs_len xs ys + 1 else max (lcs_len xs (y # ys)) (lcs_len (x # xs) ys))"

lemma lcs_len_Nil2 [simp]: "lcs_len xs [] = 0"
  by (cases xs) auto

definition lcs_suffixes :: "string list \<Rightarrow> string list \<Rightarrow> nat list" where
  "lcs_suffixes xs ys = map (\<lambda>j. lcs_len xs (drop j ys)) [0..<Suc (length ys)]"

lemma lcs_suffixes_Cons: "lcs_suffixes xs (y # ys) = lcs_len xs (y # ys) # lcs_suffixes xs ys"
  by (simp add: lcs_suffixes_def upt_conv_Cons map_Suc_upt [symmetric] comp_def del: upt_Suc)

lemma lcs_row_eq: "lcs_row x ys (lcs_suffixes xs ys) = lcs_suffixes (x # xs) ys"
proof (induction ys)
  case (Cons y ys)
  have hd: "hd (lcs_suffixes zs ys) = lcs_len zs ys" for zs
    by (simp add: lcs_suffixes_def upt_conv_Cons del: upt_Suc)
  show ?case by (simp add: lcs_suffixes_Cons Cons.IH hd Let_def)
qed (simp add: lcs_suffixes_def)

lemma lcs_table_eq: "lcs_table xs ys = map (\<lambda>i. lcs_suffixes (drop i xs) ys) [0..<Suc (length xs)]"
proof (induction xs)
  case Nil
  have "lcs_suffixes [] ys = replicate (Suc (length ys)) 0"
    by (simp only: lcs_suffixes_def lcs_len.simps(1) map_replicate_const length_upt) simp
  then show ?case by simp
next
  case (Cons x xs)
  have "lcs_table (x # xs) ys = lcs_suffixes (x # xs) ys # lcs_table xs ys"
    by (simp add: Cons.IH Let_def upt_conv_Cons lcs_row_eq del: upt_Suc)
  then show ?case
    by (simp add: Cons.IH upt_conv_Cons [of 0 "Suc (Suc (length xs))"] map_Suc_upt [symmetric] comp_def del: upt_Suc)
qed

lemma lcs_table_nth:
  "i \<le> length xs \<Longrightarrow> j \<le> length ys \<Longrightarrow> lcs_table xs ys ! i ! j = lcs_len (drop i xs) (drop j ys)"
  by (simp add: lcs_table_eq lcs_suffixes_def nth_append del: upt_Suc)

section \<open>Longest common subsequences\<close>

lemma lcs_len_upper: "subseq zs xs \<Longrightarrow> subseq zs ys \<Longrightarrow> length zs \<le> lcs_len xs ys"
proof (induction xs ys arbitrary: zs rule: lcs_len.induct)
  case (3 x xs y ys)
  show ?case
  proof (cases zs)
    case (Cons z zs')
    show ?thesis
    proof (cases "x = y")
      case True
      have "subseq zs' xs" "subseq zs' ys"
        using "3.prems" Cons by (auto dest: subseq_Cons' split: if_splits)
      with 3(1) [of zs'] True Cons show ?thesis by simp
    next
      case False
      then have "subseq zs xs \<or> subseq zs ys"
        using "3.prems" Cons by (auto simp: subseq_Cons2_iff split: if_splits)
      with 3(2,3) [of zs] "3.prems" False show ?thesis by auto
    qed
  qed simp
qed auto

lemma lcs_len_attained: "\<exists>zs. subseq zs xs \<and> subseq zs ys \<and> length zs = lcs_len xs ys"
proof (induction xs ys rule: lcs_len.induct)
  case (3 x xs y ys)
  show ?case
  proof (cases "x = y")
    case True
    with 3(1) obtain zs where "subseq zs xs" "subseq zs ys" "length zs = lcs_len xs ys" by blast
    with True show ?thesis by (intro exI [of _ "x # zs"]) auto
  next
    case False
    with 3(2,3) obtain us vs where
      "subseq us xs" "subseq us (y # ys)" "length us = lcs_len xs (y # ys)"
      "subseq vs (x # xs)" "subseq vs ys" "length vs = lcs_len (x # xs) ys" by blast
    with False show ?thesis by (intro exI [of _ "if length us \<ge> length vs then us else vs"]) auto
  qed
qed auto

lemma subseq_snoc_cut: "subseq (zs @ [d]) (us @ [c]) \<Longrightarrow> subseq zs us"
proof (induction us arbitrary: zs)
  case Nil
  then show ?case using list_emb_length [of "(=)" "zs @ [d]" "[c]"] by auto
next
  case (Cons u us)
  show ?case
  proof (cases zs)
    case (Cons z zs')
    with Cons.prems Cons.IH [of zs'] Cons.IH [of zs] show ?thesis by (auto split: if_splits)
  qed simp
qed

lemma lcs_len_snoc: "lcs_len (xs @ [c]) (ys @ [c]) = lcs_len xs ys + 1"
proof (rule antisym)
  obtain zs where zs: "subseq zs (xs @ [c])" "subseq zs (ys @ [c])" "length zs = lcs_len (xs @ [c]) (ys @ [c])"
    using lcs_len_attained by blast
  have cut: "subseq (butlast zs) us" if "subseq zs (us @ [c])" for us
  proof (cases zs rule: rev_cases)
    case (snoc z d)
    with that show ?thesis by (auto dest: subseq_snoc_cut)
  qed simp
  show "lcs_len (xs @ [c]) (ys @ [c]) \<le> lcs_len xs ys + 1"
    using lcs_len_upper [OF cut cut, OF zs(1,2)] zs(3) by simp
next
  obtain zs where "subseq zs xs" "subseq zs ys" "length zs = lcs_len xs ys" using lcs_len_attained by blast
  then show "lcs_len xs ys + 1 \<le> lcs_len (xs @ [c]) (ys @ [c])"
    using lcs_len_upper [of "zs @ [c]" "xs @ [c]" "ys @ [c]"] by simp
qed

lemma lcs_len_prefix: "lcs_len (ps @ xs) (ps @ ys) = length ps + lcs_len xs ys"
  by (induction ps) auto

lemma lcs_len_suffix: "lcs_len (xs @ ss) (ys @ ss) = lcs_len xs ys + length ss"
proof (induction ss rule: rev_induct)
  case (snoc s ss)
  then show ?case using lcs_len_snoc [of "xs @ ss" s "ys @ ss"] by simp
qed simp

lemma lcs_len_le: "lcs_len xs ys \<le> length xs" "lcs_len xs ys \<le> length ys"
  using lcs_len_attained [of xs ys] list_emb_length by metis+

section \<open>Common prefix and suffix, and the retained lines\<close>

fun common_prefix :: "string list \<Rightarrow> string list \<Rightarrow> nat" where
  "common_prefix (x # xs) (y # ys) = (if x = y then Suc (common_prefix xs ys) else 0)"
| "common_prefix _ _ = 0"

text \<open>The suffix loop stops before it would run into the common prefix of either side.\<close>

definition common_suffix :: "nat \<Rightarrow> string list \<Rightarrow> string list \<Rightarrow> nat" where
  "common_suffix p before after = common_prefix (rev (drop p before)) (rev (drop p after))"

definition changedSpan :: "string list \<Rightarrow> string list \<Rightarrow> nat \<times> nat" where
  "changedSpan before after =
     (let p = common_prefix before after; s = common_suffix p before after
      in (p, length after - s))"

definition maxAlignCells :: int where
  "maxAlignCells = 4000000"

function align_walk ::
  "nat list list \<Rightarrow> string list \<Rightarrow> string list \<Rightarrow> nat \<Rightarrow> nat \<Rightarrow> nat \<Rightarrow> nat option" where
  "align_walk lcs b a old i j =
     (if i < length b \<and> j < length a
      then if b ! i = a ! j \<and> lcs ! i ! j = lcs ! (i + 1) ! (j + 1) + 1
           then if i = old then Some j else align_walk lcs b a old (i + 1) (j + 1)
           else if lcs ! (i + 1) ! j \<ge> lcs ! i ! (j + 1)
           then if i = old then None else align_walk lcs b a old (i + 1) j
           else align_walk lcs b a old i (j + 1)
      else None)"
  by pat_completeness auto
termination
  by (relation "measure (\<lambda>(_, b, a, _, i, j). (length b - i) + (length a - j))") auto

declare align_walk.simps [simp del]

definition retainedLine :: "string list \<Rightarrow> string list \<Rightarrow> int \<Rightarrow> nat option" where
  "retainedLine before after old =
     (if old < 0 \<or> old \<ge> int (length before) then None
      else let prefix = common_prefix before after in
        if nat old < prefix then Some (nat old)
        else let suffix = common_suffix prefix before after in
          if nat old \<ge> length before - suffix then Some (nat old + length after - length before)
          else let b = drop prefix (take (length before - suffix) before);
                   a = drop prefix (take (length after - suffix) after)
            in if int (length b) * int (length a) > maxAlignCells then None
               else map_option (\<lambda>j. prefix + j)
                      (align_walk (lcs_table b a) b a (nat old - prefix) 0 0))"

lemma common_prefix_take:
  "take (common_prefix xs ys) xs = take (common_prefix xs ys) ys"
  "common_prefix xs ys \<le> length xs" "common_prefix xs ys \<le> length ys"
  by (induction xs ys rule: common_prefix.induct) auto

lemma common_prefix_nth: "i < common_prefix xs ys \<Longrightarrow> xs ! i = ys ! i"
  by (metis common_prefix_take(1) nth_take)

lemma common_prefix_stops:
  "common_prefix xs ys < length xs \<Longrightarrow> common_prefix xs ys < length ys
    \<Longrightarrow> xs ! common_prefix xs ys \<noteq> ys ! common_prefix xs ys"
  by (induction xs ys rule: common_prefix.induct) auto

text \<open>Both sides split as common prefix, a middle and common suffix.\<close>

lemma split_middle:
  assumes "p = common_prefix before after" and "s = common_suffix p before after"
  obtains P S B A where "before = P @ B @ S" and "after = P @ A @ S" and "length P = p" and "length S = s"
    and "drop p (take (length before - s) before) = B" and "drop p (take (length after - s) after) = A"
proof -
  let ?b = "drop p before" and ?a = "drop p after"
  let ?P = "take p before"
  let ?S = "drop (length ?b - s) ?b"
  have cs: "take s (rev ?b) = take s (rev ?a)" "s \<le> length ?b" "s \<le> length ?a"
    using common_prefix_take [of "rev ?b" "rev ?a"] by (simp_all add: assms(2) common_suffix_def)
  from cs(1) have "rev (take s (rev ?b)) = rev (take s (rev ?a))" by (rule arg_cong)
  then have S: "?S = drop (length ?a - s) ?a" by (simp add: rev_take)
  have P: "?P = take p after" "p \<le> length before" "p \<le> length after"
    using common_prefix_take [of before after] by (simp_all add: assms(1))
  show thesis
  proof (rule that [of ?P "take (length ?b - s) ?b" ?S "take (length ?a - s) ?a"])
    show "after = ?P @ take (length ?a - s) ?a @ ?S" unfolding S P(1) by (simp only: append_take_drop_id)
    show "before = ?P @ take (length ?b - s) ?b @ ?S" by (simp only: append_take_drop_id)
  qed (use cs(2,3) P in \<open>auto simp: drop_take add.commute\<close>)
qed

lemma align_walk_sound:
  assumes "align_walk lcs b a old i j = Some k"
  shows "i \<le> old \<and> j \<le> k \<and> k < length a \<and> old < length b \<and> b ! old = a ! k"
  using assms
proof (induction lcs b a old i j rule: align_walk.induct)
  case (1 lcs b a old i j)
  show ?case using "1.prems" "1.IH"
    by (subst (asm) (1) align_walk.simps) (auto split: if_splits)
qed

lemma align_walk_mono:
  assumes "align_walk lcs b a o1 i j = Some k1" and "align_walk lcs b a o2 i j = Some k2" and "o1 < o2"
  shows "k1 < k2"
  using assms
proof (induction lcs b a o1 i j rule: align_walk.induct)
  case (1 lcs b a o1 i j)
  note step = "1.prems"(1,2) [unfolded align_walk.simps [of _ _ _ _ i j]]
  show ?case
  proof (cases "b ! i = a ! j \<and> lcs ! i ! j = lcs ! (i + 1) ! (j + 1) + 1 \<and> i = o1")
    case True
    then have "k1 = j" "align_walk lcs b a o2 (i + 1) (j + 1) = Some k2"
      using step "1.prems"(3) by (auto split: if_splits)
    then show ?thesis using align_walk_sound by fastforce
  next
    case False
    then show ?thesis using step "1.IH" "1.prems"(3)
      by (auto split: if_splits dest: align_walk_sound)
  qed
qed

text \<open>How many lines a walk over the whole table retains.\<close>

definition retained_by :: "nat list list \<Rightarrow> string list \<Rightarrow> string list \<Rightarrow> nat \<Rightarrow> nat \<Rightarrow> nat set" where
  "retained_by lcs b a i j = {old. align_walk lcs b a old i j \<noteq> None}"

lemma retained_by_above: "old \<in> retained_by lcs b a i j \<Longrightarrow> i \<le> old \<and> old < length b"
  unfolding retained_by_def using align_walk_sound by blast

lemma finite_retained_by: "finite (retained_by lcs b a i j)"
  by (rule finite_subset [of _ "{..<length b}"]) (auto dest: retained_by_above)

lemma drop_Cons_nth: "i < length xs \<Longrightarrow> drop i xs = xs ! i # drop (Suc i) xs"
  by (simp add: Cons_nth_drop_Suc)

lemma card_retained_by:
  "i \<le> length b \<Longrightarrow> j \<le> length a
    \<Longrightarrow> card (retained_by (lcs_table b a) b a i j) = lcs_len (drop i b) (drop j a)"
proof (induction "(length b - i) + (length a - j)" arbitrary: i j rule: less_induct)
  case less
  let ?L = "lcs_table b a"
  let ?R = "retained_by ?L b a"
  show ?case
  proof (cases "i < length b \<and> j < length a")
    case True
    then have L: "?L ! i ! j = lcs_len (drop i b) (drop j a)"
      "?L ! (i + 1) ! (j + 1) = lcs_len (drop (i + 1) b) (drop (j + 1) a)"
      "?L ! (i + 1) ! j = lcs_len (drop (i + 1) b) (drop j a)"
      "?L ! i ! (j + 1) = lcs_len (drop i b) (drop (j + 1) a)"
      by (simp_all add: lcs_table_nth)
    have d: "drop i b = b ! i # drop (i + 1) b" "drop j a = a ! j # drop (j + 1) a"
      using True by (simp_all add: drop_Cons_nth)
    have IH: "card (?R (i + 1) (j + 1)) = lcs_len (drop (i + 1) b) (drop (j + 1) a)"
      "card (?R (i + 1) j) = lcs_len (drop (i + 1) b) (drop j a)"
      "card (?R i (j + 1)) = lcs_len (drop i b) (drop (j + 1) a)"
      by (rule less.hyps; use True in linarith)+
    consider "b ! i = a ! j" | "b ! i \<noteq> a ! j" "?L ! (i + 1) ! j \<ge> ?L ! i ! (j + 1)"
      | "b ! i \<noteq> a ! j" "\<not> ?L ! (i + 1) ! j \<ge> ?L ! i ! (j + 1)" by blast
    then show ?thesis
    proof cases
      case 1
      then have "?R i j = insert i (?R (i + 1) (j + 1))"
        using True L d by (auto simp: retained_by_def align_walk.simps [of _ _ _ _ i j])
      moreover have "i \<notin> ?R (i + 1) (j + 1)" using retained_by_above by fastforce
      ultimately show ?thesis
        using IH(1) 1 by (simp add: finite_retained_by d)
    next
      case 2
      then have "?R i j = ?R (i + 1) j"
        using True retained_by_above [of i ?L b a "i + 1" j]
        by (auto simp: retained_by_def align_walk.simps [of _ _ _ _ i j])
      with IH(2) 2 L show ?thesis by (simp add: d)
    next
      case 3
      then have "?R i j = ?R i (j + 1)"
        using True by (auto simp: retained_by_def align_walk.simps [of _ _ _ _ i j])
      with IH(3) 3 L show ?thesis by (simp add: d)
    qed
  next
    case False
    then have "?R i j = {}" by (auto simp: retained_by_def align_walk.simps [of _ _ _ _ i j])
    with False less.prems show ?thesis by auto
  qed
qed

definition retained_at :: "string list \<Rightarrow> string list \<Rightarrow> string list \<Rightarrow> nat \<Rightarrow> nat \<Rightarrow> nat option" where
  "retained_at P B A n i =
     (if i < length P then Some i
      else if i < length P + length B
      then if int (length B) * int (length A) > maxAlignCells then None
           else map_option (\<lambda>j. length P + j) (align_walk (lcs_table B A) B A (i - length P) 0 0)
      else if i < n then Some (i - length B + length A) else None)"

lemma retained_split:
  obtains P S B A where "before = P @ B @ S" and "after = P @ A @ S"
    and "retainedLine before after \<circ> int = retained_at P B A (length before)"
proof -
  let ?p = "common_prefix before after"
  let ?s = "common_suffix ?p before after"
  obtain P S B A where split: "before = P @ B @ S" "after = P @ A @ S"
    and len: "length P = ?p" "length S = ?s"
    and mid: "drop ?p (take (length before - ?s) before) = B" "drop ?p (take (length after - ?s) after) = A"
    by (rule split_middle [OF refl refl])
  have n: "length before = ?p + length B + ?s" "length after = ?p + length A + ?s"
    using arg_cong [OF split(1), of length] arg_cong [OF split(2), of length] len by simp_all
  show thesis
  proof (rule that [OF split], rule ext)
    fix i
    show "(retainedLine before after \<circ> int) i = retained_at P B A (length before) i"
      unfolding o_apply retainedLine_def retained_at_def Let_def mid len by (simp add: n)
  qed
qed

lemma retainedLine_sound:
  assumes "retainedLine before after (int i) = Some k"
  shows "i < length before \<and> k < length after \<and> after ! k = before ! i"
proof -
  obtain P S B A where split: "before = P @ B @ S" "after = P @ A @ S"
    and "retainedLine before after \<circ> int = retained_at P B A (length before)"
    by (rule retained_split [of before after])
  then have r: "retainedLine before after (int i) = retained_at P B A (length before) i" for i
    by (simp add: fun_eq_iff)
  show ?thesis
    using assms unfolding r retained_at_def
    by (auto simp: split nth_append add.commute split: if_splits dest!: align_walk_sound)
qed

lemma retainedLine_mono:
  assumes "retainedLine before after (int i1) = Some k1" and "retainedLine before after (int i2) = Some k2"
    and "i1 < i2"
  shows "k1 < k2"
proof -
  obtain P S B A where split: "before = P @ B @ S" "after = P @ A @ S"
    and "retainedLine before after \<circ> int = retained_at P B A (length before)"
    by (rule retained_split [of before after])
  then have r: "retainedLine before after (int i) = retained_at P B A (length before) i" for i
    by (simp add: fun_eq_iff)
  have walk: "k < length A" if "align_walk (lcs_table B A) B A old 0 0 = Some k" for old k
    using align_walk_sound [OF that] by simp
  have mono: "a < b" if "align_walk (lcs_table B A) B A (i1 - length P) 0 0 = Some a"
    "align_walk (lcs_table B A) B A (i2 - length P) 0 0 = Some b" "length P \<le> i1" for a b
    using align_walk_mono [OF that(1,2)] assms(3) that(3) by (simp add: diff_less_mono)
  show ?thesis
    using assms mono unfolding r retained_at_def by (auto split: if_splits dest: walk)
qed

lemma card_retainedLine:
  assumes "int (length before) * int (length after) \<le> maxAlignCells"
  shows "card {i. retainedLine before after (int i) \<noteq> None} = lcs_len before after"
proof -
  obtain P S B A where split: "before = P @ B @ S" "after = P @ A @ S"
    and "retainedLine before after \<circ> int = retained_at P B A (length before)"
    by (rule retained_split [of before after])
  then have r: "retainedLine before after (int i) = retained_at P B A (length before) i" for i
    by (simp add: fun_eq_iff)
  let ?p = "length P" and ?R = "retained_by (lcs_table B A) B A 0 0"
  have "int (length B) * int (length A) \<le> int (length before) * int (length after)" by (intro mult_mono) (simp_all add: split)
  with assms have small: "\<not> int (length B) * int (length A) > maxAlignCells" by simp
  let ?mid = "(\<lambda>j. ?p + j) ` ?R" and ?fin = "{?p + length B..<length before}"
  have mid: "i \<in> ?mid \<longleftrightarrow> ?p \<le> i \<and> i - ?p \<in> ?R" for i
    by (auto simp: image_iff intro!: bexI [of _ "i - ?p"])
  have "{i. retainedLine before after (int i) \<noteq> None} = {..<?p} \<union> ?mid \<union> ?fin"
  proof (rule set_eqI)
    fix i
    show "i \<in> {i. retainedLine before after (int i) \<noteq> None} \<longleftrightarrow> i \<in> {..<?p} \<union> ?mid \<union> ?fin"
      using retained_by_above [of "i - ?p" "lcs_table B A" B A 0 0]
      unfolding mem_Collect_eq r retained_at_def Un_iff mid
      by (cases "align_walk (lcs_table B A) B A (i - ?p) 0 0") (auto simp: small retained_by_def)
  qed
  moreover have "card ({..<?p} \<union> ?mid \<union> ?fin) = ?p + card ?R + length S"
  proof -
    have "{..<?p} \<inter> ?mid = {}" "({..<?p} \<union> ?mid) \<inter> ?fin = {}" by (auto dest: retained_by_above)
    then have "card ({..<?p} \<union> ?mid \<union> ?fin) = card {..<?p} + card ?mid + card ?fin"
      by (simp only: card_Un_disjoint finite_Un finite_imageI finite_retained_by finite_lessThan finite_atLeastLessThan)
    then show ?thesis by (simp add: card_image split)
  qed
  ultimately show ?thesis
    using card_retained_by [of 0 B 0 A] by (simp add: split lcs_len_prefix lcs_len_suffix)
qed

section \<open>What the alignment promises\<close>

text \<open>
  When \<open>retainedLine\<close> maps a line of an earlier version into the current file, the target
  exists and has the same text, and two mapped lines keep their order. As long as the table bound
  is not exceeded the mapping is a longest one: as many lines are mapped as the longest common
  subsequence of the two versions has.
\<close>

theorem retained_line_alignment:
  shows "(\<forall>i k. retainedLine before after (int i) = Some k
            \<longrightarrow> i < length before \<and> k < length after \<and> after ! k = before ! i)
    \<and> (\<forall>i1 i2 k1 k2. retainedLine before after (int i1) = Some k1 \<longrightarrow> retainedLine before after (int i2) = Some k2
            \<longrightarrow> i1 < i2 \<longrightarrow> k1 < k2)
    \<and> (int (length before) * int (length after) \<le> maxAlignCells
         \<longrightarrow> card {i. retainedLine before after (int i) \<noteq> None} = lcs_len before after)
    \<and> (\<forall>zs. subseq zs before \<longrightarrow> subseq zs after \<longrightarrow> length zs \<le> lcs_len before after)"
  using retainedLine_sound [of before after] retainedLine_mono [of before after] card_retainedLine [of before after]
    lcs_len_upper [of _ before after] by blast

theorem retained_line_alignment_witness:
  "card {i. retainedLine [''a'', ''x'', ''b'', ''c'', ''d''] [''a'', ''b'', ''y'', ''c'', ''d''] (int i) \<noteq> None} = 4
   \<and> retainedLine [''a'', ''x'', ''b'', ''c'', ''d''] [''a'', ''b'', ''y'', ''c'', ''d''] 2 = Some 1"
proof -
  have "lcs_len [''a'', ''x'', ''b'', ''c'', ''d''] [''a'', ''b'', ''y'', ''c'', ''d''] = 4"
    and "retainedLine [''a'', ''x'', ''b'', ''c'', ''d''] [''a'', ''b'', ''y'', ''c'', ''d''] 2 = Some 1"
    by code_simp+
  with retained_line_alignment [of "[''a'', ''x'', ''b'', ''c'', ''d'']" "[''a'', ''b'', ''y'', ''c'', ''d'']"]
  show ?thesis by (simp add: maxAlignCells_def)
qed

text \<open>
  \<open>changedSpan\<close> returns a range of the new lines outside of which the two versions agree
  line by line from the start and from the end; the range starts within bounds, the agreeing
  parts do not overlap, and the first line of a non-empty change differs.
\<close>

theorem changed_span_exact:
  shows "case changedSpan before after of (lo, hi) \<Rightarrow>
     lo \<le> hi \<and> hi \<le> length after \<and> lo + (length after - hi) \<le> length before
     \<and> take lo before = take lo after
     \<and> drop (length before - (length after - hi)) before = drop hi after
     \<and> (lo < length before \<and> lo < length after \<longrightarrow> before ! lo \<noteq> after ! lo)"
proof -
  let ?p = "common_prefix before after"
  let ?s = "common_suffix ?p before after"
  obtain P S B A where split: "before = P @ B @ S" "after = P @ A @ S"
    and len: "length P = ?p" "length S = ?s"
    by (rule split_middle [OF refl refl, of before after])
  have n: "length before = ?p + length B + ?s" "length after = ?p + length A + ?s"
    using arg_cong [OF split(1), of length] arg_cong [OF split(2), of length] len by simp_all
  have "drop (?p + length B) before = S" "drop (?p + length A) after = S"
    using len by (simp_all add: split(1) split(2))
  then have "drop (length before - (length after - (length after - ?s))) before = drop (length after - ?s) after"
    by (simp add: n)
  then show ?thesis
    using common_prefix_take(1) [of before after] common_prefix_stops [of before after] n
    by (simp add: changedSpan_def Let_def)
qed

theorem changed_span_exact_witness:
  "changedSpan [''a'', ''b'', ''d''] [''a'', ''c'', ''c'', ''d''] = (1, 3)
   \<and> drop (3 - (4 - 3)) [''a'', ''b'', ''d''] = drop 3 [''a'', ''c'', ''c'', ''d'']"
proof -
  have "changedSpan [''a'', ''b'', ''d''] [''a'', ''c'', ''c'', ''d''] = (1, 3)" by code_simp
  with changed_span_exact [of "[''a'', ''b'', ''d'']" "[''a'', ''c'', ''c'', ''d'']"] show ?thesis by simp
qed

end
