(* ===== verification/Go_Path.thy ===== *)
theory Go_Path
  imports Go_Prelude
begin

text \<open>
  The path functions of Go's standard library that the repository calls: \<^verbatim>\<open>fs.ValidPath\<close> (with
  \<^verbatim>\<open>utf8.ValidString\<close>) for workspace paths, and \<^verbatim>\<open>filepath.Clean\<close>, \<^verbatim>\<open>Join\<close>, \<^verbatim>\<open>Base\<close>,
  \<^verbatim>\<open>Dir\<close>, \<^verbatim>\<open>IsAbs\<close> and \<^verbatim>\<open>Rel\<close> on Unix for the exec guard.
\<close>

abbreviation slash :: char where
  "slash \<equiv> CHR ''/''"

section \<open>utf8.ValidString\<close>

definition utf8_cont :: "int \<Rightarrow> bool" where
  "utf8_cont b \<longleftrightarrow> 0x80 \<le> b \<and> b \<le> 0xBF"

definition utf8_second :: "int \<Rightarrow> int \<Rightarrow> bool" where
  "utf8_second a b \<longleftrightarrow>
     (if a = 0xE0 then 0xA0 \<le> b \<and> b \<le> 0xBF else if a = 0xED then 0x80 \<le> b \<and> b \<le> 0x9F
      else if a = 0xF0 then 0x90 \<le> b \<and> b \<le> 0xBF else if a = 0xF4 then 0x80 \<le> b \<and> b \<le> 0x8F
      else utf8_cont b)"

fun utf8_bytes :: "int list \<Rightarrow> bool" where
  "utf8_bytes [] = True"
| "utf8_bytes (a # r) =
     (if a < 0x80 then utf8_bytes r
      else if a < 0xC2 then False
      else if a < 0xE0 then (case r of b # r' \<Rightarrow> utf8_cont b \<and> utf8_bytes r' | _ \<Rightarrow> False)
      else if a < 0xF0
        then (case r of b # c # r' \<Rightarrow> utf8_second a b \<and> utf8_cont c \<and> utf8_bytes r' | _ \<Rightarrow> False)
      else if a < 0xF5
        then (case r of b # c # d # r' \<Rightarrow>
                utf8_second a b \<and> utf8_cont c \<and> utf8_cont d \<and> utf8_bytes r' | _ \<Rightarrow> False)
      else False)"

definition ValidString :: "string \<Rightarrow> bool" where
  "ValidString s = utf8_bytes (map of_char s)"

lemma utf8_bytes_append: "utf8_bytes xs \<Longrightarrow> utf8_bytes (xs @ ys) = utf8_bytes ys"
  by (induction xs rule: utf8_bytes.induct) (auto split: if_splits list.splits)

lemma ValidString_append: "ValidString s \<Longrightarrow> ValidString (s @ t) = ValidString t"
  by (simp add: ValidString_def utf8_bytes_append)

section \<open>fs.ValidPath\<close>

definition valid_elem :: "string \<Rightarrow> bool" where
  "valid_elem e \<longleftrightarrow> e \<noteq> [] \<and> e \<noteq> ''.'' \<and> e \<noteq> ''..''"

definition ValidPath :: "string \<Rightarrow> bool" where
  "ValidPath name \<longleftrightarrow>
     ValidString name \<and> (name = ''.'' \<or> list_all valid_elem (split_byte slash name))"

lemma split_byte_join: "split_byte c (a @ c # b) = split_byte c a @ split_byte c b"
  by (induction a) (auto split: list.splits)

lemma ValidPath_rebase:
  assumes "ValidPath (old @ slash # rest)" and "ValidPath old" and "ValidPath new" and "new \<noteq> ''.''"
  shows "ValidPath (new @ slash # rest)"
proof -
  have "ValidString (slash # rest)" using assms(1,2) by (auto simp: ValidPath_def ValidString_append)
  moreover have "old @ slash # rest \<noteq> ''.''" by (auto simp: append_eq_Cons_conv)
  ultimately show ?thesis
    using assms by (auto simp: ValidPath_def ValidString_append split_byte_join)
qed

section \<open>Package filepath on Unix\<close>

definition IsAbs :: "string \<Rightarrow> bool" where
  "IsAbs p = prefix [slash] p"

fun clean_step :: "bool \<Rightarrow> string \<Rightarrow> string list \<Rightarrow> string list" where
  "clean_step rooted el stack =
     (if el = [] \<or> el = ''.'' then stack
      else if el = ''..''
        then (case stack of
                [] \<Rightarrow> if rooted then [] else [''..'']
              | x # xs \<Rightarrow> if x = ''..'' then ''..'' # stack else xs)
      else el # stack)"

definition clean_elems :: "string \<Rightarrow> string list" where
  "clean_elems p = rev (fold (clean_step (IsAbs p)) (split_byte slash p) [])"

definition Clean :: "string \<Rightarrow> string" where
  "Clean p =
     (let body = join_str [slash] (clean_elems p) in
      if IsAbs p then slash # body else if body = [] then ''.'' else body)"

text \<open>\<^verbatim>\<open>filepath.Join\<close> of two elements: empty elements are ignored.\<close>

definition Join2 :: "string \<Rightarrow> string \<Rightarrow> string" where
  "Join2 a b = (if a \<noteq> [] then Clean (a @ [slash] @ b) else if b \<noteq> [] then Clean b else [])"

definition Base :: "string \<Rightarrow> string" where
  "Base p =
     (if p = [] then ''.''
      else let q = rev (dropWhile (\<lambda>c. c = slash) (rev p)) in
        if q = [] then [slash] else last (split_byte slash q))"

definition Dir :: "string \<Rightarrow> string" where
  "Dir p = Clean (rev (dropWhile (\<lambda>c. c \<noteq> slash) (rev p)))"

fun rel_loop :: "string list \<Rightarrow> string list \<Rightarrow> string list option" where
  "rel_loop (b # bs) (t # ts) =
     (if b = t then rel_loop bs ts
      else if b = ''..'' then None
      else Some (map (\<lambda>_. ''..'') (b # bs) @ t # ts))"
| "rel_loop bs ts = Some (map (\<lambda>_. ''..'') bs @ ts)"

definition Rel :: "string \<Rightarrow> string \<Rightarrow> string option" where
  "Rel basepath targpath =
     (if Clean basepath = Clean targpath then Some ''.''
      else if IsAbs basepath \<noteq> IsAbs targpath then None
      else map_option (join_str [slash]) (rel_loop (clean_elems basepath) (clean_elems targpath)))"

end
