(* ===== verification/Memory_FS.thy ===== *)
theory Memory_FS
  imports Go_Path "HOL-Library.AList" "HOL-Library.Word"
begin

text \<open>
  \<^verbatim>\<open>workspace/memory.go\<close> and the parts of \<^verbatim>\<open>workspace/workspace.go\<close> it builds on: the
  in-memory workspace filesystem, its marks, and the isolated copies handed to workers with
  their three-way merge. A Go map is an association list with distinct keys; what a map
  iteration produces is order-independent here, or sorted by the code. Every method holds the
  mutex for its whole body, so a method is one atomic step on the state, and an interleaving of
  callers is a sequence of steps. The wall clock is the argument \<open>now\<close>.
\<close>

unbundle bit_operations_syntax

section \<open>Data\<close>

type_synonym file_mode = "32 word"

definition ModeDir :: file_mode where "ModeDir = 0x80000000"
definition ModePerm :: file_mode where "ModePerm = 0x1FF"

definition IsDir :: "file_mode \<Rightarrow> bool" where
  "IsDir mode \<longleftrightarrow> mode AND ModeDir \<noteq> 0"

record mem_entry =
  me_data :: string
  me_mode :: file_mode
  me_modTime :: int

type_synonym tree = "(string \<times> mem_entry) list"

record memory =
  mem_files :: tree
  mem_marks :: "(string \<times> tree) list"
  mem_markSeq :: int

datatype fs_err = ErrInvalid | ErrNotExist | ErrExist

datatype path_error = PathError (pe_op: string) (pe_path: string) (pe_err: fs_err)

record mem_info =
  mi_name :: string
  mi_entry :: mem_entry

record merge_result =
  mr_changed :: "string list"
  mr_merged :: bool
  mr_conflicting :: "string list"
  mr_kept :: string

record file_change =
  fc_path :: string
  fc_before :: "string option"
  fc_after :: "string option"

definition NewMemory :: memory where
  "NewMemory = \<lparr>mem_files = [(''.'', \<lparr>me_data = [], me_mode = ModeDir OR 0x1ED, me_modTime = 0\<rparr>)],
                mem_marks = [], mem_markSeq = 0\<rparr>"

section \<open>Operations\<close>

definition lookup :: "memory \<Rightarrow> string \<Rightarrow> string \<Rightarrow> path_error + mem_entry" where
  "lookup m op name =
     (if \<not> ValidPath name then Inl (PathError op name ErrInvalid)
      else case map_of (mem_files m) name of
        None \<Rightarrow> Inl (PathError op name ErrNotExist)
      | Some e \<Rightarrow> Inr e)"

definition ReadFile :: "memory \<Rightarrow> string \<Rightarrow> path_error + string" where
  "ReadFile m name =
     (case lookup m ''read'' name of
        Inl err \<Rightarrow> Inl err
      | Inr e \<Rightarrow> if IsDir (me_mode e) then Inl (PathError ''read'' name ErrInvalid) else Inr (me_data e))"

definition Stat :: "memory \<Rightarrow> string \<Rightarrow> path_error + mem_info" where
  "Stat m name =
     (case lookup m ''stat'' name of
        Inl err \<Rightarrow> Inl err
      | Inr e \<Rightarrow> Inr \<lparr>mi_name = Base name, mi_entry = e\<rparr>)"

definition parentOf :: "string \<Rightarrow> string" where
  "parentOf p =
     (if slash \<in> set p then rev (tl (dropWhile (\<lambda>c. c \<noteq> slash) (rev p))) else ''.'')"

definition ReadDir :: "memory \<Rightarrow> string \<Rightarrow> path_error + mem_info list" where
  "ReadDir m name =
     (case lookup m ''readdir'' name of
        Inl err \<Rightarrow> Inl err
      | Inr e \<Rightarrow>
          if \<not> IsDir (me_mode e) then Inl (PathError ''readdir'' name ErrInvalid)
          else Inr (sort_key mi_name
            (map (\<lambda>(p, child). \<lparr>mi_name = Base p, mi_entry = child\<rparr>)
              (filter (\<lambda>(p, _). p \<noteq> ''.'' \<and> parentOf p = name) (mem_files m)))))"

definition requireDir :: "memory \<Rightarrow> string \<Rightarrow> string \<Rightarrow> path_error option" where
  "requireDir m op name =
     (case lookup m op name of
        Inl err \<Rightarrow> Some err
      | Inr e \<Rightarrow> if IsDir (me_mode e) then None else Some (PathError op name ErrInvalid))"

definition WriteFile ::
  "int \<Rightarrow> memory \<Rightarrow> string \<Rightarrow> string \<Rightarrow> file_mode \<Rightarrow> memory \<times> path_error option" where
  "WriteFile now m name data perm =
     (if \<not> ValidPath name \<or> name = ''.'' then (m, Some (PathError ''write'' name ErrInvalid))
      else case requireDir m ''write'' (parentOf name) of
        Some err \<Rightarrow> (m, Some err)
      | None \<Rightarrow>
          (case map_of (mem_files m) name of
             Some e \<Rightarrow>
               if IsDir (me_mode e) then (m, Some (PathError ''write'' name ErrInvalid))
               else (m\<lparr>mem_files := AList.update name
                 \<lparr>me_data = data, me_mode = me_mode e AND ModePerm, me_modTime = now\<rparr> (mem_files m)\<rparr>, None)
           | None \<Rightarrow>
               (m\<lparr>mem_files := AList.update name
                 \<lparr>me_data = data, me_mode = perm AND ModePerm, me_modTime = now\<rparr> (mem_files m)\<rparr>, None)))"

text \<open>The paths \<^verbatim>\<open>strings.Join(parts[:i+1], "/")\<close> of \<open>MkdirAll\<close>, shortest first.\<close>

definition ancestors :: "string \<Rightarrow> string list" where
  "ancestors name =
     (let parts = split_byte slash name in
      map (\<lambda>i. join_str [slash] (take (i + 1) parts)) [0..<length parts])"

fun mkdirs :: "int \<Rightarrow> file_mode \<Rightarrow> string list \<Rightarrow> tree \<Rightarrow> tree \<times> path_error option" where
  "mkdirs now perm [] t = (t, None)"
| "mkdirs now perm (p # ps) t =
     (case map_of t p of
        Some e \<Rightarrow>
          if \<not> IsDir (me_mode e) then (t, Some (PathError ''mkdir'' p ErrInvalid))
          else mkdirs now perm ps t
      | None \<Rightarrow>
          mkdirs now perm ps
            (AList.update p \<lparr>me_data = [], me_mode = ModeDir OR (perm AND ModePerm), me_modTime = now\<rparr> t))"

definition MkdirAll :: "int \<Rightarrow> memory \<Rightarrow> string \<Rightarrow> file_mode \<Rightarrow> memory \<times> path_error option" where
  "MkdirAll now m name perm =
     (if \<not> ValidPath name then (m, Some (PathError ''mkdir'' name ErrInvalid))
      else if name = ''.'' then (m, None)
      else case mkdirs now perm (ancestors name) (mem_files m) of
        (t, err) \<Rightarrow> (m\<lparr>mem_files := t\<rparr>, err))"

definition Remove :: "memory \<Rightarrow> string \<Rightarrow> memory \<times> path_error option" where
  "Remove m name =
     (case lookup m ''remove'' name of
        Inl err \<Rightarrow> (m, Some err)
      | Inr e \<Rightarrow>
          if name = ''.'' then (m, Some (PathError ''remove'' name ErrInvalid))
          else if IsDir (me_mode e)
                  \<and> list_ex (\<lambda>(p, _). parentOf p = name \<and> p \<noteq> ''.'') (mem_files m)
          then (m, Some (PathError ''remove'' name ErrExist))
          else (m\<lparr>mem_files := AList.delete name (mem_files m)\<rparr>, None))"

definition under :: "string \<Rightarrow> string \<Rightarrow> bool" where
  "under d p = HasPrefix p (d @ [slash])"

definition RemoveAll :: "memory \<Rightarrow> string \<Rightarrow> memory \<times> path_error option" where
  "RemoveAll m name =
     (if \<not> ValidPath name \<or> name = ''.'' then (m, Some (PathError ''removeall'' name ErrInvalid))
      else (m\<lparr>mem_files := filter (\<lambda>(p, _). \<not> (p = name \<or> under name p)) (mem_files m)\<rparr>, None))"

definition Rename :: "memory \<Rightarrow> string \<Rightarrow> string \<Rightarrow> memory \<times> path_error option" where
  "Rename m oldname newname =
     (case lookup m ''rename'' oldname of
        Inl err \<Rightarrow> (m, Some err)
      | Inr _ \<Rightarrow>
          if \<not> ValidPath newname \<or> oldname = ''.'' \<or> newname = ''.'' \<or> under oldname newname
          then (m, Some (PathError ''rename'' newname ErrInvalid))
          else case requireDir m ''rename'' (parentOf newname) of
            Some err \<Rightarrow> (m, Some err)
          | None \<Rightarrow>
              (let moving = (\<lambda>(p, _). p = oldname \<or> under oldname p);
                   moved = map (\<lambda>(p, e). (newname @ drop (length oldname) p, e)) (filter moving (mem_files m));
                   rest = filter (\<lambda>x. \<not> moving x) (mem_files m)
               in (m\<lparr>mem_files := fold (\<lambda>(p, e). AList.update p e) moved rest\<rparr>, None)))"

definition snapshot :: "memory \<Rightarrow> tree" where
  "snapshot m = mem_files m"

definition entry_differs :: "mem_entry \<Rightarrow> mem_entry \<Rightarrow> bool" where
  "entry_differs x y \<longleftrightarrow> me_mode x \<noteq> me_mode y \<or> me_data x \<noteq> me_data y"

definition changedPaths :: "tree \<Rightarrow> tree \<Rightarrow> string list" where
  "changedPaths a b =
     sort (map fst (filter (\<lambda>(p, x). case map_of b p of None \<Rightarrow> True | Some y \<Rightarrow> entry_differs x y) a)
           @ map fst (filter (\<lambda>(p, _). map_of a p = None) b))"

definition overlap :: "string \<Rightarrow> string \<Rightarrow> bool" where
  "overlap p q \<longleftrightarrow> p = q \<or> under p q \<or> under q p"

definition Conflicts :: "string list \<Rightarrow> string list \<Rightarrow> string list" where
  "Conflicts changed other = filter (\<lambda>p. list_ex (overlap p) other) changed"

definition Isolate :: "memory \<Rightarrow> tree \<times> memory" where
  "Isolate m =
     (let base = snapshot m in
      (base, \<lparr>mem_files = base, mem_marks = [], mem_markSeq = 0\<rparr>))"

definition apply_changes :: "tree \<Rightarrow> string list \<Rightarrow> tree \<Rightarrow> tree" where
  "apply_changes worker changed t =
     fold (\<lambda>p t. case map_of worker p of Some e \<Rightarrow> AList.update p e t | None \<Rightarrow> AList.delete p t) changed t"

definition finish :: "tree \<Rightarrow> memory \<Rightarrow> string \<Rightarrow> bool \<Rightarrow> memory \<Rightarrow> memory \<times> merge_result" where
  "finish base child jobID merge m =
     (let worker = snapshot child;
          res = \<lparr>mr_changed = changedPaths base worker, mr_merged = False, mr_conflicting = [], mr_kept = []\<rparr>
      in if \<not> merge then (m, res)
         else let conflicting = Conflicts (mr_changed res) (changedPaths base (snapshot m)) in
           if conflicting \<noteq> []
           then (m, res\<lparr>mr_conflicting := conflicting, mr_kept := ''memory:'' @ jobID\<rparr>)
           else (m\<lparr>mem_files := apply_changes worker (mr_changed res) (mem_files m)\<rparr>,
                 res\<lparr>mr_merged := True\<rparr>))"

definition Mark :: "memory \<Rightarrow> memory \<times> string" where
  "Mark m =
     (let seq = mem_markSeq m + 1; id = itoa_nat (nat seq)
      in (m\<lparr>mem_markSeq := seq, mem_marks := AList.update id (snapshot m) (mem_marks m)\<rparr>, id))"

definition ChangedSince :: "memory \<Rightarrow> string \<Rightarrow> file_change list option" where
  "ChangedSince m mark =
     (case map_of (mem_marks m) mark of
        None \<Rightarrow> None
      | Some base \<Rightarrow>
          (let now = snapshot m;
               dir = (\<lambda>t p. case map_of t p of Some e \<Rightarrow> IsDir (me_mode e) | None \<Rightarrow> False)
           in Some (map (\<lambda>p. \<lparr>fc_path = p, fc_before = map_option me_data (map_of base p),
                               fc_after = map_option me_data (map_of now p)\<rparr>)
                (filter (\<lambda>p. \<not> (dir base p \<or> dir now p)) (changedPaths base now)))))"

definition Release :: "memory \<Rightarrow> string \<Rightarrow> memory" where
  "Release m mark = m\<lparr>mem_marks := AList.delete mark (mem_marks m)\<rparr>"

end
