(* ===== verification/Tool_Paths.thy ===== *)
theory Tool_Paths
  imports Go_Path
begin

text \<open>
  How the file tools map a path the model supplies to a file: \<^verbatim>\<open>safe\<close>, \<^verbatim>\<open>target\<close> and
  \<^verbatim>\<open>resolve\<close> of \<^verbatim>\<open>internal/tools/tools.go\<close>. The registry's workspace root is an absolute
  clean directory or empty for a virtual workspace; the scratch directory may be unset. The main
  result is the workspace boundary: whatever the path, the resolved file lies below the root or
  below the scratch directory.
\<close>

section \<open>The model\<close>

record registry =
  reg_root :: string
  reg_scratch :: string

record target =
  tgt_scratch :: bool
  tgt_name :: string
  tgt_key :: string
  tgt_base :: string

datatype resolve_error = InvalidPath | EscapesWorkspace

definition escapes :: "string option \<Rightarrow> bool" where
  "escapes rel \<longleftrightarrow> (case rel of None \<Rightarrow> True | Some r \<Rightarrow> r = ''..'' \<or> HasPrefix r ''../'')"

definition safe :: "registry \<Rightarrow> string \<Rightarrow> resolve_error + string" where
  "safe r path =
     (if CHR 0x00 \<in> set path then Inl InvalidPath
      else let p = Clean (if IsAbs path then path else Join2 (reg_root r) path) in
        if escapes (Rel (reg_root r) p)
        then if reg_scratch r \<noteq> [] \<and> \<not> escapes (Rel (reg_scratch r) p) then Inr p else Inl EscapesWorkspace
        else Inr p)"

definition child :: "target \<Rightarrow> string \<Rightarrow> target" where
  "child t name =
     t\<lparr>tgt_name := name,
       tgt_key := (if tgt_base t \<noteq> [] then Join2 (tgt_base t) name else name)\<rparr>"

definition resolve :: "registry \<Rightarrow> string \<Rightarrow> resolve_error + target" where
  "resolve r p =
     (if reg_root r = []
      then if CHR 0x00 \<in> set p then Inl InvalidPath
           else let name = Clean (TrimPrefix p [slash]) in
             if \<not> ValidPath name then Inl EscapesWorkspace
             else Inr \<lparr>tgt_scratch = False, tgt_name = name, tgt_key = name, tgt_base = []\<rparr>
      else case safe r p of
        Inl e \<Rightarrow> Inl e
      | Inr apath \<Rightarrow>
          (let outside = escapes (Rel (reg_root r) apath);
               base = (if outside then reg_scratch r else reg_root r)
           in Inr \<lparr>tgt_scratch = outside,
                   tgt_name = (case Rel base apath of Some rel \<Rightarrow> rel | None \<Rightarrow> []),
                   tgt_key = apath, tgt_base = base\<rparr>))"

section \<open>Clean paths\<close>

definition plain_elem :: "string \<Rightarrow> bool" where
  "plain_elem e \<longleftrightarrow> e \<noteq> [] \<and> e \<noteq> ''.'' \<and> e \<noteq> ''..'' \<and> slash \<notin> set e"

lemma clean_steps_plain:
  "\<forall>e \<in> set es. slash \<notin> set e \<Longrightarrow> \<forall>e \<in> set stack. plain_elem e
    \<Longrightarrow> \<forall>e \<in> set (fold (clean_step True) es stack). plain_elem e"
proof (induction es arbitrary: stack)
  case (Cons x es)
  have "\<forall>e \<in> set (clean_step True x stack). plain_elem e"
    using Cons.prems by (auto simp: plain_elem_def split: list.splits)
  with Cons show ?case by simp
qed simp

lemma clean_elems_plain: "IsAbs p \<Longrightarrow> e \<in> set (clean_elems p) \<Longrightarrow> plain_elem e"
  using clean_steps_plain [of "split_byte slash p" "[]"] split_byte_parts
  by (auto simp: clean_elems_def)

lemma fold_clean_plain: "\<forall>e \<in> set es. plain_elem e \<Longrightarrow> fold (clean_step True) es stack = rev es @ stack"
  by (induction es arbitrary: stack) (auto simp: plain_elem_def)

lemma clean_elems_join:
  assumes "\<forall>e \<in> set es. plain_elem e"
  shows "clean_elems (slash # join_str [slash] es) = es"
proof (cases "es = []")
  case False
  then have "split_byte slash (join_str [slash] es) = es"
    using assms by (intro split_join) (auto simp: plain_elem_def)
  then show ?thesis using assms by (simp add: clean_elems_def IsAbs_def fold_clean_plain)
qed (simp add: clean_elems_def IsAbs_def)

lemma Clean_abs: "IsAbs p \<Longrightarrow> Clean p = slash # join_str [slash] (clean_elems p)"
  by (simp add: Clean_def Let_def)

lemma IsAbs_Clean [simp]: "IsAbs p \<Longrightarrow> IsAbs (Clean p)"
  by (simp add: Clean_abs) (simp add: IsAbs_def)

lemma clean_elems_Clean [simp]: "IsAbs p \<Longrightarrow> clean_elems (Clean p) = clean_elems p"
  using clean_elems_plain by (simp add: Clean_abs clean_elems_join)

lemmas rel_loop_induct = rel_loop.induct [case_names both no_base no_target]

lemma rel_loop_stays:
  assumes "rel_loop bs ts = Some r" and "\<forall>e \<in> set bs. plain_elem e"
    and "join_str [slash] r \<noteq> ''..''" and "\<not> prefix ''../'' (join_str [slash] r)"
  shows "prefix bs ts \<and> r = drop (length bs) ts"
  using assms
proof (induction bs ts rule: rel_loop_induct)
  case (both b bs t ts)
  have up: "join_str [slash] (''..'' # x # xs) = ''../'' @ join_str [slash] (x # xs)" for x xs by simp
  show ?case
  proof (cases "b = t")
    case False
    with both.prems(1,2) obtain x xs where "r = ''..'' # x # xs"
      by (cases "map (\<lambda>_. ''..'') bs @ t # ts") (auto simp: plain_elem_def)
    with both.prems(4) up show ?thesis by (metis prefixI)
  qed (use both in auto)
next
  case (no_base ts)
  then show ?case by simp
next
  case (no_target bs)
  show ?case
  proof (cases bs)
    case (Cons b bs')
    with no_target have "r = ''..'' # map (\<lambda>_. ''..'') bs'" by simp
    with no_target(3,4) show ?thesis by (cases bs') auto
  qed (use no_target in simp)
qed

lemma not_escapes:
  assumes "\<not> escapes (Rel base p)" and "IsAbs base" and "IsAbs p"
  shows "prefix (clean_elems base) (clean_elems p)"
    and "Rel base p = Some (if clean_elems p = clean_elems base then ''.''
           else join_str [slash] (drop (length (clean_elems base)) (clean_elems p)))"
proof -
  have same: "Clean base = Clean p \<longleftrightarrow> clean_elems base = clean_elems p"
    using assms(2,3) by (metis Clean_abs clean_elems_Clean)
  have "prefix (clean_elems base) (clean_elems p) \<and> Rel base p = Some (if clean_elems p = clean_elems base then ''.''
           else join_str [slash] (drop (length (clean_elems base)) (clean_elems p)))"
  proof (cases "clean_elems base = clean_elems p")
    case True
    then show ?thesis using same by (simp add: Rel_def)
  next
    case False
    then have rel: "Rel base p = map_option (join_str [slash]) (rel_loop (clean_elems base) (clean_elems p))"
      using same assms(2,3) by (simp add: Rel_def)
    with assms(1) obtain r where "rel_loop (clean_elems base) (clean_elems p) = Some r"
      "join_str [slash] r \<noteq> ''..''" "\<not> prefix ''../'' (join_str [slash] r)"
      by (auto simp: escapes_def split: option.splits)
    with rel_loop_stays [of "clean_elems base" "clean_elems p" r] clean_elems_plain [OF assms(2)] rel False
    show ?thesis by auto
  qed
  then show "prefix (clean_elems base) (clean_elems p)"
    and "Rel base p = Some (if clean_elems p = clean_elems base then ''.''
           else join_str [slash] (drop (length (clean_elems base)) (clean_elems p)))" by blast+
qed

lemma Join2_abs: "IsAbs a \<Longrightarrow> IsAbs (Join2 a b)"
  by (auto simp: Join2_def IsAbs_def intro!: IsAbs_Clean [unfolded IsAbs_def])

section \<open>The workspace boundary\<close>

text \<open>
  Claim C21. Whatever path the model supplies, a resolved target stays inside. In a virtual workspace
  its name is a valid workspace path. On disk its key is a clean absolute path whose components
  extend those of the directory the target is rooted at, which is the workspace root or, when one
  is set, the scratch directory, and the name is the path from that directory to the file.
\<close>

theorem resolve_stays_inside:
  assumes "resolve r p = Inr t" and "reg_root r = [] \<or> IsAbs (reg_root r)"
    and "reg_scratch r = [] \<or> IsAbs (reg_scratch r)"
  shows "if reg_root r = [] then ValidPath (tgt_name t) \<and> tgt_key t = tgt_name t
    else tgt_base t = (if tgt_scratch t then reg_scratch r else reg_root r) \<and> tgt_base t \<noteq> []
       \<and> Clean (tgt_key t) = tgt_key t
       \<and> prefix (clean_elems (tgt_base t)) (clean_elems (tgt_key t))
       \<and> (tgt_key t = Clean (tgt_base t) \<and> tgt_name t = ''.''
          \<or> tgt_name t = join_str [slash] (drop (length (clean_elems (tgt_base t))) (clean_elems (tgt_key t))))"
proof (cases "reg_root r = []")
  case True
  then show ?thesis using assms(1) by (auto simp: resolve_def Let_def split: if_splits)
next
  case False
  with assms(2) have root: "IsAbs (reg_root r)" by simp
  from False assms(1) obtain apath where apath: "safe r p = Inr apath" and t: "tgt_key t = apath"
    "tgt_scratch t = escapes (Rel (reg_root r) apath)"
    "tgt_base t = (if tgt_scratch t then reg_scratch r else reg_root r)"
    "tgt_name t = (case Rel (tgt_base t) apath of Some rel \<Rightarrow> rel | None \<Rightarrow> [])"
    by (auto simp: resolve_def Let_def split: sum.splits)
  from apath obtain q where q: "apath = Clean q" "IsAbs q"
    using root Join2_abs by (auto simp: safe_def Let_def split: if_splits)
  have in_base: "\<not> escapes (Rel (tgt_base t) apath)" "tgt_base t \<noteq> []"
    using apath t False by (auto simp: safe_def Let_def split: if_splits)
  then have base: "IsAbs (tgt_base t)" using t(3) root assms(3) by (auto split: if_splits)
  have ab: "IsAbs apath" "Clean apath = apath"
    using q by (simp_all add: Clean_abs [of "Clean q"] Clean_abs [of q, symmetric])
  have same: "apath = Clean (tgt_base t)" if "clean_elems apath = clean_elems (tgt_base t)"
    using Clean_abs [OF ab(1)] Clean_abs [OF base] ab(2) that by simp
  show ?thesis
    using False t(1,3,4) in_base(2) not_escapes [OF in_base(1) base ab(1)] ab(2) same
    by (cases "clean_elems apath = clean_elems (tgt_base t)") simp_all
qed

definition demo_registry :: registry where
  "demo_registry = \<lparr>reg_root = ''/work'', reg_scratch = ''/tmp/s''\<rparr>"

theorem resolve_stays_inside_witness:
  "resolve demo_registry ''a/../../work/./b'' = Inr \<lparr>tgt_scratch = False, tgt_name = ''b'', tgt_key = ''/work/b'', tgt_base = ''/work''\<rparr>
   \<and> prefix (clean_elems ''/work'') (clean_elems ''/work/b'')
   \<and> resolve demo_registry ''/work/../etc/passwd'' = Inl EscapesWorkspace"
proof -
  have ok: "resolve demo_registry ''a/../../work/./b'' = Inr \<lparr>tgt_scratch = False, tgt_name = ''b'', tgt_key = ''/work/b'', tgt_base = ''/work''\<rparr>"
    and bad: "resolve demo_registry ''/work/../etc/passwd'' = Inl EscapesWorkspace"
    by code_simp+
  have "reg_root demo_registry = ''/work''" "reg_scratch demo_registry = ''/tmp/s''" "IsAbs ''/work''" "IsAbs ''/tmp/s''"
    by (simp_all add: demo_registry_def IsAbs_def)
  with resolve_stays_inside [OF ok] ok bad show ?thesis by simp
qed

end
