(* ===== verification/Go_Strings.thy ===== *)
theory Go_Strings
  imports Go_Prelude
begin

text \<open>
  More of package \<^verbatim>\<open>strings\<close>: searching, counting and replacing a non-empty substring (every
  caller rules the empty one out), trimming, and ASCII case mapping.
\<close>

definition line_feed :: char where
  "line_feed = CHR 0x0A"

section \<open>Searching and replacing\<close>

fun str_index :: "string \<Rightarrow> string \<Rightarrow> nat option" where
  "str_index [] sub = (if sub = [] then Some 0 else None)"
| "str_index (c # s) sub = (if prefix sub (c # s) then Some 0 else map_option Suc (str_index s sub))"

function str_count :: "string \<Rightarrow> string \<Rightarrow> nat" where
  "str_count s sub =
     (if s = [] \<or> sub = [] then 0
      else if prefix sub s then 1 + str_count (drop (length sub) s) sub
      else str_count (tl s) sub)"
  by pat_completeness auto
termination
  by (relation "measure (\<lambda>(s, _). length s)") auto

function ReplaceAll :: "string \<Rightarrow> string \<Rightarrow> string \<Rightarrow> string" where
  "ReplaceAll s old new =
     (if s = [] \<or> old = [] then s
      else if prefix old s then new @ ReplaceAll (drop (length old) s) old new
      else hd s # ReplaceAll (tl s) old new)"
  by pat_completeness auto
termination
  by (relation "measure (\<lambda>(s, _). length s)") auto

declare str_count.simps [simp del] ReplaceAll.simps [simp del]

lemma str_count_step:
  "old \<noteq> [] \<Longrightarrow> str_count [] old = 0"
  "old \<noteq> [] \<Longrightarrow> str_count (old @ s) old = Suc (str_count s old)"
  "old \<noteq> [] \<Longrightarrow> \<not> prefix old (c # s) \<Longrightarrow> str_count (c # s) old = str_count s old"
  by (simp_all add: str_count.simps [of "[]"] str_count.simps [of "old @ s"] str_count.simps [of "c # s"])

lemma ReplaceAll_step:
  "old \<noteq> [] \<Longrightarrow> ReplaceAll [] old new = []"
  "old \<noteq> [] \<Longrightarrow> ReplaceAll (old @ s) old new = new @ ReplaceAll s old new"
  "old \<noteq> [] \<Longrightarrow> \<not> prefix old (c # s) \<Longrightarrow> ReplaceAll (c # s) old new = c # ReplaceAll s old new"
  by (simp_all add: ReplaceAll.simps [of "[]"] ReplaceAll.simps [of "old @ s"] ReplaceAll.simps [of "c # s"])

text \<open>The non-overlapping occurrences found from the left, as the pieces between them.\<close>

function pieces :: "string \<Rightarrow> string \<Rightarrow> string list" where
  "pieces s old =
     (if s = [] \<or> old = [] then [s]
      else if prefix old s then [] # pieces (drop (length old) s) old
      else (case pieces (tl s) old of p # ps \<Rightarrow> (hd s # p) # ps | [] \<Rightarrow> [[hd s]]))"
  by pat_completeness auto
termination
  by (relation "measure (\<lambda>(s, _). length s)") auto

declare pieces.simps [simp del]

lemma pieces_spec:
  assumes "old \<noteq> []"
  shows "pieces s old \<noteq> [] \<and> join_str old (pieces s old) = s
    \<and> ReplaceAll s old new = join_str new (pieces s old) \<and> length (pieces s old) = Suc (str_count s old)"
proof (induction "length s" arbitrary: s rule: less_induct)
  case less
  have join_Cons: "ps \<noteq> [] \<Longrightarrow> join_str sep (p # ps) = p @ sep @ join_str sep ps" for sep p ps
    by (cases ps) auto
  have join_hd: "join_str sep ((c # p) # ps) = c # join_str sep (p # ps)" for sep c p ps
    by (cases ps) auto
  show ?case
  proof (cases "s = []")
    case True
    then show ?thesis using assms by (simp add: pieces.simps [of "[]"] ReplaceAll_step(1) str_count_step(1))
  next
    case False
    show ?thesis
    proof (cases "prefix old s")
      case True
      then obtain r where s: "s = old @ r" by (auto elim: prefixE)
      have IH: "pieces r old \<noteq> [] \<and> join_str old (pieces r old) = r
        \<and> ReplaceAll r old new = join_str new (pieces r old) \<and> length (pieces r old) = Suc (str_count r old)"
        using less [of r] assms s by simp
      have "pieces s old = [] # pieces r old" using assms s by (subst pieces.simps) simp
      with IH show ?thesis using assms by (simp add: s join_Cons ReplaceAll_step(2) str_count_step(2))
    next
      case no: False
      from False obtain c r where s: "s = c # r" by (cases s) auto
      have IH: "pieces r old \<noteq> [] \<and> join_str old (pieces r old) = r
        \<and> ReplaceAll r old new = join_str new (pieces r old) \<and> length (pieces r old) = Suc (str_count r old)"
        using less [of r] s by simp
      then obtain p ps where p: "pieces r old = p # ps" by (cases "pieces r old") auto
      then have "pieces s old = (c # p) # ps" using assms no s by (subst pieces.simps) simp
      with IH p show ?thesis using assms no by (simp add: s join_hd ReplaceAll_step(3) str_count_step(3))
    qed
  qed
qed

section \<open>Trimming\<close>

text \<open>
  \<^verbatim>\<open>strings.TrimSpace\<close>. White space is a rune of \<^verbatim>\<open>unicode.IsSpace\<close>; the ones beyond ASCII are
  given by their UTF-8 encodings, and a byte sequence is such a rune exactly when it equals one of
  them, from either end.
\<close>

definition space_runes :: "int list list" where
  "space_runes =
     [[9], [10], [11], [12], [13], [32], [0xC2, 0x85], [0xC2, 0xA0], [0xE1, 0x9A, 0x80]]
     @ map (\<lambda>i. [0xE2, 0x80, i]) [0x80, 0x81, 0x82, 0x83, 0x84, 0x85, 0x86, 0x87, 0x88, 0x89, 0x8A, 0xA8, 0xA9, 0xAF]
     @ [[0xE2, 0x81, 0x9F], [0xE3, 0x80, 0x80]]"

definition space_seqs :: "string list" where
  "space_seqs = map (map char_of) space_runes"

lemma space_seqs_ne: "q \<in> set space_seqs \<Longrightarrow> q \<noteq> []"
  by (auto simp: space_seqs_def space_runes_def)

function trim_left :: "string \<Rightarrow> string" where
  "trim_left s =
     (case List.find (\<lambda>q. prefix q s) space_seqs of Some q \<Rightarrow> trim_left (drop (length q) s) | None \<Rightarrow> s)"
  by pat_completeness auto
termination
proof (relation "measure length", simp)
  fix s q
  assume "List.find (\<lambda>q. prefix q s) space_seqs = Some q"
  then have "q \<in> set space_seqs" "prefix q s" by (auto simp: find_Some_iff)
  then show "(drop (length q) s, s) \<in> measure length" using space_seqs_ne [of q] by (auto elim: prefixE)
qed

function trim_right :: "string \<Rightarrow> string" where
  "trim_right s =
     (case List.find (\<lambda>q. suffix q s) space_seqs of Some q \<Rightarrow> trim_right (take (length s - length q) s) | None \<Rightarrow> s)"
  by pat_completeness auto
termination
proof (relation "measure length", simp)
  fix s q
  assume "List.find (\<lambda>q. suffix q s) space_seqs = Some q"
  then have "q \<in> set space_seqs" "suffix q s" by (auto simp: find_Some_iff)
  then show "(take (length s - length q) s, s) \<in> measure length"
    using space_seqs_ne [of q] by (auto elim: suffixE)
qed

declare trim_left.simps [simp del] trim_right.simps [simp del]

definition TrimSpace :: "string \<Rightarrow> string" where
  "TrimSpace s = trim_right (trim_left s)"

lemma trim_left_suffix: "suffix (trim_left s) s"
proof (induction s rule: trim_left.induct)
  case (1 s)
  show ?case
  proof (cases "List.find (\<lambda>q. prefix q s) space_seqs")
    case (Some q)
    with 1 have "suffix (trim_left (drop (length q) s)) (drop (length q) s)" by simp
    then show ?thesis using Some by (simp add: trim_left.simps [of s]) (meson suffix_drop suffix_order.trans)
  qed (simp add: trim_left.simps [of s])
qed

lemma trim_right_prefix: "prefix (trim_right s) s"
proof (induction s rule: trim_right.induct)
  case (1 s)
  show ?case
  proof (cases "List.find (\<lambda>q. suffix q s) space_seqs")
    case (Some q)
    with 1 have "prefix (trim_right (take (length s - length q) s)) (take (length s - length q) s)" by simp
    then show ?thesis using Some by (simp add: trim_right.simps [of s]) (meson take_is_prefix prefix_order.trans)
  qed (simp add: trim_right.simps [of s])
qed

lemma trim_left_done: "q \<in> set space_seqs \<Longrightarrow> \<not> prefix q (trim_left s)"
proof (induction s rule: trim_left.induct)
  case (1 s)
  show ?case
  proof (cases "List.find (\<lambda>q. prefix q s) space_seqs")
    case None
    then have "trim_left s = s" by (simp add: trim_left.simps [of s])
    with None 1 show ?thesis by (simp add: find_None_iff)
  qed (use 1 in \<open>simp add: trim_left.simps [of s]\<close>)
qed

lemma trim_right_done: "q \<in> set space_seqs \<Longrightarrow> \<not> suffix q (trim_right s)"
proof (induction s rule: trim_right.induct)
  case (1 s)
  show ?case
  proof (cases "List.find (\<lambda>q. suffix q s) space_seqs")
    case None
    then have "trim_right s = s" by (simp add: trim_right.simps [of s])
    with None 1 show ?thesis by (simp add: find_None_iff)
  qed (use 1 in \<open>simp add: trim_right.simps [of s]\<close>)
qed

lemma trim_left_fix: "(\<And>q. q \<in> set space_seqs \<Longrightarrow> \<not> prefix q s) \<Longrightarrow> trim_left s = s"
  by (subst trim_left.simps) (auto simp: find_Some_iff split: option.splits)

lemma trim_right_fix: "(\<And>q. q \<in> set space_seqs \<Longrightarrow> \<not> suffix q s) \<Longrightarrow> trim_right s = s"
  by (subst trim_right.simps) (auto simp: find_Some_iff split: option.splits)

lemma TrimSpace_idem [simp]: "TrimSpace (TrimSpace s) = TrimSpace s"
proof -
  have "\<not> prefix q (TrimSpace s)" if "q \<in> set space_seqs" for q
    using trim_left_done [OF that, of s] trim_right_prefix [of "trim_left s"]
    unfolding TrimSpace_def by (meson prefix_order.trans)
  then have "trim_left (TrimSpace s) = TrimSpace s" by (rule trim_left_fix)
  moreover have "trim_right (TrimSpace s) = TrimSpace s"
    using trim_right_done unfolding TrimSpace_def by (intro trim_right_fix)
  ultimately show ?thesis unfolding TrimSpace_def [of "TrimSpace s"] by simp
qed

lemma TrimSpace_Nil [simp]: "TrimSpace [] = []"
  using trim_left_suffix [of "[]"] trim_right_prefix [of "[]"] by (simp add: TrimSpace_def)

section \<open>ASCII case\<close>

definition ascii_lower :: "char \<Rightarrow> char" where
  "ascii_lower c = (let n = of_char c :: nat in if 65 \<le> n \<and> n \<le> 90 then char_of (n + 32) else c)"

end
