(* ===== verification/Edit_Tools.thy ===== *)
theory Edit_Tools
  imports Hashline Line_Align Memory_FS Tool_Paths Go_Strings
begin

text \<open>
  The file tools of \<^verbatim>\<open>internal/tools\<close>: \<^verbatim>\<open>read\<close>, \<^verbatim>\<open>edit\<close>, \<^verbatim>\<open>write\<close> and
  \<^verbatim>\<open>replace\<close> with the session state they keep (\<^verbatim>\<open>tools.go\<close>, \<^verbatim>\<open>editing.go\<close>). The workspace
  behind them is Go's interface \<^verbatim>\<open>workspace.FS\<close>: a record of operations on an arbitrary file
  state, so a handler maps a session state and a file state to a result and the new states. Paths
  arrive resolved (\<open>Tool_Paths\<close>); the JSON text of a call is its \<open>signature\<close>. A handler holds the
  file's lock and the session lock for its whole body.
\<close>

section \<open>The workspace interface\<close>

record 'w fs_ops =
  fo_ReadFile :: "'w \<Rightarrow> string \<Rightarrow> path_error + string"
  fo_Stat :: "'w \<Rightarrow> string \<Rightarrow> path_error + mem_info"
  fo_ReadDir :: "'w \<Rightarrow> string \<Rightarrow> path_error + mem_info list"
  fo_WriteFile :: "'w \<Rightarrow> string \<Rightarrow> string \<Rightarrow> file_mode \<Rightarrow> 'w \<times> path_error option"

definition memory_ops :: "int \<Rightarrow> memory fs_ops" where
  "memory_ops now =
     \<lparr>fo_ReadFile = ReadFile, fo_Stat = Stat, fo_ReadDir = ReadDir, fo_WriteFile = WriteFile now\<rparr>"

section \<open>Session state\<close>

record remembered_anchor =
  ra_text :: string
  ra_number :: int

record anchor_version =
  av_version :: string
  av_byEdit :: bool
  av_anchors :: "(string \<times> remembered_anchor) list"
  av_content :: "string list"

record file_snapshot =
  sn_version :: string
  sn_content :: "string list"
  sn_history :: "anchor_version list"
  sn_execChanged :: bool

record noop_state =
  noop_signature :: string
  noop_streak :: int

record session_state =
  ss_anchorFailures :: "(string \<times> int) list"
  ss_noop :: noop_state
  ss_snapshots :: "(string \<times> file_snapshot) list"

datatype anchor_dialect = anchorHashline | anchorContextual | anchorText

fun dialect_mode :: "anchor_dialect \<Rightarrow> anchor_mode" where
  "dialect_mode anchorContextual = AnchorContextual"
| "dialect_mode anchorText = AnchorText"
| "dialect_mode anchorHashline = AnchorLine"

definition zero_noop :: noop_state where
  "zero_noop = \<lparr>noop_signature = [], noop_streak = 0\<rparr>"

definition zero_snapshot :: file_snapshot where
  "zero_snapshot = \<lparr>sn_version = [], sn_content = [], sn_history = [], sn_execChanged = False\<rparr>"

definition snapshot_of :: "session_state \<Rightarrow> string \<Rightarrow> file_snapshot" where
  "snapshot_of st key = (case map_of (ss_snapshots st) key of Some s \<Rightarrow> s | None \<Rightarrow> zero_snapshot)"

definition contentVersion :: "string \<Rightarrow> string" where
  "contentVersion b = take 16 (hex_encode (sha256 b))"

definition lineText :: "line list \<Rightarrow> string list" where
  "lineText lines = map line_text lines"

definition anchorHistoryVersions :: nat where
  "anchorHistoryVersions = 8"

fun remember_anchors :: "line list \<Rightarrow> (string \<times> remembered_anchor) list \<Rightarrow> (string \<times> remembered_anchor) list" where
  "remember_anchors [] anchors = anchors"
| "remember_anchors (l # ls) anchors =
     remember_anchors ls
       (if line_hash l = [] then anchors
        else if map_of anchors (line_hash l) = None
        then AList.update (line_hash l) \<lparr>ra_text = line_text l, ra_number = line_number l\<rparr> anchors
        else AList.update (line_hash l) \<lparr>ra_text = [], ra_number = 0\<rparr> anchors)"

definition appendAnchorVersion ::
  "anchor_version list \<Rightarrow> string \<Rightarrow> bool \<Rightarrow> line list \<Rightarrow> anchor_version list" where
  "appendAnchorVersion history version byEdit lines =
     (let h = history @ [\<lparr>av_version = version, av_byEdit = byEdit, av_anchors = remember_anchors lines [],
                          av_content = lineText lines\<rparr>]
      in if length h > anchorHistoryVersions then drop (length h - anchorHistoryVersions) h else h)"

text \<open>What \<^verbatim>\<open>read\<close>, \<^verbatim>\<open>edit\<close> and \<^verbatim>\<open>refreshSnapshot\<close> record of a file version they handed out.\<close>

definition record_snapshot :: "string \<Rightarrow> string \<Rightarrow> bool \<Rightarrow> line list \<Rightarrow> session_state \<Rightarrow> session_state" where
  "record_snapshot key data byEdit lines st =
     (let s = snapshot_of st key; v = contentVersion data in
      st\<lparr>ss_snapshots := AList.update key
          \<lparr>sn_version = v, sn_content = lineText lines,
           sn_history = appendAnchorVersion (sn_history s) v byEdit lines, sn_execChanged = False\<rparr>
          (ss_snapshots st)\<rparr>)"

section \<open>Translating stale anchors\<close>

definition anchorMatches :: "anchor_dialect \<Rightarrow> string \<Rightarrow> string \<Rightarrow> bool" where
  "anchorMatches dialect candidate anchor =
     (if dialect = anchorText then candidate = anchor else HasPrefix candidate anchor)"

definition anchorPresent :: "anchor_dialect \<Rightarrow> line list \<Rightarrow> string \<Rightarrow> bool" where
  "anchorPresent dialect lines anchor = list_ex (\<lambda>l. anchorMatches dialect (line_hash l) anchor) lines"

fun lookupRemembered :: "anchor_version list \<Rightarrow> string \<Rightarrow> (remembered_anchor \<times> anchor_version) option" where
  "lookupRemembered [] anchor = None"
| "lookupRemembered (v # vs) anchor =
     (case map_of (av_anchors v) anchor of
        None \<Rightarrow> lookupRemembered vs anchor
      | Some r \<Rightarrow> if ra_number r = 0 then None else Some (r, v))"

definition translate_hunk :: "anchor_dialect \<Rightarrow> anchor_version list \<Rightarrow> line list \<Rightarrow> hunk \<Rightarrow> hunk \<times> string list" where
  "translate_hunk dialect history current h =
     (if anchorPresent dialect current (hunk_anchor h) then (h, [])
      else case lookupRemembered history (hunk_anchor h) of
        None \<Rightarrow> (h, [])
      | Some (remembered, version) \<Rightarrow>
          (case retainedLine (av_content version) (lineText current) (ra_number remembered - 1) of
             None \<Rightarrow> (h, [])
           | Some at \<Rightarrow>
               if line_text (current ! at) \<noteq> ra_text remembered then (h, [])
               else (h\<lparr>hunk_anchor := line_hash (current ! at), hunk_line := line_number (current ! at)\<rparr>,
                     [hunk_anchor h])))"

definition translateStaleAnchors ::
  "anchor_dialect \<Rightarrow> session_state \<Rightarrow> patch \<Rightarrow> line list \<Rightarrow> patch \<times> string list" where
  "translateStaleAnchors dialect st p current =
     (if current = [] then (p, [])
      else let history = sn_history (snapshot_of st (patch_path p)) in
        if history = [] \<or> \<not> av_byEdit (last history) then (p, [])
        else let ts = map (translate_hunk dialect history current) (patch_hunks p)
          in (p\<lparr>patch_hunks := map fst ts\<rparr>, concat (map snd ts)))"

section \<open>Reports\<close>

record line_change =
  lc_line :: int
  lc_before :: string
  lc_after :: string

fun diff_since_loop :: "string list \<Rightarrow> string list \<Rightarrow> nat list \<Rightarrow> line_change list \<Rightarrow> line_change list \<times> bool" where
  "diff_since_loop before after [] changes = (changes, False)"
| "diff_since_loop before after (i # is) changes =
     (let oldText = (if i < length before then before ! i else []);
          newText = (if i < length after then after ! i else [])
      in if oldText = newText then diff_since_loop before after is changes
         else if length changes = 20 then (changes, True)
         else diff_since_loop before after is
                (changes @ [\<lparr>lc_line = int i + 1, lc_before = oldText, lc_after = newText\<rparr>]))"

definition diffSince :: "string list \<Rightarrow> string list \<Rightarrow> line_change list \<times> bool" where
  "diffSince before after = diff_since_loop before after [0..<max (length before) (length after)] []"

definition computeFreshWindows :: "line list \<Rightarrow> affected_region list \<Rightarrow> line list list" where
  "computeFreshWindows lines affected =
     map (\<lambda>r. let n = int (length lines);
                  lo = min n (max 0 (sub64 (reg_start r) 2));
                  hi = max lo (min n (add64 (reg_end r) 2))
              in take (nat (hi - lo)) (drop (nat lo) lines)) affected"

datatype pending =
    FileNotRead string
  | FileChanged string string "line_change list \<times> bool" "(int \<times> int) option"

section \<open>The edit tool\<close>

datatype edit_result =
    EditApplied nat "line list list" "string list" "pending option"
  | EditPending pending
  | EditNoop
  | EditNoopLoop
  | EditAmbiguous string "int list" "line list list" bool
  | EditStale string "line list"
  | EditStaleRegion string "line list" "int list"
  | EditOther hl_error
  | EditFsError path_error
  | EditPanic

definition edit_pending :: "session_state \<Rightarrow> string \<Rightarrow> string \<Rightarrow> line list \<Rightarrow> pending option" where
  "edit_pending st key data current =
     (let v = contentVersion data in
      case map_of (ss_snapshots st) key of
        None \<Rightarrow> Some (FileNotRead v)
      | Some s \<Rightarrow>
          if v = sn_version s then None
          else Some (FileChanged (sn_version s) v (diffSince (sn_content s) (lineText current))
                 (if sn_execChanged s
                  then (case changedSpan (sn_content s) (lineText current) of
                          (lo, hi) \<Rightarrow> Some (int lo + 1, max (int hi) (int lo + 1)))
                  else None)))"

text \<open>The report on an anchor that matched nothing, and the larger region from its second failure on.\<close>

definition edit_stale ::
  "anchor_dialect \<Rightarrow> session_state \<Rightarrow> string \<Rightarrow> line list \<Rightarrow> string \<Rightarrow> line list \<Rightarrow> edit_result \<times> session_state" where
  "edit_stale dialect st key current anchor fresh =
     (let fkey = key @ ''|'' @ anchor;
          n = (case map_of (ss_anchorFailures st) fkey of Some k \<Rightarrow> k | None \<Rightarrow> 0) + 1;
          st' = st\<lparr>ss_anchorFailures := AList.update fkey n (ss_anchorFailures st)\<rparr>
      in if n > 1
         then let occurrences = map line_number (filter (\<lambda>l. anchorMatches dialect (line_hash l) anchor) current);
                  region = (if occurrences \<noteq> []
                            then let lo = max 0 (hd occurrences - 11); hi = min (int (length current)) (hd occurrences + 10)
                              in take (nat (hi - lo)) (drop (nat lo) current)
                            else if current \<noteq> [] then take (min (length current) 20) current
                            else fresh)
           in (EditStaleRegion anchor region occurrences, st')
         else (EditStale anchor fresh, st'))"

definition edit_noop :: "session_state \<Rightarrow> string \<Rightarrow> edit_result \<times> session_state" where
  "edit_noop st signature =
     (let streak = noop_streak (ss_noop st) + 1;
          st' = st\<lparr>ss_noop := \<lparr>noop_signature = signature, noop_streak = streak\<rparr>\<rparr>
      in (if streak \<ge> 3 then EditNoopLoop else EditNoop, st'))"

definition edit_failed ::
  "anchor_dialect \<Rightarrow> session_state \<Rightarrow> string \<Rightarrow> string \<Rightarrow> line list \<Rightarrow> hl_error + path_error
     \<Rightarrow> edit_result \<times> session_state" where
  "edit_failed dialect st signature key current err =
     (if err = Inl ErrNoChanges then edit_noop st signature
      else let st = st\<lparr>ss_noop := zero_noop\<rparr> in
        case err of
          Inl (AmbiguousError anchor lines windows newFile) \<Rightarrow> (EditAmbiguous anchor lines windows newFile, st)
        | Inl (StaleError anchor fresh) \<Rightarrow> edit_stale dialect st key current anchor fresh
        | Inl e \<Rightarrow> (EditOther e, st)
        | Inr e \<Rightarrow> (EditFsError e, st))"

definition edit_done ::
  "session_state \<Rightarrow> patch \<Rightarrow> string \<Rightarrow> apply_result \<Rightarrow> string list \<Rightarrow> pending option \<Rightarrow> edit_result \<times> session_state" where
  "edit_done st p content result translated pend =
     (let st' = record_snapshot (patch_path p) content True (res_lines result)
                  (st\<lparr>ss_noop := zero_noop, ss_anchorFailures := []\<rparr>)
      in (EditApplied (length (patch_hunks p)) (computeFreshWindows (res_lines result) (res_affected result)) translated pend,
          st'))"

text \<open>The rest of the handler, once the file has been read and parsed.\<close>

definition edit_apply ::
  "'w fs_ops \<Rightarrow> anchor_dialect \<Rightarrow> target \<Rightarrow> string \<Rightarrow> patch \<Rightarrow> session_state \<Rightarrow> 'w \<Rightarrow> line list
     \<Rightarrow> pending option \<Rightarrow> bool \<Rightarrow> edit_result \<times> session_state \<times> 'w" where
  "edit_apply ops dialect t signature p0 st w current pend newFile =
     (case translateStaleAnchors dialect st p0 current of (p, translated) \<Rightarrow>
        let failed = (\<lambda>err w. case pend of
               Some x \<Rightarrow> (EditPending x, st, w)
             | None \<Rightarrow> (case edit_failed dialect st signature (tgt_key t) current err of (r, st') \<Rightarrow> (r, st', w)))
        in case ApplyLines current p (dialect_mode dialect) of
             Inl Panic \<Rightarrow> (EditPanic, st, w)
           | Inl e \<Rightarrow> failed (Inl e) w
           | Inr (content, result) \<Rightarrow>
               (let mode = (if newFile then 0x1A4
                            else case fo_Stat ops w (tgt_name t) of Inr info \<Rightarrow> me_mode (mi_entry info) | Inl _ \<Rightarrow> 0x1A4)
                in case fo_WriteFile ops w (tgt_name t) content mode of
                     (w', Some e) \<Rightarrow> failed (Inr e) w'
                   | (w', None) \<Rightarrow>
                       (case edit_done st p content result translated pend of (r, st') \<Rightarrow> (r, st', w'))))"

definition edit ::
  "'w fs_ops \<Rightarrow> anchor_dialect \<Rightarrow> target \<Rightarrow> string \<Rightarrow> patch \<Rightarrow> session_state \<Rightarrow> 'w
     \<Rightarrow> edit_result \<times> session_state \<times> 'w" where
  "edit ops dialect t signature p0 st0 w =
     (let p = p0\<lparr>patch_path := tgt_key t\<rparr>;
          st = (if noop_signature (ss_noop st0) \<noteq> signature then st0\<lparr>ss_noop := zero_noop\<rparr> else st0)
      in case fo_ReadFile ops w (tgt_name t) of
           Inl e \<Rightarrow>
             if pe_err e \<noteq> ErrNotExist then (EditFsError e, st, w)
             else edit_apply ops dialect t signature p st w [] None True
         | Inr data \<Rightarrow>
             (case Parse data (dialect_mode dialect) of
                Inl e \<Rightarrow> (EditOther e, st, w)
              | Inr current \<Rightarrow>
                  edit_apply ops dialect t signature p st w current (edit_pending st (tgt_key t) data current) False))"

section \<open>The read tool\<close>

text \<open>A JSON argument that should be a number, and \<^verbatim>\<open>asInt\<close>.\<close>

datatype num_arg = Missing | NotNumber | Num int

fun asInt :: "num_arg \<Rightarrow> int \<Rightarrow> int" where
  "asInt (Num x) d = x"
| "asInt _ d = d"

datatype read_result =
    ReadList "(string \<times> bool) list"
  | ReadLines "line list"
  | ReadOutline nat "line list"
  | ReadFsError path_error
  | ReadParseError hl_error
  | ReadPanic

definition go_slice :: "'a list \<Rightarrow> int \<Rightarrow> int \<Rightarrow> 'a list option" where
  "go_slice xs lo hi =
     (if 0 \<le> lo \<and> lo \<le> hi \<and> hi \<le> int (length xs) then Some (take (nat (hi - lo)) (drop (nat lo) xs)) else None)"

definition slice_result :: "line list \<Rightarrow> int \<Rightarrow> int \<Rightarrow> read_result" where
  "slice_result lines lo hi = (case go_slice lines lo hi of Some xs \<Rightarrow> ReadLines xs | None \<Rightarrow> ReadPanic)"

definition outline_line :: "line \<Rightarrow> bool" where
  "outline_line l =
     (let t = TrimSpace (line_text l) in
      list_ex (HasPrefix t) [''func '', ''type '', ''class '', ''interface '', ''package '', ''#''])"

definition read_window :: "num_arg \<Rightarrow> num_arg \<Rightarrow> num_arg \<Rightarrow> line list \<Rightarrow> read_result" where
  "read_window around start limit lines =
     (let n = int (length lines) in
      if around \<noteq> Missing
      then if lines = [] then ReadLines lines
           else let line = min n (max 1 (asInt around 1));
                    window = min 200 (max 1 (asInt limit 9));
                    lo = max 0 (line - 1 - window div 2);
                    hi = min n (lo + window);
                    lo = max 0 (hi - window)
             in slice_result lines lo hi
      else if n > 2000 \<and> start = Missing
      then ReadOutline (length lines) (filter outline_line lines)
      else let lo = min n (max 1 (asInt start 1) - 1);
               hi = min n (add64 lo (asInt limit 400))
        in slice_result lines lo hi)"

definition read_target ::
  "'w fs_ops \<Rightarrow> anchor_dialect \<Rightarrow> target \<Rightarrow> num_arg \<Rightarrow> num_arg \<Rightarrow> num_arg \<Rightarrow> session_state \<Rightarrow> 'w
     \<Rightarrow> read_result \<times> session_state" where
  "read_target ops dialect t around start limit st w =
     (case fo_Stat ops w (tgt_name t) of
        Inl e \<Rightarrow> (ReadFsError e, st)
      | Inr info \<Rightarrow>
          if IsDir (me_mode (mi_entry info))
          then (case fo_ReadDir ops w (tgt_name t) of
                  Inl e \<Rightarrow> (ReadFsError e, st)
                | Inr ents \<Rightarrow> (ReadList (map (\<lambda>e. (mi_name e, IsDir (me_mode (mi_entry e)))) ents), st))
          else case fo_ReadFile ops w (tgt_name t) of
            Inl e \<Rightarrow> (ReadFsError e, st)
          | Inr data \<Rightarrow>
              (case Parse data (dialect_mode dialect) of
                 Inl e \<Rightarrow> (ReadParseError e, st)
               | Inr lines \<Rightarrow>
                   (read_window around start limit lines, record_snapshot (tgt_key t) data False lines st)))"

section \<open>The write tool\<close>

datatype tool_error =
    TFs path_error
  | TParse hl_error
  | TIsDirectory string
  | TNotText string
  | TViolations "(string \<times> nat \<times> int list) list"
  | TNoFiles
  | TNothingReplaced
  | TChanged string
  | TWriteFailed string path_error
  | TRefreshFailed string tool_error

definition refreshSnapshot ::
  "'w fs_ops \<Rightarrow> anchor_dialect \<Rightarrow> target \<Rightarrow> session_state \<Rightarrow> 'w \<Rightarrow> (tool_error + line list) \<times> session_state" where
  "refreshSnapshot ops dialect t st w =
     (case fo_ReadFile ops w (tgt_name t) of
        Inl e \<Rightarrow> (Inl (TFs e), st)
      | Inr data \<Rightarrow>
          (case Parse data (dialect_mode dialect) of
             Inl e \<Rightarrow> (Inl (TParse e), st)
           | Inr lines \<Rightarrow> (Inr lines, record_snapshot (tgt_key t) data True lines st)))"

definition end_newline :: "string \<Rightarrow> string" where
  "end_newline data = (if data = [] \<or> last data \<noteq> CHR 0x0A then data @ [CHR 0x0A] else data)"

definition joined :: "string \<Rightarrow> string \<Rightarrow> string" where
  "joined b content = (if b \<noteq> [] \<and> last b \<noteq> CHR 0x0A then b @ [CHR 0x0A] else b) @ content"

record write_result =
  wr_path :: string
  wr_bytes :: nat
  wr_created :: bool
  wr_lines :: "line list"

definition write_data ::
  "'w fs_ops \<Rightarrow> anchor_dialect \<Rightarrow> target \<Rightarrow> string \<Rightarrow> file_mode \<Rightarrow> bool \<Rightarrow> session_state \<Rightarrow> 'w
     \<Rightarrow> (tool_error + write_result) \<times> session_state \<times> 'w" where
  "write_data ops dialect t data mode created st w =
     (let data = end_newline data in
      case fo_WriteFile ops w (tgt_name t) data mode of
        (w', Some e) \<Rightarrow> (Inl (TFs e), st, w')
      | (w', None) \<Rightarrow>
          (case refreshSnapshot ops dialect t st w' of
             (Inl e, st') \<Rightarrow> (Inl e, st', w')
           | (Inr lines, st') \<Rightarrow>
               (Inr \<lparr>wr_path = tgt_key t, wr_bytes = length data, wr_created = created, wr_lines = lines\<rparr>, st', w')))"

definition write_tool ::
  "'w fs_ops \<Rightarrow> anchor_dialect \<Rightarrow> target \<Rightarrow> string \<Rightarrow> bool \<Rightarrow> session_state \<Rightarrow> 'w
     \<Rightarrow> (tool_error + write_result) \<times> session_state \<times> 'w" where
  "write_tool ops dialect t content appendMode st w =
     (case fo_Stat ops w (tgt_name t) of
        Inl e \<Rightarrow>
          if pe_err e \<noteq> ErrNotExist then (Inl (TFs e), st, w)
          else write_data ops dialect t content 0x1A4 True st w
      | Inr info \<Rightarrow>
          if IsDir (me_mode (mi_entry info)) then (Inl (TIsDirectory (tgt_key t)), st, w)
          else if appendMode
          then (case fo_ReadFile ops w (tgt_name t) of
                  Inl e \<Rightarrow> (Inl (TFs e), st, w)
                | Inr b \<Rightarrow> write_data ops dialect t (joined b content) (me_mode (mi_entry info)) False st w)
          else write_data ops dialect t content (me_mode (mi_entry info)) False st w)"

section \<open>The replace tool\<close>

record resolved_path =
  rp_target :: target
  rp_explicit :: bool

record file_plan =
  fp_target :: target
  fp_count :: nat
  fp_before :: string
  fp_after :: string

definition spannedLines :: "string \<Rightarrow> string \<Rightarrow> nat \<Rightarrow> int list" where
  "spannedLines content needle offset =
     (let start = length (filter (\<lambda>c. c = CHR 0x0A) (take offset content)) + 1;
          e = start + length (filter (\<lambda>c. c = CHR 0x0A) needle)
      in map int [start..<e + 1])"

text \<open>The lines of every match, found one after the other from the left.\<close>

fun match_lines :: "nat \<Rightarrow> string \<Rightarrow> string \<Rightarrow> nat \<Rightarrow> int list" where
  "match_lines 0 content needle searchFrom = []"
| "match_lines (Suc k) content needle searchFrom =
     (case str_index (drop searchFrom content) needle of
        None \<Rightarrow> []
      | Some idx \<Rightarrow>
          spannedLines content needle (searchFrom + idx)
            @ match_lines k content needle (searchFrom + idx + length needle))"

fun plan_files ::
  "'w fs_ops \<Rightarrow> string \<Rightarrow> string \<Rightarrow> bool \<Rightarrow> resolved_path list \<Rightarrow> 'w
     \<Rightarrow> tool_error + file_plan list \<times> (string \<times> nat \<times> int list) list" where
  "plan_files ops oldString newString replaceAll [] w = Inr ([], [])"
| "plan_files ops oldString newString replaceAll (rp # rps) w =
     (case fo_ReadFile ops w (tgt_name (rp_target rp)) of
        Inl e \<Rightarrow> Inl (TFs e)
      | Inr content \<Rightarrow>
          if \<not> ValidString content then Inl (TNotText (tgt_key (rp_target rp)))
          else case plan_files ops oldString newString replaceAll rps w of
            Inl e \<Rightarrow> Inl e
          | Inr (plans, violations) \<Rightarrow>
              (let count = str_count content oldString; key = tgt_key (rp_target rp) in
               if count = 0
               then Inr (plans, if rp_explicit rp then (key, 0, []) # violations else violations)
               else if \<not> replaceAll \<and> count > 1
               then Inr (plans, (key, count, match_lines count content oldString 0) # violations)
               else let after = ReplaceAll content oldString newString in
                 if after = content then Inr (plans, violations)
                 else Inr (\<lparr>fp_target = rp_target rp, fp_count = count, fp_before = content, fp_after = after\<rparr> # plans,
                           violations)))"

fun rollback :: "'w fs_ops \<Rightarrow> file_plan list \<Rightarrow> 'w \<Rightarrow> 'w" where
  "rollback ops [] w = w"
| "rollback ops (pl # pls) w =
     rollback ops pls (fst (fo_WriteFile ops w (tgt_name (fp_target pl)) (fp_before pl) 0x1A4))"

fun write_plans :: "'w fs_ops \<Rightarrow> file_plan list \<Rightarrow> file_plan list \<Rightarrow> 'w \<Rightarrow> tool_error option \<times> 'w" where
  "write_plans ops written [] w = (None, w)"
| "write_plans ops written (pl # pls) w =
     (let key = tgt_key (fp_target pl); name = tgt_name (fp_target pl) in
      case fo_ReadFile ops w name of
        Inl e \<Rightarrow> (Some (TWriteFailed key e), rollback ops written w)
      | Inr current \<Rightarrow>
          if current \<noteq> fp_before pl then (Some (TChanged key), rollback ops written w)
          else case fo_WriteFile ops w name (fp_after pl) 0x1A4 of
            (w', Some e) \<Rightarrow> (Some (TWriteFailed key e), rollback ops written w')
          | (w', None) \<Rightarrow> write_plans ops (written @ [pl]) pls w')"

record changed_line =
  cl_line :: int
  cl_text :: string
  cl_hash :: string

definition changedLineEntries :: "string list \<Rightarrow> string list \<Rightarrow> line list \<Rightarrow> changed_line list" where
  "changedLineEntries before after fresh =
     (let idx = (if length before = length after
                 then filter (\<lambda>i. before ! i \<noteq> after ! i) [0..<length after]
                 else case changedSpan before after of (lo, hi) \<Rightarrow> [lo..<hi])
      in map (\<lambda>i. \<lparr>cl_line = int i + 1, cl_text = after ! i, cl_hash = line_hash (fresh ! i)\<rparr>)
           (filter (\<lambda>i. i < length fresh) idx))"

fun refresh_plans ::
  "'w fs_ops \<Rightarrow> anchor_dialect \<Rightarrow> file_plan list \<Rightarrow> session_state \<Rightarrow> 'w
     \<Rightarrow> (tool_error + (string \<times> nat \<times> changed_line list) list) \<times> session_state" where
  "refresh_plans ops dialect [] st w = (Inr [], st)"
| "refresh_plans ops dialect (pl # pls) st w =
     (case refreshSnapshot ops dialect (fp_target pl) st w of
        (Inl e, st') \<Rightarrow> (Inl (TRefreshFailed (tgt_key (fp_target pl)) e), st')
      | (Inr fresh, st') \<Rightarrow>
          (case refresh_plans ops dialect pls st' w of
             (Inl e, st'') \<Rightarrow> (Inl e, st'')
           | (Inr results, st'') \<Rightarrow>
               (Inr ((tgt_key (fp_target pl), fp_count pl,
                      changedLineEntries (split_byte CHR 0x0A (fp_before pl)) (split_byte CHR 0x0A (fp_after pl)) fresh)
                     # results), st'')))"

text \<open>\<open>replace\<close> from the expanded list of files on.\<close>

definition replace_files ::
  "'w fs_ops \<Rightarrow> anchor_dialect \<Rightarrow> string \<Rightarrow> string \<Rightarrow> bool \<Rightarrow> resolved_path list \<Rightarrow> session_state \<Rightarrow> 'w
     \<Rightarrow> (tool_error + (string \<times> nat \<times> changed_line list) list \<times> nat) \<times> session_state \<times> 'w" where
  "replace_files ops dialect oldString newString replaceAll resolved st w =
     (if resolved = [] then (Inl TNoFiles, st, w)
      else case plan_files ops oldString newString replaceAll resolved w of
        Inl e \<Rightarrow> (Inl e, st, w)
      | Inr (plans, violations) \<Rightarrow>
          if violations \<noteq> [] then (Inl (TViolations violations), st, w)
          else if plans = [] then (Inl TNothingReplaced, st, w)
          else case write_plans ops [] plans w of
            (Some e, w') \<Rightarrow> (Inl e, st, w')
          | (None, w') \<Rightarrow>
              (case refresh_plans ops dialect plans st w' of
                 (Inl e, st') \<Rightarrow> (Inl e, st', w')
               | (Inr results, st') \<Rightarrow> (Inr (results, sum_list (map fp_count plans)), st', w')))"

end
