(* ===== verification/Memory_Correct.thy ===== *)
theory Memory_Correct
  imports Memory_FS
begin

text \<open>
  The tree invariant of the in-memory workspace and what its operations guarantee. A state is
  well formed when the root is a directory and every entry has a valid path whose parent is a
  directory of the tree. The lemmas give each operation's effect on the map from paths to
  entries and show that it keeps the invariant; the step relation \<open>fs_step\<close> collects them.
\<close>

section \<open>Paths, parents and subtrees\<close>

lemma parentOf_join [simp]: "slash \<notin> set b \<Longrightarrow> parentOf (d @ slash # b) = d"
proof -
  assume "slash \<notin> set b"
  then have "dropWhile (\<lambda>c. c \<noteq> slash) (rev b @ slash # rev d) = slash # rev d"
    by (subst dropWhile_append2) auto
  then show "parentOf (d @ slash # b) = d" by (simp add: parentOf_def)
qed

lemma parentOf_split:
  assumes "slash \<in> set p"
  obtains b where "p = parentOf p @ slash # b" and "slash \<notin> set b"
proof -
  from split_list_last [OF assms] obtain ys zs where "p = ys @ slash # zs" "slash \<notin> set zs" by blast
  then show thesis using that by simp
qed

lemma under_iff: "under d p \<longleftrightarrow> (\<exists>r. p = d @ slash # r)"
  by (auto simp: under_def prefix_def)

lemma parentOf_no_slash: "slash \<notin> set p \<Longrightarrow> parentOf p = ''.''"
  by (simp add: parentOf_def)

lemma under_has_slash: "under d p \<Longrightarrow> slash \<in> set p"
  by (auto simp: under_iff)

lemma not_under_dot [simp]: "\<not> under d ''.''"
  by (auto dest: under_has_slash)

lemma under_parent: "parentOf p = d \<Longrightarrow> d \<noteq> ''.'' \<Longrightarrow> under d p"
  by (metis parentOf_no_slash parentOf_split under_iff)

lemma under_of_parent: "under d (parentOf p) \<Longrightarrow> under d p"
  by (metis not_under_dot parentOf_no_slash parentOf_split under_iff append.assoc append_Cons)

lemma parent_of_under:
  assumes "under d p"
  shows "parentOf p = d \<or> under d (parentOf p)"
proof -
  from assms obtain r where p: "p = d @ slash # r" by (auto simp: under_iff)
  show ?thesis
  proof (cases "slash \<in> set r")
    case True
    then obtain b where "r = parentOf r @ slash # b" "slash \<notin> set b" by (rule parentOf_split)
    then have "parentOf p = (d @ slash # parentOf r)"
      using p by (metis append.assoc append_Cons parentOf_join)
    then show ?thesis by (auto simp: under_iff)
  qed (use p in simp)
qed

lemma parent_neq [simp]: "p \<noteq> ''.'' \<Longrightarrow> parentOf p \<noteq> p"
  by (metis append_self_conv list.distinct(1) parentOf_no_slash parentOf_split)

lemma under_irrefl [simp]: "\<not> under p p"
  by (auto simp: under_iff)

section \<open>The invariant\<close>

type_synonym fs_map = "string \<rightharpoonup> mem_entry"

definition dir_at :: "fs_map \<Rightarrow> string \<Rightarrow> bool" where
  "dir_at M p \<longleftrightarrow> (\<exists>e. M p = Some e \<and> IsDir (me_mode e))"

definition map_ok :: "fs_map \<Rightarrow> bool" where
  "map_ok M \<longleftrightarrow> dir_at M ''.'' \<and>
     (\<forall>p e. M p = Some e \<longrightarrow> ValidPath p \<and> (p \<noteq> ''.'' \<longrightarrow> dir_at M (parentOf p)))"

definition tree_ok :: "tree \<Rightarrow> bool" where
  "tree_ok t \<longleftrightarrow> distinct (map fst t) \<and> map_ok (map_of t)"

definition mem_ok :: "memory \<Rightarrow> bool" where
  "mem_ok m \<longleftrightarrow> tree_ok (mem_files m)"

lemma map_okD:
  assumes "map_ok M" and "M p = Some e"
  shows "ValidPath p" and "p \<noteq> ''.'' \<Longrightarrow> dir_at M (parentOf p)"
  using assms by (auto simp: map_ok_def)

lemma map_ok_root: "map_ok M \<Longrightarrow> dir_at M ''.''"
  by (simp add: map_ok_def)

lemma IsDir_mkdir [simp]: "IsDir (ModeDir OR x)"
proof -
  have "(ModeDir OR x) AND ModeDir = ModeDir"
    by (rule bit_eqI) (auto simp: bit_simps)
  then show ?thesis by (simp add: IsDir_def ModeDir_def)
qed

lemma not_IsDir_perm [simp]: "\<not> IsDir (x AND ModePerm)"
proof -
  have "ModePerm AND ModeDir = 0" by (simp add: ModePerm_def ModeDir_def)
  then have "(x AND ModePerm) AND ModeDir = 0" by (simp add: and.assoc)
  then show ?thesis by (simp add: IsDir_def)
qed

lemma map_ok_update:
  assumes "map_ok M" and "ValidPath p" and "p \<noteq> ''.''" and "dir_at M (parentOf p)"
    and "dir_at M p \<Longrightarrow> IsDir (me_mode e)"
  shows "map_ok (M(p \<mapsto> e))"
proof -
  have keep: "dir_at M q \<Longrightarrow> dir_at (M(p \<mapsto> e)) q" for q
    using assms(5) by (auto simp: dir_at_def)
  show ?thesis
    using assms(1-4) keep by (auto simp: map_ok_def split: if_splits)
qed

lemma map_ok_remove:
  assumes "map_ok M" and "p \<noteq> ''.''" and "\<And>q e. M q = Some e \<Longrightarrow> q \<noteq> ''.'' \<Longrightarrow> parentOf q \<noteq> p"
  shows "map_ok (M(p := None))"
  using assms unfolding map_ok_def dir_at_def by (auto split: if_splits)

lemma map_ok_prune:
  assumes "map_ok M" and "name \<noteq> ''.''"
  shows "map_ok (\<lambda>q. if \<not> (q = name \<or> under name q) then M q else None)"
proof -
  have "\<not> (parentOf q = name \<or> under name (parentOf q))" if "\<not> (q = name \<or> under name q)" for q
    using that assms(2) under_parent under_of_parent by blast
  with assms show ?thesis unfolding map_ok_def dir_at_def by auto
qed

lemma map_of_filter_key: "map_of (filter (\<lambda>(p, _). P p) t) q = (if P q then map_of t q else None)"
  by (induction t) auto

lemma distinct_filter_keys: "distinct (map fst t) \<Longrightarrow> distinct (map fst (filter P t))"
  by (rule distinct_map_filter)

lemma tree_ok_update:
  "tree_ok t \<Longrightarrow> map_ok ((map_of t)(p \<mapsto> e)) \<Longrightarrow> tree_ok (AList.update p e t)"
  by (simp add: tree_ok_def update_conv' distinct_update)

lemma NewMemory_ok: "mem_ok NewMemory"
proof -
  have "ValidPath ''.''" by code_simp
  then show ?thesis
    by (auto simp: NewMemory_def mem_ok_def tree_ok_def map_ok_def dir_at_def)
qed

section \<open>Each operation\<close>

lemma lookup_Inr: "lookup m op name = Inr e \<longleftrightarrow> ValidPath name \<and> map_of (mem_files m) name = Some e"
  by (auto simp: lookup_def split: option.splits)

lemma requireDir_None: "requireDir m op name = None \<longleftrightarrow> ValidPath name \<and> dir_at (map_of (mem_files m)) name"
  by (auto simp: requireDir_def dir_at_def lookup_Inr split: sum.splits if_splits)
     (auto simp: lookup_def split: if_splits option.splits)

lemma WriteFile_Some: "WriteFile now m name data perm = (m', Some err) \<Longrightarrow> m' = m"
  by (auto simp: WriteFile_def split: if_splits option.splits)

lemma WriteFile_None:
  assumes "WriteFile now m name data perm = (m', None)"
  obtains e where "ValidPath name" and "name \<noteq> ''.''" and "dir_at (map_of (mem_files m)) (parentOf name)"
    and "\<not> dir_at (map_of (mem_files m)) name" and "me_data e = data" and "\<not> IsDir (me_mode e)"
    and "m' = m\<lparr>mem_files := AList.update name e (mem_files m)\<rparr>"
proof (cases "map_of (mem_files m) name")
  case None
  with assms show thesis
    by (intro that [of "\<lparr>me_data = data, me_mode = perm AND ModePerm, me_modTime = now\<rparr>"])
       (auto simp: WriteFile_def requireDir_None dir_at_def split: if_splits option.splits)
next
  case (Some x)
  with assms show thesis
    by (intro that [of "\<lparr>me_data = data, me_mode = me_mode x AND ModePerm, me_modTime = now\<rparr>"])
       (auto simp: WriteFile_def requireDir_None dir_at_def split: if_splits option.splits)
qed

lemma WriteFile_ok:
  assumes "mem_ok m" and "WriteFile now m name data perm = (m', err)"
  shows "mem_ok m'"
proof (cases err)
  case (Some e)
  with assms WriteFile_Some show ?thesis by metis
next
  case None
  with assms(2) obtain e where *: "ValidPath name" "name \<noteq> ''.''"
    "dir_at (map_of (mem_files m)) (parentOf name)" "\<not> dir_at (map_of (mem_files m)) name"
    "m' = m\<lparr>mem_files := AList.update name e (mem_files m)\<rparr>"
    by (metis WriteFile_None)
  from assms(1) have "map_ok (map_of (mem_files m))" by (simp add: mem_ok_def tree_ok_def)
  then have "map_ok ((map_of (mem_files m))(name \<mapsto> e))"
    using * by (intro map_ok_update) auto
  with assms(1) show ?thesis by (simp add: *(5) mem_ok_def tree_ok_update)
qed

lemma Remove_ok:
  assumes "mem_ok m"
  shows "mem_ok (fst (Remove m name))"
proof (cases "snd (Remove m name)")
  case (Some e)
  then show ?thesis using assms by (auto simp: Remove_def split: sum.splits if_splits)
next
  case None
  let ?M = "map_of (mem_files m)"
  from None obtain e where e: "?M name = Some e" "name \<noteq> ''.''"
    and kids: "IsDir (me_mode e) \<Longrightarrow> \<forall>(p, x) \<in> set (mem_files m). p = ''.'' \<or> parentOf p \<noteq> name"
    and r: "fst (Remove m name) = m\<lparr>mem_files := AList.delete name (mem_files m)\<rparr>"
    by (auto simp: Remove_def lookup_Inr list_ex_iff split: sum.splits if_splits)
  have "parentOf q \<noteq> name" if "?M q = Some x" "q \<noteq> ''.''" for q x
  proof (cases "IsDir (me_mode e)")
    case True
    with kids that map_of_SomeD show ?thesis by fastforce
  next
    case False
    have "dir_at ?M (parentOf q)" using assms that by (auto simp: mem_ok_def tree_ok_def dest: map_okD)
    with e False show ?thesis by (auto simp: dir_at_def)
  qed
  then have "map_ok (?M(name := None))"
    using assms e(2) by (intro map_ok_remove) (auto simp only: mem_ok_def tree_ok_def)
  with assms show ?thesis
    by (simp add: r mem_ok_def tree_ok_def delete_conv' distinct_delete)
qed

lemma RemoveAll_ok:
  assumes "mem_ok m"
  shows "mem_ok (fst (RemoveAll m name))"
proof (cases "\<not> ValidPath name \<or> name = ''.''")
  case False
  let ?M = "map_of (mem_files m)"
  let ?gone = "\<lambda>p. p = name \<or> under name p"
  let ?N = "\<lambda>q. if \<not> ?gone q then ?M q else None"
  have "map_of (filter (\<lambda>(p, _). \<not> ?gone p) (mem_files m)) = ?N"
    by (rule ext) (simp only: map_of_filter_key)
  moreover have "map_ok ?N"
    using assms False by (intro map_ok_prune) (auto simp only: mem_ok_def tree_ok_def)
  ultimately show ?thesis
    using assms False by (simp add: RemoveAll_def mem_ok_def tree_ok_def distinct_filter_keys)
qed (use assms in \<open>simp add: RemoveAll_def\<close>)

section \<open>Creating directories\<close>

fun dir_chain :: "string \<Rightarrow> string list \<Rightarrow> bool" where
  "dir_chain d [] = True"
| "dir_chain d (p # ps) = (parentOf p = d \<and> p \<noteq> ''.'' \<and> ValidPath p \<and> dir_chain p ps)"

lemma utf8_cases:
  assumes "utf8_bytes (a # r)"
  obtains "a < 0x80" and "utf8_bytes r"
  | b r' where "0xC2 \<le> a" and "a < 0xE0" and "r = b # r'" and "utf8_cont b" and "utf8_bytes r'"
  | b c r' where "0xE0 \<le> a" and "a < 0xF0" and "r = b # c # r'" and "utf8_second a b" and "utf8_cont c"
      and "utf8_bytes r'"
  | b c d r' where "0xF0 \<le> a" and "a < 0xF5" and "r = b # c # d # r'" and "utf8_second a b" and "utf8_cont c"
      and "utf8_cont d" and "utf8_bytes r'"
  using assms unfolding utf8_bytes.simps(2) [of a r]
  by (auto simp del: utf8_bytes.simps(2) split: if_splits list.splits)

lemma utf8_cont_ascii: "utf8_cont b \<Longrightarrow> b \<noteq> 47" "utf8_second a b \<Longrightarrow> b \<noteq> 47"
  by (auto simp: utf8_cont_def utf8_second_def split: if_splits)

lemma utf8_bytes_before: "utf8_bytes (xs @ 47 # ys) \<Longrightarrow> utf8_bytes xs"
proof (induction xs rule: length_induct)
  case (1 xs)
  show ?case
  proof (cases xs)
    case (Cons a r)
    from "1.prems" Cons have "utf8_bytes (a # (r @ 47 # ys))" by simp
    then show ?thesis
    proof (cases rule: utf8_cases)
      case 1
      with "1.IH" Cons show ?thesis by simp
    next
      case (2 b r')
      then obtain r1 where "r = b # r1" "r' = r1 @ 47 # ys"
        using utf8_cont_ascii by (auto simp: append_eq_Cons_conv)
      with 2 "1.IH" Cons show ?thesis by (simp add: utf8_bytes.simps(2) [of a])
    next
      case (3 b c r')
      then obtain r1 where "r = b # c # r1" "r' = r1 @ 47 # ys"
        using utf8_cont_ascii by (auto simp: append_eq_Cons_conv)
      with 3 "1.IH" Cons show ?thesis by simp
    next
      case (4 b c d r')
      then obtain r1 where "r = b # c # d # r1" "r' = r1 @ 47 # ys"
        using utf8_cont_ascii by (auto simp: append_eq_Cons_conv)
      with 4 "1.IH" Cons show ?thesis by simp
    qed
  qed simp
qed

lemma ValidString_before: "ValidString (a @ slash # b) \<Longrightarrow> ValidString a"
  using utf8_bytes_before [of "map of_char a" "map of_char b"] by (simp add: ValidString_def)

lemma join_str_append:
  "xs \<noteq> [] \<Longrightarrow> ys \<noteq> [] \<Longrightarrow> join_str sep (xs @ ys) = join_str sep xs @ sep @ join_str sep ys"
  by (induction sep xs rule: join_str.induct) (auto simp: neq_Nil_conv)

lemma ValidPath_prefix:
  assumes "ValidPath name" and "name \<noteq> ''.''" and "0 < k" and "k \<le> length (split_byte slash name)"
  defines "p \<equiv> join_str [slash] (take k (split_byte slash name))"
  shows "ValidPath p" and "p \<noteq> ''.''"
proof -
  let ?parts = "split_byte slash name"
  have elems: "list_all valid_elem ?parts" and vs: "ValidString name"
    using assms(1,2) by (auto simp: ValidPath_def)
  have "split_byte slash p = take k ?parts"
    unfolding p_def using assms(3) split_byte_parts by (intro split_join) (auto dest: in_set_takeD)
  then have el: "list_all valid_elem (split_byte slash p)"
    using elems by (auto simp: list_all_iff dest: in_set_takeD)
  then show "p \<noteq> ''.''" by (auto simp: valid_elem_def)
  have "ValidString p"
  proof (cases "k = length ?parts")
    case True
    then show ?thesis using vs by (simp add: p_def join_split)
  next
    case False
    then have "drop k ?parts \<noteq> []" "take k ?parts \<noteq> []" using assms(3,4) by auto
    then have "name = p @ slash # join_str [slash] (drop k ?parts)"
      using join_str_append [of "take k ?parts" "drop k ?parts" "[slash]"]
      by (simp add: p_def join_split)
    with vs show ?thesis using ValidString_before by metis
  qed
  with el show "ValidPath p" by (simp add: ValidPath_def)
qed

lemma ancestors_chain:
  assumes "ValidPath name" and "name \<noteq> ''.''"
  shows "dir_chain ''.'' (ancestors name)"
proof -
  let ?parts = "split_byte slash name"
  let ?f = "\<lambda>i. join_str [slash] (take (i + 1) ?parts)"
  have "dir_chain (if k = 0 then ''.'' else join_str [slash] (take k ?parts)) (map ?f [k..<length ?parts])"
    if "k \<le> length ?parts" for k
    using that
  proof (induction k rule: inc_induct)
    case (step k)
    have el: "slash \<notin> set (?parts ! k)" using step.hyps split_byte_parts by (metis nth_mem)
    have tk: "take (k + 1) ?parts = take k ?parts @ [?parts ! k]"
      using step.hyps by (simp add: take_Suc_conv_app_nth)
    have "parentOf (?f k) = (if k = 0 then ''.'' else join_str [slash] (take k ?parts))"
    proof (cases "k = 0")
      case True
      with el tk show ?thesis by (simp add: parentOf_no_slash)
    next
      case False
      then have "take k ?parts \<noteq> []" using step.hyps by auto
      with el tk False show ?thesis by (simp add: join_str_append)
    qed
    then show ?case
      using step ValidPath_prefix [OF assms, of "k + 1"] by (simp add: upt_rec)
  qed simp
  from this [of 0] show ?thesis by (simp add: ancestors_def Let_def)
qed

lemma dir_at_mkdir [simp]: "dir_at (M(p \<mapsto> \<lparr>me_data = d, me_mode = ModeDir OR x, me_modTime = n\<rparr>)) p"
  by (simp add: dir_at_def)

definition mkdirs_post :: "tree \<Rightarrow> string list \<Rightarrow> tree \<Rightarrow> path_error option \<Rightarrow> bool" where
  "mkdirs_post t ps t' err \<longleftrightarrow> tree_ok t' \<and> map_of t \<subseteq>\<^sub>m map_of t'
     \<and> (\<forall>q. q \<notin> set ps \<longrightarrow> map_of t' q = map_of t q)
     \<and> (err = None \<longrightarrow> (\<forall>p \<in> set ps. dir_at (map_of t') p))"

lemma dir_at_mono: "dir_at M p \<Longrightarrow> M \<subseteq>\<^sub>m N \<Longrightarrow> dir_at N p"
  unfolding dir_at_def map_le_def by (metis domI)

lemma mkdirs_spec:
  assumes "tree_ok t" and "dir_at (map_of t) d" and "dir_chain d ps"
  shows "mkdirs_post t ps (fst (mkdirs now perm ps t)) (snd (mkdirs now perm ps t))"
  using assms
proof (induction ps arbitrary: t d)
  case (Cons p ps)
  show ?case
  proof (cases "map_of t p")
    case (Some e)
    show ?thesis
    proof (cases "IsDir (me_mode e)")
      case True
      then have d: "dir_at (map_of t) p" using Some by (simp add: dir_at_def)
      with Cons.IH [of t p] Cons.prems have "mkdirs_post t ps (fst (mkdirs now perm ps t)) (snd (mkdirs now perm ps t))"
        by simp
      with Some True d show ?thesis by (auto simp: mkdirs_post_def intro: dir_at_mono)
    qed (use Some Cons.prems in \<open>simp add: mkdirs_post_def\<close>)
  next
    case None
    let ?t = "AList.update p \<lparr>me_data = [], me_mode = ModeDir OR (perm AND ModePerm), me_modTime = now\<rparr> t"
    have M: "map_of ?t = (map_of t)(p \<mapsto> \<lparr>me_data = [], me_mode = ModeDir OR (perm AND ModePerm), me_modTime = now\<rparr>)"
      by (simp add: update_conv')
    have "map_ok (map_of ?t)"
      unfolding M using Cons.prems by (intro map_ok_update) (auto simp only: tree_ok_def dir_chain.simps IsDir_mkdir mem_entry.simps)
    then have ok: "tree_ok ?t" using Cons.prems(1) by (simp add: tree_ok_def distinct_update)
    have d: "dir_at (map_of ?t) p" by (simp add: M)
    have le: "map_of t \<subseteq>\<^sub>m map_of ?t" using None by (auto simp: M map_le_def)
    have "mkdirs_post ?t ps (fst (mkdirs now perm ps ?t)) (snd (mkdirs now perm ps ?t))"
      using Cons.IH [OF ok d] Cons.prems(3) by simp
    then have post: "tree_ok (fst (mkdirs now perm ps ?t))"
      and le': "map_of ?t \<subseteq>\<^sub>m map_of (fst (mkdirs now perm ps ?t))"
      and same: "\<And>q. q \<notin> set ps \<Longrightarrow> map_of (fst (mkdirs now perm ps ?t)) q = map_of ?t q"
      and dirs: "snd (mkdirs now perm ps ?t) = None \<Longrightarrow> \<forall>q \<in> set ps. dir_at (map_of (fst (mkdirs now perm ps ?t))) q"
      unfolding mkdirs_post_def by blast+
    have "dir_at (map_of (fst (mkdirs now perm ps ?t))) p" using d le' by (rule dir_at_mono)
    moreover have "map_of t \<subseteq>\<^sub>m map_of (fst (mkdirs now perm ps ?t))" using le le' by (rule map_le_trans)
    moreover have "map_of (fst (mkdirs now perm ps ?t)) q = map_of t q" if "q \<notin> set (p # ps)" for q
      using same [of q] that by (simp add: M)
    moreover have "mkdirs now perm (p # ps) t = mkdirs now perm ps ?t" using None by simp
    ultimately show ?thesis using post dirs unfolding mkdirs_post_def by simp
  qed
qed (simp add: mkdirs_post_def)

text \<open>Below a missing directory everything is missing, so a failing \<open>mkdirs\<close> has created nothing.\<close>

lemma mkdirs_no_error:
  "tree_ok t \<Longrightarrow> map_of t d = None \<Longrightarrow> d \<noteq> ''.'' \<Longrightarrow> dir_chain d ps \<Longrightarrow> \<forall>p \<in> set ps. map_of t p = None"
proof (induction ps arbitrary: d)
  case (Cons p ps)
  have "map_of t p = None"
  proof (rule ccontr)
    assume "map_of t p \<noteq> None"
    then obtain e where "map_of t p = Some e" by blast
    with Cons.prems have "dir_at (map_of t) d"
      using map_okD(2) [of "map_of t" p e] by (auto simp only: tree_ok_def dir_chain.simps)
    with Cons.prems(2) show False by (simp add: dir_at_def)
  qed
  with Cons show ?case by simp
qed simp

lemma mkdirs_fresh: "\<forall>p \<in> set ps. map_of t p = None \<Longrightarrow> distinct ps \<Longrightarrow> snd (mkdirs now perm ps t) = None"
proof (induction ps arbitrary: t)
  case (Cons p ps)
  have "\<forall>q \<in> set ps. map_of (AList.update p e t) q = None" for e
    using Cons.prems by (auto simp: update_conv')
  with Cons show ?case by simp
qed simp

lemma dir_chain_longer:
  "dir_chain d ps \<Longrightarrow> d \<noteq> ''.'' \<Longrightarrow> p \<in> set ps \<Longrightarrow> length d < length p"
proof (induction ps arbitrary: d)
  case (Cons x xs)
  then have "under d x" using under_parent by auto
  then have "length d < length x" by (auto simp: under_iff)
  with Cons show ?case by (metis dir_chain.simps(2) order_less_trans set_ConsD)
qed simp

lemma dir_chain_distinct: "dir_chain d ps \<Longrightarrow> distinct ps"
  by (induction ps arbitrary: d) (auto dest: dir_chain_longer)

lemma mkdirs_error_unchanged:
  assumes "tree_ok t" and "dir_at (map_of t) d" and "dir_chain d ps" and "snd (mkdirs now perm ps t) \<noteq> None"
  shows "fst (mkdirs now perm ps t) = t"
  using assms
proof (induction ps arbitrary: d)
  case (Cons p ps)
  show ?case
  proof (cases "map_of t p")
    case None
    let ?t = "AList.update p \<lparr>me_data = [], me_mode = ModeDir OR (perm AND ModePerm), me_modTime = now\<rparr> t"
    have "\<forall>q \<in> set ps. map_of t q = None"
      using mkdirs_no_error [of t p ps] Cons.prems None by simp
    moreover have "distinct (p # ps)" using Cons.prems(3) by (rule dir_chain_distinct)
    ultimately have "\<forall>q \<in> set ps. map_of ?t q = None" "distinct ps" by (auto simp: update_conv')
    then have "snd (mkdirs now perm (p # ps) t) = None" using None mkdirs_fresh by simp
    with Cons.prems(4) show ?thesis by blast
  next
    case (Some e)
    then show ?thesis using Cons.IH [of p] Cons.prems by (auto simp: dir_at_def split: if_splits)
  qed
qed simp

lemma MkdirAll_cases:
  assumes "mem_ok m" and "MkdirAll now m name perm = (m', err)"
  shows "mem_ok m'" and "map_of (mem_files m) \<subseteq>\<^sub>m map_of (mem_files m')"
    and "err \<noteq> None \<Longrightarrow> m' = m"
    and "err = None \<Longrightarrow> name \<noteq> ''.'' \<Longrightarrow> \<forall>p \<in> set (ancestors name). dir_at (map_of (mem_files m')) p"
    and "\<And>q. q \<notin> set (ancestors name) \<Longrightarrow> map_of (mem_files m') q = map_of (mem_files m) q"
proof -
  have all: "mem_ok m' \<and> map_of (mem_files m) \<subseteq>\<^sub>m map_of (mem_files m') \<and> (err \<noteq> None \<longrightarrow> m' = m)
    \<and> (err = None \<longrightarrow> name \<noteq> ''.'' \<longrightarrow> (\<forall>p \<in> set (ancestors name). dir_at (map_of (mem_files m')) p))
    \<and> (\<forall>q. q \<notin> set (ancestors name) \<longrightarrow> map_of (mem_files m') q = map_of (mem_files m) q)"
  proof (cases "ValidPath name \<and> name \<noteq> ''.''")
    case True
    then have ch: "dir_chain ''.'' (ancestors name)" by (simp add: ancestors_chain)
    have ok: "tree_ok (mem_files m)" and root: "dir_at (map_of (mem_files m)) ''.''"
      using assms(1) by (auto simp only: mem_ok_def tree_ok_def dest: map_ok_root)
    obtain t where t: "mkdirs now perm (ancestors name) (mem_files m) = (t, err)" "m' = m\<lparr>mem_files := t\<rparr>"
      using assms(2) True by (auto simp: MkdirAll_def split: prod.splits)
    from mkdirs_spec [OF ok root ch, of now perm] t(1)
    have "mkdirs_post (mem_files m) (ancestors name) t err" by simp
    moreover have "err \<noteq> None \<Longrightarrow> m' = m"
      using mkdirs_error_unchanged [OF ok root ch, of now perm] t by simp
    ultimately show ?thesis using t(2) by (auto simp: mkdirs_post_def mem_ok_def)
  qed (use assms in \<open>auto simp: MkdirAll_def split: if_splits\<close>)
  show "mem_ok m'" "map_of (mem_files m) \<subseteq>\<^sub>m map_of (mem_files m')" using all by blast+
  show "err \<noteq> None \<Longrightarrow> m' = m" using all by blast
  show "err = None \<Longrightarrow> name \<noteq> ''.'' \<Longrightarrow> \<forall>p \<in> set (ancestors name). dir_at (map_of (mem_files m')) p"
    using all by blast
  show "\<And>q. q \<notin> set (ancestors name) \<Longrightarrow> map_of (mem_files m') q = map_of (mem_files m) q"
    using all by blast
qed

section \<open>Renaming\<close>

lemma map_of_rev: "distinct (map fst xs) \<Longrightarrow> map_of (rev xs) = map_of xs"
proof (induction xs)
  case (Cons x xs)
  then have "fst x \<notin> dom (map_of xs)" by (simp add: dom_map_of_conv_image_fst)
  with Cons show ?case by (auto simp: map_add_def dom_def split: option.splits)
qed simp

lemma map_of_fold_update:
  "map_of (fold (\<lambda>(p, e). AList.update p e) xs t) = map_of t ++ map_of (rev xs)"
  by (induction xs arbitrary: t) (auto simp: update_conv')

lemma distinct_fold_update:
  "distinct (map fst t) \<Longrightarrow> distinct (map fst (fold (\<lambda>(p, e). AList.update p e) xs t))"
  by (induction xs arbitrary: t) (auto simp: distinct_update)

definition at_or_under :: "string \<Rightarrow> string \<Rightarrow> bool" where
  "at_or_under d p \<longleftrightarrow> p = d \<or> under d p"

lemma at_or_under_iff: "at_or_under d p \<longleftrightarrow> (\<exists>r. p = d @ r \<and> (r = [] \<or> (\<exists>s. r = slash # s)))"
  by (auto simp: at_or_under_def under_iff)

lemma map_of_moved:
  "map_of (map (\<lambda>(p, e). (new @ drop (length old) p, e)) (filter (\<lambda>(p, _). at_or_under old p) t)) q
     = (if at_or_under new q then map_of t (old @ drop (length new) q) else None)"
proof (induction t)
  case (Cons x t)
  obtain p e where x: "x = (p, e)" by force
  have "q = new @ drop (length old) p \<longleftrightarrow> at_or_under new q \<and> old @ drop (length new) q = p"
    if "at_or_under old p"
    using that by (auto simp: at_or_under_iff)
  moreover have "at_or_under old p" if "at_or_under new q" "old @ drop (length new) q = p"
    using that by (auto simp: at_or_under_iff)
  ultimately show ?case using Cons.IH x by auto
qed simp

definition rename_map :: "fs_map \<Rightarrow> string \<Rightarrow> string \<Rightarrow> fs_map" where
  "rename_map M old new q =
     (case (if at_or_under new q then M (old @ drop (length new) q) else None) of
        Some e \<Rightarrow> Some e
      | None \<Rightarrow> if at_or_under old q then None else M q)"

text \<open>The destination of a rename holds no entries besides those being moved.\<close>

definition rename_safe :: "memory \<Rightarrow> string \<Rightarrow> string \<Rightarrow> bool" where
  "rename_safe m old new \<longleftrightarrow>
     list_all (\<lambda>(p, _). under new p \<longrightarrow> p = old \<or> under old p) (mem_files m)"

lemma Rename_None:
  assumes "Rename m old new = (m', None)" and "mem_ok m"
  shows "ValidPath new" and "old \<noteq> ''.''" and "new \<noteq> ''.''" and "\<not> under old new"
    and "dir_at (map_of (mem_files m)) (parentOf new)" and "\<exists>e. map_of (mem_files m) old = Some e"
    and "distinct (map fst (mem_files m'))"
    and "map_of (mem_files m') = rename_map (map_of (mem_files m)) old new"
proof -
  let ?t = "mem_files m"
  let ?moved = "map (\<lambda>(p, e). (new @ drop (length old) p, e)) (filter (\<lambda>(p, _). at_or_under old p) ?t)"
  let ?rest = "filter (\<lambda>(p, _). \<not> at_or_under old p) ?t"
  have d: "distinct (map fst ?t)" using assms(2) by (simp add: mem_ok_def tree_ok_def)
  show "ValidPath new" "old \<noteq> ''.''" "new \<noteq> ''.''" "\<not> under old new"
    "dir_at (map_of ?t) (parentOf new)" "\<exists>e. map_of ?t old = Some e"
    using assms(1) by (auto simp: Rename_def lookup_Inr requireDir_None Let_def simp del: map_of_eq_Some_iff
        split: sum.splits if_splits option.splits)
  have m': "mem_files m' = fold (\<lambda>(p, e). AList.update p e) ?moved ?rest"
    using assms(1) by (auto simp: Rename_def Let_def at_or_under_def case_prod_unfold
        split: sum.splits if_splits option.splits)
  show "distinct (map fst (mem_files m'))"
    unfolding m' by (intro distinct_fold_update distinct_filter_keys d)
  have rev: "rev ?moved = map (\<lambda>(p, e). (new @ drop (length old) p, e)) (filter (\<lambda>(p, _). at_or_under old p) (rev ?t))"
    by (simp add: rev_map rev_filter)
  show "map_of (mem_files m') = rename_map (map_of ?t) old new"
  proof
    fix q
    show "map_of (mem_files m') q = rename_map (map_of ?t) old new q"
      unfolding m' map_of_fold_update rev map_add_def map_of_moved map_of_rev [OF d] rename_map_def
        map_of_filter_key
      by (simp split: option.splits)
  qed
qed

lemma parentOf_below:
  obtains r' where "r' = [] \<or> (\<exists>s'. r' = slash # s')" and "\<And>d. parentOf (d @ slash # s) = d @ r'"
proof (cases "slash \<in> set s")
  case True
  then obtain b where b: "s = parentOf s @ slash # b" "slash \<notin> set b" by (rule parentOf_split)
  have "parentOf (d @ slash # s) = d @ slash # parentOf s" for d
    using b by (metis append.assoc append_Cons parentOf_join)
  then show thesis using that [of "slash # parentOf s"] by simp
qed (use that [of "[]"] in simp)

lemma at_or_under_parent: "at_or_under d (parentOf q) \<Longrightarrow> d \<noteq> ''.'' \<Longrightarrow> under d q"
  unfolding at_or_under_def using under_parent under_of_parent by blast

lemma rename_map_moved:
  "M (old @ r) = Some e \<Longrightarrow> r = [] \<or> (\<exists>s. r = slash # s) \<Longrightarrow> rename_map M old new (new @ r) = Some e"
  by (auto simp: rename_map_def at_or_under_iff)

lemma rename_map_other:
  "\<not> at_or_under old q \<Longrightarrow> \<not> at_or_under new q \<Longrightarrow> rename_map M old new q = M q"
  by (simp add: rename_map_def)

lemma rename_map_ok:
  assumes ok: "map_ok M" and src: "M old = Some e" and new: "ValidPath new" "old \<noteq> ''.''" "new \<noteq> ''.''"
    and notin: "\<not> under old new" and par: "dir_at M (parentOf new)"
    and safe: "\<And>p x. M p = Some x \<Longrightarrow> under new p \<Longrightarrow> at_or_under old p"
  shows "map_ok (rename_map M old new)"
proof -
  let ?N = "rename_map M old new"
  have stays: "dir_at ?N q" if "dir_at M q" "\<not> at_or_under old q" "\<not> at_or_under new q" for q
    using that by (simp add: dir_at_def rename_map_other)
  have pnew: "dir_at ?N (parentOf new)"
    using par notin new by (intro stays) (auto dest: at_or_under_parent)
  have root: "dir_at ?N ''.''"
    using map_ok_root [OF ok] new by (intro stays) (auto simp: at_or_under_def)
  have "ValidPath q \<and> (q \<noteq> ''.'' \<longrightarrow> dir_at ?N (parentOf q))" if q: "?N q = Some x" for q x
  proof (cases "at_or_under new q \<and> M (old @ drop (length new) q) = Some x")
    case True
    then obtain r where r: "q = new @ r" "r = [] \<or> (\<exists>s. r = slash # s)" "M (old @ r) = Some x"
      by (auto simp: at_or_under_iff)
    have valid: "ValidPath (old @ r)" using map_okD(1) [OF ok r(3)] .
    show ?thesis
    proof (cases r)
      case Nil
      with r pnew new show ?thesis by simp
    next
      case (Cons c s)
      with r have rs: "r = slash # s" by simp
      obtain r' where r': "r' = [] \<or> (\<exists>s'. r' = slash # s')" "\<And>d. parentOf (d @ slash # s) = d @ r'"
        by (rule parentOf_below [of s]) blast
      have "old @ r \<noteq> ''.''" using rs by (cases old) auto
      then have "dir_at M (old @ r')" using map_okD(2) [OF ok r(3)] r'(2) rs by simp
      then have "dir_at ?N (new @ r')" using r'(1) by (auto simp: dir_at_def dest: rename_map_moved)
      then show ?thesis using r rs r'(2) valid new map_okD(1) [OF ok src] ValidPath_rebase [of old s new] by simp
    qed
  next
    case False
    have old: "\<not> at_or_under old q" and Mq: "M q = Some x"
      using q False by (auto simp: rename_map_def split: if_splits option.splits)
    have "\<not> at_or_under new q"
    proof
      assume "at_or_under new q"
      then show False
        using safe [OF Mq] old src q False rename_map_moved [of M old "[]" e new] by (auto simp: at_or_under_def)
    qed
    then show ?thesis
      using old Mq map_okD [OF ok Mq] new stays at_or_under_parent unfolding at_or_under_def by metis
  qed
  with root show ?thesis unfolding map_ok_def by blast
qed

lemma Rename_ok:
  assumes "mem_ok m" and "Rename m old new = (m', err)" and "rename_safe m old new"
  shows "mem_ok m'"
proof (cases err)
  case (Some e)
  with assms(1,2) show ?thesis by (auto simp: Rename_def Let_def split: sum.splits if_splits option.splits)
next
  case None
  note R = Rename_None [OF assms(2) [unfolded None] assms(1)]
  from R(6) obtain e where e: "map_of (mem_files m) old = Some e" by blast
  have "map_ok (rename_map (map_of (mem_files m)) old new)"
  proof (rule rename_map_ok [OF _ e R(1-5)])
    show "map_ok (map_of (mem_files m))" using assms(1) by (simp only: mem_ok_def tree_ok_def)
    fix p x
    assume "map_of (mem_files m) p = Some x" "under new p"
    with map_of_SomeD assms(3) show "at_or_under old p"
      by (fastforce simp: rename_safe_def list_all_iff at_or_under_def)
  qed
  with R(7,8) show ?thesis by (simp add: mem_ok_def tree_ok_def)
qed

end
