(* ===== verification/Memory_Merge.thy ===== *)
theory Memory_Merge
  imports Memory_Correct
begin

text \<open>
  Isolated copies of the in-memory workspace, their merge back, and the marks that change
  tracking compares against. The central fact is that \<open>finish\<close> is a conflict-checked
  three-way merge at the level of the map from paths to entries, and that a merge of two
  well-formed trees grown from the same base is well formed again although it is done path by
  path.
\<close>

section \<open>Differences between trees\<close>

definition changed_at :: "fs_map \<Rightarrow> fs_map \<Rightarrow> string \<Rightarrow> bool" where
  "changed_at A B p \<longleftrightarrow>
     (case A p of None \<Rightarrow> B p \<noteq> None
      | Some x \<Rightarrow> (case B p of None \<Rightarrow> True | Some y \<Rightarrow> entry_differs x y))"

lemma set_changedPaths:
  assumes "distinct (map fst a)" and "distinct (map fst b)"
  shows "set (changedPaths a b) = {p. changed_at (map_of a) (map_of b) p}"
proof -
  have a: "(p, x) \<in> set a \<longleftrightarrow> map_of a p = Some x" and b: "(p, x) \<in> set b \<longleftrightarrow> map_of b p = Some x" for p x
    using assms by simp_all
  show ?thesis
    unfolding changedPaths_def changed_at_def set_sort set_append set_map set_filter
    by (auto simp: image_iff case_prod_unfold a b simp del: map_of_eq_Some_iff split: option.splits)
       (force simp: a b simp del: map_of_eq_Some_iff split: option.splits)+
qed

lemma changedPaths_sorted: "sorted (changedPaths a b)"
  by (simp add: changedPaths_def)

lemma distinct_changedPaths:
  assumes "distinct (map fst a)" and "distinct (map fst b)"
  shows "distinct (changedPaths a b)"
proof -
  have "set (map fst (filter P a)) \<inter> set (map fst (filter (\<lambda>(p, _). map_of a p = None) b)) = {}" for P
    by (force simp: map_of_eq_None_iff)
  then show ?thesis
    using assms by (auto simp: changedPaths_def distinct_map_filter simp del: set_map)
qed

lemma map_of_apply_changes:
  "map_of (apply_changes worker changed t) q = (if q \<in> set changed then map_of worker q else map_of t q)"
proof (induction changed arbitrary: t)
  case (Cons p ps)
  show ?case
    unfolding apply_changes_def fold_Cons o_apply
    using Cons.IH [unfolded apply_changes_def]
    by (auto simp: update_conv' delete_conv' split: option.splits)
qed (simp add: apply_changes_def)

lemma distinct_apply_changes:
  "distinct (map fst t) \<Longrightarrow> distinct (map fst (apply_changes worker changed t))"
proof (induction changed arbitrary: t)
  case (Cons p ps)
  then show ?case
    unfolding apply_changes_def fold_Cons o_apply
    by (auto simp: distinct_update distinct_delete split: option.splits)
qed (simp add: apply_changes_def)

lemma set_Conflicts: "set (Conflicts xs ys) = {p \<in> set xs. \<exists>q \<in> set ys. overlap p q}"
  by (auto simp: Conflicts_def list_ex_iff)

lemma unchanged_dir: "\<not> changed_at A B p \<Longrightarrow> dir_at A p \<longleftrightarrow> dir_at B p"
  by (auto simp: changed_at_def dir_at_def entry_differs_def split: option.splits)

lemma unchanged_present: "\<not> changed_at A B p \<Longrightarrow> A p = None \<longleftrightarrow> B p = None"
  by (auto simp: changed_at_def split: option.splits)

definition merge_map :: "fs_map \<Rightarrow> fs_map \<Rightarrow> fs_map \<Rightarrow> fs_map" where
  "merge_map B W P q = (if changed_at B W q then W q else P q)"

lemma merge_map_ok:
  assumes B: "map_ok B" and W: "map_ok W" and P: "map_ok P"
    and clear: "\<And>p q. changed_at B W p \<Longrightarrow> changed_at B P q \<Longrightarrow> \<not> overlap p q"
  shows "map_ok (merge_map B W P)"
proof -
  let ?N = "merge_map B W P"
  have root: "dir_at ?N ''.''"
    using map_ok_root [OF W] map_ok_root [OF P] by (simp add: dir_at_def merge_map_def)
  have "dir_at ?N (parentOf p)" if Np: "?N p = Some e" and p: "p \<noteq> ''.''" for p e
  proof (cases "parentOf p = ''.''")
    case False
    let ?d = "parentOf p"
    have ov: "overlap p ?d" "overlap ?d p" using False under_parent by (auto simp: overlap_def)
    show ?thesis
    proof (cases "changed_at B W p")
      case True
      with Np have "dir_at W ?d" using map_okD(2) [OF W] p by (simp add: merge_map_def)
      moreover have "dir_at P ?d" if "\<not> changed_at B W ?d"
        using calculation that True clear ov unchanged_dir by metis
      ultimately show ?thesis by (auto simp: dir_at_def merge_map_def)
    next
      case False
      with Np have Pp: "P p = Some e" by (simp add: merge_map_def)
      then have "dir_at P ?d" using map_okD(2) [OF P] p by simp
      moreover have "dir_at W ?d" if "changed_at B W ?d"
      proof -
        have "\<not> changed_at B P p" using that clear ov by blast
        then have "W p \<noteq> None" using Pp False unchanged_present by (metis option.distinct(1))
        then show ?thesis using map_okD(2) [OF W] p by blast
      qed
      ultimately show ?thesis by (auto simp: dir_at_def merge_map_def)
    qed
  qed (use root in simp)
  moreover have "ValidPath p" if "?N p = Some e" for p e
    using that map_okD(1) [OF W] map_okD(1) [OF P] by (auto simp: merge_map_def split: if_splits)
  ultimately show ?thesis using root unfolding map_ok_def by blast
qed

lemma finish_cases:
  assumes "tree_ok base" and "mem_ok m" and "mem_ok child"
  defines "B \<equiv> map_of base" and "W \<equiv> map_of (mem_files child)" and "P \<equiv> map_of (mem_files m)"
  obtains (discard) "\<not> merge"
      and "finish base child job merge m
           = (m, \<lparr>mr_changed = changedPaths base (mem_files child), mr_merged = False, mr_conflicting = [], mr_kept = []\<rparr>)"
  | (conflict) c where "merge" and "c \<noteq> []"
      and "set c = {p. changed_at B W p \<and> (\<exists>q. changed_at B P q \<and> overlap p q)}"
      and "finish base child job merge m
           = (m, \<lparr>mr_changed = changedPaths base (mem_files child), mr_merged = False, mr_conflicting = c,
                  mr_kept = ''memory:'' @ job\<rparr>)"
  | (merged) m' where "merge" and "\<And>p q. changed_at B W p \<Longrightarrow> changed_at B P q \<Longrightarrow> \<not> overlap p q"
      and "finish base child job merge m
           = (m', \<lparr>mr_changed = changedPaths base (mem_files child), mr_merged = True, mr_conflicting = [], mr_kept = []\<rparr>)"
      and "map_of (mem_files m') = merge_map B W P" and "mem_ok m'"
      and "mem_marks m' = mem_marks m" and "mem_markSeq m' = mem_markSeq m"
proof -
  have d: "distinct (map fst base)" "distinct (map fst (mem_files m))" "distinct (map fst (mem_files child))"
    using assms(1-3) by (auto simp: mem_ok_def tree_ok_def)
  let ?cw = "changedPaths base (mem_files child)" and ?cp = "changedPaths base (mem_files m)"
  have cw: "set ?cw = {p. changed_at B W p}" and cp: "set ?cp = {p. changed_at B P p}"
    unfolding B_def W_def P_def using d by (simp_all only: set_changedPaths)
  let ?c = "Conflicts ?cw ?cp"
  have c: "set ?c = {p. changed_at B W p \<and> (\<exists>q. changed_at B P q \<and> overlap p q)}"
    unfolding set_Conflicts cw cp by blast
  consider "\<not> merge" | "merge" "?c \<noteq> []" | "merge" "?c = []" by blast
  then show thesis
  proof cases
    case 1
    then show thesis by (intro discard) (simp_all add: finish_def Let_def snapshot_def)
  next
    case 2
    then show thesis by (intro conflict [of ?c]) (simp_all add: finish_def Let_def snapshot_def c)
  next
    case 3
    let ?t = "apply_changes (mem_files child) ?cw (mem_files m)"
    have clear: "\<And>p q. changed_at B W p \<Longrightarrow> changed_at B P q \<Longrightarrow> \<not> overlap p q"
      using c 3(2) by auto
    have map: "map_of ?t = merge_map B W P"
    proof
      fix q
      show "map_of ?t q = merge_map B W P q"
        unfolding map_of_apply_changes cw merge_map_def by (simp add: W_def P_def)
    qed
    have "map_ok (merge_map B W P)"
      using clear assms(1-3) unfolding B_def W_def P_def
      by (intro merge_map_ok) (auto simp only: mem_ok_def tree_ok_def)
    then have "tree_ok ?t" using d map by (simp add: tree_ok_def distinct_apply_changes)
    then show thesis
      using 3 clear map
      by (intro merged [of "m\<lparr>mem_files := ?t\<rparr>"]) (simp_all add: finish_def Let_def snapshot_def mem_ok_def)
  qed
qed

section \<open>Reachable states\<close>

text \<open>
  Every state a workspace can get into through its interface. A merge takes any reachable base,
  worker copy and parent, so the relation covers every interleaving of the parent's operations,
  the workers' operations and the merges. The one restriction is on renames, whose destination
  must not hold entries of its own (see \<open>rename_onto_directory_orphans\<close>).
\<close>

inductive reachable :: "memory \<Rightarrow> bool" where
  reach_new: "reachable NewMemory"
| reach_write: "reachable m \<Longrightarrow> reachable (fst (WriteFile now m name data perm))"
| reach_mkdir: "reachable m \<Longrightarrow> reachable (fst (MkdirAll now m name perm))"
| reach_remove: "reachable m \<Longrightarrow> reachable (fst (Remove m name))"
| reach_removeall: "reachable m \<Longrightarrow> reachable (fst (RemoveAll m name))"
| reach_rename: "reachable m \<Longrightarrow> rename_safe m old new \<Longrightarrow> reachable (fst (Rename m old new))"
| reach_isolate: "reachable m \<Longrightarrow> reachable (snd (Isolate m))"
| reach_finish: "reachable m0 \<Longrightarrow> reachable child \<Longrightarrow> reachable m
    \<Longrightarrow> reachable (fst (finish (fst (Isolate m0)) child job merge m))"
| reach_mark: "reachable m \<Longrightarrow> reachable (fst (Mark m))"
| reach_release: "reachable m \<Longrightarrow> reachable (Release m mark)"

inductive_simps reachable_new_simp: "reachable NewMemory"

lemma Isolate_simps [simp]:
  "fst (Isolate m) = mem_files m" "mem_files (snd (Isolate m)) = mem_files m"
  "mem_marks (snd (Isolate m)) = []" "mem_markSeq (snd (Isolate m)) = 0"
  by (simp_all add: Isolate_def snapshot_def Let_def)

lemma mem_ok_same_files:
  "mem_ok m \<Longrightarrow> mem_ok (snd (Isolate m))" "mem_ok m \<Longrightarrow> mem_ok (fst (Mark m))" "mem_ok m \<Longrightarrow> mem_ok (Release m mark)"
  by (simp_all add: mem_ok_def Mark_def Release_def Let_def)

lemma reachable_mem_ok: "reachable m \<Longrightarrow> mem_ok m"
proof (induction rule: reachable.induct)
  case (reach_write m now name data perm)
  then show ?case using WriteFile_ok [OF _ surjective_pairing] by blast
next
  case (reach_mkdir m now name perm)
  then show ?case using MkdirAll_cases(1) [OF _ surjective_pairing] by blast
next
  case (reach_rename m old new)
  then show ?case using Rename_ok [OF _ surjective_pairing] by blast
next
  case (reach_finish m0 child m job merge)
  then have "tree_ok (mem_files m0)" by (simp add: mem_ok_def)
  from this reach_finish.IH(3,2) show ?case
    by (rule finish_cases [of "mem_files m0" m child merge job]) (auto simp: reach_finish.IH)
qed (auto simp: NewMemory_ok Remove_ok RemoveAll_ok mem_ok_same_files)

end
