(* ===== verification/Memory_Props.thy ===== *)
theory Memory_Props
  imports Memory_Merge
begin

text \<open>The properties of the in-memory workspace, each over the operations of \<open>Memory_FS\<close>.\<close>

section \<open>Marks\<close>

definition marks_ok :: "memory \<Rightarrow> bool" where
  "marks_ok m \<longleftrightarrow> 0 \<le> mem_markSeq m
     \<and> (\<forall>id base. map_of (mem_marks m) id = Some base
          \<longrightarrow> tree_ok base \<and> (\<exists>k. 1 \<le> k \<and> int k \<le> mem_markSeq m \<and> id = itoa_nat k))"

lemma same_marks_ok:
  "marks_ok m \<Longrightarrow> mem_marks m' = mem_marks m \<Longrightarrow> mem_markSeq m' = mem_markSeq m \<Longrightarrow> marks_ok m'"
  by (simp add: marks_ok_def)

lemma ops_keep_marks:
  "mem_marks (fst (WriteFile now m name data perm)) = mem_marks m \<and> mem_markSeq (fst (WriteFile now m name data perm)) = mem_markSeq m"
  "mem_marks (fst (MkdirAll now m name perm)) = mem_marks m \<and> mem_markSeq (fst (MkdirAll now m name perm)) = mem_markSeq m"
  "mem_marks (fst (Remove m name)) = mem_marks m \<and> mem_markSeq (fst (Remove m name)) = mem_markSeq m"
  "mem_marks (fst (RemoveAll m name)) = mem_marks m \<and> mem_markSeq (fst (RemoveAll m name)) = mem_markSeq m"
  "mem_marks (fst (Rename m old new)) = mem_marks m \<and> mem_markSeq (fst (Rename m old new)) = mem_markSeq m"
  "mem_marks (fst (finish base child job merge m)) = mem_marks m \<and> mem_markSeq (fst (finish base child job merge m)) = mem_markSeq m"
  by (auto simp: WriteFile_def MkdirAll_def Remove_def RemoveAll_def Rename_def finish_def Let_def
      split: option.splits sum.splits prod.splits)

lemma Mark_simps:
  "mem_files (fst (Mark m)) = mem_files m" "snd (Mark m) = itoa_nat (nat (mem_markSeq m + 1))"
  "map_of (mem_marks (fst (Mark m))) = (map_of (mem_marks m))(snd (Mark m) \<mapsto> mem_files m)"
  "mem_markSeq (fst (Mark m)) = mem_markSeq m + 1"
  by (simp_all add: Mark_def Let_def update_conv' snapshot_def)

lemma Mark_marks_ok:
  assumes "mem_ok m" and "marks_ok m"
  shows "marks_ok (fst (Mark m))"
proof -
  have seq: "0 \<le> mem_markSeq m" using assms(2) by (simp add: marks_ok_def)
  have old: "tree_ok base \<and> (\<exists>k. 1 \<le> k \<and> int k \<le> mem_markSeq m + 1 \<and> id = itoa_nat k)"
    if "map_of (mem_marks m) id = Some base" for id base
    using assms(2) that unfolding marks_ok_def by (meson add_increasing2 zero_le_one order_trans)
  have new: "\<exists>k. 1 \<le> k \<and> int k \<le> mem_markSeq m + 1 \<and> itoa_nat (nat (mem_markSeq m + 1)) = itoa_nat k"
    using seq by (intro exI [of _ "nat (mem_markSeq m + 1)"]) auto
  show ?thesis
    unfolding marks_ok_def Mark_simps
    using old new seq assms(1) by (auto simp: mem_ok_def split: if_splits)
qed

lemma reachable_marks_ok: "reachable m \<Longrightarrow> marks_ok m"
proof (induction rule: reachable.induct)
  case reach_new
  show ?case by (simp add: marks_ok_def NewMemory_def)
next
  case (reach_isolate m)
  show ?case by (simp add: marks_ok_def)
next
  case (reach_mark m)
  then show ?case by (simp add: Mark_marks_ok reachable_mem_ok)
next
  case (reach_release m mark)
  then show ?case by (auto simp: marks_ok_def Release_def delete_conv' split: if_splits)
next
  case (reach_finish m0 child m job merge)
  then show ?case using same_marks_ok [OF reach_finish.IH(3)] ops_keep_marks(6) by blast
qed (erule same_marks_ok; simp add: ops_keep_marks)+

section \<open>Reading and writing\<close>

lemma ReadFile_Inr:
  "ReadFile m name = Inr d \<longleftrightarrow>
     ValidPath name \<and> (\<exists>e. map_of (mem_files m) name = Some e \<and> \<not> IsDir (me_mode e) \<and> me_data e = d)"
  by (auto simp: ReadFile_def lookup_Inr split: sum.splits if_splits)
     (auto simp: lookup_def split: if_splits option.splits)

lemma ReadFile_cong:
  "map_of (mem_files m) name = map_of (mem_files m') name \<Longrightarrow> ReadFile m name = ReadFile m' name"
  by (simp add: ReadFile_def lookup_def)


definition demo_mem :: memory where
  "demo_mem = fst (WriteFile 7 (fst (MkdirAll 5 NewMemory ''a/b'' 0x1ED)) ''a/b/f'' ''one'' 0x1A4)"

lemma demo_reachable: "reachable demo_mem"
  unfolding demo_mem_def by (intro reachable.intros)

lemma demo_paths: "map fst (mem_files demo_mem) = [''.'', ''a'', ''a/b'', ''a/b/f'']"
  by code_simp


lemma WriteFile_spec:
  assumes "mem_ok m" and "WriteFile now m name data perm = (m', err)"
  shows "err = None \<longleftrightarrow> ValidPath name \<and> name \<noteq> ''.'' \<and> dir_at (map_of (mem_files m)) (parentOf name)
           \<and> \<not> dir_at (map_of (mem_files m)) name"
    and "err = None \<Longrightarrow> ReadFile m' name = Inr data \<and> (\<forall>q. q \<noteq> name \<longrightarrow> ReadFile m' q = ReadFile m q)"
    and "err \<noteq> None \<Longrightarrow> m' = m"
proof -
  have "ValidPath (parentOf name)" if "dir_at (map_of (mem_files m)) (parentOf name)"
    using that assms(1) map_okD(1) by (auto simp only: mem_ok_def tree_ok_def dir_at_def)
  then show "err = None \<longleftrightarrow> ValidPath name \<and> name \<noteq> ''.'' \<and> dir_at (map_of (mem_files m)) (parentOf name)
           \<and> \<not> dir_at (map_of (mem_files m)) name"
    using assms(2) requireDir_None [of m "''write''" "parentOf name"]
    by (auto simp: WriteFile_def dir_at_def simp del: map_of_eq_Some_iff split: if_splits option.splits)
  show "ReadFile m' name = Inr data \<and> (\<forall>q. q \<noteq> name \<longrightarrow> ReadFile m' q = ReadFile m q)" if "err = None"
    using assms(2) [unfolded that]
    by (rule WriteFile_None) (auto simp: ReadFile_Inr update_conv' intro: ReadFile_cong)
  show "m' = m" if "err \<noteq> None"
    using that assms(2) WriteFile_Some by auto
qed

text \<open>
  A write succeeds exactly when the name is a valid path below the root, its parent
  is a directory and it is not itself one. Then reading the name gives the written bytes and
  every other name reads as before; a failed write changes nothing.
\<close>

theorem write_read_roundtrip:
  assumes "mem_ok m" and "WriteFile now m name data perm = (m', err)"
  shows "(err = None \<longleftrightarrow> ValidPath name \<and> name \<noteq> ''.'' \<and> dir_at (map_of (mem_files m)) (parentOf name)
            \<and> \<not> dir_at (map_of (mem_files m)) name)
    \<and> (if err = None then ReadFile m' name = Inr data \<and> (\<forall>q. q \<noteq> name \<longrightarrow> ReadFile m' q = ReadFile m q)
       else m' = m)"
  using WriteFile_spec [OF assms] by presburger

lemma demo_mem_ok: "mem_ok demo_mem"
  using demo_reachable by (rule reachable_mem_ok)

theorem write_read_roundtrip_witness:
  "snd (WriteFile 9 demo_mem ''a/g'' ''two'' 0x1A4) = None
   \<and> ReadFile (fst (WriteFile 9 demo_mem ''a/g'' ''two'' 0x1A4)) ''a/g'' = Inr ''two''"
proof -
  have "snd (WriteFile 9 demo_mem ''a/g'' ''two'' 0x1A4) = None" by code_simp
  with write_read_roundtrip [OF demo_mem_ok surjective_pairing, of 9 "''a/g''" "''two''" "0x1A4"]
  show ?thesis by simp
qed

text \<open>
  \<open>MkdirAll\<close> on a well-formed workspace either makes the named directory and all its
  ancestors directories, keeping every existing entry and creating nothing else, or fails and
  changes nothing at all although it creates the path element by element.
\<close>

theorem mkdir_all_or_nothing:
  assumes "mem_ok m" and "MkdirAll now m name perm = (m', err)"
  shows "mem_ok m' \<and> map_of (mem_files m) \<subseteq>\<^sub>m map_of (mem_files m')
    \<and> (if err = None
       then (name \<noteq> ''.'' \<longrightarrow> (\<forall>p \<in> set (ancestors name). dir_at (map_of (mem_files m')) p))
            \<and> (\<forall>q. q \<notin> set (ancestors name) \<longrightarrow> map_of (mem_files m') q = map_of (mem_files m) q)
       else m' = m)"
  using MkdirAll_cases [OF assms] by simp

theorem mkdir_all_or_nothing_witness:
  "snd (MkdirAll 9 demo_mem ''a/b/f/g'' 0x1ED) = Some (PathError ''mkdir'' ''a/b/f'' ErrInvalid)
   \<and> fst (MkdirAll 9 demo_mem ''a/b/f/g'' 0x1ED) = demo_mem
   \<and> dir_at (map_of (mem_files (fst (MkdirAll 9 demo_mem ''x/y'' 0x1ED)))) ''x''"
proof -
  have err: "snd (MkdirAll 9 demo_mem ''a/b/f/g'' 0x1ED) = Some (PathError ''mkdir'' ''a/b/f'' ErrInvalid)"
    and ok: "snd (MkdirAll 9 demo_mem ''x/y'' 0x1ED) = None" and anc: "''x'' \<in> set (ancestors ''x/y'')"
    by code_simp+
  then show ?thesis
    using mkdir_all_or_nothing [OF demo_mem_ok surjective_pairing, of 9 "''a/b/f/g''" "0x1ED"]
      mkdir_all_or_nothing [OF demo_mem_ok surjective_pairing, of 9 "''x/y''" "0x1ED"]
    by simp
qed

section \<open>Renaming\<close>

lemma rename_map_gone: "\<not> at_or_under new q \<Longrightarrow> at_or_under old q \<Longrightarrow> rename_map M old new q = None"
  by (simp add: rename_map_def)

text \<open>
  A successful rename to a destination that holds no other entries moves the whole
  subtree: what was below the old name reads the same below the new one, nothing is left at the
  old name (unless it lies inside the new one), everything else is untouched, and the workspace
  stays well formed.
\<close>

theorem rename_moves_subtree:
  assumes "mem_ok m" and "Rename m old new = (m', None)" and "rename_safe m old new"
  shows "mem_ok m'
    \<and> (\<forall>r e. (r = [] \<or> hd r = slash) \<longrightarrow> map_of (mem_files m) (old @ r) = Some e
          \<longrightarrow> map_of (mem_files m') (new @ r) = Some e)
    \<and> (\<forall>q. at_or_under old q \<longrightarrow> \<not> at_or_under new q \<longrightarrow> map_of (mem_files m') q = None)
    \<and> (\<forall>q. \<not> at_or_under old q \<longrightarrow> \<not> at_or_under new q
          \<longrightarrow> map_of (mem_files m') q = map_of (mem_files m) q)"
proof -
  note R = Rename_None [OF assms(2,1)]
  have starts: "r = [] \<or> hd r = slash \<Longrightarrow> r = [] \<or> (\<exists>s. r = slash # s)" for r by (cases r) auto
  show ?thesis
    using Rename_ok [OF assms] starts unfolding R(8)
    by (simp add: rename_map_moved rename_map_gone rename_map_other)
qed

theorem rename_moves_subtree_witness:
  "map_of (mem_files (fst (Rename demo_mem ''a/b'' ''c''))) ''c/f''
     = Some \<lparr>me_data = ''one'', me_mode = 0x1A4, me_modTime = 7\<rparr>
   \<and> map_of (mem_files (fst (Rename demo_mem ''a/b'' ''c''))) ''a/b/f'' = None"
proof -
  have ok: "Rename demo_mem ''a/b'' ''c'' = (fst (Rename demo_mem ''a/b'' ''c''), None)"
    and safe: "rename_safe demo_mem ''a/b'' ''c''"
    and src: "map_of (mem_files demo_mem) (''a/b'' @ ''/f'') = Some \<lparr>me_data = ''one'', me_mode = 0x1A4, me_modTime = 7\<rparr>"
    and old: "at_or_under ''a/b'' ''a/b/f''" "\<not> at_or_under ''c'' ''a/b/f''"
    by code_simp+
  from rename_moves_subtree [OF demo_mem_ok ok safe] src old show ?thesis
    by (metis append_Cons append_Nil list.sel(1))
qed

text \<open>
  Without the restriction the invariant is lost: renaming a file onto a directory that still has
  entries succeeds and leaves those entries below a path that is now a plain file.
\<close>

lemma rename_onto_directory_orphans:
  "let m = fst (WriteFile 8 demo_mem ''g'' ''two'' 0x1A4); r = Rename m ''g'' ''a/b'' in
   snd r = None \<and> ReadFile (fst r) ''a/b'' = Inr ''two'' \<and> ReadFile (fst r) ''a/b/f'' = Inr ''one''"
  by code_simp

section \<open>Worker copies and their merge\<close>

text \<open>
  Claim C2. Ending a worker's copy with a merge is all or nothing. If some path the worker
  changed overlaps one the parent changed since the copy was made (equal, or one inside the
  other) the parent is left exactly as it is, the conflicting paths are those overlapping ones and
  the copy is kept. Otherwise the parent afterwards has the worker's entry at every path the
  worker changed and its own entry everywhere else, and is well formed.
\<close>

theorem merge_three_way:
  assumes "tree_ok base" and "mem_ok m" and "mem_ok child"
    and "finish base child job True m = (m', res)"
  defines "W p \<equiv> changed_at (map_of base) (map_of (mem_files child)) p"
    and "P p \<equiv> changed_at (map_of base) (map_of (mem_files m)) p"
  shows "set (mr_changed res) = {p. W p}
    \<and> set (mr_conflicting res) = {p. W p \<and> (\<exists>q. P q \<and> overlap p q)}
    \<and> (if \<exists>p q. W p \<and> P q \<and> overlap p q
       then m' = m \<and> \<not> mr_merged res \<and> mr_kept res = ''memory:'' @ job
       else mr_merged res \<and> mr_kept res = [] \<and> mem_ok m'
         \<and> (\<forall>q. map_of (mem_files m') q
               = (if W q then map_of (mem_files child) q else map_of (mem_files m) q)))"
proof -
  have ch: "set (changedPaths base (mem_files child)) = {p. W p}"
    unfolding W_def using assms(1-3) by (intro set_changedPaths) (auto simp: tree_ok_def mem_ok_def)
  from assms(1-3) show ?thesis
  proof (cases rule: finish_cases [of base m child True job])
    case (conflict c)
    from conflict(2) obtain p where "p \<in> set c" by (cases c) auto
    then have "\<exists>p q. W p \<and> P q \<and> overlap p q" using conflict(3) unfolding W_def P_def by blast
    then show ?thesis using conflict ch assms(4) by (auto simp: W_def P_def)
  next
    case (merged n)
    then have none: "\<not> (\<exists>p q. W p \<and> P q \<and> overlap p q)" by (auto simp: W_def P_def)
    then show ?thesis using merged ch assms(4) by (auto simp: merge_map_def W_def P_def)
  qed simp
qed

definition demo_child :: memory where
  "demo_child = fst (WriteFile 9 (snd (Isolate demo_mem)) ''a/b/g'' ''new'' 0x1A4)"

definition demo_parent :: memory where
  "demo_parent = fst (WriteFile 9 demo_mem ''top'' ''mine'' 0x1A4)"

lemma demo_copies_ok: "mem_ok demo_child" "mem_ok demo_parent" "tree_ok (mem_files demo_mem)"
  using demo_mem_ok WriteFile_ok [OF _ surjective_pairing]
  by (auto simp: demo_child_def demo_parent_def mem_ok_same_files mem_ok_def [symmetric])

theorem merge_three_way_witness:
  "mr_merged (snd (finish (mem_files demo_mem) demo_child ''7'' True demo_parent))
   \<and> set (mr_changed (snd (finish (mem_files demo_mem) demo_child ''7'' True demo_parent)))
       = {p. changed_at (map_of (mem_files demo_mem)) (map_of (mem_files demo_child)) p}
   \<and> mr_changed (snd (finish (mem_files demo_mem) demo_child ''7'' True demo_parent)) = [''a/b/g'']"
proof -
  have "mr_merged (snd (finish (mem_files demo_mem) demo_child ''7'' True demo_parent))"
    and "mr_changed (snd (finish (mem_files demo_mem) demo_child ''7'' True demo_parent)) = [''a/b/g'']"
    by code_simp+
  with merge_three_way [OF demo_copies_ok(3,2,1) surjective_pairing, of "''7''"] show ?thesis by blast
qed

section \<open>Change tracking\<close>

lemma ChangedSince_Some:
  assumes "map_of (mem_marks m) mark = Some base" and "tree_ok base" and "mem_ok m"
  defines "B \<equiv> map_of base" and "N \<equiv> map_of (mem_files m)"
  obtains cs where "ChangedSince m mark = Some cs"
    and "sorted (map fc_path cs)" and "distinct (map fc_path cs)"
    and "set cs = {\<lparr>fc_path = p, fc_before = map_option me_data (B p), fc_after = map_option me_data (N p)\<rparr> | p.
           changed_at B N p \<and> \<not> dir_at B p \<and> \<not> dir_at N p}"
proof -
  let ?dir = "\<lambda>t p. case map_of t p of Some e \<Rightarrow> IsDir (me_mode e) | None \<Rightarrow> False"
  let ?ps = "filter (\<lambda>p. \<not> (?dir base p \<or> ?dir (mem_files m) p)) (changedPaths base (mem_files m))"
  let ?cs = "map (\<lambda>p. \<lparr>fc_path = p, fc_before = map_option me_data (B p), fc_after = map_option me_data (N p)\<rparr>) ?ps"
  have d: "distinct (map fst base)" "distinct (map fst (mem_files m))"
    using assms(2,3) by (auto simp: tree_ok_def mem_ok_def)
  have dir: "?dir t p \<longleftrightarrow> dir_at (map_of t) p" for t p by (simp add: dir_at_def split: option.splits)
  have paths: "map fc_path ?cs = ?ps" by (simp add: comp_def)
  show thesis
  proof (rule that [of ?cs])
    show "ChangedSince m mark = Some ?cs"
      using assms(1) by (simp add: ChangedSince_def snapshot_def Let_def B_def N_def)
    show "sorted (map fc_path ?cs)" unfolding paths using changedPaths_sorted by (rule sorted_wrt_filter)
    show "distinct (map fc_path ?cs)" unfolding paths using distinct_changedPaths [OF d] by simp
    show "set ?cs = {\<lparr>fc_path = p, fc_before = map_option me_data (B p), fc_after = map_option me_data (N p)\<rparr> | p.
           changed_at B N p \<and> \<not> dir_at B p \<and> \<not> dir_at N p}"
      unfolding dir set_map set_filter set_changedPaths [OF d] B_def [symmetric] N_def [symmetric]
      by (simp add: setcompr_eq_image dir [of base, folded B_def] dir [of "mem_files m", folded N_def])
  qed
qed

text \<open>
  A mark taken in a reachable state gets a handle no live mark has, leaves the files and
  the other marks alone, and reports no changes right away. As long as the mark is held, in any
  later state, \<open>ChangedSince\<close> lists exactly the files whose content or mode differs from the
  marked state or that exist on one side only, sorted, each once, with both contents.
\<close>

theorem mark_tracks_changes:
  assumes "reachable m" and "Mark m = (m1, mk)"
    and "reachable m2" and "map_of (mem_marks m2) mk = map_of (mem_marks m1) mk"
  defines "B \<equiv> map_of (mem_files m)" and "N \<equiv> map_of (mem_files m2)"
  shows "map_of (mem_marks m) mk = None \<and> mem_files m1 = mem_files m
    \<and> (\<forall>k. k \<noteq> mk \<longrightarrow> map_of (mem_marks m1) k = map_of (mem_marks m) k)
    \<and> (\<exists>cs. ChangedSince m2 mk = Some cs \<and> sorted (map fc_path cs) \<and> distinct (map fc_path cs)
        \<and> set cs = {\<lparr>fc_path = p, fc_before = map_option me_data (B p), fc_after = map_option me_data (N p)\<rparr> | p.
             changed_at B N p \<and> \<not> dir_at B p \<and> \<not> dir_at N p})"
proof -
  have m1: "m1 = fst (Mark m)" "mk = snd (Mark m)" using assms(2) by simp_all
  have seq: "0 \<le> mem_markSeq m" using reachable_marks_ok [OF assms(1)] by (simp add: marks_ok_def)
  have fresh: "map_of (mem_marks m) mk = None"
  proof (rule ccontr)
    assume "map_of (mem_marks m) mk \<noteq> None"
    then obtain k where "int k \<le> mem_markSeq m" "mk = itoa_nat k"
      using reachable_marks_ok [OF assms(1)] unfolding marks_ok_def by blast
    then show False using itoa_inj [of k "nat (mem_markSeq m + 1)"] seq by (auto simp: m1 Mark_simps split: if_splits)
  qed
  have mark: "map_of (mem_marks m2) mk = Some (mem_files m)" using assms(4) by (simp add: m1 Mark_simps)
  have ok: "tree_ok (mem_files m)" using reachable_mem_ok [OF assms(1)] by (simp add: mem_ok_def)
  obtain cs where "ChangedSince m2 mk = Some cs" "sorted (map fc_path cs)" "distinct (map fc_path cs)"
    "set cs = {\<lparr>fc_path = p, fc_before = map_option me_data (B p), fc_after = map_option me_data (N p)\<rparr> | p.
             changed_at B N p \<and> \<not> dir_at B p \<and> \<not> dir_at N p}"
    unfolding B_def N_def by (rule ChangedSince_Some [OF mark ok reachable_mem_ok [OF assms(3)]])
  then show ?thesis using fresh by (auto simp: m1 Mark_simps)
qed

lemma demo_mark_reachable:
  "reachable (fst (Mark demo_mem))" "reachable (fst (WriteFile 9 (fst (Mark demo_mem)) ''a/b/f'' ''two'' 0))"
  using demo_reachable by (auto intro: reachable.intros)

theorem mark_tracks_changes_witness:
  "map_of (mem_marks demo_mem) (snd (Mark demo_mem)) = None
   \<and> (\<exists>cs. ChangedSince (fst (WriteFile 9 (fst (Mark demo_mem)) ''a/b/f'' ''two'' 0)) (snd (Mark demo_mem)) = Some cs
        \<and> sorted (map fc_path cs))
   \<and> ChangedSince (fst (WriteFile 9 (fst (Mark demo_mem)) ''a/b/f'' ''two'' 0)) (snd (Mark demo_mem))
       = Some [\<lparr>fc_path = ''a/b/f'', fc_before = Some ''one'', fc_after = Some ''two''\<rparr>]"
proof -
  have "ChangedSince (fst (WriteFile 9 (fst (Mark demo_mem)) ''a/b/f'' ''two'' 0)) (snd (Mark demo_mem))
       = Some [\<lparr>fc_path = ''a/b/f'', fc_before = Some ''one'', fc_after = Some ''two''\<rparr>]"
    by code_simp
  moreover have "map_of (mem_marks (fst (WriteFile 9 (fst (Mark demo_mem)) ''a/b/f'' ''two'' 0))) (snd (Mark demo_mem))
      = map_of (mem_marks (fst (Mark demo_mem))) (snd (Mark demo_mem))"
    by (simp add: ops_keep_marks)
  ultimately show ?thesis
    using mark_tracks_changes [OF demo_reachable surjective_pairing demo_mark_reachable(2)] by blast
qed

end
