(* ===== verification/Edit_Correct.thy ===== *)
theory Edit_Correct
  imports Edit_Tools Memory_Props
begin

text \<open>
  What the file tools promise, proved once against the laws of a workspace and instantiated on
  the in-memory workspace. The laws are those a client of \<^verbatim>\<open>workspace.FS\<close> relies on: a failed
  write changes nothing, a successful one is read back and touches no other file, and a file that
  can be read can be written.
\<close>

section \<open>The effect of an edit\<close>

text \<open>The lines an edit works on: those of the file, or none when it does not exist.\<close>

definition edit_lines :: "'w fs_ops \<Rightarrow> anchor_dialect \<Rightarrow> string \<Rightarrow> 'w \<Rightarrow> line list \<Rightarrow> bool" where
  "edit_lines ops dialect n w cur \<longleftrightarrow>
     (case fo_ReadFile ops w n of
        Inl e \<Rightarrow> pe_err e = ErrNotExist \<and> cur = []
      | Inr data \<Rightarrow> Parse data (dialect_mode dialect) = Inr cur)"

definition edit_wrote :: "'w fs_ops \<Rightarrow> anchor_dialect \<Rightarrow> target \<Rightarrow> patch \<Rightarrow> session_state \<Rightarrow> 'w \<Rightarrow> nat \<Rightarrow> string list
    \<Rightarrow> session_state \<Rightarrow> 'w \<Rightarrow> bool" where
  "edit_wrote ops dialect t p st w applied translated st' w' \<longleftrightarrow>
     (\<exists>cur p' content res. edit_lines ops dialect (tgt_name t) w cur
        \<and> translateStaleAnchors dialect st (p\<lparr>patch_path := tgt_key t\<rparr>) cur = (p', translated)
        \<and> ApplyLines cur p' (dialect_mode dialect) = Inr (content, res)
        \<and> applied = length (patch_hunks p)
        \<and> fo_ReadFile ops w' (tgt_name t) = Inr content
        \<and> (\<forall>m. m \<noteq> tgt_name t \<longrightarrow> fo_ReadFile ops w' m = fo_ReadFile ops w m)
        \<and> sn_version (snapshot_of st' (tgt_key t)) = contentVersion content
        \<and> sn_content (snapshot_of st' (tgt_key t)) = lineText (res_lines res)
        \<and> (\<forall>k. k \<noteq> tgt_key t \<longrightarrow> map_of (ss_snapshots st') k = map_of (ss_snapshots st) k))"

section \<open>The interface\<close>

locale workspace_fs =
  fixes ops :: "'w fs_ops" and inv :: "'w \<Rightarrow> bool"
  assumes write_failed: "inv w \<Longrightarrow> fo_WriteFile ops w n d perm = (w', Some e) \<Longrightarrow> w' = w"
    and write_done: "inv w \<Longrightarrow> fo_WriteFile ops w n d perm = (w', None)
      \<Longrightarrow> inv w' \<and> fo_ReadFile ops w' n = Inr d \<and> (\<forall>m. m \<noteq> n \<longrightarrow> fo_ReadFile ops w' m = fo_ReadFile ops w m)"
    and write_existing: "inv w \<Longrightarrow> fo_ReadFile ops w n = Inr d0 \<Longrightarrow> \<exists>w'. fo_WriteFile ops w n d perm = (w', None)"
begin

lemma write_cases:
  assumes "inv w"
  obtains (failed) e where "fo_WriteFile ops w n d perm = (w, Some e)"
  | (wrote) w' where "fo_WriteFile ops w n d perm = (w', None)" and "inv w'" and "fo_ReadFile ops w' n = Inr d"
      and "\<And>m. m \<noteq> n \<Longrightarrow> fo_ReadFile ops w' m = fo_ReadFile ops w m"
proof (cases "fo_WriteFile ops w n d perm")
  case (Pair w' err)
  then show thesis
    using assms write_failed write_done that by (cases err) metis+
qed

abbreviation reads_same :: "'w \<Rightarrow> 'w \<Rightarrow> bool" where
  "reads_same w w' \<equiv> \<forall>m. fo_ReadFile ops w' m = fo_ReadFile ops w m"

lemma rollback_restores:
  assumes "inv w" and "\<forall>pl \<in> set pls. \<exists>d. fo_ReadFile ops w (tgt_name (fp_target pl)) = Inr d"
    and "distinct (map (tgt_name \<circ> fp_target) pls)"
  shows "inv (rollback ops pls w)
    \<and> (\<forall>pl \<in> set pls. fo_ReadFile ops (rollback ops pls w) (tgt_name (fp_target pl)) = Inr (fp_before pl))
    \<and> (\<forall>m. m \<notin> set (map (tgt_name \<circ> fp_target) pls)
         \<longrightarrow> fo_ReadFile ops (rollback ops pls w) m = fo_ReadFile ops w m)"
  using assms
proof (induction pls arbitrary: w)
  case (Cons pl pls)
  let ?n = "tgt_name (fp_target pl)"
  obtain w' where w': "fo_WriteFile ops w ?n (fp_before pl) 0x1A4 = (w', None)"
    using write_existing Cons.prems(1,2) by fastforce
  note d = write_done [OF Cons.prems(1) w']
  have "\<forall>q \<in> set pls. \<exists>d. fo_ReadFile ops w' (tgt_name (fp_target q)) = Inr d"
    using Cons.prems(2,3) d by (metis (no_types, lifting) comp_apply distinct.simps(2) image_eqI list.set_intros(2) list.simps(9) set_map)
  from Cons.IH [OF _ this] Cons.prems(3) d show ?case by (auto simp: w')
qed simp

text \<open>Writing the plans either writes them all or leaves every file as it was.\<close>

lemma write_plans_all_or_nothing:
  assumes "inv w" and "inv w0" and "distinct (map (tgt_name \<circ> fp_target) (written @ pls))"
    and "\<forall>pl \<in> set written. fo_ReadFile ops w0 (tgt_name (fp_target pl)) = Inr (fp_before pl)
           \<and> fo_ReadFile ops w (tgt_name (fp_target pl)) = Inr (fp_after pl)"
    and "\<forall>m. m \<notin> set (map (tgt_name \<circ> fp_target) written) \<longrightarrow> fo_ReadFile ops w m = fo_ReadFile ops w0 m"
    and "write_plans ops written pls w = (err, w')"
  shows "inv w' \<and> (case err of
      Some _ \<Rightarrow> reads_same w0 w'
    | None \<Rightarrow> (\<forall>pl \<in> set (written @ pls). fo_ReadFile ops w0 (tgt_name (fp_target pl)) = Inr (fp_before pl)
           \<and> fo_ReadFile ops w' (tgt_name (fp_target pl)) = Inr (fp_after pl))
        \<and> (\<forall>m. m \<notin> set (map (tgt_name \<circ> fp_target) (written @ pls)) \<longrightarrow> fo_ReadFile ops w' m = fo_ReadFile ops w0 m))"
  using assms
proof (induction pls arbitrary: written w)
  case (Cons pl pls)
  let ?n = "tgt_name (fp_target pl)"
  have undo: "inv (rollback ops written w) \<and> reads_same w0 (rollback ops written w)"
  proof -
    have "distinct (map (tgt_name \<circ> fp_target) written)" using Cons.prems(3) by (simp add: comp_def)
    note undo = rollback_restores [OF Cons.prems(1) _ this]
    have readable: "\<forall>q \<in> set written. \<exists>d. fo_ReadFile ops w (tgt_name (fp_target q)) = Inr d"
      using Cons.prems(4) by blast
    have "fo_ReadFile ops (rollback ops written w) m = fo_ReadFile ops w0 m" for m
    proof (cases "m \<in> set (map (tgt_name \<circ> fp_target) written)")
      case True
      then obtain q where "q \<in> set written" "m = tgt_name (fp_target q)" by auto
      then show ?thesis using undo [OF readable] Cons.prems(4) by simp
    qed (use undo [OF readable] Cons.prems(5) in simp)
    then show ?thesis using undo [OF readable] by blast
  qed
  show ?case
  proof (cases "fo_ReadFile ops w ?n = Inr (fp_before pl)")
    case True
    from write_existing [OF Cons.prems(1) True] obtain w1 where
      w1: "fo_WriteFile ops w ?n (fp_after pl) 0x1A4 = (w1, None)" by blast
    note d = write_done [OF Cons.prems(1) w1]
    have fresh: "?n \<notin> set (map (tgt_name \<circ> fp_target) written)" using Cons.prems(3) by auto
    have read0: "fo_ReadFile ops w0 ?n = Inr (fp_before pl)" using True Cons.prems(5) fresh by simp
    have "write_plans ops (written @ [pl]) pls w1 = (err, w')" using Cons.prems(6) True w1 by simp
    moreover have "\<forall>q \<in> set (written @ [pl]). fo_ReadFile ops w0 (tgt_name (fp_target q)) = Inr (fp_before q)
           \<and> fo_ReadFile ops w1 (tgt_name (fp_target q)) = Inr (fp_after q)"
      using Cons.prems(4) d read0 fresh by (auto simp: image_iff)
    moreover have "\<forall>m. m \<notin> set (map (tgt_name \<circ> fp_target) (written @ [pl])) \<longrightarrow> fo_ReadFile ops w1 m = fo_ReadFile ops w0 m"
      using Cons.prems(5) d by auto
    ultimately show ?thesis
      using Cons.IH [of w1 "written @ [pl]", unfolded append_assoc append.simps] Cons.prems(2,3) d by blast
  next
    case False
    then have "w' = rollback ops written w \<and> err \<noteq> None"
      using Cons.prems(6) by (auto simp: Let_def split: sum.splits if_splits)
    with undo show ?thesis by auto
  qed
qed simp

end

lemma translate_keeps_hunks:
  "translateStaleAnchors d st p cur = (p', tr) \<Longrightarrow> length (patch_hunks p') = length (patch_hunks p) \<and> patch_path p' = patch_path p"
  by (auto simp: translateStaleAnchors_def Let_def split: if_splits)

lemma translate_cong:
  "ss_snapshots st = ss_snapshots st' \<Longrightarrow> translateStaleAnchors d st p cur = translateStaleAnchors d st' p cur"
  by (simp add: translateStaleAnchors_def snapshot_of_def)

lemma edit_failed_not_applied: "edit_failed d st sig key cur err \<noteq> (EditApplied n ws tr pend, st')"
  by (auto simp: edit_failed_def edit_noop_def edit_stale_def Let_def split: sum.splits hl_error.splits if_splits)

lemma record_snapshot_simps:
  "snapshot_of (record_snapshot key data byEdit lines st) key
     = \<lparr>sn_version = contentVersion data, sn_content = lineText lines,
        sn_history = appendAnchorVersion (sn_history (snapshot_of st key)) (contentVersion data) byEdit lines,
        sn_execChanged = False\<rparr>"
  "k \<noteq> key \<Longrightarrow> map_of (ss_snapshots (record_snapshot key data byEdit lines st)) k = map_of (ss_snapshots st) k"
  by (simp_all add: record_snapshot_def snapshot_of_def Let_def update_conv')

context workspace_fs
begin

lemma edit_apply_effect:
  assumes "inv w" and "edit_lines ops dialect (tgt_name t) w cur"
    and "edit_apply ops dialect t sig (p\<lparr>patch_path := tgt_key t\<rparr>) st w cur pend newFile = (r, st', w')"
  shows "inv w' \<and> (case r of
      EditApplied applied wins translated pd \<Rightarrow> pd = pend \<and> edit_wrote ops dialect t p st w applied translated st' w'
    | _ \<Rightarrow> w' = w)"
proof -
  obtain p' tr where tr: "translateStaleAnchors dialect st (p\<lparr>patch_path := tgt_key t\<rparr>) cur = (p', tr)" by force
  have p': "length (patch_hunks p') = length (patch_hunks p)" "patch_path p' = tgt_key t"
    using translate_keeps_hunks [OF tr] by simp_all
  show ?thesis
  proof (cases "ApplyLines cur p' (dialect_mode dialect)")
    case (Inl e)
    then have "w' = w \<and> (\<forall>n ws tr pd. r \<noteq> EditApplied n ws tr pd)"
      using assms(3) tr edit_failed_not_applied
      by (auto simp: edit_apply_def Let_def split: hl_error.splits option.splits prod.splits)
    then show ?thesis using assms(1) by (cases r) auto
  next
    case (Inr cr)
    obtain content res where cr: "cr = (content, res)" by force
    define mode where "mode = (if newFile then 0x1A4 else case fo_Stat ops w (tgt_name t) of Inr info \<Rightarrow> me_mode (mi_entry info) | Inl _ \<Rightarrow> 0x1A4)"
    from assms(1) show ?thesis
    proof (cases rule: write_cases [of w "tgt_name t" content mode])
      case (failed e)
      then have "w' = w \<and> (\<forall>n ws tr pd. r \<noteq> EditApplied n ws tr pd)"
        using assms(3) tr Inr cr edit_failed_not_applied unfolding mode_def
        by (auto simp: edit_apply_def Let_def split: option.splits prod.splits)
      then show ?thesis using assms(1) by (cases r) auto
    next
      case (wrote w1)
      then have r: "(r, st') = edit_done st p' content res tr pend" "w' = w1"
        using assms(3) tr Inr cr unfolding mode_def
        by (auto simp: edit_apply_def Let_def split: prod.splits)
      have "edit_wrote ops dialect t p st w (length (patch_hunks p')) tr st' w'"
        unfolding edit_wrote_def using assms(2) tr Inr cr wrote r p'
        by (intro exI conjI) (auto simp: edit_done_def Let_def record_snapshot_simps)
      then show ?thesis using wrote r by (auto simp: edit_done_def Let_def)
    qed
  qed
qed

lemma edit_effect:
  assumes "inv w" and "edit ops dialect t sig p st w = (r, st', w')"
  shows "inv w' \<and> (case r of
      EditApplied applied wins translated pend \<Rightarrow> edit_wrote ops dialect t p st w applied translated st' w'
    | _ \<Rightarrow> w' = w)"
proof -
  define st1 where "st1 = (if noop_signature (ss_noop st) \<noteq> sig then st\<lparr>ss_noop := zero_noop\<rparr> else st)"
  have same: "edit_wrote ops dialect t p st1 w n tr st' w' = edit_wrote ops dialect t p st w n tr st' w'" for n tr
    unfolding edit_wrote_def using translate_cong [of st1 st] by (simp add: st1_def)
  show ?thesis
  proof (cases "fo_ReadFile ops w (tgt_name t)")
    case (Inl e)
    show ?thesis
    proof (cases "pe_err e = ErrNotExist")
      case True
      then have l: "edit_lines ops dialect (tgt_name t) w []" using Inl by (simp add: edit_lines_def)
      have "edit_apply ops dialect t sig (p\<lparr>patch_path := tgt_key t\<rparr>) st1 w [] None True = (r, st', w')"
        using assms(2) Inl True by (simp add: edit_def Let_def st1_def split: if_splits)
      from edit_apply_effect [OF assms(1) l this] same show ?thesis by (auto split: edit_result.splits)
    qed (use Inl assms in \<open>auto simp: edit_def Let_def\<close>)
  next
    case (Inr data)
    show ?thesis
    proof (cases "Parse data (dialect_mode dialect)")
      case (Inl e)
      then show ?thesis using Inr assms by (auto simp: edit_def Let_def)
    next
      case cur: (Inr cur)
      then have l: "edit_lines ops dialect (tgt_name t) w cur" using Inr by (simp add: edit_lines_def)
      have "edit_apply ops dialect t sig (p\<lparr>patch_path := tgt_key t\<rparr>) st1 w cur (edit_pending st1 (tgt_key t) data cur) False
          = (r, st', w')"
        using assms(2) Inr cur by (simp add: edit_def Let_def st1_def split: if_splits)
      from edit_apply_effect [OF assms(1) l this] same show ?thesis by (auto split: edit_result.splits)
    qed
  qed
qed

end

interpretation mem: workspace_fs "memory_ops now" mem_ok for now
proof
  fix w n d perm w' e
  assume "mem_ok w" "fo_WriteFile (memory_ops now) w n d perm = (w', Some e)"
  then show "w' = w" by (simp add: memory_ops_def WriteFile_Some)
next
  fix w n d perm w'
  assume "mem_ok w" "fo_WriteFile (memory_ops now) w n d perm = (w', None)"
  then show "mem_ok w' \<and> fo_ReadFile (memory_ops now) w' n = Inr d
      \<and> (\<forall>m. m \<noteq> n \<longrightarrow> fo_ReadFile (memory_ops now) w' m = fo_ReadFile (memory_ops now) w m)"
    using WriteFile_spec(2) WriteFile_ok by (simp add: memory_ops_def)
next
  fix w :: memory and n d0 d perm
  assume ok: "mem_ok w" and "fo_ReadFile (memory_ops now) w n = Inr d0"
  then obtain e where n: "ValidPath n" "map_of (mem_files w) n = Some e" "\<not> IsDir (me_mode e)"
    by (auto simp: memory_ops_def ReadFile_Inr simp del: map_of_eq_Some_iff)
  have M: "map_ok (map_of (mem_files w))" using ok by (simp only: mem_ok_def tree_ok_def)
  have "n \<noteq> ''.''" using n(2,3) map_ok_root [OF M] by (auto simp: dir_at_def)
  moreover have "\<not> dir_at (map_of (mem_files w)) n" using n(2,3) by (simp add: dir_at_def)
  ultimately have "snd (WriteFile now w n d perm) = None"
    using WriteFile_spec(1) [OF ok surjective_pairing, of now n d perm] n(1) map_okD(2) [OF M n(2)] by blast
  then show "\<exists>w'. fo_WriteFile (memory_ops now) w n d perm = (w', None)"
    by (simp add: memory_ops_def) (metis prod.collapse)
qed

end
