(* ===== verification/Edit_Props.thy ===== *)
theory Edit_Props
  imports Edit_Correct
begin

text \<open>The properties of the file tools, on the in-memory workspace or on any file state.\<close>

section \<open>Editing\<close>

text \<open>
  Claim C31. An edit changes at most its own file. It reports success only when every hunk of the
  patch, with stale anchors translated, was applied to the file's current lines: then the file
  reads as the result, no other file changed, and the session's snapshot of the file is that very
  version. Any other outcome, stale, ambiguous, overlapping or unread files and failed writes
  included, leaves the workspace exactly as it was.
\<close>

theorem edit_applies_or_leaves_alone:
  assumes "mem_ok w" and "edit (memory_ops now) dialect t sig p st w = (r, st', w')"
  shows "mem_ok w' \<and> (case r of
      EditApplied applied wins translated pend \<Rightarrow> edit_wrote (memory_ops now) dialect t p st w applied translated st' w'
    | _ \<Rightarrow> w' = w)"
  using mem.edit_effect [OF assms] by simp

definition demo_target :: target where
  "demo_target = \<lparr>tgt_scratch = False, tgt_name = ''a/b/f'', tgt_key = ''a/b/f'', tgt_base = []\<rparr>"

definition demo_edit :: patch where
  "demo_edit = \<lparr>patch_path = ''a/b/f'', patch_hunks =
     [\<lparr>hunk_anchor = ''one'', hunk_line = 0, hunk_offset = 1, hunk_delete = 0, hunk_insert = [''two'']\<rparr>]\<rparr>"

definition demo_session :: session_state where
  "demo_session = \<lparr>ss_anchorFailures = [], ss_noop = zero_noop, ss_snapshots = []\<rparr>"

lemma demo_read: "ReadFile demo_mem ''a/b/f'' = Inr ''one''"
  by code_simp

lemma demo_parse: "Parse ''one'' AnchorText = Inr [\<lparr>line_number = 1, line_hash = ''one'', line_text = ''one''\<rparr>]"
  by code_simp

lemma demo_applied:
  "ApplyLines [\<lparr>line_number = 1, line_hash = ''one'', line_text = ''one''\<rparr>] demo_edit AnchorText
     = Inr (''one'' @ [CHR 0x0A] @ ''two'' @ [CHR 0x0A],
            \<lparr>res_lines = hashes [''one'', ''two''] AnchorText, res_affected = [\<lparr>reg_start = 1, reg_end = 2\<rparr>]\<rparr>)"
  by code_simp

lemma demo_edit_result:
  "\<exists>wins pend st'. edit (memory_ops 9) anchorText demo_target ''s'' demo_edit demo_session demo_mem
     = (EditApplied 1 wins [] pend, st',
        fst (WriteFile 9 demo_mem ''a/b/f'' (''one'' @ [CHR 0x0A] @ ''two'' @ [CHR 0x0A]) 0x1A4))"
proof -
  have st: "Stat demo_mem ''a/b/f'' = Inr \<lparr>mi_name = ''f'', mi_entry = \<lparr>me_data = ''one'', me_mode = 0x1A4, me_modTime = 7\<rparr>\<rparr>"
    and ok: "snd (WriteFile 9 demo_mem ''a/b/f'' (''one'' @ [CHR 0x0A] @ ''two'' @ [CHR 0x0A]) 0x1A4) = None"
    by code_simp+
  obtain w' where w': "WriteFile 9 demo_mem ''a/b/f'' (''one'' @ [CHR 0x0A] @ ''two'' @ [CHR 0x0A]) 0x1A4 = (w', None)"
    using ok by (metis prod.collapse)
  have p: "demo_edit\<lparr>patch_path := ''a/b/f''\<rparr> = demo_edit" by (simp add: demo_edit_def)
  show ?thesis
    using st w' demo_applied
    by (simp add: edit_def edit_apply_def memory_ops_def demo_target_def demo_read demo_parse p translateStaleAnchors_def
        demo_session_def snapshot_of_def zero_snapshot_def Let_def edit_done_def)
       (simp add: demo_edit_def)
qed

theorem edit_applies_or_leaves_alone_witness:
  "\<exists>w'. ReadFile w' ''a/b/f'' = Inr (''one'' @ [CHR 0x0A] @ ''two'' @ [CHR 0x0A]) \<and> mem_ok w'
     \<and> (\<exists>r st'. edit (memory_ops 9) anchorText demo_target ''s'' demo_edit demo_session demo_mem = (r, st', w'))"
proof -
  obtain wins pend st' w' where e: "edit (memory_ops 9) anchorText demo_target ''s'' demo_edit demo_session demo_mem
     = (EditApplied 1 wins [] pend, st', w')"
    and w': "w' = fst (WriteFile 9 demo_mem ''a/b/f'' (''one'' @ [CHR 0x0A] @ ''two'' @ [CHR 0x0A]) 0x1A4)"
    using demo_edit_result by blast
  have "ReadFile w' ''a/b/f'' = Inr (''one'' @ [CHR 0x0A] @ ''two'' @ [CHR 0x0A])"
    unfolding w' by code_simp
  with edit_applies_or_leaves_alone [OF demo_mem_ok e] e show ?thesis by blast
qed

section \<open>The no-op guard\<close>

definition noop_edit :: "'w fs_ops \<Rightarrow> anchor_dialect \<Rightarrow> target \<Rightarrow> patch \<Rightarrow> session_state \<Rightarrow> 'w \<Rightarrow> bool" where
  "noop_edit ops dialect t p st w \<longleftrightarrow>
     (\<exists>data cur. fo_ReadFile ops w (tgt_name t) = Inr data \<and> Parse data (dialect_mode dialect) = Inr cur
        \<and> edit_pending st (tgt_key t) data cur = None
        \<and> ApplyLines cur (fst (translateStaleAnchors dialect st (p\<lparr>patch_path := tgt_key t\<rparr>) cur)) (dialect_mode dialect)
            = Inl ErrNoChanges)"

lemma noop_edit_cong: "ss_snapshots st = ss_snapshots st' \<Longrightarrow> noop_edit ops d t p st w = noop_edit ops d t p st' w"
  using translate_cong [of st st'] by (simp add: noop_edit_def edit_pending_def)

lemma noop_edit_step:
  fixes sig :: string
  assumes "noop_edit ops dialect t p st w"
  defines "k \<equiv> (if noop_signature (ss_noop st) = sig then noop_streak (ss_noop st) else 0)"
  shows "edit ops dialect t sig p st w
    = (if k + 1 \<ge> 3 then EditNoopLoop else EditNoop,
       st\<lparr>ss_noop := \<lparr>noop_signature = sig, noop_streak = k + 1\<rparr>\<rparr>, w)"
proof -
  define st1 where "st1 = (if noop_signature (ss_noop st) \<noteq> sig then st\<lparr>ss_noop := zero_noop\<rparr> else st)"
  have "ss_snapshots st1 = ss_snapshots st" by (simp add: st1_def)
  with assms(1) have "noop_edit ops dialect t p st1 w" using noop_edit_cong by metis
  then obtain data cur where e: "fo_ReadFile ops w (tgt_name t) = Inr data" "Parse data (dialect_mode dialect) = Inr cur"
    "edit_pending st1 (tgt_key t) data cur = None"
    "ApplyLines cur (fst (translateStaleAnchors dialect st1 (p\<lparr>patch_path := tgt_key t\<rparr>) cur)) (dialect_mode dialect)
            = Inl ErrNoChanges"
    by (auto simp: noop_edit_def)
  have "edit ops dialect t sig p st w
      = edit_apply ops dialect t sig (p\<lparr>patch_path := tgt_key t\<rparr>) st1 w cur None False"
    unfolding edit_def Let_def st1_def [symmetric] using e by simp
  also have "\<dots> = (fst (edit_noop st1 sig), snd (edit_noop st1 sig), w)"
    using e(4) by (simp add: edit_apply_def Let_def edit_failed_def case_prod_unfold)
  finally show ?thesis by (auto simp: edit_noop_def Let_def st1_def k_def zero_noop_def)
qed

text \<open>
  Claim C33. The same edit that changes nothing is answered with the no-change error twice and with
  the loop error from the third time on; each answer leaves the workspace and everything of the
  session but the counter alone, so the guard cannot be outrun by repeating the call.
\<close>

theorem noop_edits_are_stopped:
  assumes "noop_edit ops dialect t p st w" and "noop_signature (ss_noop st) \<noteq> sig"
  shows "\<exists>st1 st2 st3. edit ops dialect t sig p st w = (EditNoop, st1, w)
    \<and> edit ops dialect t sig p st1 w = (EditNoop, st2, w)
    \<and> edit ops dialect t sig p st2 w = (EditNoopLoop, st3, w)
    \<and> ss_snapshots st3 = ss_snapshots st \<and> ss_anchorFailures st3 = ss_anchorFailures st"
proof -
  let ?s = "\<lambda>k. st\<lparr>ss_noop := \<lparr>noop_signature = sig, noop_streak = k\<rparr>\<rparr>"
  have n: "noop_edit ops dialect t p (?s k) w" for k
  proof -
    have "ss_snapshots (?s k) = ss_snapshots st" by simp
    with assms(1) show ?thesis using noop_edit_cong by metis
  qed
  have "edit ops dialect t sig p st w = (EditNoop, ?s 1, w)"
    using noop_edit_step [OF assms(1)] assms(2) by simp
  moreover have "edit ops dialect t sig p (?s 1) w = (EditNoop, ?s 2, w)"
    "edit ops dialect t sig p (?s 2) w = (EditNoopLoop, ?s 3, w)"
    using noop_edit_step [OF n [of 1], of sig] noop_edit_step [OF n [of 2], of sig] by simp_all
  ultimately show ?thesis by (intro exI conjI) (assumption | simp)+
qed

definition noop_patch :: patch where
  "noop_patch = \<lparr>patch_path = ''a/b/f'', patch_hunks =
     [\<lparr>hunk_anchor = ''one'', hunk_line = 0, hunk_offset = 0, hunk_delete = 1, hunk_insert = [''one'']\<rparr>]\<rparr>"

definition read_session :: session_state where
  "read_session = snd (read_target (memory_ops 9) anchorText demo_target Missing Missing Missing demo_session demo_mem)"

lemma read_session_eq:
  "read_session = record_snapshot ''a/b/f'' ''one'' False
     [\<lparr>line_number = 1, line_hash = ''one'', line_text = ''one''\<rparr>] demo_session"
proof -
  have "Stat demo_mem ''a/b/f'' = Inr \<lparr>mi_name = ''f'', mi_entry = \<lparr>me_data = ''one'', me_mode = 0x1A4, me_modTime = 7\<rparr>\<rparr>"
    "\<not> IsDir (0x1A4 :: file_mode)"
    by code_simp+
  then show ?thesis
    by (simp add: read_session_def read_target_def memory_ops_def demo_target_def demo_read demo_parse)
qed

theorem noop_edits_are_stopped_witness:
  "\<exists>st1 st2 st3. edit (memory_ops 9) anchorText demo_target ''s'' noop_patch read_session demo_mem = (EditNoop, st1, demo_mem)
    \<and> edit (memory_ops 9) anchorText demo_target ''s'' noop_patch st1 demo_mem = (EditNoop, st2, demo_mem)
    \<and> edit (memory_ops 9) anchorText demo_target ''s'' noop_patch st2 demo_mem = (EditNoopLoop, st3, demo_mem)"
proof -
  have p: "noop_patch\<lparr>patch_path := ''a/b/f''\<rparr> = noop_patch" by (simp add: noop_patch_def)
  have "ApplyLines [\<lparr>line_number = 1, line_hash = ''one'', line_text = ''one''\<rparr>] noop_patch AnchorText = Inl ErrNoChanges"
    by code_simp
  moreover have "anchorPresent anchorText [\<lparr>line_number = 1, line_hash = ''one'', line_text = ''one''\<rparr>] ''one''"
    by code_simp
  ultimately have "noop_edit (memory_ops 9) anchorText demo_target noop_patch read_session demo_mem"
    by (simp add: noop_edit_def memory_ops_def demo_target_def demo_read demo_parse p read_session_eq edit_pending_def
        record_snapshot_def snapshot_of_def demo_session_def zero_snapshot_def Let_def translateStaleAnchors_def
        appendAnchorVersion_def anchorHistoryVersions_def)
  moreover have "noop_signature (ss_noop read_session) \<noteq> ''s''"
    by (simp add: read_session_eq record_snapshot_def demo_session_def zero_noop_def Let_def)
  ultimately show ?thesis using noop_edits_are_stopped [of "memory_ops 9"] by blast
qed

section \<open>Anchors handed out and translated\<close>

lemma remember_anchors_lookup:
  "map_of (remember_anchors ls acc) a =
     (if a = [] then map_of acc a
      else case filter (\<lambda>l. line_hash l = a) ls of
        [] \<Rightarrow> map_of acc a
      | [l] \<Rightarrow> Some (if map_of acc a = None then \<lparr>ra_text = line_text l, ra_number = line_number l\<rparr>
                    else \<lparr>ra_text = [], ra_number = 0\<rparr>)
      | _ \<Rightarrow> Some \<lparr>ra_text = [], ra_number = 0\<rparr>)"
  by (induction ls acc rule: remember_anchors.induct) (auto simp: update_conv' split: list.splits)

text \<open>
  A remembered version was handed out with the anchors of its own lines; an anchor maps to line
  \<open>i\<close> of the version when it belongs to that line only.
\<close>

definition version_ok :: "anchor_version \<Rightarrow> bool" where
  "version_ok v \<longleftrightarrow> (\<exists>mode. av_anchors v = remember_anchors (hashes (av_content v) mode) [])"

definition session_ok :: "session_state \<Rightarrow> bool" where
  "session_ok st \<longleftrightarrow> (\<forall>k s. map_of (ss_snapshots st) k = Some s \<longrightarrow> list_all version_ok (sn_history s))"

definition anchor_of_line :: "anchor_version \<Rightarrow> string \<Rightarrow> nat \<Rightarrow> bool" where
  "anchor_of_line v a i \<longleftrightarrow> i < length (av_content v)
     \<and> (\<exists>mode. \<forall>j < length (av_content v). line_hash (hashes (av_content v) mode ! j) = a \<longleftrightarrow> j = i)"

lemma hashes_nth:
  "i < length raw \<Longrightarrow> line_number (hashes raw mode ! i) = int i + 1 \<and> line_text (hashes raw mode ! i) = raw ! i"
  by (simp add: hashes_def)

lemma filter_single_nth:
  assumes "filter P xs = [x]"
  obtains i where "i < length xs" and "x = xs ! i" and "\<And>j. j < length xs \<Longrightarrow> P (xs ! j) \<longleftrightarrow> j = i"
proof -
  have len: "length (filter P xs) = card {j. j < length xs \<and> P (xs ! j)}" by (rule length_filter_conv_card)
  then have "card {j. j < length xs \<and> P (xs ! j)} = 1" using assms by simp
  then obtain i where i: "{j. j < length xs \<and> P (xs ! j)} = {i}" by (rule card_1_singletonE)
  then have mem: "i < length xs \<and> P (xs ! i)" by blast
  then have "xs ! i \<in> set (filter P xs)" by simp
  then have x: "x = xs ! i" using assms by simp
  show thesis by (rule that [of i]) (use mem x i in blast)+
qed

lemma remembered_line:
  assumes "version_ok v" and "map_of (av_anchors v) a = Some r" and "ra_number r \<noteq> 0"
  obtains i where "anchor_of_line v a i" and "ra_number r = int i + 1" and "ra_text r = av_content v ! i"
proof -
  from assms(1) obtain mode where m: "av_anchors v = remember_anchors (hashes (av_content v) mode) []"
    by (auto simp: version_ok_def)
  let ?ls = "hashes (av_content v) mode"
  have "\<exists>l. filter (\<lambda>l. line_hash l = a) ?ls = [l] \<and> r = \<lparr>ra_text = line_text l, ra_number = line_number l\<rparr>"
    using assms(2,3) unfolding m remember_anchors_lookup by (auto split: if_splits list.splits)
  then obtain l where l: "filter (\<lambda>l. line_hash l = a) ?ls = [l]" "r = \<lparr>ra_text = line_text l, ra_number = line_number l\<rparr>"
    by blast
  from l(1) obtain i where i: "i < length ?ls" "l = ?ls ! i" "\<And>j. j < length ?ls \<Longrightarrow> line_hash (?ls ! j) = a \<longleftrightarrow> j = i"
    by (rule filter_single_nth) blast
  have n: "length ?ls = length (av_content v)" by (simp add: hashes_def)
  show thesis
    using that [of i] i l(2) n hashes_nth [of i "av_content v" mode] unfolding anchor_of_line_def by auto
qed

lemma lookupRemembered_Some:
  "lookupRemembered vs a = Some (r, v) \<Longrightarrow> v \<in> set vs \<and> map_of (av_anchors v) a = Some r \<and> ra_number r \<noteq> 0"
  by (induction vs a rule: lookupRemembered.induct) (auto split: option.splits if_splits)

text \<open>What a translated hunk looks like.\<close>

definition translated_ok :: "anchor_version list \<Rightarrow> line list \<Rightarrow> hunk \<Rightarrow> hunk \<Rightarrow> bool" where
  "translated_ok history cur h h' \<longleftrightarrow>
     (\<exists>v \<in> set history. \<exists>i j. anchor_of_line v (hunk_anchor h) i \<and> j < length cur
        \<and> retainedLine (av_content v) (lineText cur) (int i) = Some j
        \<and> line_text (cur ! j) = av_content v ! i
        \<and> h' = h\<lparr>hunk_anchor := line_hash (cur ! j), hunk_line := line_number (cur ! j)\<rparr>)"

lemma translate_hunk_sound:
  assumes "list_all version_ok history" and "translate_hunk dialect history cur h = (h', tr)"
  shows "h' = h \<and> tr = [] \<or>
    tr = [hunk_anchor h] \<and> \<not> anchorPresent dialect cur (hunk_anchor h) \<and> translated_ok history cur h h'"
proof (cases "tr = []")
  case True
  then show ?thesis using assms(2)
    by (auto simp: translate_hunk_def split: if_splits option.splits prod.splits)
next
  case False
  then obtain r v j where e: "\<not> anchorPresent dialect cur (hunk_anchor h)"
    "lookupRemembered history (hunk_anchor h) = Some (r, v)"
    "retainedLine (av_content v) (lineText cur) (ra_number r - 1) = Some j"
    "line_text (cur ! j) = ra_text r" "tr = [hunk_anchor h]"
    "h' = h\<lparr>hunk_anchor := line_hash (cur ! j), hunk_line := line_number (cur ! j)\<rparr>"
    using assms(2) by (auto simp: translate_hunk_def split: if_splits option.splits prod.splits)
  from lookupRemembered_Some [OF e(2)] have v: "v \<in> set history" "map_of (av_anchors v) (hunk_anchor h) = Some r" "ra_number r \<noteq> 0"
    by blast+
  then have "version_ok v" using assms(1) by (simp add: list_all_iff)
  from remembered_line [OF this v(2,3)] obtain i where
    i: "anchor_of_line v (hunk_anchor h) i" "ra_number r = int i + 1" "ra_text r = av_content v ! i" .
  have "j < length cur" using retainedLine_sound [of "av_content v" "lineText cur" i j] e(3) i(2) by (simp add: lineText_def)
  then have "translated_ok history cur h h'"
    unfolding translated_ok_def using v(1) i e by auto
  with e show ?thesis by blast
qed

text \<open>
  Translating stale anchors rewrites a hunk only when its anchor matches no line of the
  current file and an earlier version this session saw handed that anchor out for exactly one
  line; the hunk is then aimed at the line of the current file that this line became, which has
  the same text. Every other field of the hunk, and every other hunk, stays as it is, and the
  reported list names exactly the rewritten anchors.
\<close>

theorem translation_follows_the_line:
  assumes "session_ok st" and "translateStaleAnchors dialect st p cur = (p', translated)"
  shows "patch_path p' = patch_path p
    \<and> list_all2 (\<lambda>h h'. h' = h \<or> \<not> anchorPresent dialect cur (hunk_anchor h) \<and> hunk_anchor h \<in> set translated
          \<and> translated_ok (sn_history (snapshot_of st (patch_path p))) cur h h') (patch_hunks p) (patch_hunks p')
    \<and> set translated \<subseteq> hunk_anchor ` set (patch_hunks p)"
proof -
  let ?hist = "sn_history (snapshot_of st (patch_path p))"
  let ?ts = "map (translate_hunk dialect ?hist cur) (patch_hunks p)"
  have ok: "list_all version_ok ?hist"
    using assms(1) by (auto simp: session_ok_def snapshot_of_def zero_snapshot_def split: option.splits)
  show ?thesis
  proof (cases "p' = p \<and> translated = []")
    case False
    then have p': "p' = p\<lparr>patch_hunks := map fst ?ts\<rparr>" "translated = concat (map snd ?ts)"
      using assms(2) by (auto simp: translateStaleAnchors_def Let_def split: if_splits)
    have one: "fst (translate_hunk dialect ?hist cur h) = h \<and> snd (translate_hunk dialect ?hist cur h) = [] \<or>
        snd (translate_hunk dialect ?hist cur h) = [hunk_anchor h] \<and> \<not> anchorPresent dialect cur (hunk_anchor h)
        \<and> translated_ok ?hist cur h (fst (translate_hunk dialect ?hist cur h))" for h
      using translate_hunk_sound [OF ok surjective_pairing] .
    have "list_all2 (\<lambda>h h'. h' = h \<or> \<not> anchorPresent dialect cur (hunk_anchor h) \<and> hunk_anchor h \<in> set translated
          \<and> translated_ok ?hist cur h h') (patch_hunks p) (patch_hunks p')"
    proof (rule list_all2_all_nthI)
      fix n assume n: "n < length (patch_hunks p)"
      have "patch_hunks p' ! n = fst (translate_hunk dialect ?hist cur (patch_hunks p ! n))"
        and "set (snd (translate_hunk dialect ?hist cur (patch_hunks p ! n))) \<subseteq> set translated"
        using n by (auto simp: p' intro!: bexI [OF _ nth_mem [OF n]])
      then show "patch_hunks p' ! n = patch_hunks p ! n \<or> \<not> anchorPresent dialect cur (hunk_anchor (patch_hunks p ! n))
          \<and> hunk_anchor (patch_hunks p ! n) \<in> set translated \<and> translated_ok ?hist cur (patch_hunks p ! n) (patch_hunks p' ! n)"
        using one [of "patch_hunks p ! n"] by auto
    qed (simp add: p')
    moreover have "set translated \<subseteq> hunk_anchor ` set (patch_hunks p)"
    proof
      fix a assume "a \<in> set translated"
      then obtain h where "h \<in> set (patch_hunks p)" "a \<in> set (snd (translate_hunk dialect ?hist cur h))" by (auto simp: p')
      with one [of h] show "a \<in> hunk_anchor ` set (patch_hunks p)" by auto
    qed
    ultimately show ?thesis by (simp add: p')
  qed (simp add: list.rel_refl)
qed

lemma remember_version_ok: "version_ok \<lparr>av_version = v, av_byEdit = b, av_anchors = remember_anchors (hashes raw mode) [],
    av_content = lineText (hashes raw mode)\<rparr>"
  by (auto simp: version_ok_def lineText_def hashes_def comp_def map_nth)

lemma append_version_ok:
  assumes "list_all version_ok history"
  shows "list_all version_ok (appendAnchorVersion history v b (hashes raw mode))"
    and "length (appendAnchorVersion history v b lines) \<le> anchorHistoryVersions"
proof -
  show "list_all version_ok (appendAnchorVersion history v b (hashes raw mode))"
    using assms remember_version_ok [of v b raw mode]
    by (auto simp: appendAnchorVersion_def Let_def list_all_iff dest: in_set_dropD)
  show "length (appendAnchorVersion history v b lines) \<le> anchorHistoryVersions"
    by (auto simp: appendAnchorVersion_def Let_def anchorHistoryVersions_def)
qed

definition session_inv :: "session_state \<Rightarrow> bool" where
  "session_inv st \<longleftrightarrow> (\<forall>k s. map_of (ss_snapshots st) k = Some s
     \<longrightarrow> list_all version_ok (sn_history s) \<and> length (sn_history s) \<le> anchorHistoryVersions)"

lemma record_snapshot_inv:
  assumes "session_inv st"
  shows "session_inv (record_snapshot key data b (hashes raw mode) st)"
proof -
  have "list_all version_ok (sn_history (snapshot_of st key))"
    using assms by (auto simp: session_inv_def snapshot_of_def zero_snapshot_def split: option.splits)
  then show ?thesis
    using assms append_version_ok
    by (auto simp: session_inv_def record_snapshot_def Let_def update_conv' split: if_splits)
qed

lemma Parse_hashes: "Parse data mode = Inr lines \<Longrightarrow> \<exists>raw. lines = hashes raw mode"
  by (auto simp: Parse_def split: if_splits)

lemma ApplyLines_hashes: "ApplyLines cur p mode = Inr (content, res) \<Longrightarrow> \<exists>raw. res_lines res = hashes raw mode"
  by (auto simp: ApplyLines_def Let_def split: sum.splits if_splits option.splits)

lemma session_inv_cong: "session_inv st \<Longrightarrow> ss_snapshots st' = ss_snapshots st \<Longrightarrow> session_inv st'"
  by (simp add: session_inv_def)

lemma edit_failed_snapshots: "ss_snapshots (snd (edit_failed d st sig key cur err)) = ss_snapshots st"
  by (auto simp: edit_failed_def edit_noop_def edit_stale_def Let_def split: sum.splits hl_error.splits)

lemma edit_apply_inv:
  assumes "session_inv st"
  shows "session_inv (fst (snd (edit_apply ops d t sig p st w cur pend newFile)))"
proof -
  obtain p' tr where tr: "translateStaleAnchors d st p cur = (p', tr)" by force
  have fail: "session_inv (fst (snd (case pend of Some x \<Rightarrow> (EditPending x, st, v)
      | None \<Rightarrow> (case edit_failed d st sig (tgt_key t) cur err of (r, st') \<Rightarrow> (r, st', v)))))" for err and v :: 'a
    using assms session_inv_cong edit_failed_snapshots [of d st sig "tgt_key t" cur err]
    by (auto split: option.splits prod.splits)
  show ?thesis
  proof (cases "ApplyLines cur p' (dialect_mode d)")
    case (Inl e)
    then show ?thesis using tr fail assms by (cases e) (simp_all add: edit_apply_def Let_def)
  next
    case (Inr cr)
    obtain content res where cr: "cr = (content, res)" by force
    with Inr obtain raw where "res_lines res = hashes raw (dialect_mode d)" using ApplyLines_hashes by blast
    then have "session_inv (snd (edit_done st p' content res tr pend))"
      using assms by (auto simp: edit_done_def Let_def intro!: record_snapshot_inv intro: session_inv_cong)
    then show ?thesis
      using tr fail Inr cr by (auto simp: edit_apply_def Let_def split: prod.splits option.splits)
  qed
qed

lemma edit_inv: "session_inv st \<Longrightarrow> session_inv (fst (snd (edit ops d t sig p st w)))"
  by (auto simp: edit_def Let_def intro!: edit_apply_inv intro: session_inv_cong split: sum.splits)

lemma read_inv: "session_inv st \<Longrightarrow> session_inv (snd (read_target ops d t around start limit st w))"
  by (auto simp: read_target_def intro!: record_snapshot_inv dest!: Parse_hashes split: sum.splits)

lemma refresh_inv: "session_inv st \<Longrightarrow> session_inv (snd (refreshSnapshot ops d t st w))"
  by (auto simp: refreshSnapshot_def intro!: record_snapshot_inv dest!: Parse_hashes split: sum.splits)

lemma write_data_inv: "session_inv st \<Longrightarrow> session_inv (fst (snd (write_data ops d t data mode created st w)))"
  using refresh_inv [of st ops d t] by (auto simp: write_data_def Let_def split: prod.splits option.splits sum.splits) (metis snd_conv)+

lemma write_inv: "session_inv st \<Longrightarrow> session_inv (fst (snd (write_tool ops d t content app st w)))"
  by (auto simp: write_tool_def intro: write_data_inv split: sum.splits)

lemma refresh_plans_inv: "session_inv st \<Longrightarrow> session_inv (snd (refresh_plans ops d pls st w))"
proof (induction pls arbitrary: st)
  case (Cons pl pls)
  obtain r st1 where r: "refreshSnapshot ops d (fp_target pl) st w = (r, st1)" by force
  have "session_inv st1" using refresh_inv [OF Cons.prems, of ops d "fp_target pl" w] r by simp
  with Cons.IH [of st1] r show ?case by (auto split: sum.splits prod.splits)
qed simp

lemma replace_inv: "session_inv st \<Longrightarrow> session_inv (fst (snd (replace_files ops d old new all rps st w)))"
  using refresh_plans_inv [of st ops d]
  by (auto simp: replace_files_def split: sum.splits prod.splits option.splits) (metis snd_conv)+

text \<open>
  The states of a session: any sequence of tool calls, each against whatever the files are at that
  moment (commands and other sessions may have changed them).
\<close>

inductive session_reach :: "'w fs_ops \<Rightarrow> anchor_dialect \<Rightarrow> session_state \<Rightarrow> bool" for ops dialect where
  sr_start: "ss_snapshots st = [] \<Longrightarrow> session_reach ops dialect st"
| sr_read: "session_reach ops dialect st \<Longrightarrow> session_reach ops dialect (snd (read_target ops dialect t around start limit st w))"
| sr_edit: "session_reach ops dialect st \<Longrightarrow> session_reach ops dialect (fst (snd (edit ops dialect t sig p st w)))"
| sr_write: "session_reach ops dialect st \<Longrightarrow> session_reach ops dialect (fst (snd (write_tool ops dialect t content app st w)))"
| sr_replace: "session_reach ops dialect st
    \<Longrightarrow> session_reach ops dialect (fst (snd (replace_files ops dialect old new all rps st w)))"

text \<open>
  In every state a session can reach, each file's history holds at most the last
  \<open>anchorHistoryVersions\<close> versions, and each of them maps anchors only to the lines they were
  handed out for, with an anchor shared by several lines marked unusable.
\<close>

theorem session_histories_bounded:
  assumes "session_reach ops dialect st" and "map_of (ss_snapshots st) k = Some s"
  shows "length (sn_history s) \<le> anchorHistoryVersions
    \<and> (\<forall>v \<in> set (sn_history s). \<forall>a r. map_of (av_anchors v) a = Some r \<longrightarrow> ra_number r \<noteq> 0
         \<longrightarrow> (\<exists>i. anchor_of_line v a i \<and> ra_number r = int i + 1 \<and> ra_text r = av_content v ! i))"
proof -
  have "session_inv st" using assms(1)
  proof (induction rule: session_reach.induct)
    case (sr_start st)
    then show ?case by (simp add: session_inv_def)
  qed (simp_all add: read_inv edit_inv write_inv replace_inv)
  then have "list_all version_ok (sn_history s)" "length (sn_history s) \<le> anchorHistoryVersions"
    using assms(2) unfolding session_inv_def by blast+
  moreover have "\<exists>i. anchor_of_line v a i \<and> ra_number r = int i + 1 \<and> ra_text r = av_content v ! i"
    if "version_ok v" "map_of (av_anchors v) a = Some r" "ra_number r \<noteq> 0" for v a r
    using remembered_line [OF that] by metis
  ultimately show ?thesis by (simp add: list_all_iff)
qed

lemma read_session_snapshot:
  "map_of (ss_snapshots read_session) ''a/b/f'' = Some \<lparr>sn_version = contentVersion ''one'', sn_content = [''one''],
     sn_history = [\<lparr>av_version = contentVersion ''one'', av_byEdit = False,
       av_anchors = [(''one'', \<lparr>ra_text = ''one'', ra_number = 1\<rparr>)], av_content = [''one'']\<rparr>], sn_execChanged = False\<rparr>"
  by (simp add: read_session_eq record_snapshot_def snapshot_of_def demo_session_def zero_snapshot_def Let_def
      appendAnchorVersion_def anchorHistoryVersions_def lineText_def)

lemma read_session_reach: "session_reach (memory_ops 9) anchorText read_session"
  unfolding read_session_def by (intro sr_read sr_start) (simp add: demo_session_def)

theorem session_histories_bounded_witness:
  "\<exists>s. map_of (ss_snapshots read_session) ''a/b/f'' = Some s \<and> length (sn_history s) \<le> anchorHistoryVersions \<and> sn_history s \<noteq> []"
  using session_histories_bounded [OF read_session_reach read_session_snapshot] read_session_snapshot by auto

text \<open>An edited session, so that the anchor handed out first is stale and gets translated.\<close>

definition hist_session :: session_state where
  "hist_session = \<lparr>ss_anchorFailures = [], ss_noop = zero_noop, ss_snapshots = [(''f'',
     \<lparr>sn_version = ''v2'', sn_content = [''new'', ''one''], sn_history =
        [\<lparr>av_version = ''v1'', av_byEdit = False, av_anchors = remember_anchors (hashes [''one''] AnchorText) [], av_content = [''one'']\<rparr>,
         \<lparr>av_version = ''v2'', av_byEdit = True, av_anchors = remember_anchors (hashes [''new'', ''one''] AnchorText) [],
          av_content = [''new'', ''one'']\<rparr>], sn_execChanged = False\<rparr>)]\<rparr>"

lemma hist_session_ok: "session_ok hist_session"
  by (auto simp: hist_session_def session_ok_def version_ok_def)

theorem translation_follows_the_line_witness:
  "\<exists>p' tr. translateStaleAnchors anchorText hist_session \<lparr>patch_path = ''f'', patch_hunks =
       [\<lparr>hunk_anchor = ''one'', hunk_line = 1, hunk_offset = 0, hunk_delete = 1, hunk_insert = []\<rparr>]\<rparr>
       [\<lparr>line_number = 1, line_hash = ''h1'', line_text = ''new''\<rparr>, \<lparr>line_number = 2, line_hash = ''h2'', line_text = ''one''\<rparr>]
     = (p', tr) \<and> tr = [''one''] \<and> hunk_anchor (hd (patch_hunks p')) = ''h2''
     \<and> set tr \<subseteq> {''one''}"
proof -
  let ?p = "\<lparr>patch_path = ''f'', patch_hunks =
       [\<lparr>hunk_anchor = ''one'', hunk_line = 1, hunk_offset = 0, hunk_delete = 1, hunk_insert = []\<rparr>]\<rparr>"
  let ?c = "[\<lparr>line_number = 1, line_hash = ''h1'', line_text = ''new''\<rparr>, \<lparr>line_number = 2, line_hash = ''h2'', line_text = ''one''\<rparr>]"
  have e: "translateStaleAnchors anchorText hist_session ?p ?c = (\<lparr>patch_path = ''f'', patch_hunks =
       [\<lparr>hunk_anchor = ''h2'', hunk_line = 2, hunk_offset = 0, hunk_delete = 1, hunk_insert = []\<rparr>]\<rparr>, [''one''])"
    by code_simp
  with translation_follows_the_line [OF hist_session_ok e] show ?thesis by simp
qed

section \<open>Reading windows\<close>

text \<open>
  A read around a line never fails and returns a run of consecutive lines of the file, at
  most 200 and as many as asked when the file has them, that contains the line asked for (clamped
  into the file). A read from a start line with a limit that is not negative returns consecutive
  lines from that line on.
\<close>

theorem read_windows:
  assumes "int (length lines) < 2 ^ 62"
  shows "(around \<noteq> Missing \<longrightarrow> (\<exists>lo xs. read_window around start limit lines = ReadLines xs
       \<and> xs = take (length xs) (drop lo lines) \<and> lo + length xs \<le> length lines
       \<and> int (length xs) = min (int (length lines)) (min 200 (max 1 (asInt limit 9)))
       \<and> (lines \<noteq> [] \<longrightarrow> (let l = min (int (length lines)) (max 1 (asInt around 1)) - 1
             in int lo \<le> l \<and> l < int lo + int (length xs)))))
    \<and> (around = Missing \<longrightarrow> start \<noteq> Missing \<longrightarrow> 0 \<le> asInt limit 400 \<longrightarrow> asInt limit 400 < 2 ^ 62
       \<longrightarrow> read_window around start limit lines
           = ReadLines (take (nat (asInt limit 400)) (drop (nat (max 1 (asInt start 1) - 1)) lines)))"
proof (intro conjI impI)
  let ?n = "int (length lines)"
  assume a: "around \<noteq> Missing"
  show "\<exists>lo xs. read_window around start limit lines = ReadLines xs
       \<and> xs = take (length xs) (drop lo lines) \<and> lo + length xs \<le> length lines
       \<and> int (length xs) = min ?n (min 200 (max 1 (asInt limit 9)))
       \<and> (lines \<noteq> [] \<longrightarrow> (let l = min ?n (max 1 (asInt around 1)) - 1 in int lo \<le> l \<and> l < int lo + int (length xs)))"
  proof (cases "lines = []")
    case True
    then show ?thesis using a by (simp add: read_window_def)
  next
    case False
    define line where "line = min ?n (max 1 (asInt around 1))"
    define win where "win = min 200 (max 1 (asInt limit 9))"
    define lo0 where "lo0 = max 0 (line - 1 - win div 2)"
    define hi where "hi = min ?n (lo0 + win)"
    define lo where "lo = max 0 (hi - win)"
    have pos: "1 \<le> ?n" using False by (cases lines) auto
    have b: "1 \<le> line" "line \<le> ?n" "1 \<le> win" "win \<le> 200" "win div 2 < win"
      using pos by (auto simp: line_def win_def)
    have c: "lo0 \<le> line - 1" "line - 1 < lo0 + win" using b by (auto simp: lo0_def)
    have r: "0 \<le> lo" "lo \<le> hi" "hi \<le> ?n" "hi - lo = min ?n win" "lo \<le> line - 1" "line - 1 < hi"
      using b c pos by (auto simp: lo_def hi_def lo0_def min_def max_def)
    define xs where "xs = take (nat (hi - lo)) (drop (nat lo) lines)"
    have "read_window around start limit lines = slice_result lines lo hi"
      using a False by (simp add: read_window_def Let_def line_def win_def lo0_def hi_def lo_def)
    then have "read_window around start limit lines = ReadLines xs"
      using r(1-3) by (simp add: slice_result_def go_slice_def xs_def)
    moreover have len: "int (length xs) = hi - lo" using r(1-3) by (simp add: xs_def)
    moreover have "xs = take (length xs) (drop (nat lo) lines)" using len by (simp add: xs_def)
    moreover have "nat lo + length xs \<le> length lines" using len r(1-3) by linarith
    moreover have "int (nat lo) \<le> line - 1" "line - 1 < int (nat lo) + int (length xs)" using r len by simp_all
    ultimately show ?thesis
      unfolding line_def [symmetric] win_def [symmetric] Let_def using r(4) by metis
  qed
next
  let ?n = "int (length lines)" and ?k = "asInt limit 400" and ?s = "max 1 (asInt start 1) - 1"
  assume a: "around = Missing" "start \<noteq> Missing" "0 \<le> ?k" "?k < 2 ^ 62"
  have "add64 (min ?n ?s) ?k = min ?n ?s + ?k"
    using a assms by (intro add64_id) (auto simp: in64_def min_def)
  then have w: "read_window around start limit lines = slice_result lines (min ?n ?s) (min ?n (min ?n ?s + ?k))"
    using a(1,2) by (simp add: read_window_def Let_def)
  have "go_slice lines (min ?n ?s) (min ?n (min ?n ?s + ?k)) = Some (take (nat ?k) (drop (nat ?s) lines))"
  proof (cases "?s \<le> ?n")
    case True
    then have "min ?n ?s = ?s" by simp
    then show ?thesis using a(3) True by (cases "?s + ?k \<le> ?n") (auto simp: go_slice_def)
  qed (use a(3) in \<open>auto simp: go_slice_def\<close>)
  then show "read_window around start limit lines = ReadLines (take (nat ?k) (drop (nat ?s) lines))"
    by (simp add: w slice_result_def)
qed

lemma six_lines: "int (length (hashes [''a'', ''b'', ''c'', ''d'', ''e'', ''f''] AnchorText)) < 2 ^ 62"
  by (simp add: hashes_def)

theorem read_windows_witness:
  "\<exists>lo xs. read_window (Num 2) Missing (Num 3) (hashes [''a'', ''b'', ''c'', ''d'', ''e'', ''f''] AnchorText) = ReadLines xs
     \<and> xs = take (length xs) (drop lo (hashes [''a'', ''b'', ''c'', ''d'', ''e'', ''f''] AnchorText))
     \<and> int (length xs) = 3"
  using read_windows [OF six_lines, of "Num 2" Missing "Num 3"] by (auto simp: hashes_def)

text \<open>A negative limit is not refused: the slice bounds cross and the handler panics.\<close>

lemma read_negative_limit_panics:
  "read_window Missing (Num 1) (Num (- 1)) (hashes [''a'', ''b''] AnchorText) = ReadPanic"
  by code_simp

end
