(* ===== verification/Replace_Props.thy ===== *)
theory Replace_Props
  imports Edit_Props
begin

text \<open>The \<^verbatim>\<open>replace\<close> and \<^verbatim>\<open>write\<close> tools on the in-memory workspace.\<close>

section \<open>Planning a replacement\<close>

lemma ReplaceAll_no_match: "old \<noteq> [] \<Longrightarrow> str_count s old = 0 \<Longrightarrow> ReplaceAll s old new = s"
proof -
  assume a: "old \<noteq> []" "str_count s old = 0"
  note p = pieces_spec [OF a(1), of s new]
  then obtain x where "pieces s old = [x]" using a(2) by (auto simp: length_Suc_conv)
  with p show ?thesis by simp
qed

abbreviation rp_name :: "resolved_path \<Rightarrow> string" where
  "rp_name rp \<equiv> tgt_name (rp_target rp)"

abbreviation fp_name :: "file_plan \<Rightarrow> string" where
  "fp_name pl \<equiv> tgt_name (fp_target pl)"

text \<open>
  A plan without violations: it covers, in the given order, exactly the files the replacement
  changes, with their content before and after.
\<close>

lemma plan_files_spec:
  assumes "plan_files ops old new all rps w = Inr (plans, [])" and "old \<noteq> []" and "distinct (map rp_name rps)"
  shows "distinct (map fp_name plans) \<and> set (map fp_name plans) \<subseteq> set (map rp_name rps)
    \<and> (\<forall>pl \<in> set plans. fo_ReadFile ops w (fp_name pl) = Inr (fp_before pl) \<and> fp_after pl = ReplaceAll (fp_before pl) old new)
    \<and> (\<forall>rp \<in> set rps. \<exists>c. fo_ReadFile ops w (rp_name rp) = Inr c \<and> ValidString c
         \<and> (rp_name rp \<notin> set (map fp_name plans) \<longrightarrow> ReplaceAll c old new = c)
         \<and> (all \<or> str_count c old \<le> 1))"
  using assms
proof (induction rps arbitrary: plans)
  case (Cons rp rps)
  obtain c where c: "fo_ReadFile ops w (rp_name rp) = Inr c" "ValidString c"
    using Cons.prems(1) by (auto split: sum.splits if_splits)
  obtain ps where ps: "plan_files ops old new all rps w = Inr (ps, [])"
    and plans: "plans = ps \<and> ReplaceAll c old new = c
      \<or> plans = \<lparr>fp_target = rp_target rp, fp_count = str_count c old, fp_before = c, fp_after = ReplaceAll c old new\<rparr> # ps"
    and cnt: "all \<or> str_count c old \<le> 1"
    using Cons.prems(1,2) c ReplaceAll_no_match [of old c new]
    by (auto simp: Let_def split: sum.splits if_splits)
  note IH = Cons.IH [OF ps Cons.prems(2)]
  have fresh: "rp_name rp \<notin> set (map rp_name rps)" "distinct (map rp_name rps)" using Cons.prems(3) by auto
  show ?case
    using plans
  proof (elim disjE conjE)
    assume "plans = ps" "ReplaceAll c old new = c"
    then show ?thesis using IH [OF fresh(2)] c cnt by auto
  next
    assume p: "plans = \<lparr>fp_target = rp_target rp, fp_count = str_count c old, fp_before = c, fp_after = ReplaceAll c old new\<rparr> # ps"
    have "rp_name rp \<notin> set (map fp_name ps)" using IH [OF fresh(2)] fresh(1) by blast
    then show ?thesis using IH [OF fresh(2)] c cnt by (simp add: p) blast
  qed
qed auto

text \<open>Only the last phase reports a refresh error.\<close>

lemma plan_files_error: "plan_files ops old new all rps w \<noteq> Inl (TRefreshFailed k x)"
  by (induction rps) (auto simp: Let_def split: sum.splits if_splits)

lemma write_plans_error: "fst (write_plans ops written pls w) \<noteq> Some (TRefreshFailed k x)"
  by (induction ops written pls w rule: write_plans.induct)
     (auto simp: Let_def split: sum.splits if_splits prod.splits option.splits)

lemma refresh_plans_error: "fst (refresh_plans ops dialect pls st w) = Inl e \<Longrightarrow> \<exists>k x. e = TRefreshFailed k x"
proof (induction pls arbitrary: st)
  case (Cons pl pls)
  then show ?case by (auto split: sum.splits prod.splits) (metis fst_conv)
qed simp

text \<open>What a whole replacement does to the files.\<close>

definition replaced_all :: "string \<Rightarrow> string \<Rightarrow> resolved_path list \<Rightarrow> memory \<Rightarrow> memory \<Rightarrow> bool" where
  "replaced_all old new rps w w' \<longleftrightarrow>
     (\<forall>rp \<in> set rps. \<exists>c. ReadFile w (rp_name rp) = Inr c \<and> ReadFile w' (rp_name rp) = Inr (ReplaceAll c old new))
     \<and> (\<forall>n. n \<notin> set (map rp_name rps) \<longrightarrow> ReadFile w' n = ReadFile w n)"

lemma memory_ops_simps [simp]:
  "fo_ReadFile (memory_ops now) = ReadFile" "fo_Stat (memory_ops now) = Stat" "fo_ReadDir (memory_ops now) = ReadDir"
  "fo_WriteFile (memory_ops now) = WriteFile now"
  by (simp_all add: memory_ops_def)

lemma write_phase:
  assumes "mem_ok w" and "distinct (map fp_name plans)" and "write_plans (memory_ops now) [] plans w = (err, w')"
  shows "mem_ok w' \<and> (case err of
      Some _ \<Rightarrow> (\<forall>n. ReadFile w' n = ReadFile w n)
    | None \<Rightarrow> (\<forall>pl \<in> set plans. ReadFile w (fp_name pl) = Inr (fp_before pl) \<and> ReadFile w' (fp_name pl) = Inr (fp_after pl))
        \<and> (\<forall>n. n \<notin> set (map fp_name plans) \<longrightarrow> ReadFile w' n = ReadFile w n))"
  using mem.write_plans_all_or_nothing [OF assms(1,1), of "[]" plans now err w'] assms(2,3)
  by (cases err) (simp_all add: comp_def)


definition plan_for :: "string \<Rightarrow> string \<Rightarrow> string \<Rightarrow> file_plan" where
  "plan_for n before after =
     \<lparr>fp_target = \<lparr>tgt_scratch = False, tgt_name = n, tgt_key = n, tgt_base = []\<rparr>, fp_count = 1,
      fp_before = before, fp_after = after\<rparr>"



definition demo_paths_arg :: "resolved_path list" where
  "demo_paths_arg = [\<lparr>rp_target = \<lparr>tgt_scratch = False, tgt_name = ''a/b/f'', tgt_key = ''a/b/f'', tgt_base = []\<rparr>, rp_explicit = True\<rparr>]"


section \<open>The write tool\<close>

definition write_content :: "memory \<Rightarrow> string \<Rightarrow> string \<Rightarrow> bool \<Rightarrow> string" where
  "write_content w n content app =
     end_newline (if app then (case ReadFile w n of Inr b \<Rightarrow> joined b content | Inl _ \<Rightarrow> content) else content)"

lemma end_newline_ends: "last (end_newline d) = CHR 0x0A" "end_newline d \<noteq> []"
  by (auto simp: end_newline_def)

lemma write_data_effect:
  assumes "mem_ok w" and "write_data (memory_ops now) dialect t data mode created st w = (r, st', w')"
  defines "out \<equiv> end_newline data"
  shows "mem_ok w' \<and> (w' = w \<and> (\<exists>e. r = Inl (TFs e)) \<or>
    ReadFile w' (tgt_name t) = Inr out \<and> (\<forall>n. n \<noteq> tgt_name t \<longrightarrow> ReadFile w' n = ReadFile w n)
      \<and> (case r of Inl e \<Rightarrow> Parse out (dialect_mode dialect) = Inl ErrTooLong \<and> e = TParse ErrTooLong
         | Inr wr \<Rightarrow> Parse out (dialect_mode dialect) = Inr (wr_lines wr) \<and> wr_bytes wr = length out \<and> wr_created wr = created
             \<and> sn_version (snapshot_of st' (tgt_key t)) = contentVersion out))"
  using assms(1)
proof (cases rule: mem.write_cases [of w now "tgt_name t" out mode])
  case (failed e)
  then show ?thesis using assms(1,2) by (auto simp: write_data_def out_def Let_def)
next
  case (wrote w1)
  have too_long: "Parse out m = Inl e \<Longrightarrow> e = ErrTooLong" for m e by (auto simp: Parse_def split: if_splits)
  show ?thesis
  proof (cases "Parse out (dialect_mode dialect)")
    case (Inl e)
    then have "w' = w1 \<and> r = Inl (TParse e)" using assms(2) wrote
      by (auto simp: write_data_def out_def Let_def refreshSnapshot_def)
    with Inl too_long wrote show ?thesis by auto
  next
    case (Inr lines)
    then have "w' = w1 \<and> r = Inr \<lparr>wr_path = tgt_key t, wr_bytes = length out, wr_created = created, wr_lines = lines\<rparr>
        \<and> st' = record_snapshot (tgt_key t) out True lines st"
      using assms(2) wrote by (auto simp: write_data_def out_def Let_def refreshSnapshot_def)
    with Inr wrote show ?thesis by (simp add: record_snapshot_simps)
  qed
qed

text \<open>
  A write either fails without touching the workspace or leaves the named file with
  exactly the requested content (appended after a line break when asked and the file exists), ended
  by a newline, and no other file changed. The answer says truthfully whether the file was created,
  and the session's snapshot is the version just written; a file with a line too long to show is
  written but not recorded.
\<close>

theorem write_tool_effect:
  assumes "mem_ok w" and "write_tool (memory_ops now) dialect t content app st w = (r, st', w')"
  defines "out \<equiv> write_content w (tgt_name t) content app"
  shows "mem_ok w' \<and> last out = CHR 0x0A
    \<and> (w' = w \<and> (\<exists>e. r = Inl e) \<or>
       ReadFile w' (tgt_name t) = Inr out \<and> (\<forall>n. n \<noteq> tgt_name t \<longrightarrow> ReadFile w' n = ReadFile w n)
       \<and> (case r of Inl e \<Rightarrow> e = TParse ErrTooLong
          | Inr wr \<Rightarrow> wr_bytes wr = length out \<and> (wr_created wr \<longleftrightarrow> map_of (mem_files w) (tgt_name t) = None)
              \<and> sn_version (snapshot_of st' (tgt_key t)) = contentVersion out))"
proof -
  let ?n = "tgt_name t"
  have stat: "Stat w ?n = Inr info \<Longrightarrow> map_of (mem_files w) ?n = Some (mi_entry info)" for info
    by (auto simp: Stat_def lookup_Inr simp del: map_of_eq_Some_iff split: sum.splits)
  have gone: "Stat w ?n = Inl e \<Longrightarrow> pe_err e = ErrNotExist \<Longrightarrow> map_of (mem_files w) ?n = None" for e
    by (auto simp: Stat_def lookup_def split: if_splits option.splits)
  have unread: "map_of (mem_files w) ?n = None \<Longrightarrow> \<exists>e. ReadFile w ?n = Inl e"
    by (cases "ReadFile w ?n") (auto simp: ReadFile_Inr simp del: map_of_eq_Some_iff)
  have ends: "last out = CHR 0x0A" unfolding out_def write_content_def by (rule end_newline_ends)
  show ?thesis
  proof (cases "\<exists>data mode created. write_data (memory_ops now) dialect t data mode created st w = (r, st', w')
      \<and> end_newline data = out \<and> (created \<longleftrightarrow> map_of (mem_files w) ?n = None)")
    case True
    then obtain data mode created where d: "write_data (memory_ops now) dialect t data mode created st w = (r, st', w')"
      "end_newline data = out" "created \<longleftrightarrow> map_of (mem_files w) ?n = None" by blast
    from write_data_effect [OF assms(1) d(1)] d(2,3) ends show ?thesis by (auto split: sum.splits)
  next
    case False
    then have "w' = w \<and> (\<exists>e. r = Inl e)"
      using assms(2) stat gone unread
      by (auto simp: write_tool_def out_def write_content_def split: sum.splits if_splits)
    then show ?thesis using assms(1) ends by blast
  qed
qed

theorem write_tool_effect_witness:
  "write_content demo_mem ''a/b/f'' ''two'' True = ''one'' @ [CHR 0x0A] @ ''two'' @ [CHR 0x0A]
   \<and> (\<exists>r st' w'. write_tool (memory_ops 9) anchorText demo_target ''two'' True demo_session demo_mem = (r, st', w')
        \<and> mem_ok w' \<and> (w' = demo_mem \<and> (\<exists>e. r = Inl e)
            \<or> ReadFile w' ''a/b/f'' = Inr (''one'' @ [CHR 0x0A] @ ''two'' @ [CHR 0x0A])))"
proof -
  have c: "write_content demo_mem ''a/b/f'' ''two'' True = ''one'' @ [CHR 0x0A] @ ''two'' @ [CHR 0x0A]" by code_simp
  obtain r st' w' where e: "write_tool (memory_ops 9) anchorText demo_target ''two'' True demo_session demo_mem = (r, st', w')"
    by (metis prod_cases3)
  have "tgt_name demo_target = ''a/b/f''" by (simp add: demo_target_def)
  with write_tool_effect [OF demo_mem_ok e] c e show ?thesis by auto
qed

end
