(* ===== verification/Work_Items.thy ===== *)
theory Work_Items
  imports Go_Strings
begin

text \<open>
  The work-item ledger of \<^verbatim>\<open>storage/rules.go\<close> and the todo types of \<^verbatim>\<open>storage/types.go\<close>:
  \<open>SyncWorkItems\<close> reconciles a session's work items with a new todo plan. Two things the code
  takes from outside are parameters: \<open>uni\<close>, the Unicode part of \<^verbatim>\<open>strings.ToLower\<close> (its
  fast path for ASCII strings is modelled), and \<open>fresh\<close>, the identifiers \<^verbatim>\<open>uuid.NewString\<close>
  returns one after the other. A \<^verbatim>\<open>time.Time\<close> is an instant, or \<open>None\<close> for the zero time.
\<close>

section \<open>The model\<close>

type_synonym go_time = "int option"

record todo =
  td_position :: int
  td_text :: string
  td_phase :: string
  td_status :: string

record work_item =
  wi_id :: string
  wi_session :: string
  wi_objective :: string
  wi_status :: string
  wi_phase :: string
  wi_position :: nat
  wi_created :: go_time
  wi_completed :: go_time

record work_item_sync =
  ws_items :: "work_item list"
  ws_active :: string
  ws_report :: bool

definition TodoOpen :: "string \<Rightarrow> bool" where
  "TodoOpen status \<longleftrightarrow> status = ''pending'' \<or> status = ''in_progress''"

definition OpenTodos :: "todo list \<Rightarrow> string list" where
  "OpenTodos ts =
     map (\<lambda>t. TrimSpace (td_text t))
       (filter (\<lambda>t. TodoOpen (td_status t) \<and> TrimSpace (td_text t) \<noteq> []) ts)"

definition ToLower :: "(string \<Rightarrow> string) \<Rightarrow> string \<Rightarrow> string" where
  "ToLower uni s = (if list_all (\<lambda>c. (of_char c :: nat) < 128) s then map ascii_lower s else uni s)"

definition workItemKey :: "(string \<Rightarrow> string) \<Rightarrow> string \<Rightarrow> string \<Rightarrow> string" where
  "workItemKey uni objective phase =
     ToLower uni (TrimSpace objective) @ [CHR 0x00] @ ToLower uni (TrimSpace phase)"

abbreviation todo_key :: "(string \<Rightarrow> string) \<Rightarrow> todo \<Rightarrow> string" where
  "todo_key uni t \<equiv> workItemKey uni (td_text t) (td_phase t)"

abbreviation item_key :: "(string \<Rightarrow> string) \<Rightarrow> work_item \<Rightarrow> string" where
  "item_key uni w \<equiv> workItemKey uni (wi_objective w) (wi_phase w)"

abbreviation blank :: "todo \<Rightarrow> bool" where
  "blank t \<equiv> TrimSpace (td_text t) = []"

record sync_state =
  sy_plan :: "string \<Rightarrow> int"
  sy_consumed :: "string list"
  sy_byPosition :: "nat \<Rightarrow> string"
  sy_items :: "work_item list"
  sy_active :: string
  sy_anyCompleted :: bool
  sy_fresh :: nat

definition plan_counts :: "(string \<Rightarrow> string) \<Rightarrow> todo list \<Rightarrow> string \<Rightarrow> int" where
  "plan_counts uni todos key =
     int (length (filter (\<lambda>t. \<not> blank t \<and> td_status t \<noteq> ''completed'' \<and> todo_key uni t = key) todos))"

definition free_row :: "(string \<Rightarrow> string) \<Rightarrow> string list \<Rightarrow> string \<Rightarrow> bool \<Rightarrow> work_item \<Rightarrow> bool" where
  "free_row uni consumed key completed c \<longleftrightarrow>
     wi_id c \<notin> set consumed \<and> item_key uni c = key \<and> (wi_status c = ''completed'') = completed"

text \<open>The existing row a todo takes over, if any.\<close>

definition match_row ::
  "(string \<Rightarrow> string) \<Rightarrow> string list \<Rightarrow> (string \<Rightarrow> int) \<Rightarrow> work_item list \<Rightarrow> nat \<Rightarrow> todo \<Rightarrow> work_item option" where
  "match_row uni consumed plan existing i t =
     (let key = todo_key uni t in
      if td_status t = ''completed''
      then let live = filter (free_row uni consumed key False) existing in
        if int (length live) > plan key then Some (hd live)
        else (case List.find (\<lambda>c. free_row uni consumed key True c \<and> wi_position c = i) existing of
                Some c \<Rightarrow> Some c
              | None \<Rightarrow> List.find (free_row uni consumed key True) existing)
      else (case List.find (\<lambda>c. free_row uni consumed key False c \<and> wi_position c = i) existing of
              Some c \<Rightarrow> Some c
            | None \<Rightarrow> List.find (free_row uni consumed key False) existing))"

definition take_over :: "string \<Rightarrow> int \<Rightarrow> nat \<Rightarrow> todo \<Rightarrow> work_item \<Rightarrow> work_item" where
  "take_over sid now i t w =
     w\<lparr>wi_session := sid, wi_status := td_status t, wi_phase := td_phase t, wi_position := i,
       wi_completed := (if td_status t = ''completed''
                        then if wi_status w = ''completed'' then wi_completed w else Some now else None)\<rparr>"

definition new_item :: "string \<Rightarrow> int \<Rightarrow> string \<Rightarrow> nat \<Rightarrow> todo \<Rightarrow> work_item" where
  "new_item sid now ident i t =
     \<lparr>wi_id = ident, wi_session = sid, wi_objective = TrimSpace (td_text t), wi_status = td_status t,
      wi_phase = td_phase t, wi_position = i, wi_created = Some now,
      wi_completed = (if td_status t = ''completed'' then Some now else None)\<rparr>"

definition sync_todo ::
  "(string \<Rightarrow> string) \<Rightarrow> (nat \<Rightarrow> string) \<Rightarrow> string \<Rightarrow> work_item list \<Rightarrow> bool \<Rightarrow> int \<Rightarrow> nat \<times> todo \<Rightarrow> sync_state \<Rightarrow> sync_state" where
  "sync_todo uni fresh sid existing prior now it s =
     (case it of (i, t) \<Rightarrow>
      if blank t then s
      else let key = todo_key uni t;
               row = match_row uni (sy_consumed s) (sy_plan s) existing i t;
               completed = (td_status t = ''completed'');
               wi = (case row of Some w \<Rightarrow> take_over sid now i t w | None \<Rightarrow> new_item sid now (fresh (sy_fresh s)) i t);
               wasCompleted = (case row of Some w \<Rightarrow> wi_status w = ''completed'' | None \<Rightarrow> False)
        in s\<lparr>sy_plan := (if completed then sy_plan s else (sy_plan s)(key := sy_plan s key - 1)),
             sy_consumed := (case row of Some w \<Rightarrow> wi_id w # sy_consumed s | None \<Rightarrow> sy_consumed s),
             sy_byPosition := (sy_byPosition s)(i := wi_id wi),
             sy_items := sy_items s @ [wi],
             sy_active := (if td_status t = ''in_progress'' \<and> sy_active s = [] then wi_id wi else sy_active s),
             sy_anyCompleted := (sy_anyCompleted s \<or> completed \<and> (\<not> wasCompleted \<or> prior)),
             sy_fresh := (if row = None then sy_fresh s + 1 else sy_fresh s)\<rparr>)"

definition sync_start :: "(string \<Rightarrow> string) \<Rightarrow> todo list \<Rightarrow> sync_state" where
  "sync_start uni todos =
     \<lparr>sy_plan = plan_counts uni todos, sy_consumed = [], sy_byPosition = (\<lambda>_. []), sy_items = [],
      sy_active = [], sy_anyCompleted = False, sy_fresh = 0\<rparr>"

definition retained_rows :: "string \<Rightarrow> string list \<Rightarrow> work_item list \<Rightarrow> work_item list" where
  "retained_rows sid consumed existing =
     map (\<lambda>w. w\<lparr>wi_session := sid\<rparr>)
       (filter (\<lambda>w. wi_id w \<notin> set consumed \<and> wi_status w = ''completed'') existing)"

definition pending_active :: "(nat \<Rightarrow> string) \<Rightarrow> todo list \<Rightarrow> string" where
  "pending_active byPosition todos =
     (case List.find (\<lambda>(i, t). td_status t = ''pending'' \<and> byPosition i \<noteq> []) (enumerate 0 todos) of
        Some (i, _) \<Rightarrow> byPosition i | None \<Rightarrow> [])"

definition SyncWorkItems ::
  "(string \<Rightarrow> string) \<Rightarrow> (nat \<Rightarrow> string) \<Rightarrow> string \<Rightarrow> todo list \<Rightarrow> work_item list \<Rightarrow> bool \<Rightarrow> int \<Rightarrow> work_item_sync" where
  "SyncWorkItems uni fresh sid todos existing prior now =
     (let s = fold (sync_todo uni fresh sid existing prior now) (enumerate 0 todos) (sync_start uni todos);
          kept = retained_rows sid (sy_consumed s) existing;
          anyCompleted = (sy_anyCompleted s \<or> prior \<and> kept \<noteq> []);
          active = (if sy_active s = [] then pending_active (sy_byPosition s) todos else sy_active s)
      in \<lparr>ws_items = sy_items s @ kept, ws_active = active, ws_report = (anyCompleted \<or> active \<noteq> [])\<rparr>)"

end
