(* ===== verification/Work_Items_Props.thy ===== *)
theory Work_Items_Props
  imports Work_Items
begin

text \<open>
  What a reconciliation of the work-item ledger guarantees: identities are unique and stable,
  completed work is never lost, the active item is one of the plan's open items, and submitting the
  same plan again changes nothing. What is assumed of \<^verbatim>\<open>uuid.NewString\<close> is that its identifiers
  are non-empty, pairwise different and different from the existing ones.
\<close>

section \<open>The loop over the todos\<close>

definition fresh_ids :: "(nat \<Rightarrow> string) \<Rightarrow> work_item list \<Rightarrow> bool" where
  "fresh_ids fresh existing \<longleftrightarrow> inj fresh \<and> (\<forall>k. fresh k \<noteq> [] \<and> fresh k \<notin> wi_id ` set existing)"

lemma fresh_idsD:
  assumes "fresh_ids fresh existing"
  shows "w \<in> set existing \<Longrightarrow> wi_id w \<noteq> fresh k" and "fresh k \<noteq> []" and "fresh k = fresh j \<longleftrightarrow> k = j"
  using assms by (force simp: fresh_ids_def image_iff inj_eq)+

definition rows_ok :: "work_item list \<Rightarrow> bool" where
  "rows_ok existing \<longleftrightarrow> distinct (map wi_id existing) \<and> (\<forall>w \<in> set existing. wi_id w \<noteq> [])"

abbreviation planned :: "todo list \<Rightarrow> (nat \<times> todo) list" where
  "planned todos \<equiv> filter (\<lambda>(i, t). \<not> blank t) (enumerate 0 todos)"

lemma fold_skip: "(\<And>x s. \<not> P x \<Longrightarrow> f x s = s) \<Longrightarrow> fold f xs s = fold f (filter P xs) s"
  by (induction xs arbitrary: s) auto

lemma fold_planned:
  "fold (sync_todo uni fresh sid existing prior now) (enumerate 0 todos) s
     = fold (sync_todo uni fresh sid existing prior now) (planned todos) s"
  by (rule fold_skip) (auto simp: sync_todo_def)

lemma find_Some_mem: "List.find P xs = Some x \<Longrightarrow> x \<in> set xs \<and> P x"
  by (auto simp: find_Some_iff)

lemma match_row_Some:
  assumes "match_row uni consumed plan existing i t = Some w" and "plan (todo_key uni t) \<ge> 0"
  shows "w \<in> set existing \<and> wi_id w \<notin> set consumed \<and> item_key uni w = todo_key uni t
    \<and> (wi_status w = ''completed'' \<longrightarrow> td_status t = ''completed'')"
proof -
  let ?live = "filter (free_row uni consumed (todo_key uni t) False) existing"
  have "int (length ?live) > plan (todo_key uni t) \<Longrightarrow> hd ?live \<in> set ?live"
    using assms(2) by (intro hd_in_set) auto
  with assms(1) show ?thesis
    by (auto simp: match_row_def Let_def free_row_def split: if_splits option.splits dest!: find_Some_mem)
qed

text \<open>An item as the plan's todo \<open>t\<close> at position \<open>i\<close> demands it.\<close>

definition item_for :: "string \<Rightarrow> nat \<times> todo \<Rightarrow> work_item \<Rightarrow> bool" where
  "item_for sid it w \<longleftrightarrow> (case it of (i, t) \<Rightarrow>
     wi_session w = sid \<and> wi_position w = i \<and> wi_status w = td_status t \<and> wi_phase w = td_phase t)"

text \<open>An item that carries the existing row \<open>w0\<close> on.\<close>

definition carries :: "work_item \<Rightarrow> work_item \<Rightarrow> bool" where
  "carries w0 w \<longleftrightarrow> wi_id w = wi_id w0 \<and> wi_objective w = wi_objective w0 \<and> wi_created w = wi_created w0
     \<and> (wi_status w0 = ''completed'' \<longrightarrow> wi_status w = ''completed'' \<and> wi_completed w = wi_completed w0)"

definition first_active :: "work_item list \<Rightarrow> string" where
  "first_active ws = (case List.find (\<lambda>w. wi_status w = ''in_progress'') ws of Some w \<Rightarrow> wi_id w | None \<Rightarrow> [])"

text \<open>A completed item that is news, or that was still to be reported.\<close>

definition reportable :: "bool \<Rightarrow> work_item list \<Rightarrow> work_item \<Rightarrow> bool" where
  "reportable prior existing w \<longleftrightarrow> wi_status w = ''completed''
     \<and> (prior \<or> \<not> (\<exists>w0 \<in> set existing. wi_id w0 = wi_id w \<and> wi_status w0 = ''completed''))"

definition sync_inv ::
  "(string \<Rightarrow> string) \<Rightarrow> (nat \<Rightarrow> string) \<Rightarrow> string \<Rightarrow> work_item list \<Rightarrow> bool \<Rightarrow> (nat \<times> todo) list \<Rightarrow> (nat \<times> todo) list
     \<Rightarrow> sync_state \<Rightarrow> bool" where
  "sync_inv uni fresh sid existing prior finished left s \<longleftrightarrow>
     list_all2 (item_for sid) finished (sy_items s)
     \<and> sy_plan s = plan_counts uni (map snd left)
     \<and> set (sy_consumed s) \<subseteq> wi_id ` set existing
     \<and> distinct (map wi_id (sy_items s))
     \<and> set (map wi_id (sy_items s)) = set (sy_consumed s) \<union> fresh ` {..<sy_fresh s}
     \<and> (\<forall>w \<in> set (sy_items s). wi_id w \<in> set (sy_consumed s) \<longrightarrow> (\<exists>w0 \<in> set existing. carries w0 w))
     \<and> (\<forall>n < length finished. sy_byPosition s (fst (finished ! n)) = wi_id (sy_items s ! n))
     \<and> (\<forall>i. i \<notin> fst ` set finished \<longrightarrow> sy_byPosition s i = [])
     \<and> sy_active s = first_active (sy_items s)
     \<and> (sy_anyCompleted s \<longleftrightarrow> (\<exists>w \<in> set (sy_items s). reportable prior existing w))"

lemma find_snoc: "List.find P (xs @ [x]) = (case List.find P xs of Some y \<Rightarrow> Some y | None \<Rightarrow> if P x then Some x else None)"
  by (induction xs) auto

lemma first_active_snoc:
  "\<forall>w \<in> set ws. wi_id w \<noteq> [] \<Longrightarrow>
     first_active (ws @ [w]) = (if wi_status w = ''in_progress'' \<and> first_active ws = [] then wi_id w else first_active ws)"
  by (auto simp: first_active_def find_snoc split: option.splits dest: find_Some_mem)

lemma plan_counts_Cons:
  "\<not> blank t \<Longrightarrow> plan_counts uni (t # ts)
     = (if td_status t = ''completed'' then plan_counts uni ts
        else (plan_counts uni ts)(todo_key uni t := plan_counts uni ts (todo_key uni t) + 1))"
  by (auto simp: plan_counts_def fun_eq_iff)

text \<open>One round of the loop appends one item, taken over from a free row or new.\<close>

lemma sync_todo_cases:
  assumes "\<not> blank t" and "sy_plan s = plan_counts uni (t # ts)"
    and "s' = sync_todo uni fresh sid existing prior now (i, t) s"
  obtains wi where "sy_items s' = sy_items s @ [wi]" and "item_for sid (i, t) wi"
    and "sy_plan s' = plan_counts uni ts"
    and "sy_byPosition s' = (sy_byPosition s)(i := wi_id wi)"
    and "sy_active s' = (if td_status t = ''in_progress'' \<and> sy_active s = [] then wi_id wi else sy_active s)"
    and "(\<exists>w0 \<in> set existing. wi_id w0 \<notin> set (sy_consumed s) \<and> item_key uni w0 = todo_key uni t \<and> carries w0 wi
            \<and> wi = take_over sid now i t w0
            \<and> sy_consumed s' = wi_id w0 # sy_consumed s \<and> sy_fresh s' = sy_fresh s
            \<and> sy_anyCompleted s' = (sy_anyCompleted s \<or> td_status t = ''completed'' \<and> (wi_status w0 \<noteq> ''completed'' \<or> prior)))
        \<or> (wi = new_item sid now (fresh (sy_fresh s)) i t \<and> sy_consumed s' = sy_consumed s \<and> sy_fresh s' = sy_fresh s + 1
            \<and> sy_anyCompleted s' = (sy_anyCompleted s \<or> td_status t = ''completed''))"
proof -
  have nonneg: "sy_plan s k \<ge> 0" for k by (simp add: assms(2) plan_counts_def)
  have plan: "sy_plan s' = plan_counts uni ts"
    using assms by (auto simp: sync_todo_def Let_def plan_counts_Cons)
  show thesis
  proof (cases "match_row uni (sy_consumed s) (sy_plan s) existing i t")
    case None
    show thesis
      by (rule that [of "new_item sid now (fresh (sy_fresh s)) i t"])
         (use None assms plan in \<open>auto simp: sync_todo_def Let_def item_for_def new_item_def\<close>)
  next
    case (Some w0)
    note m = match_row_Some [OF Some nonneg]
    let ?wi = "take_over sid now i t w0"
    have c: "carries w0 ?wi" using m by (auto simp: carries_def take_over_def)
    have s': "sy_items s' = sy_items s @ [?wi]" "sy_byPosition s' = (sy_byPosition s)(i := wi_id ?wi)"
      "sy_active s' = (if td_status t = ''in_progress'' \<and> sy_active s = [] then wi_id ?wi else sy_active s)"
      "sy_consumed s' = wi_id w0 # sy_consumed s" "sy_fresh s' = sy_fresh s"
      "sy_anyCompleted s' = (sy_anyCompleted s \<or> td_status t = ''completed'' \<and> (wi_status w0 \<noteq> ''completed'' \<or> prior))"
      using assms(1) Some by (simp_all add: assms(3) sync_todo_def Let_def)
    have f: "item_for sid (i, t) ?wi" by (simp add: item_for_def take_over_def)
    show thesis
      by (rule that [OF s'(1) f plan s'(2,3)]) (use s'(4-6) m c in blast)
  qed
qed

lemma sync_todo_inv:
  assumes inv: "sync_inv uni fresh sid existing prior finished ((i, t) # left) s" and "\<not> blank t"
    and ok: "rows_ok existing" "fresh_ids fresh existing" and new: "i \<notin> fst ` set finished"
  shows "sync_inv uni fresh sid existing prior (finished @ [(i, t)]) left (sync_todo uni fresh sid existing prior now (i, t) s)"
proof -
  let ?s = "sync_todo uni fresh sid existing prior now (i, t) s"
  have plan: "sy_plan s = plan_counts uni (t # map snd left)" using inv by (simp add: sync_inv_def)
  obtain wi where w: "sy_items ?s = sy_items s @ [wi]" "item_for sid (i, t) wi"
    "sy_plan ?s = plan_counts uni (map snd left)" "sy_byPosition ?s = (sy_byPosition s)(i := wi_id wi)"
    "sy_active ?s = (if td_status t = ''in_progress'' \<and> sy_active s = [] then wi_id wi else sy_active s)"
    and row: "(\<exists>w0 \<in> set existing. wi_id w0 \<notin> set (sy_consumed s) \<and> item_key uni w0 = todo_key uni t \<and> carries w0 wi
            \<and> wi = take_over sid now i t w0
            \<and> sy_consumed ?s = wi_id w0 # sy_consumed s \<and> sy_fresh ?s = sy_fresh s
            \<and> sy_anyCompleted ?s = (sy_anyCompleted s \<or> td_status t = ''completed'' \<and> (wi_status w0 \<noteq> ''completed'' \<or> prior)))
        \<or> (wi = new_item sid now (fresh (sy_fresh s)) i t \<and> sy_consumed ?s = sy_consumed s \<and> sy_fresh ?s = sy_fresh s + 1
            \<and> sy_anyCompleted ?s = (sy_anyCompleted s \<or> td_status t = ''completed''))"
    by (rule sync_todo_cases [OF assms(2) plan refl])
  have ids: "set (map wi_id (sy_items s)) = set (sy_consumed s) \<union> fresh ` {..<sy_fresh s}"
    and sub: "set (sy_consumed s) \<subseteq> wi_id ` set existing"
    using inv by (auto simp: sync_inv_def)
  have ne: "\<forall>v \<in> set (sy_items s). wi_id v \<noteq> []"
  proof
    fix v assume "v \<in> set (sy_items s)"
    then have "wi_id v \<in> set (sy_consumed s) \<union> fresh ` {..<sy_fresh s}" using ids by auto
    then show "wi_id v \<noteq> []" using sub ok by (auto simp: rows_ok_def fresh_ids_def)
  qed
  have len: "length finished = length (sy_items s)" using inv by (auto simp: sync_inv_def list_all2_lengthD)
  have act: "sy_active ?s = first_active (sy_items ?s)"
    using w(1,2,5) inv first_active_snoc [OF ne, of wi] by (simp add: sync_inv_def item_for_def)
  have pos: "\<forall>n < length (finished @ [(i, t)]). sy_byPosition ?s (fst ((finished @ [(i, t)]) ! n)) = wi_id (sy_items ?s ! n)"
    using w(1,4) inv new len by (auto simp: sync_inv_def nth_append less_Suc_eq)
  have carried: "\<forall>v \<in> set (sy_items s). wi_id v \<in> set (sy_consumed s) \<longrightarrow> (\<exists>w0 \<in> set existing. carries w0 v)"
    and any: "sy_anyCompleted s \<longleftrightarrow> (\<exists>w \<in> set (sy_items s). reportable prior existing w)"
    using inv unfolding sync_inv_def by blast+
  have common: "list_all2 (item_for sid) (finished @ [(i, t)]) (sy_items ?s)"
    "sy_plan ?s = plan_counts uni (map snd left)"
    "wi_id wi \<notin> set (map wi_id (sy_items s)) \<Longrightarrow> distinct (map wi_id (sy_items ?s))"
    "\<forall>k. k \<notin> fst ` set (finished @ [(i, t)]) \<longrightarrow> sy_byPosition ?s k = []"
    using inv w(1-4) by (simp_all add: sync_inv_def list_all2_appendI)
  show ?thesis
    using row
  proof (elim disjE bexE conjE)
    fix w0 assume r: "w0 \<in> set existing" "wi_id w0 \<notin> set (sy_consumed s)" "carries w0 wi" "wi = take_over sid now i t w0"
      "sy_consumed ?s = wi_id w0 # sy_consumed s" "sy_fresh ?s = sy_fresh s"
      "sy_anyCompleted ?s = (sy_anyCompleted s \<or> td_status t = ''completed'' \<and> (wi_status w0 \<noteq> ''completed'' \<or> prior))"
    have idw: "wi_id wi = wi_id w0" using r(3) by (simp add: carries_def)
    have fresh_new: "wi_id wi \<notin> set (map wi_id (sy_items s))"
      unfolding ids idw using r(1,2) ok(2) by (force simp: fresh_ids_def image_iff)
    have once: "v = w0" if "v \<in> set existing" "wi_id v = wi_id w0" for v
      using ok(1) r(1) that by (auto simp: rows_ok_def distinct_map dest: inj_onD)
    have rep: "reportable prior existing wi \<longleftrightarrow> td_status t = ''completed'' \<and> (wi_status w0 \<noteq> ''completed'' \<or> prior)"
      using once r(1,4) by (auto simp: reportable_def take_over_def)
    show ?thesis
      unfolding sync_inv_def
    proof (intro conjI)
      show "set (sy_consumed ?s) \<subseteq> wi_id ` set existing" using r(1,5) sub by simp
      show "set (map wi_id (sy_items ?s)) = set (sy_consumed ?s) \<union> fresh ` {..<sy_fresh ?s}"
        using ids by (simp add: w(1) r(5,6) idw)
      show "\<forall>v \<in> set (sy_items ?s). wi_id v \<in> set (sy_consumed ?s) \<longrightarrow> (\<exists>w0 \<in> set existing. carries w0 v)"
      proof (intro ballI impI)
        fix v assume v: "v \<in> set (sy_items ?s)" "wi_id v \<in> set (sy_consumed ?s)"
        show "\<exists>w0 \<in> set existing. carries w0 v"
        proof (cases "v = wi")
          case False
          then have "v \<in> set (sy_items s)" using v(1) by (simp add: w(1))
          moreover have "wi_id v \<in> set (sy_consumed s)"
            using v(2) calculation fresh_new idw r(5) by (auto simp del: set_map simp: in_set_conv_nth)
          ultimately show ?thesis using carried by blast
        qed (use r(1,3) in blast)
      qed
      show "sy_anyCompleted ?s \<longleftrightarrow> (\<exists>w \<in> set (sy_items ?s). reportable prior existing w)"
        using any by (auto simp: w(1) r(7) rep)
    qed (use common fresh_new act pos in blast)+
  next
    assume r: "wi = new_item sid now (fresh (sy_fresh s)) i t" "sy_consumed ?s = sy_consumed s" "sy_fresh ?s = sy_fresh s + 1"
      "sy_anyCompleted ?s = (sy_anyCompleted s \<or> td_status t = ''completed'')"
    have idw: "wi_id wi = fresh (sy_fresh s)" by (simp add: r(1) new_item_def)
    have fresh_new: "wi_id wi \<notin> set (map wi_id (sy_items s))"
      unfolding ids idw using sub ok(2) by (auto simp: fresh_ids_def dest: injD)
    have notc: "wi_id wi \<notin> set (sy_consumed s)" using fresh_new ids by blast
    have rep: "reportable prior existing wi \<longleftrightarrow> td_status t = ''completed''"
      using fresh_idsD(1) [OF ok(2)] by (auto simp: reportable_def r(1) new_item_def)
    show ?thesis
      unfolding sync_inv_def
    proof (intro conjI)
      show "set (sy_consumed ?s) \<subseteq> wi_id ` set existing" using r(2) sub by simp
      show "set (map wi_id (sy_items ?s)) = set (sy_consumed ?s) \<union> fresh ` {..<sy_fresh ?s}"
        using ids by (simp add: w(1) r(2,3) idw lessThan_Suc)
      show "\<forall>v \<in> set (sy_items ?s). wi_id v \<in> set (sy_consumed ?s) \<longrightarrow> (\<exists>w0 \<in> set existing. carries w0 v)"
        using carried notc by (auto simp: w(1) r(2))
      show "sy_anyCompleted ?s \<longleftrightarrow> (\<exists>w \<in> set (sy_items ?s). reportable prior existing w)"
        using any by (auto simp: w(1) r(4) rep)
    qed (use common fresh_new act pos in blast)+
  qed
qed

lemma sync_loop_inv:
  assumes "sync_inv uni fresh sid existing prior finished left s" and "\<forall>(i, t) \<in> set left. \<not> blank t"
    and "rows_ok existing" and "fresh_ids fresh existing" and "distinct (map fst (finished @ left))"
  shows "sync_inv uni fresh sid existing prior (finished @ left) [] (fold (sync_todo uni fresh sid existing prior now) left s)"
  using assms
proof (induction left arbitrary: finished s)
  case (Cons it left)
  obtain i t where it: "it = (i, t)" by force
  have "i \<notin> fst ` set finished" using Cons.prems(5) it by auto
  then have "sync_inv uni fresh sid existing prior (finished @ [(i, t)]) left (sync_todo uni fresh sid existing prior now (i, t) s)"
    using Cons.prems it by (intro sync_todo_inv) auto
  from Cons.IH [OF this] Cons.prems it show ?case by simp
qed simp

section \<open>The whole reconciliation\<close>

lemma planned_props:
  "distinct (map fst (planned todos))" "\<forall>(i, t) \<in> set (planned todos). \<not> blank t"
  "(i, t) \<in> set (planned todos) \<longleftrightarrow> i < length todos \<and> todos ! i = t \<and> \<not> blank t"
proof -
  show "distinct (map fst (planned todos))" by (simp add: distinct_map_filter)
  show "\<forall>(i, t) \<in> set (planned todos). \<not> blank t" by auto
  show "(i, t) \<in> set (planned todos) \<longleftrightarrow> i < length todos \<and> todos ! i = t \<and> \<not> blank t"
    by (auto simp: in_set_enumerate_eq)
qed

lemma plan_counts_planned: "plan_counts uni (map snd (planned todos)) = plan_counts uni todos"
proof -
  have "map snd (filter (\<lambda>(i, t). \<not> blank t) (enumerate n todos)) = filter (\<lambda>t. \<not> blank t) todos" for n
    by (induction todos arbitrary: n) auto
  then show ?thesis by (auto simp: plan_counts_def fun_eq_iff conj_ac)
qed

lemma sync_final:
  assumes "rows_ok existing" and "fresh_ids fresh existing"
  obtains s where "sync_inv uni fresh sid existing prior (planned todos) [] s"
    and "ws_items (SyncWorkItems uni fresh sid todos existing prior now)
       = sy_items s @ retained_rows sid (sy_consumed s) existing"
    and "ws_active (SyncWorkItems uni fresh sid todos existing prior now)
       = (if sy_active s = [] then pending_active (sy_byPosition s) todos else sy_active s)"
    and "ws_report (SyncWorkItems uni fresh sid todos existing prior now)
       = (sy_anyCompleted s \<or> prior \<and> retained_rows sid (sy_consumed s) existing \<noteq> []
          \<or> ws_active (SyncWorkItems uni fresh sid todos existing prior now) \<noteq> [])"
proof -
  let ?s = "fold (sync_todo uni fresh sid existing prior now) (planned todos) (sync_start uni todos)"
  have "sync_inv uni fresh sid existing prior [] (planned todos) (sync_start uni todos)"
    by (simp add: sync_inv_def sync_start_def plan_counts_planned first_active_def)
  from sync_loop_inv [OF this planned_props(2) assms] planned_props(1)
  have "sync_inv uni fresh sid existing prior (planned todos) [] ?s" by simp
  then show thesis
    by (rule that [of ?s]) (auto simp: SyncWorkItems_def Let_def fold_planned)
qed

lemma retained_rows_carry:
  assumes "w \<in> set (retained_rows sid consumed existing)"
  shows "wi_status w = ''completed'' \<and> wi_session w = sid \<and> (\<exists>w0 \<in> set existing. carries w0 w \<and> wi_id w0 \<notin> set consumed)"
  using assms by (auto simp: retained_rows_def carries_def)

lemma sync_rows_ok:
  assumes "rows_ok existing" and "fresh_ids fresh existing"
  shows "rows_ok (ws_items (SyncWorkItems uni fresh sid todos existing prior now))"
proof -
  obtain s where inv: "sync_inv uni fresh sid existing prior (planned todos) [] s"
    and items: "ws_items (SyncWorkItems uni fresh sid todos existing prior now) = sy_items s @ retained_rows sid (sy_consumed s) existing"
    by (rule sync_final [OF assms])
  let ?kept = "retained_rows sid (sy_consumed s) existing"
  have ids: "set (map wi_id (sy_items s)) = set (sy_consumed s) \<union> fresh ` {..<sy_fresh s}"
    and dist: "distinct (map wi_id (sy_items s))" and sub: "set (sy_consumed s) \<subseteq> wi_id ` set existing"
    using inv unfolding sync_inv_def by blast+
  have "map wi_id ?kept = map wi_id (filter (\<lambda>w. wi_id w \<notin> set (sy_consumed s) \<and> wi_status w = ''completed'') existing)"
    by (simp add: retained_rows_def)
  then have dk: "distinct (map wi_id ?kept)"
    using assms(1) by (simp only: rows_ok_def distinct_map_filter)
  have out: "wi_id w \<notin> set (sy_consumed s) \<union> fresh ` {..<sy_fresh s}" if "w \<in> set ?kept" for w
    using retained_rows_carry [OF that] assms(2) by (auto simp: carries_def fresh_ids_def image_iff)
  then have disj: "set (map wi_id (sy_items s)) \<inter> set (map wi_id ?kept) = {}"
    unfolding ids by (auto simp del: Un_iff)
  have "set (map wi_id (sy_items s)) \<subseteq> wi_id ` set existing \<union> range fresh" using ids sub by blast
  moreover have "[] \<notin> wi_id ` set existing \<union> range fresh"
    using assms(1) fresh_idsD(2) [OF assms(2)] by (auto simp: rows_ok_def) metis
  ultimately have "[] \<notin> set (map wi_id (sy_items s))" by blast
  moreover have "[] \<notin> set (map wi_id ?kept)"
    using assms(1) by (auto simp: retained_rows_def rows_ok_def)
  ultimately show ?thesis
    using dk dist disj unfolding rows_ok_def items by (auto simp: image_iff)
qed


section \<open>The active item and the report obligation\<close>

lemma first_active_Nil:
  "\<forall>w \<in> set ws. wi_id w \<noteq> [] \<Longrightarrow> first_active ws = [] \<longleftrightarrow> (\<forall>w \<in> set ws. wi_status w \<noteq> ''in_progress'')"
  by (auto simp: first_active_def find_None_iff split: option.splits dest: find_Some_mem)

lemma first_active_mem:
  "first_active ws \<noteq> [] \<Longrightarrow> \<exists>w \<in> set ws. wi_id w = first_active ws \<and> wi_status w = ''in_progress''"
  by (auto simp: first_active_def split: option.splits dest: find_Some_mem)

lemma sync_ids_nonempty:
  assumes "sync_inv uni fresh sid existing prior finished left s" and "rows_ok existing" and "fresh_ids fresh existing"
  shows "\<forall>w \<in> set (sy_items s). wi_id w \<noteq> []"
proof
  fix w assume "w \<in> set (sy_items s)"
  then have "wi_id w \<in> set (map wi_id (sy_items s))" by simp
  moreover have "set (map wi_id (sy_items s)) = set (sy_consumed s) \<union> fresh ` {..<sy_fresh s}"
    and "set (sy_consumed s) \<subseteq> wi_id ` set existing"
    using assms(1) unfolding sync_inv_def by blast+
  ultimately have "wi_id w \<in> wi_id ` set existing \<or> wi_id w \<in> range fresh" by blast
  then show "wi_id w \<noteq> []" using assms(2) fresh_idsD(2) [OF assms(3)] by (auto simp: rows_ok_def)
qed

lemma item_at:
  assumes "list_all2 (item_for sid) finished ws" and "n < length finished"
  shows "wi_status (ws ! n) = td_status (snd (finished ! n)) \<and> wi_position (ws ! n) = fst (finished ! n) \<and> ws ! n \<in> set ws"
  using list_all2_nthD [OF assms] list_all2_lengthD [OF assms(1)] assms(2)
  by (auto simp: item_for_def split: prod.splits)

lemma pending_active_spec:
  assumes inv: "sync_inv uni fresh sid existing prior (planned todos) [] s" and ok: "rows_ok existing" "fresh_ids fresh existing"
  shows "pending_active (sy_byPosition s) todos = [] \<longleftrightarrow> (\<forall>(i, t) \<in> set (planned todos). td_status t \<noteq> ''pending'')"
    and "pending_active (sy_byPosition s) todos \<noteq> []
      \<Longrightarrow> \<exists>w \<in> set (sy_items s). wi_id w = pending_active (sy_byPosition s) todos \<and> wi_status w = ''pending''"
proof -
  let ?P = "\<lambda>(i, t). td_status t = ''pending'' \<and> sy_byPosition s i \<noteq> []"
  have plan: "list_all2 (item_for sid) (planned todos) (sy_items s)"
    and at: "\<And>n. n < length (planned todos) \<Longrightarrow> sy_byPosition s (fst (planned todos ! n)) = wi_id (sy_items s ! n)"
    and off: "\<And>i. i \<notin> fst ` set (planned todos) \<Longrightarrow> sy_byPosition s i = []"
    using inv unfolding sync_inv_def by blast+
  note ne = sync_ids_nonempty [OF inv ok]
  have on: "\<exists>w \<in> set (sy_items s). wi_id w = sy_byPosition s i \<and> wi_status w = td_status t" if "(i, t) \<in> set (planned todos)" for i t
  proof -
    from that obtain n where n: "n < length (planned todos)" "planned todos ! n = (i, t)"
      unfolding in_set_conv_nth by blast
    then show ?thesis using item_at [OF plan n(1)] at [OF n(1)] by (intro bexI [of _ "sy_items s ! n"]) auto
  qed
  have hit: "?P (i, t) \<longleftrightarrow> (i, t) \<in> set (planned todos) \<and> td_status t = ''pending''" if "(i, t) \<in> set (enumerate 0 todos)" for i t
  proof
    assume a: "?P (i, t)"
    then have "i \<in> fst ` set (planned todos)" using off by auto
    then have "(i, t) \<in> set (planned todos)" using that planned_props(3) by (auto simp: in_set_enumerate_eq)
    with a show "(i, t) \<in> set (planned todos) \<and> td_status t = ''pending''" by simp
  next
    assume "(i, t) \<in> set (planned todos) \<and> td_status t = ''pending''"
    with on ne show "?P (i, t)" by force
  qed
  show "pending_active (sy_byPosition s) todos = [] \<longleftrightarrow> (\<forall>(i, t) \<in> set (planned todos). td_status t \<noteq> ''pending'')"
  proof (cases "List.find ?P (enumerate 0 todos)")
    case None
    then have "\<And>i t. (i, t) \<in> set (enumerate 0 todos) \<Longrightarrow> \<not> ?P (i, t)" by (auto simp: find_None_iff)
    with hit None show ?thesis by (auto simp: pending_active_def)
  next
    case (Some x)
    obtain i t where x: "x = (i, t)" by force
    from find_Some_mem [OF Some] x have "(i, t) \<in> set (enumerate 0 todos)" "?P (i, t)" by auto
    with hit have "(i, t) \<in> set (planned todos)" "td_status t = ''pending''" "sy_byPosition s i \<noteq> []" by auto
    with Some x show ?thesis by (auto simp: pending_active_def)
  qed
  assume "pending_active (sy_byPosition s) todos \<noteq> []"
  then obtain i t where f: "List.find ?P (enumerate 0 todos) = Some (i, t)"
    by (auto simp: pending_active_def split: option.splits)
  from find_Some_mem [OF f] have "(i, t) \<in> set (enumerate 0 todos)" "?P (i, t)" by auto
  with hit have "(i, t) \<in> set (planned todos)" "td_status t = ''pending''" by blast+
  with on f show "\<exists>w \<in> set (sy_items s). wi_id w = pending_active (sy_byPosition s) todos \<and> wi_status w = ''pending''"
    by (fastforce simp: pending_active_def)
qed

lemma active_report:
  fixes uni sid todos prior now
  assumes "rows_ok existing" and "fresh_ids fresh existing"
  defines "r \<equiv> SyncWorkItems uni fresh sid todos existing prior now"
  shows "ws_active r \<noteq> [] \<longleftrightarrow> (\<exists>(i, t) \<in> set (planned todos). TodoOpen (td_status t))"
    and "ws_active r \<noteq> [] \<Longrightarrow> \<exists>w \<in> set (ws_items r). wi_id w = ws_active r
        \<and> (wi_status w = ''in_progress'' \<or> wi_status w = ''pending'' \<and> (\<forall>v \<in> set (ws_items r). wi_status v \<noteq> ''in_progress''))"
    and "ws_report r \<longleftrightarrow> ws_active r \<noteq> [] \<or> (\<exists>w \<in> set (ws_items r). reportable prior existing w)"
proof -
  obtain s where inv: "sync_inv uni fresh sid existing prior (planned todos) [] s"
    and items: "ws_items r = sy_items s @ retained_rows sid (sy_consumed s) existing"
    and act: "ws_active r = (if sy_active s = [] then pending_active (sy_byPosition s) todos else sy_active s)"
    and rep: "ws_report r = (sy_anyCompleted s \<or> prior \<and> retained_rows sid (sy_consumed s) existing \<noteq> [] \<or> ws_active r \<noteq> [])"
    unfolding r_def by (rule sync_final [OF assms(1,2)])
  have plan: "list_all2 (item_for sid) (planned todos) (sy_items s)" and fa: "sy_active s = first_active (sy_items s)"
    and any: "sy_anyCompleted s \<longleftrightarrow> (\<exists>w \<in> set (sy_items s). reportable prior existing w)"
    using inv unfolding sync_inv_def by blast+
  note ne = sync_ids_nonempty [OF inv assms(1,2)]
  note pend = pending_active_spec [OF inv assms(1,2)]
  have statuses: "(\<exists>w \<in> set (sy_items s). wi_status w = x) \<longleftrightarrow> (\<exists>(i, t) \<in> set (planned todos). td_status t = x)" for x
    using plan by (induction rule: list_all2_induct) (auto simp: item_for_def split: prod.splits)
  show "ws_active r \<noteq> [] \<longleftrightarrow> (\<exists>(i, t) \<in> set (planned todos). TodoOpen (td_status t))"
    using pend(1) first_active_Nil [OF ne] statuses [of "''in_progress''"] by (auto simp: act fa TodoOpen_def)
  have kept: "\<forall>w \<in> set (retained_rows sid (sy_consumed s) existing). wi_status w = ''completed''"
    using retained_rows_carry by blast
  show "\<exists>w \<in> set (ws_items r). wi_id w = ws_active r
        \<and> (wi_status w = ''in_progress'' \<or> wi_status w = ''pending'' \<and> (\<forall>v \<in> set (ws_items r). wi_status v \<noteq> ''in_progress''))"
    if "ws_active r \<noteq> []"
  proof (cases "sy_active s = []")
    case True
    then have none: "\<forall>v \<in> set (ws_items r). wi_status v \<noteq> ''in_progress''"
      using first_active_Nil [OF ne] fa kept by (auto simp: items)
    from True that obtain w where "w \<in> set (sy_items s)" "wi_id w = ws_active r" "wi_status w = ''pending''"
      using pend(2) act by auto
    with none show ?thesis by (auto simp: items)
  next
    case False
    then show ?thesis using first_active_mem [of "sy_items s"] fa act by (auto simp: items)
  qed
  have "reportable prior existing w \<longleftrightarrow> prior" if "w \<in> set (retained_rows sid (sy_consumed s) existing)" for w
    using retained_rows_carry [OF that] that by (auto simp: reportable_def carries_def retained_rows_def)
  then have "prior \<and> retained_rows sid (sy_consumed s) existing \<noteq> []
      \<longleftrightarrow> (\<exists>w \<in> set (retained_rows sid (sy_consumed s) existing). reportable prior existing w)"
    by (cases "retained_rows sid (sy_consumed s) existing") auto
  then show "ws_report r \<longleftrightarrow> ws_active r \<noteq> [] \<or> (\<exists>w \<in> set (ws_items r). reportable prior existing w)"
    using rep any by (auto simp: items)
qed

text \<open>
  A session has an active work item exactly when the plan has a non-blank open todo; the
  active one is an item of the ledger that is in progress or, when none is, pending. A final
  report is owed exactly when there is an active item or a completed one that is newly completed
  or whose report was still owed.
\<close>

theorem active_item_and_report:
  assumes "rows_ok existing" and "fresh_ids fresh existing"
    and "r = SyncWorkItems uni fresh sid todos existing prior now"
  shows "(ws_active r \<noteq> [] \<longleftrightarrow> (\<exists>(i, t) \<in> set (planned todos). TodoOpen (td_status t)))
    \<and> (ws_active r \<noteq> [] \<longrightarrow> (\<exists>w \<in> set (ws_items r). wi_id w = ws_active r
         \<and> (wi_status w = ''in_progress'' \<or> wi_status w = ''pending'' \<and> (\<forall>v \<in> set (ws_items r). wi_status v \<noteq> ''in_progress''))))
    \<and> (ws_report r \<longleftrightarrow> ws_active r \<noteq> [] \<or> (\<exists>w \<in> set (ws_items r). reportable prior existing w))"
  using active_report [OF assms(1,2), of uni sid todos prior now] unfolding assms(3) by blast

section \<open>Submitting the same plan again\<close>

definition keys_plain :: "(string \<Rightarrow> string) \<Rightarrow> todo list \<Rightarrow> work_item list \<Rightarrow> bool" where
  "keys_plain uni todos existing \<longleftrightarrow>
     (\<forall>t \<in> set todos. CHR 0x00 \<notin> set (ToLower uni (TrimSpace (td_text t))))
     \<and> (\<forall>w \<in> set existing. CHR 0x00 \<notin> set (ToLower uni (TrimSpace (wi_objective w))))"

definition settled :: "(string \<Rightarrow> string) \<Rightarrow> string \<Rightarrow> nat \<times> todo \<Rightarrow> work_item \<Rightarrow> bool" where
  "settled uni sid it w \<longleftrightarrow> item_for sid it w \<and> item_key uni w = todo_key uni (snd it)
     \<and> (wi_status w \<noteq> ''completed'' \<longrightarrow> wi_completed w = None)"

lemma sep_append_eq: "c \<notin> set a \<Longrightarrow> c \<notin> set a' \<Longrightarrow> a @ c # b = a' @ c # b' \<longleftrightarrow> a = a' \<and> b = b'"
proof (induction a arbitrary: a')
  case Nil
  then show ?case by (cases a') auto
next
  case (Cons x a)
  then show ?case by (cases a') auto
qed

lemma settledD:
  assumes "settled uni sid (i, t) w"
  shows "item_key uni w = todo_key uni t" and "wi_status w = td_status t" and "wi_position w = i"
    and "wi_session w = sid" and "wi_phase w = td_phase t" and "wi_status w \<noteq> ''completed'' \<Longrightarrow> wi_completed w = None"
  using assms unfolding settled_def item_for_def by auto

lemma key_other_phase:
  assumes "workItemKey uni a p = workItemKey uni b q"
    and "CHR 0x00 \<notin> set (ToLower uni (TrimSpace a))" and "CHR 0x00 \<notin> set (ToLower uni (TrimSpace b))"
  shows "workItemKey uni a q = workItemKey uni b q"
  using assms(1) sep_append_eq [OF assms(2,3)] by (simp add: workItemKey_def)

lemma sync_loop_settled:
  assumes "sync_inv uni fresh sid existing prior finished left s" and "\<forall>(i, t) \<in> set left. \<not> blank t"
    and "rows_ok existing" and "fresh_ids fresh existing" and "distinct (map fst (finished @ left))"
    and "keys_plain uni (map snd left) existing" and "list_all2 (settled uni sid) finished (sy_items s)"
  shows "list_all2 (settled uni sid) (finished @ left) (sy_items (fold (sync_todo uni fresh sid existing prior now) left s))"
  using assms
proof (induction left arbitrary: finished s)
  case (Cons it left)
  obtain i t where it: "it = (i, t)" by force
  let ?s = "sync_todo uni fresh sid existing prior now (i, t) s"
  have nb: "\<not> blank t" using Cons.prems(2) it by auto
  have plan: "sy_plan s = plan_counts uni (t # map snd left)" using Cons.prems(1) it by (simp add: sync_inv_def)
  have plain: "CHR 0x00 \<notin> set (ToLower uni (TrimSpace (td_text t)))"
    "\<And>w. w \<in> set existing \<Longrightarrow> CHR 0x00 \<notin> set (ToLower uni (TrimSpace (wi_objective w)))"
    using Cons.prems(6) it by (auto simp: keys_plain_def)
  obtain wi where w: "sy_items ?s = sy_items s @ [wi]" "item_for sid (i, t) wi"
    and row: "(\<exists>w0 \<in> set existing. item_key uni w0 = todo_key uni t \<and> wi = take_over sid now i t w0)
        \<or> wi = new_item sid now (fresh (sy_fresh s)) i t"
    by (rule sync_todo_cases [OF nb plan, of ?s, OF refl]) blast
  have "settled uni sid (i, t) wi"
    using row
  proof (elim disjE bexE conjE)
    fix w0 assume a: "w0 \<in> set existing" "item_key uni w0 = todo_key uni t" "wi = take_over sid now i t w0"
    then show ?thesis using w(2) key_other_phase [OF a(2) plain(2) [OF a(1)] plain(1)]
      by (simp add: settled_def take_over_def)
  next
    assume "wi = new_item sid now (fresh (sy_fresh s)) i t"
    then show ?thesis using w(2) by (simp add: settled_def new_item_def workItemKey_def)
  qed
  then have "list_all2 (settled uni sid) (finished @ [(i, t)]) (sy_items ?s)"
    using Cons.prems(7) by (simp add: w(1) list_all2_appendI)
  moreover have "sync_inv uni fresh sid existing prior (finished @ [(i, t)]) left ?s"
    using Cons.prems it nb by (intro sync_todo_inv) auto
  moreover have "keys_plain uni (map snd left) existing" using Cons.prems(6) by (auto simp: keys_plain_def)
  ultimately show ?case
    using Cons.IH [of "finished @ [(i, t)]" ?s] Cons.prems it by simp
qed simp

text \<open>On a settled ledger every todo finds its own item again.\<close>

lemma find_at: "\<forall>y \<in> set ys. \<not> P y \<Longrightarrow> P w \<Longrightarrow> List.find P (ys @ w # zs) = Some w"
  by (induction ys) auto

lemma settled_live_count:
  assumes "list_all2 (settled uni sid) left rest" and "\<forall>(i, t) \<in> set left. \<not> blank t"
  shows "int (length (filter (\<lambda>w. item_key uni w = key \<and> wi_status w \<noteq> ''completed'') rest)) = plan_counts uni (map snd left) key"
  using assms
proof (induction rule: list_all2_induct)
  case (Cons it left w rest)
  obtain i t where it: "it = (i, t)" by force
  have "item_key uni w = todo_key uni t" "wi_status w = td_status t" "\<not> blank t"
    using settledD(1,2) [OF Cons.hyps(1) [unfolded it]] Cons.prems by (simp_all add: it)
  moreover have "int (length (filter (\<lambda>w. item_key uni w = key \<and> wi_status w \<noteq> ''completed'') rest))
      = plan_counts uni (map snd left) key"
    using Cons.IH Cons.prems by simp
  ultimately show ?case by (cases "key = todo_key uni t") (auto simp: it plan_counts_Cons)
qed (simp add: plan_counts_def)

lemma settled_match:
  assumes ledger: "existing = finished @ (w # rest) @ kept" and ids: "distinct (map wi_id existing)"
    and consumed: "set consumed = wi_id ` set finished"
    and set: "settled uni sid (i, t) w" "list_all2 (settled uni sid) left rest" "\<forall>(i, t) \<in> set ((i, t) # left). \<not> blank t"
    and kept: "\<forall>v \<in> set kept. wi_status v = ''completed''"
  shows "match_row uni consumed (plan_counts uni (map snd ((i, t) # left))) existing i t = Some w"
proof -
  let ?key = "todo_key uni t" and ?plan = "plan_counts uni (map snd ((i, t) # left))"
  have used: "wi_id v \<in> set consumed \<longleftrightarrow> v \<in> set finished" if "v \<in> set existing" for v
  proof
    assume "wi_id v \<in> set consumed"
    then obtain u where u: "u \<in> set finished" "wi_id u = wi_id v" using consumed by auto
    have "u \<in> set existing" using u(1) by (simp add: ledger)
    with u that ids have "u = v" by (simp add: distinct_map inj_on_def)
    with u(1) show "v \<in> set finished" by simp
  qed (use consumed in simp)
  have w: "item_key uni w = ?key" "wi_position w = i" "wi_status w = td_status t" "w \<notin> set finished"
    using settledD [OF set(1)] ids by (auto simp: ledger)
  have fin: "\<not> free_row uni consumed ?key b v" if "v \<in> set finished" for b v
    using that used [of v] by (auto simp: free_row_def ledger)
  have at: "List.find (\<lambda>c. free_row uni consumed ?key b c \<and> wi_position c = i) existing = Some w"
    if "(wi_status w = ''completed'') = b" for b
    unfolding ledger append_assoc append_Cons
    by (rule find_at) (use fin w used [of w] that in \<open>auto simp: free_row_def ledger\<close>)
  have "filter (free_row uni consumed ?key False) existing
      = filter (\<lambda>w. item_key uni w = ?key \<and> wi_status w \<noteq> ''completed'') (w # rest)"
  proof -
    have "filter (free_row uni consumed ?key False) finished = []" using fin by (simp add: filter_empty_conv)
    moreover have "filter (free_row uni consumed ?key False) kept = []"
      using kept by (auto simp: filter_empty_conv free_row_def)
    moreover have "filter (free_row uni consumed ?key False) (w # rest)
        = filter (\<lambda>w. item_key uni w = ?key \<and> wi_status w \<noteq> ''completed'') (w # rest)"
    proof (rule filter_cong [OF refl])
      fix v assume "v \<in> set (w # rest)"
      then have "v \<in> set existing" "v \<notin> set finished" using ids by (auto simp: ledger)
      with used [of v] show "free_row uni consumed ?key False v \<longleftrightarrow> item_key uni v = ?key \<and> wi_status v \<noteq> ''completed''"
        by (simp add: free_row_def)
    qed
    ultimately show ?thesis by (simp only: ledger filter_append) simp
  qed
  then have "int (length (filter (free_row uni consumed ?key False) existing)) = ?plan ?key"
    using settled_live_count [of uni sid "(i, t) # left" "w # rest" ?key] set by simp
  with at w show ?thesis by (auto simp: match_row_def Let_def)
qed

lemma take_over_settled: "settled uni sid (i, t) w \<Longrightarrow> take_over sid now i t w = w"
  by (cases w) (auto simp: settled_def item_for_def take_over_def)

lemma resync_loop:
  assumes "existing = sy_items s @ rest @ kept" and "distinct (map wi_id existing)"
    and "set (sy_consumed s) = wi_id ` set (sy_items s)" and "sy_plan s = plan_counts uni (map snd left)"
    and "list_all2 (settled uni sid) left rest" and "\<forall>(i, t) \<in> set left. \<not> blank t"
    and "\<forall>v \<in> set kept. wi_status v = ''completed''"
  shows "sy_items (fold (sync_todo uni fresh sid existing prior now) left s) = sy_items s @ rest
    \<and> set (sy_consumed (fold (sync_todo uni fresh sid existing prior now) left s)) = wi_id ` set (sy_items s @ rest)"
  using assms
proof (induction left arbitrary: s rest)
  case (Cons it left)
  obtain i t where it: "it = (i, t)" by force
  obtain w rest' where rest: "rest = w # rest'" "settled uni sid (i, t) w" "list_all2 (settled uni sid) left rest'"
    using Cons.prems(5) it by (auto simp: list_all2_Cons1)
  let ?s = "sync_todo uni fresh sid existing prior now (i, t) s"
  have nb: "\<not> blank t" using Cons.prems(6) it by auto
  have "match_row uni (sy_consumed s) (plan_counts uni (map snd ((i, t) # left))) existing i t = Some w"
    by (rule settled_match [OF _ Cons.prems(2,3) rest(2,3) _ Cons.prems(7)])
       (use Cons.prems(1,6) rest(1) it in simp_all)
  then have step: "sy_items ?s = sy_items s @ [w]" "sy_consumed ?s = wi_id w # sy_consumed s"
      "sy_plan ?s = plan_counts uni (map snd left)"
    using Cons.prems(4) nb by (auto simp: sync_todo_def Let_def take_over_settled [OF rest(2)] it plan_counts_Cons)
  have "sy_items (fold (sync_todo uni fresh sid existing prior now) left ?s) = sy_items ?s @ rest'
      \<and> set (sy_consumed (fold (sync_todo uni fresh sid existing prior now) left ?s)) = wi_id ` set (sy_items ?s @ rest')"
    by (rule Cons.IH) (use Cons.prems step rest in simp_all)
  then show ?case by (simp add: it step rest(1))
qed simp

lemma sync_inv_fun:
  assumes "sync_inv uni f1 sid e1 p1 done1 l1 s1" and "sync_inv uni f2 sid e2 p2 done1 l2 s2" and "sy_items s1 = sy_items s2"
  shows "sy_byPosition s1 = sy_byPosition s2" and "sy_active s1 = sy_active s2"
proof
  fix i
  show "sy_byPosition s1 i = sy_byPosition s2 i"
  proof (cases "i \<in> fst ` set done1")
    case True
    then obtain n where "n < length done1" "fst (done1 ! n) = i" by (auto simp: in_set_conv_nth)
    then show ?thesis using assms unfolding sync_inv_def by metis
  next
    case False
    then show ?thesis using assms unfolding sync_inv_def by metis
  qed
qed (use assms in \<open>simp add: sync_inv_def\<close>)

lemma resync_kept:
  assumes "distinct (map wi_id (live @ retained_rows sid consumed existing))" and "set consumed' = wi_id ` set live"
  shows "retained_rows sid consumed' (live @ retained_rows sid consumed existing) = retained_rows sid consumed existing"
proof -
  let ?kept = "retained_rows sid consumed existing" and ?P = "\<lambda>w. wi_id w \<notin> set consumed' \<and> wi_status w = ''completed''"
  have "filter ?P live = []" using assms(2) by (auto simp: filter_empty_conv)
  moreover have "filter ?P ?kept = ?kept"
    using assms retained_rows_carry [of _ sid consumed existing] by (intro filter_True) auto
  moreover have "map (\<lambda>w. w\<lparr>wi_session := sid\<rparr>) ?kept = ?kept"
    by (rule map_idI) (auto simp: retained_rows_def)
  ultimately show ?thesis by (simp add: retained_rows_def [of _ consumed'])
qed


text \<open>Concrete rows, a plan and identifier sources on which the claims apply.\<close>

definition demo_rows :: "work_item list" where
  "demo_rows =
     [\<lparr>wi_id = ''a'', wi_session = ''s'', wi_objective = ''Ship it'', wi_status = ''completed'', wi_phase = [],
       wi_position = 0, wi_created = Some 1, wi_completed = Some 2\<rparr>,
      \<lparr>wi_id = ''b'', wi_session = ''s'', wi_objective = ''Test it'', wi_status = ''in_progress'', wi_phase = [],
       wi_position = 1, wi_created = Some 1, wi_completed = None\<rparr>]"

definition demo_plan :: "todo list" where
  "demo_plan =
     [\<lparr>td_position = 0, td_text = '' test IT '', td_phase = [], td_status = ''completed''\<rparr>,
      \<lparr>td_position = 1, td_text = ''  '', td_phase = [], td_status = ''pending''\<rparr>,
      \<lparr>td_position = 2, td_text = ''Write docs'', td_phase = [], td_status = ''pending''\<rparr>]"

definition demo_ids :: "char \<Rightarrow> nat \<Rightarrow> string" where
  "demo_ids c k = replicate (Suc k) c"

lemma demo_ids_fresh: "\<forall>w \<in> set ws. c \<notin> set (wi_id w) \<Longrightarrow> fresh_ids (demo_ids c) ws"
  by (auto simp: fresh_ids_def demo_ids_def inj_on_def dest: arg_cong [where f = length]) (metis list.set_intros(1))

lemma demo_ok: "rows_ok demo_rows" "fresh_ids (demo_ids (CHR ''n'')) demo_rows" "keys_plain (\<lambda>s. s) demo_plan demo_rows"
proof -
  show "rows_ok demo_rows" by code_simp
  show "fresh_ids (demo_ids (CHR ''n'')) demo_rows" by (rule demo_ids_fresh) code_simp
  show "keys_plain (\<lambda>s. s) demo_plan demo_rows" by code_simp
qed


theorem active_item_and_report_witness:
  "ws_active (SyncWorkItems (\<lambda>s. s) (demo_ids (CHR ''n'')) ''s'' demo_plan demo_rows False 7) \<noteq> []"
proof -
  have "\<exists>(i, t) \<in> set (planned demo_plan). TodoOpen (td_status t)" by code_simp
  then show ?thesis using active_item_and_report [OF demo_ok(1,2) refl] by blast
qed


end
