(* ===== verification/Exec_Guard.thy ===== *)
theory Exec_Guard
  imports Tool_Paths
begin

text \<open>
  The exec guard of \<^verbatim>\<open>internal/tools/execguard.go\<close>, which refuses shell commands that destroy
  work the agent cannot recover. What the guard takes from outside is gathered in a record of
  parameters: the shell parser of \<^verbatim>\<open>mvdan.cc/sh\<close>, seen as the calls of a script in the order
  \<^verbatim>\<open>syntax.Walk\<close> visits them (or a syntax error), its printer with \<^verbatim>\<open>%q\<close> quoting, and the
  operating system's \<^verbatim>\<open>filepath.Abs\<close>, \<^verbatim>\<open>filepath.EvalSymlinks\<close> and \<^verbatim>\<open>os.TempDir\<close>.
  The guard's \<^verbatim>\<open>root\<close> and \<^verbatim>\<open>depth\<close> never change in one guard; its \<^verbatim>\<open>cwd\<close> does and is
  passed along.
\<close>

section \<open>The model\<close>

datatype word_part = Lit string | SglQuoted string | DblQuoted "word_part list" | Expansion nat

type_synonym sh_word = "word_part list"

record guard_env =
  ge_parse :: "string \<Rightarrow> sh_word list list option"
  ge_quote :: "sh_word \<Rightarrow> string"
  ge_abs :: "string \<Rightarrow> string option"
  ge_links :: "string \<Rightarrow> string option"
  ge_temp :: string

abbreviation NUL :: char where
  "NUL \<equiv> CHR 0x00"

definition wrappers :: "string list" where
  "wrappers = [''sudo'', ''doas'', ''env'', ''command'', ''builtin'', ''exec'', ''nice'', ''nohup'', ''time'',
     ''timeout'', ''xargs'', ''stdbuf'', ''ionice'']"

definition shells :: "string list" where
  "shells = [''sh'', ''bash'', ''zsh'', ''dash'', ''ksh'']"

text \<open>Words.\<close>

fun lit_parts :: "word_part list \<Rightarrow> string option" where
  "lit_parts [] = Some []"
| "lit_parts (Lit v # ps) = map_option ((@) v) (lit_parts ps)"
| "lit_parts (_ # ps) = None"

fun literal :: "sh_word \<Rightarrow> string option" where
  "literal [] = Some []"
| "literal (Lit v # ps) = map_option ((@) v) (literal ps)"
| "literal (SglQuoted v # ps) = map_option ((@) v) (literal ps)"
| "literal (DblQuoted qs # ps) =
     (case lit_parts qs of None \<Rightarrow> None | Some v \<Rightarrow> map_option ((@) v) (literal ps))"
| "literal (Expansion _ # ps) = None"

definition call_args :: "guard_env \<Rightarrow> sh_word list \<Rightarrow> string list" where
  "call_args E ws = map (\<lambda>w. case literal w of Some v \<Rightarrow> v | None \<Rightarrow> NUL # ge_quote E w) ws"

text \<open>Paths.\<close>

definition cleanRoot :: "guard_env \<Rightarrow> string \<Rightarrow> string" where
  "cleanRoot E root =
     (if root = [] then []
      else let root = (case ge_abs E root of Some a \<Rightarrow> a | None \<Rightarrow> root) in
        (case ge_links E root of Some resolved \<Rightarrow> resolved | None \<Rightarrow> Clean root))"

definition guard_resolve :: "guard_env \<Rightarrow> string \<Rightarrow> string \<Rightarrow> string" where
  "guard_resolve E cwd p =
     (if \<not> IsAbs p \<and> cwd = [] then []
      else let p = Clean (if IsAbs p then p else Join2 cwd p) in
        (case ge_links E (Dir p) of Some resolved \<Rightarrow> Join2 resolved (Base p) | None \<Rightarrow> p))"

fun guard_cd :: "guard_env \<Rightarrow> string \<Rightarrow> string list \<Rightarrow> string" where
  "guard_cd E cwd [] = []"
| "guard_cd E cwd (a # args) =
     (if a = ''--'' \<or> HasPrefix a ''-'' \<and> a \<noteq> ''-'' then guard_cd E cwd args
      else if HasPrefix a [NUL] \<or> a = ''-'' \<or> a = ''~'' \<or> HasPrefix a ''~/'' then []
      else guard_resolve E cwd a)"

definition rmScratch :: "guard_env \<Rightarrow> string \<Rightarrow> bool" where
  "rmScratch E p =
     list_ex (\<lambda>tmp. \<not> (tmp = [] \<or> tmp = ''.'') \<and> (Clean p = tmp \<or> HasPrefix (Clean p) (tmp @ ''/'')))
       [''/tmp'', Clean (ge_temp E)]"

text \<open>Removals.\<close>

fun rm_args :: "string list \<Rightarrow> bool \<times> string list" where
  "rm_args [] = (False, [])"
| "rm_args (a # args) =
     (if a = ''--'' then (False, args)
      else case rm_args args of (recursive, operands) \<Rightarrow>
        if a = ''--recursive'' then (True, operands)
        else if HasPrefix a ''--'' then (recursive, operands)
        else if HasPrefix a ''-'' \<and> a \<noteq> ''-'' then (recursive \<or> ContainsAny a ''rR'', operands)
        else (recursive, a # operands))"

definition rm_operand :: "string \<Rightarrow> string" where
  "rm_operand op = (if ContainsAny op ''*?['' then Dir op else op)"

definition rmDestroys :: "guard_env \<Rightarrow> string \<Rightarrow> string \<Rightarrow> string \<Rightarrow> bool" where
  "rmDestroys E root cwd op0 =
     (if HasPrefix op0 [NUL] then True
      else let op = rm_operand op0 in
        if op = ''/'' \<or> op = ''~'' \<or> HasPrefix op ''~/'' then True
        else if root = [] then \<not> rmScratch E op
        else let dest = guard_resolve E cwd op in
          if dest = [] then True
          else if rmScratch E op \<or> rmScratch E dest then False
          else (case Rel root dest of None \<Rightarrow> True
                | Some rel \<Rightarrow> rel = ''.'' \<or> rel = ''..'' \<or> HasPrefix rel ''../''))"

definition guard_rm :: "guard_env \<Rightarrow> string \<Rightarrow> string \<Rightarrow> string list \<Rightarrow> string" where
  "guard_rm E root cwd args =
     (case rm_args args of (recursive, operands) \<Rightarrow>
      if \<not> recursive then []
      else case List.find (rmDestroys E root cwd) operands of
        Some op \<Rightarrow> ''rm -r '' @ op @ '' removes files that cannot be recovered''
      | None \<Rightarrow> [])"

text \<open>Git.\<close>

definition git_valued :: "string list" where
  "git_valued = [''-C'', ''-c'', ''--git-dir'', ''--work-tree'', ''--namespace'', ''-m'', ''--message'', ''-b'', ''-B'']"

fun gitArgs :: "string list \<Rightarrow> string list \<times> string list" where
  "gitArgs [] = ([], [])"
| "gitArgs (a # args) =
     (if a = ''--'' then ([], a # args)
      else if HasPrefix a ''-''
        then (case gitArgs (if a \<in> set git_valued then drop 1 args else args) of (flags, pos) \<Rightarrow> (a # flags, pos))
      else (case gitArgs args of (flags, pos) \<Rightarrow> (flags, a # pos)))"

definition clusteredFlag :: "string \<Rightarrow> string \<Rightarrow> bool" where
  "clusteredFlag f ch \<longleftrightarrow> HasPrefix f ''-'' \<and> \<not> HasPrefix f ''--'' \<and> str_contains f ch"

definition gitCheckoutDiscards :: "string list \<Rightarrow> string list \<Rightarrow> bool" where
  "gitCheckoutDiscards flags rest =
     (if ''-b'' \<in> set flags \<or> ''-B'' \<in> set flags \<or> ''-b'' \<in> set rest \<or> ''-B'' \<in> set rest then False
      else if ''--'' \<in> set rest then length (takeWhile (\<lambda>a. a \<noteq> ''--'') rest) + 1 < length rest
      else list_ex (\<lambda>p. p = ''.'' \<or> p = ''./'') rest)"

definition gitRestoreStagedOnly :: "string list \<Rightarrow> bool" where
  "gitRestoreStagedOnly flags \<longleftrightarrow>
     list_ex (\<lambda>f. f = ''--staged'' \<or> f = ''--staged=true'') flags
     \<and> \<not> list_ex (\<lambda>f. f = ''--worktree'' \<or> f = ''--worktree=true'') flags"

definition guard_git :: "string list \<Rightarrow> string" where
  "guard_git args =
     (case gitArgs args of
        (flags, []) \<Rightarrow> []
      | (flags, sub # rest) \<Rightarrow>
          if sub = ''reset''
          then if ''--hard'' \<in> set flags then ''git reset --hard discards uncommitted changes'' else []
          else if sub = ''clean''
          then if list_ex (\<lambda>f. f = ''--force'' \<or> f = ''-f'' \<or> f = ''-ff'' \<or> clusteredFlag f ''f'') flags
               then ''git clean -f deletes untracked files'' else []
          else if sub = ''checkout''
          then if gitCheckoutDiscards flags rest then ''git checkout -- discards working-tree changes'' else []
          else if sub = ''restore''
          then if \<not> gitRestoreStagedOnly flags then ''git restore discards working-tree changes'' else []
          else if sub = ''stash''
          then if rest \<noteq> [] \<and> (hd rest = ''drop'' \<or> hd rest = ''clear'')
               then ''git stash '' @ hd rest @ '' discards stashed changes'' else []
          else if sub = ''push''
          then if list_ex (\<lambda>f. f = ''--force'' \<or> f = ''-f'' \<or> HasPrefix f ''--force='' \<or> clusteredFlag f ''f'') flags
                 \<or> list_ex (\<lambda>p. HasPrefix p ''+'') rest
               then ''git push --force overwrites remote history'' else []
          else [])"

text \<open>Wrappers, \<^verbatim>\<open>find -exec\<close> and \<^verbatim>\<open>sh -c\<close>.\<close>

definition valued_flag :: "string \<Rightarrow> string \<Rightarrow> bool" where
  "valued_flag name a \<longleftrightarrow>
     name = ''xargs'' \<and> a \<in> set [''-I'', ''-n'', ''-P'', ''-L'', ''-s'', ''-d'', ''-E'', ''-a'']
     \<or> name = ''sudo'' \<and> a \<in> set [''-u'', ''-g'', ''-C'', ''-D'']
     \<or> name = ''nice'' \<and> a = ''-n'' \<or> name = ''timeout'' \<and> (a = ''-s'' \<or> a = ''-k'')
     \<or> name = ''env'' \<and> (a = ''-u'' \<or> a = ''-C'') \<or> name = ''ionice'' \<and> (a = ''-c'' \<or> a = ''-n'')"

definition firstNonFlag :: "string list \<Rightarrow> int" where
  "firstNonFlag args =
     (let n = length (takeWhile (\<lambda>a. HasPrefix a ''-'') args) in if n < length args then int n else -1)"

function unwrap_from :: "string \<Rightarrow> string list \<Rightarrow> nat \<Rightarrow> string list" where
  "unwrap_from name args i =
     (if i < length args
      then let a = args ! i in
        if a = ''--'' then drop (i + 1) args
        else if HasPrefix a ''-'' then unwrap_from name args (if valued_flag name a then i + 2 else i + 1)
        else if name = ''env'' \<and> str_contains a ''='' then unwrap_from name args (i + 1)
        else if name = ''timeout'' \<and> int i = firstNonFlag args then unwrap_from name args (i + 1)
        else drop i args
      else [])"
  by pat_completeness auto
termination
  by (relation "measure (\<lambda>(_, args, i). length args - i)") auto

declare unwrap_from.simps [simp del]

definition unwrap :: "string \<Rightarrow> string list \<Rightarrow> string list" where
  "unwrap name args = unwrap_from name args 0"

definition find_starts :: "string list \<Rightarrow> string list" where
  "find_starts args =
     (let starts = takeWhile (\<lambda>a. \<not> (HasPrefix a ''-'' \<or> a = ''('' \<or> a = ''!'')) args in
      if starts = [] then [''.''] else starts)"

definition exec_flag :: "string \<Rightarrow> bool" where
  "exec_flag a \<longleftrightarrow> a \<in> set [''-exec'', ''-execdir'', ''-ok'', ''-okdir'']"

definition exec_end :: "string \<Rightarrow> bool" where
  "exec_end a \<longleftrightarrow> a \<in> set ['';'', [CHR 0x5C, CHR '';''], ''+'']"

definition exec_command :: "string list \<Rightarrow> string list \<Rightarrow> string list" where
  "exec_command starts sect = concat (map (\<lambda>a. if a = ''{}'' then starts else [a]) sect)"

fun shell_script :: "string list \<Rightarrow> string option" where
  "shell_script [] = None"
| "shell_script (a # args) =
     (if a = ''-c'' \<and> args \<noteq> [] then Some (TrimPrefix (hd args) [NUL])
      else if HasPrefix a ''-'' then shell_script args
      else if str_contains a ''='' then shell_script args
      else None)"

text \<open>
  The recursion of the guard: a script's calls, one command, and the commands of \<^verbatim>\<open>find\<close>.
  A command may change the working directory of the guard that runs it.
\<close>

lemma unwrap_from_suffix: "suffix (unwrap_from name args i) args"
proof (induction name args i rule: unwrap_from.induct)
  case (1 name args i)
  then show ?case
    by (subst unwrap_from.simps) (simp add: Let_def suffix_drop)
qed

definition execs :: "string list \<Rightarrow> nat" where
  "execs args = length (filter exec_flag args)"

lemma execs_simps [simp]:
  "execs [] = 0" "execs (a # args) = (if exec_flag a then 1 else 0) + execs args" "execs (xs @ ys) = execs xs + execs ys"
  by (simp_all add: execs_def)

lemma execs_suffix: "suffix xs ys \<Longrightarrow> execs xs \<le> execs ys"
  by (auto elim!: suffixE)

lemma execs_starts: "execs (find_starts args) = 0"
proof -
  have "\<not> exec_flag a" if "a \<in> set (find_starts args)" for a
    using that by (auto simp: find_starts_def exec_flag_def Let_def dest!: set_takeWhileD split: if_splits)
  then show ?thesis by (simp add: execs_def)
qed

lemma execs_command: "execs (exec_command (find_starts args) sect) \<le> execs sect"
  by (induction sect) (auto simp: exec_command_def execs_starts)

lemma unwrap_shorter: "length (unwrap name rest) \<le> length rest" "execs (unwrap name rest) \<le> execs rest"
  using unwrap_from_suffix [of name rest 0] by (auto simp: unwrap_def suffix_length_le execs_suffix)

lemma execs_tail: "execs (drop 1 (dropWhile P args)) \<le> execs args"
  by (meson execs_suffix suffix_drop suffix_dropWhile suffix_order.trans)

lemma execs_takeWhile: "execs (takeWhile P args) \<le> execs args"
  by (metis execs_simps(3) le_add1 takeWhile_dropWhile_id)

lemma execs_section: "execs (exec_command (find_starts all_args) (takeWhile P args)) < Suc (execs args)"
  using execs_command [of all_args "takeWhile P args"] execs_takeWhile [of P args] by simp

lemma execs_rest: "execs (drop 1 (dropWhile P args)) < Suc (execs args)"
  using execs_tail [of P args] by simp

function guard_script :: "guard_env \<Rightarrow> string \<Rightarrow> nat \<Rightarrow> string \<Rightarrow> string \<Rightarrow> string"
  and guard_calls :: "guard_env \<Rightarrow> string \<Rightarrow> nat \<Rightarrow> string \<Rightarrow> sh_word list list \<Rightarrow> string"
  and guard_command :: "guard_env \<Rightarrow> string \<Rightarrow> nat \<Rightarrow> string \<Rightarrow> string list \<Rightarrow> string \<times> string"
  and guard_find :: "guard_env \<Rightarrow> string \<Rightarrow> nat \<Rightarrow> string \<Rightarrow> string list \<Rightarrow> string list \<Rightarrow> string \<times> string"
where
  "guard_script E root depth cwd script =
     (case ge_parse E script of None \<Rightarrow> [] | Some calls \<Rightarrow> guard_calls E root depth cwd calls)"
| "guard_calls E root depth cwd [] = []"
| "guard_calls E root depth cwd (c # cs) =
     (case guard_command E root depth cwd (call_args E c) of (reason, cwd') \<Rightarrow>
      if reason \<noteq> [] then reason else guard_calls E root depth cwd' cs)"
| "guard_command E root depth cwd [] = ([], cwd)"
| "guard_command E root depth cwd (a # rest) =
     (let name = Base a in
      if name = ''cd'' then ([], guard_cd E cwd rest)
      else if name \<in> set wrappers then guard_command E root depth cwd (unwrap name rest)
      else if name = ''find'' then guard_find E root depth cwd rest rest
      else if name \<in> set shells
        then (if depth < 4
              then (case shell_script rest of
                      Some script \<Rightarrow> (guard_script E root (depth + 1) cwd script, cwd) | None \<Rightarrow> ([], cwd))
              else ([], cwd))
      else if name = ''git'' then (guard_git rest, cwd)
      else if name = ''rm'' then (guard_rm E root cwd rest, cwd)
      else ([], cwd))"
| "guard_find E root depth cwd all_args [] = ([], cwd)"
| "guard_find E root depth cwd all_args (a # args) =
     (if exec_flag a
      then (case guard_command E root depth cwd
                   (exec_command (find_starts all_args) (takeWhile (\<lambda>x. \<not> exec_end x) args)) of
              (reason, cwd') \<Rightarrow>
                if reason \<noteq> [] then (reason, cwd')
                else guard_find E root depth cwd' all_args (drop 1 (dropWhile (\<lambda>x. \<not> exec_end x) args)))
      else guard_find E root depth cwd all_args args)"
  by pat_completeness auto
termination
  by (relation "inv_image (less_than <*lex*> less_than <*lex*> less_than <*lex*> less_than)
    (case_sum (case_sum (\<lambda>(E, root, d, cwd, s). (5 - d, 2, 0, 0)) (\<lambda>(E, root, d, cwd, cs). (5 - d, 1, length cs, 0)))
      (case_sum (\<lambda>(E, root, d, cwd, args). (5 - d, 0, execs args, length args))
        (\<lambda>(E, root, d, cwd, allargs, args). (5 - d, 0, execs args, length args))))")
     (use execs_section execs_rest unwrap_shorter in \<open>auto simp: le_less less_Suc_eq_le\<close>)

definition destructiveCommand :: "guard_env \<Rightarrow> string \<Rightarrow> string \<Rightarrow> string" where
  "destructiveCommand E script root = (let root = cleanRoot E root in guard_script E root 0 root script)"

end
