(* ===== verification/Exec_Guard_Props.thy ===== *)
theory Exec_Guard_Props
  imports Exec_Guard
begin

text \<open>
  What the exec guard guarantees: a recursive removal it lets through stays strictly inside the
  workspace or in scratch space, and a command it would refuse is refused however it is nested in
  wrappers, \<^verbatim>\<open>find -exec\<close> and up to four levels of \<^verbatim>\<open>sh -c\<close>. The last section shows the
  forms that get past it.
\<close>

section \<open>Recursive removals\<close>

lemma resolve_abs:
  assumes "IsAbs cwd" and "\<forall>d r. ge_links E d = Some r \<longrightarrow> IsAbs r"
  shows "IsAbs (guard_resolve E cwd p)"
proof -
  have "IsAbs (if IsAbs p then p else Join2 cwd p)" using assms(1) Join2_abs by simp
  moreover have "cwd \<noteq> []" using assms(1) by (auto simp: IsAbs_def)
  ultimately show ?thesis
    using assms(2) by (auto simp: guard_resolve_def Let_def Join2_abs split: option.splits)
qed


definition demo_env :: guard_env where
  "demo_env =
     \<lparr>ge_parse = (\<lambda>s. if s = ''S'' then Some [[[Lit ''sudo''], [Lit ''-u''], [Lit ''root''], [Lit ''sh''], [Lit ''-c''], [SglQuoted ''T'']]]
                      else if s = ''T'' then Some [[[Lit ''cd''], [Lit ''sub'']], [[Lit ''git''], [Lit ''reset''], [Lit ''--hard'']]]
                      else None),
      ge_quote = (\<lambda>_. ''?''), ge_abs = Some, ge_links = (\<lambda>_. None), ge_temp = ''/var/tmp''\<rparr>"


section \<open>Nested commands\<close>

fun wrapper_opts :: "string \<Rightarrow> string list \<Rightarrow> bool" where
  "wrapper_opts name [] = True"
| "wrapper_opts name (f # fs) =
     (HasPrefix f ''-'' \<and> f \<noteq> ''--''
      \<and> (if valued_flag name f then fs \<noteq> [] \<and> wrapper_opts name (drop 1 fs) else wrapper_opts name fs))"

fun calls_cwd :: "guard_env \<Rightarrow> string \<Rightarrow> nat \<Rightarrow> string \<Rightarrow> sh_word list list \<Rightarrow> string option" where
  "calls_cwd E root d cwd [] = Some cwd"
| "calls_cwd E root d cwd (c # cs) =
     (case guard_command E root d cwd (call_args E c) of
        (reason, cwd') \<Rightarrow> if reason = [] then calls_cwd E root d cwd' cs else None)"

text \<open>
  \<open>invokes E root (d, cwd, args) (d', cwd', args')\<close>: running \<open>args\<close> at nesting \<open>d\<close> and in
  directory \<open>cwd\<close> runs \<open>args'\<close>, after commands the guard has nothing against.
\<close>

inductive invokes :: "guard_env \<Rightarrow> string \<Rightarrow> nat \<times> string \<times> string list \<Rightarrow> nat \<times> string \<times> string list \<Rightarrow> bool"
  for E root where
  wrapper: "Base w \<in> set wrappers \<Longrightarrow> Base w \<noteq> ''timeout'' \<Longrightarrow> wrapper_opts (Base w) opts
    \<Longrightarrow> \<not> HasPrefix c ''-'' \<Longrightarrow> Base w = ''env'' \<longrightarrow> \<not> str_contains c ''=''
    \<Longrightarrow> invokes E root (d, cwd, w # opts @ c # args) (d, cwd, c # args)"
| timeout: "Base w = ''timeout'' \<Longrightarrow> \<forall>f \<in> set opts. HasPrefix f ''-'' \<and> f \<noteq> ''--'' \<and> \<not> valued_flag ''timeout'' f
    \<Longrightarrow> \<not> HasPrefix duration ''-'' \<Longrightarrow> \<not> HasPrefix c ''-''
    \<Longrightarrow> invokes E root (d, cwd, w # opts @ duration # c # args) (d, cwd, c # args)"
| find: "Base w = ''find'' \<Longrightarrow> starts \<noteq> [] \<Longrightarrow> \<forall>s \<in> set starts. \<not> (HasPrefix s ''-'' \<or> s = ''('' \<or> s = ''!'')
    \<Longrightarrow> tests = [] \<or> HasPrefix (hd tests) ''-'' \<Longrightarrow> \<forall>t \<in> set tests. \<not> exec_flag t \<Longrightarrow> exec_flag x
    \<Longrightarrow> \<forall>a \<in> set sect. \<not> exec_end a \<Longrightarrow> exec_end y
    \<Longrightarrow> invokes E root (d, cwd, w # starts @ tests @ x # sect @ y # others) (d, cwd, exec_command starts sect)"
| shell: "Base w \<in> set shells \<Longrightarrow> d < 4 \<Longrightarrow> \<forall>f \<in> set opts. HasPrefix f ''-'' \<and> f \<noteq> ''-c''
    \<Longrightarrow> \<not> HasPrefix script [NUL] \<Longrightarrow> ge_parse E script = Some (pre @ c # post)
    \<Longrightarrow> calls_cwd E root (d + 1) cwd pre = Some cwd'
    \<Longrightarrow> invokes E root (d, cwd, w # opts @ ''-c'' # script # others) (d + 1, cwd', call_args E c)"

lemma unwrap_opts:
  "wrapper_opts name opts \<Longrightarrow> unwrap_from name (pre @ opts @ rest) (length pre) = unwrap_from name (pre @ opts @ rest) (length (pre @ opts))"
proof (induction name opts arbitrary: pre rule: wrapper_opts.induct)
  case (2 name f fs)
  note step = unwrap_from.simps [of name "pre @ (f # fs) @ rest" "length pre"]
  show ?case
  proof (cases "valued_flag name f")
    case True
    with 2(3) obtain v fs' where fs: "fs = v # fs'" by (cases fs) auto
    with True 2(1) [of "pre @ [f, v]"] 2(3) step show ?thesis by (simp add: nth_append)
  next
    case False
    with 2(2) [of "pre @ [f]"] 2(3) step show ?thesis by (simp add: nth_append)
  qed
qed simp

lemma unwrap_wrapper:
  assumes "wrapper_opts name opts" and "\<not> HasPrefix c ''-''" and "name \<noteq> ''timeout''"
    and "name = ''env'' \<longrightarrow> \<not> str_contains c ''=''"
  shows "unwrap name (opts @ c # args) = c # args"
proof -
  have "c \<noteq> ''--''" using assms(2) by auto
  then show ?thesis
    using unwrap_opts [OF assms(1), of "[]" "c # args"] unwrap_from.simps [of name "opts @ c # args" "length opts"] assms(2-4)
    by (auto simp: unwrap_def)
qed

lemma wrapper_opts_plain:
  "\<forall>f \<in> set opts. HasPrefix f ''-'' \<and> f \<noteq> ''--'' \<and> \<not> valued_flag name f \<Longrightarrow> wrapper_opts name opts"
  by (induction opts) auto

lemma unwrap_timeout:
  assumes "\<forall>f \<in> set opts. HasPrefix f ''-'' \<and> f \<noteq> ''--'' \<and> \<not> valued_flag ''timeout'' f"
    and "\<not> HasPrefix duration ''-''" and "\<not> HasPrefix c ''-''"
  shows "unwrap ''timeout'' (opts @ duration # c # args) = c # args"
proof -
  let ?all = "opts @ duration # c # args"
  have first: "firstNonFlag ?all = int (length opts)"
    using assms(1,2) by (simp add: firstNonFlag_def takeWhile_append)
  have "unwrap ''timeout'' ?all = unwrap_from ''timeout'' ?all (length opts)"
    using unwrap_opts [OF wrapper_opts_plain [OF assms(1)], of "[]" "duration # c # args"] by (simp add: unwrap_def)
  also have "\<dots> = unwrap_from ''timeout'' ?all (Suc (length opts))"
    using assms(2) first unwrap_from.simps [of "''timeout''" ?all "length opts"] by (auto simp: nth_append)
  also have "\<dots> = c # args"
    using assms(3) first unwrap_from.simps [of "''timeout''" ?all "Suc (length opts)"] by (auto simp: nth_append)
  finally show ?thesis .
qed

lemma find_starts_prefix:
  assumes "starts \<noteq> []" and "\<forall>s \<in> set starts. \<not> (HasPrefix s ''-'' \<or> s = ''('' \<or> s = ''!'')"
    and "rest = [] \<or> HasPrefix (hd rest) ''-''"
  shows "find_starts (starts @ rest) = starts"
proof -
  have "takeWhile (\<lambda>a. \<not> (HasPrefix a ''-'' \<or> a = ''('' \<or> a = ''!'')) (starts @ rest) = starts"
    using assms(2,3) by (cases rest) (auto simp: takeWhile_eq_all_conv takeWhile_append)
  with assms(1) show ?thesis by (simp only: find_starts_def Let_def if_False)
qed

lemma exec_flag_dash: "exec_flag a \<Longrightarrow> HasPrefix a ''-''"
  by (auto simp: exec_flag_def)

lemma guard_find_skip:
  "\<forall>t \<in> set tests. \<not> exec_flag t \<Longrightarrow> guard_find E root d cwd allargs (tests @ rest) = guard_find E root d cwd allargs rest"
  by (induction tests) auto

lemma shell_script_opts:
  "\<forall>f \<in> set opts. HasPrefix f ''-'' \<and> f \<noteq> ''-c'' \<Longrightarrow> shell_script (opts @ ''-c'' # script # others) = Some (TrimPrefix script [NUL])"
  by (induction opts) auto

lemma guard_calls_after:
  assumes "calls_cwd E root d cwd pre = Some cwd'" and "fst (guard_command E root d cwd' (call_args E c)) \<noteq> []"
  shows "guard_calls E root d cwd (pre @ c # post) = fst (guard_command E root d cwd' (call_args E c))"
  using assms
proof (induction pre arbitrary: cwd)
  case Nil
  then show ?case by (auto split: prod.splits)
next
  case (Cons x pre)
  then show ?case by (auto split: prod.splits if_splits)
qed

lemmas guard_names = wrappers_def shells_def

lemma invokes_refused:
  assumes "invokes E root x y" and "fst (case y of (d, cwd, args) \<Rightarrow> guard_command E root d cwd args) \<noteq> []"
  shows "fst (case x of (d, cwd, args) \<Rightarrow> guard_command E root d cwd args)
    = fst (case y of (d, cwd, args) \<Rightarrow> guard_command E root d cwd args)"
  using assms
proof (induction rule: invokes.induct)
  case (wrapper w opts c d cwd args)
  then have "Base w \<noteq> ''cd''" by (auto simp: guard_names)
  with wrapper show ?case by (simp add: unwrap_wrapper)
next
  case (timeout w opts duration c d cwd args)
  then show ?case by (simp add: unwrap_timeout guard_names)
next
  case (find w starts tests x sect y d cwd others)
  let ?rest = "starts @ tests @ x # sect @ y # others"
  have "\<forall>t \<in> set (starts @ tests). \<not> exec_flag t" using find.hyps(3,5) exec_flag_dash by fastforce
  from guard_find_skip [OF this, of E root d cwd ?rest "x # sect @ y # others"]
  have "guard_find E root d cwd ?rest ?rest = guard_find E root d cwd ?rest (x # sect @ y # others)" by simp
  moreover have "find_starts ?rest = starts"
    by (rule find_starts_prefix [OF find.hyps(2,3)]) (use find.hyps(4,6) exec_flag_dash in \<open>cases tests; simp\<close>)
  moreover have "takeWhile (\<lambda>a. \<not> exec_end a) (sect @ y # others) = sect"
    using find.hyps(7,8) by (simp add: takeWhile_append)
  ultimately show ?case
    using find.hyps(1,6) find.prems by (auto simp: guard_names split: prod.splits)
next
  case (shell w d opts script pre c post cwd cwd' others)
  have "Base w \<noteq> ''cd''" "Base w \<notin> set wrappers" "Base w \<noteq> ''find''" using shell.hyps(1) by (auto simp: guard_names)
  moreover have "guard_script E root (d + 1) cwd script = fst (guard_command E root (d + 1) cwd' (call_args E c))"
    using shell.hyps(5) guard_calls_after [OF shell.hyps(6)] shell.prems by simp
  ultimately show ?case
    using shell.hyps(1-4) by (simp add: shell_script_opts TrimPrefix_def)
qed

text \<open>
  Nesting does not hide a command from the guard: when a script runs a command that is
  refused on its own, directly or through any chain of wrappers with their options, \<^verbatim>\<open>timeout\<close>
  with its duration, \<^verbatim>\<open>find -exec\<close> and at most four levels of \<^verbatim>\<open>sh -c\<close>, after calls the guard
  has nothing against, the whole script is refused with the same reason.
\<close>

theorem nested_command_refused:
  assumes "ge_parse E script = Some (pre @ c # post)"
    and "calls_cwd E (cleanRoot E root) 0 (cleanRoot E root) pre = Some cwd"
    and "(invokes E (cleanRoot E root))\<^sup>*\<^sup>* (0, cwd, call_args E c) (d, cwd', args)"
    and "fst (guard_command E (cleanRoot E root) d cwd' args) \<noteq> []"
  shows "destructiveCommand E script root = fst (guard_command E (cleanRoot E root) d cwd' args)"
proof -
  let ?R = "cleanRoot E root" and ?f = "\<lambda>x. fst (case x of (d, cwd, args) \<Rightarrow> guard_command E (cleanRoot E root) d cwd args)"
  have "?f x = ?f y" if "(invokes E ?R)\<^sup>*\<^sup>* x y" "?f y \<noteq> []" for x y
    using that by (induction rule: converse_rtranclp_induct) (simp_all add: invokes_refused)
  from this [OF assms(3)] assms(4)
  have eq: "fst (guard_command E ?R 0 cwd (call_args E c)) = fst (guard_command E ?R d cwd' args)" by simp
  then show ?thesis
    using guard_calls_after [OF assms(2)] assms(1,4) by (simp add: destructiveCommand_def Let_def)
qed

theorem nested_command_refused_witness:
  "destructiveCommand demo_env ''S'' ''/ws'' = ''git reset --hard discards uncommitted changes''"
proof -
  let ?R = "cleanRoot demo_env ''/ws''"
  have "invokes demo_env ?R (0, ?R, ''sudo'' # [''-u'', ''root''] @ ''sh'' # [''-c'', ''T''])
      (0, ?R, ''sh'' # [''-c'', ''T''])"
    by (rule invokes.wrapper) code_simp+
  moreover have "invokes demo_env ?R (0, ?R, ''sh'' # [] @ ''-c'' # ''T'' # [])
      (0 + 1, ''/ws/sub'', call_args demo_env [[Lit ''git''], [Lit ''reset''], [Lit ''--hard'']])"
    by (rule invokes.shell [where pre = "[[[Lit ''cd''], [Lit ''sub'']]]" and post = "[]"]) code_simp+
  ultimately have chain: "(invokes demo_env ?R)\<^sup>*\<^sup>* (0, ?R, ''sudo'' # [''-u'', ''root''] @ ''sh'' # [''-c'', ''T''])
      (0 + 1, ''/ws/sub'', call_args demo_env [[Lit ''git''], [Lit ''reset''], [Lit ''--hard'']])"
    by simp
  have reason: "fst (guard_command demo_env ?R (0 + 1) ''/ws/sub'' (call_args demo_env [[Lit ''git''], [Lit ''reset''], [Lit ''--hard'']]))
      = ''git reset --hard discards uncommitted changes''" by code_simp
  have parsed: "ge_parse demo_env ''S'' = Some ([] @ [[Lit ''sudo''], [Lit ''-u''], [Lit ''root''], [Lit ''sh''], [Lit ''-c''], [SglQuoted ''T'']] # [])"
    by (simp add: demo_env_def)
  have args: "call_args demo_env [[Lit ''sudo''], [Lit ''-u''], [Lit ''root''], [Lit ''sh''], [Lit ''-c''], [SglQuoted ''T'']]
      = ''sudo'' # [''-u'', ''root''] @ ''sh'' # [''-c'', ''T'']" by code_simp
  from nested_command_refused [OF parsed, of "''/ws''" ?R "0 + 1"] chain reason show ?thesis
    by (simp add: args)
qed

section \<open>Forms the guard does not see\<close>

text \<open>An option of \<^verbatim>\<open>timeout\<close> with a separate value shifts the duration, which then counts as the command.\<close>

lemma timeout_signal_hides_command:
  "fst (guard_command E root d cwd [''timeout'', ''-s'', ''KILL'', ''5'', ''rm'', ''-rf'', ''/'']) = []"
proof -
  have "unwrap ''timeout'' [''-s'', ''KILL'', ''5'', ''rm'', ''-rf'', ''/''] = [''5'', ''rm'', ''-rf'', ''/'']" by code_simp
  moreover have "Base ''timeout'' = ''timeout''" "Base ''5'' = ''5''" by code_simp+
  ultimately show ?thesis by (simp add: guard_names)
qed

text \<open>A clustered \<^verbatim>\<open>-lc\<close> is not recognised as \<^verbatim>\<open>-c\<close>.\<close>

lemma clustered_c_hides_script: "fst (guard_command E root d cwd [''bash'', ''-lc'', ''rm -rf /'']) = []"
proof -
  have "shell_script [''-lc'', ''rm -rf /''] = None" "Base ''bash'' = ''bash''" by code_simp+
  then show ?thesis by (simp add: guard_names)
qed

text \<open>A workspace below the temporary directory is scratch space, so removing its root passes.\<close>

lemma workspace_in_tmp_unprotected:
  "guard_rm demo_env ''/tmp/ws'' ''/tmp/ws'' [''-rf'', ''/tmp/ws''] = []"
  by code_simp

end
