(* ===== verification/Go_Float.thy ===== *)
theory Go_Float
  imports Go_Prelude "HOL-Library.Log_Nat" Complex_Main
begin

text \<open>
  Go's \<^verbatim>\<open>float64\<close> arithmetic on the values the repository computes with: a float is the
  rational number it represents, and every operation rounds its exact result to 53 significant
  bits, to nearest with ties to even, as IEEE 754 prescribes. The exponent range is not modelled:
  prices, durations, counts and rates stay far away from overflow and from subnormal numbers, and
  NaN and infinities do not arise from them.
\<close>

type_synonym float64 = rat

section \<open>Rounding\<close>

text \<open>The exponent of a non-zero number: \<open>2 ^ e \<le> x < 2 ^ (e + 1)\<close>.\<close>

definition rat_exponent :: "rat \<Rightarrow> int" where
  "rat_exponent x =
     (case quotient_of x of (n, d) \<Rightarrow>
      let e = bitlen n - bitlen d in if 2 powi e * of_int d \<le> (of_int n :: rat) then e else e - 1)"

definition round_even :: "rat \<Rightarrow> int" where
  "round_even x =
     (let f = \<lfloor>x\<rfloor>; r = x - of_int f in
      if r < 1 / 2 then f else if 1 / 2 < r then f + 1 else if even f then f else f + 1)"

definition fl_pos :: "rat \<Rightarrow> float64" where
  "fl_pos x = (let e = rat_exponent x in of_int (round_even (x * 2 powi (52 - e))) * 2 powi (e - 52))"

definition fl :: "rat \<Rightarrow> float64" where
  "fl x = (if x = 0 then 0 else if x < 0 then - fl_pos (- x) else fl_pos x)"

abbreviation fadd :: "float64 \<Rightarrow> float64 \<Rightarrow> float64" where "fadd a b \<equiv> fl (a + b)"
abbreviation fsub :: "float64 \<Rightarrow> float64 \<Rightarrow> float64" where "fsub a b \<equiv> fl (a - b)"
abbreviation fmul :: "float64 \<Rightarrow> float64 \<Rightarrow> float64" where "fmul a b \<equiv> fl (a * b)"
abbreviation fdiv :: "float64 \<Rightarrow> float64 \<Rightarrow> float64" where "fdiv a b \<equiv> fl (a / b)"
abbreviation ffloat :: "int \<Rightarrow> float64" where "ffloat n \<equiv> fl (of_int n)"

text \<open>The conversion \<^verbatim>\<open>int(x)\<close> truncates towards zero.\<close>

definition ftrunc :: "float64 \<Rightarrow> int" where
  "ftrunc x = (if x < 0 then - \<lfloor>- x\<rfloor> else \<lfloor>x\<rfloor>)"

section \<open>Laws\<close>

lemma round_even_near: "\<bar>of_int (round_even x) - x\<bar> \<le> 1 / 2"
proof -
  have "of_int \<lfloor>x\<rfloor> \<le> x" "x < of_int \<lfloor>x\<rfloor> + 1" by linarith+
  moreover have "round_even x = \<lfloor>x\<rfloor> \<and> x - of_int \<lfloor>x\<rfloor> \<le> 1 / 2 \<or> round_even x = \<lfloor>x\<rfloor> + 1 \<and> 1 / 2 \<le> x - of_int \<lfloor>x\<rfloor>"
    by (auto simp: round_even_def Let_def)
  ultimately show ?thesis by (auto simp: abs_le_iff)
qed

lemma round_even_mono: "x \<le> y \<Longrightarrow> round_even x \<le> round_even y"
proof -
  assume le: "x \<le> y"
  show ?thesis
  proof (cases "\<lfloor>x\<rfloor> = \<lfloor>y\<rfloor>")
    case True
    then show ?thesis using le by (auto simp: round_even_def Let_def)
  next
    case False
    then have "\<lfloor>x\<rfloor> + 1 \<le> \<lfloor>y\<rfloor>" using floor_mono [OF le] by linarith
    moreover have "round_even x \<le> \<lfloor>x\<rfloor> + 1" "\<lfloor>y\<rfloor> \<le> round_even y" by (auto simp: round_even_def Let_def)
    ultimately show ?thesis by linarith
  qed
qed

lemma round_even_of_int [simp]: "round_even (of_int n) = n"
  by (simp add: round_even_def)

lemma bitlen_bounds_rat:
  assumes "0 < n"
  shows "(2 powi (bitlen n - 1) :: rat) \<le> of_int n" and "(of_int n :: rat) < 2 powi (bitlen n)"
proof -
  have b: "2 ^ nat (bitlen n - 1) \<le> n" "n < 2 ^ nat (bitlen n)" using bitlen_bounds [OF assms] by auto
  have pos: "0 < bitlen n" using b(2) assms bitlen_nonneg [of n] by (cases "bitlen n = 0") auto
  from b(1) have "(of_int (2 ^ nat (bitlen n - 1)) :: rat) \<le> of_int n" by (simp only: of_int_le_iff)
  then show "(2 powi (bitlen n - 1) :: rat) \<le> of_int n" using pos by (simp add: power_int_def)
  from b(2) have "(of_int n :: rat) < of_int (2 ^ nat (bitlen n))" by (simp only: of_int_less_iff)
  then show "(of_int n :: rat) < 2 powi (bitlen n)" using pos by (simp add: power_int_def)
qed

lemma rat_exponent_bounds:
  assumes "0 < x"
  shows "2 powi (rat_exponent x) \<le> x" and "x < 2 powi (rat_exponent x + 1)"
proof -
  obtain n d where q: "quotient_of x = (n, d)" by force
  have d: "0 < d" using quotient_of_denom_pos [OF q] .
  have x: "x = of_int n / of_int d" using quotient_of_div [OF q] .
  have n: "0 < n" using assms d by (simp add: x zero_less_divide_iff)
  let ?e = "bitlen n - bitlen d"
  note bn = bitlen_bounds_rat [OF n] and bd = bitlen_bounds_rat [OF d]
  have lt: "x < 2 powi (?e + 1)"
  proof -
    have "of_int n < (2 powi (?e + 1) * 2 powi (bitlen d - 1) :: rat)" using bn(2) by (simp flip: power_int_add)
    also have "\<dots> \<le> 2 powi (?e + 1) * of_int d" using bd(1) by simp
    finally show ?thesis using d by (simp add: x divide_less_eq)
  qed
  have ge: "2 powi (?e - 1) \<le> x"
  proof -
    have "(2 powi (?e - 1) * of_int d :: rat) \<le> 2 powi (?e - 1) * 2 powi (bitlen d)" using bd(2) by simp
    also have "\<dots> \<le> of_int n" using bn(1) by (simp flip: power_int_add add: algebra_simps)
    finally show ?thesis using d by (simp add: x le_divide_eq)
  qed
  have "2 powi ?e * of_int d \<le> (of_int n :: rat) \<longleftrightarrow> 2 powi ?e \<le> x" using d by (simp add: x le_divide_eq)
  then have "rat_exponent x = (if 2 powi ?e \<le> x then ?e else ?e - 1)" by (simp add: rat_exponent_def q Let_def)
  then show "2 powi (rat_exponent x) \<le> x" "x < 2 powi (rat_exponent x + 1)" using lt ge by auto
qed

lemma powi_mono: "a \<le> b \<Longrightarrow> (2 powi a :: rat) \<le> 2 powi b"
  by (rule power_int_increasing) auto

lemma powi_less_cancel: "(2 powi a :: rat) < 2 powi b \<Longrightarrow> a < b"
  using powi_mono [of b a] by (meson leD linorder_not_le)

lemma fl_pos_bounds:
  assumes "0 < x"
  shows "2 powi (rat_exponent x) \<le> fl_pos x" and "fl_pos x \<le> 2 powi (rat_exponent x + 1)"
proof -
  let ?e = "rat_exponent x" and ?m = "x * 2 powi (52 - rat_exponent x)"
  note b = rat_exponent_bounds [OF assms]
  have "2 powi ?e * 2 powi (52 - ?e) \<le> ?m" using b(1) by simp
  then have lo: "of_int (2 ^ 52) \<le> ?m" by (simp flip: power_int_add)
  have "?m < 2 powi (?e + 1) * 2 powi (52 - ?e)" using b(2) by simp
  then have hi: "?m \<le> of_int (2 ^ 53)" by (simp flip: power_int_add)
  have "2 ^ 52 \<le> round_even ?m" using round_even_mono [OF lo] by (simp only: round_even_of_int)
  then have "(of_int (2 ^ 52) :: rat) \<le> of_int (round_even ?m)" by (simp only: of_int_le_iff)
  then have "(2 powi 52 * 2 powi (?e - 52) :: rat) \<le> fl_pos x" by (simp add: fl_pos_def Let_def)
  moreover have "(2 powi ?e :: rat) = 2 powi 52 * 2 powi (?e - 52)" by (subst power_int_add [symmetric]) simp_all
  ultimately show "2 powi ?e \<le> fl_pos x" by simp
  have "round_even ?m \<le> 2 ^ 53" using round_even_mono [OF hi] by (simp only: round_even_of_int)
  then have "(of_int (round_even ?m) :: rat) \<le> of_int (2 ^ 53)" by (simp only: of_int_le_iff)
  then have "fl_pos x \<le> (2 powi 53 * 2 powi (?e - 52) :: rat)" by (simp add: fl_pos_def Let_def)
  moreover have "(2 powi (?e + 1) :: rat) = 2 powi 53 * 2 powi (?e - 52)"
    by (subst power_int_add [symmetric]) (simp_all add: add.commute)
  ultimately show "fl_pos x \<le> 2 powi (?e + 1)" by simp
qed

lemma fl_pos_gt: "0 < x \<Longrightarrow> 0 < fl_pos x"
  using fl_pos_bounds(1) [of x] by (meson less_le_trans zero_less_numeral zero_less_power_int)

lemma fl_pos_mono:
  assumes "0 < x" and "x \<le> y"
  shows "fl_pos x \<le> fl_pos y"
proof -
  have y: "0 < y" using assms by simp
  have "(2 powi rat_exponent x :: rat) < 2 powi (rat_exponent y + 1)"
    using rat_exponent_bounds(1) [OF assms(1)] rat_exponent_bounds(2) [OF y] assms(2) by simp
  then have "rat_exponent x \<le> rat_exponent y" using powi_less_cancel by fastforce
  then consider "rat_exponent x = rat_exponent y" | "rat_exponent x + 1 \<le> rat_exponent y" by linarith
  then show ?thesis
  proof cases
    case 1
    have "x * 2 powi (52 - rat_exponent y) \<le> y * 2 powi (52 - rat_exponent y)" using assms(2) by simp
    from round_even_mono [OF this] show ?thesis by (simp add: fl_pos_def Let_def 1)
  next
    case 2
    then show ?thesis
      using fl_pos_bounds(2) [OF assms(1)] powi_mono [OF 2] fl_pos_bounds(1) [OF y] by linarith
  qed
qed

lemma fl_0 [simp]: "fl 0 = 0"
  by (simp add: fl_def)

lemma fl_mono: "x \<le> y \<Longrightarrow> fl x \<le> fl y"
proof -
  assume le: "x \<le> y"
  consider "0 < x" | "x = 0" | "x < 0" "0 \<le> y" | "y < 0" using le by linarith
  then show ?thesis
  proof cases
    case 1
    then show ?thesis using le fl_pos_mono by (simp add: fl_def)
  next
    case 2
    then show ?thesis using le fl_pos_gt [of y] by (auto simp: fl_def)
  next
    case 3
    then show ?thesis using fl_pos_gt [of y] fl_pos_gt [of "- x"] by (auto simp: fl_def)
  next
    case 4
    then show ?thesis using le fl_pos_mono [of "- y" "- x"] by (simp add: fl_def)
  qed
qed

lemma fl_nonneg: "0 \<le> x \<Longrightarrow> 0 \<le> fl x"
  using fl_mono [of 0 x] by simp

lemma fl_relative:
  assumes "x \<noteq> 0"
  shows "\<bar>fl x - x\<bar> \<le> \<bar>x\<bar> / 2 ^ 53"
proof -
  have pos: "\<bar>fl_pos x - x\<bar> \<le> x / 2 ^ 53" if "0 < x" for x
  proof -
    let ?p = "2 powi (rat_exponent x - 52) :: rat" and ?m = "x * 2 powi (52 - rat_exponent x)"
    have x: "?m * ?p = x" by (simp add: mult.assoc flip: power_int_add)
    have "fl_pos x - x = (of_int (round_even ?m) - ?m) * ?p"
      unfolding left_diff_distrib x by (simp add: fl_pos_def Let_def)
    then have "\<bar>fl_pos x - x\<bar> \<le> 1 / 2 * ?p"
      using round_even_near [of ?m] by (simp add: abs_mult mult_right_mono)
    also have "\<dots> = 2 powi (rat_exponent x) / 2 ^ 53" by (simp add: power_int_diff)
    also have "\<dots> \<le> x / 2 ^ 53" using rat_exponent_bounds(1) [OF that] by (simp add: divide_right_mono)
    finally show ?thesis .
  qed
  show ?thesis
    using pos [of x] pos [of "- x"] assms by (auto simp: fl_def abs_if split: if_splits)
qed

end
