(* ===== verification/Model_Catalog.thy ===== *)
theory Model_Catalog
  imports Go_Strings Go_Float
begin

text \<open>
  The model catalog of \<^verbatim>\<open>internal/model\<close>: prices and cost estimates (\<^verbatim>\<open>catalog.go\<close>), the
  curated models, the routes that serve them and the routable specs built from both
  (\<^verbatim>\<open>models.go\<close>). The string types of the code (families, tiers, modalities, efforts) are
  strings here too, with its constants. The built-in tables are transcribed in full. Durations are
  in minutes. Go may fuse a multiplication and an addition on some processors; the model rounds
  after each operation, as amd64 does.
\<close>

section \<open>Constants\<close>

definition Anthropic :: string where "Anthropic = ''anthropic''"
definition OpenAI :: string where "OpenAI = ''openai''"
definition XAI :: string where "XAI = ''xai''"
definition DeepSeek :: string where "DeepSeek = ''deepseek''"
definition Moonshot :: string where "Moonshot = ''moonshot''"
definition Qwen :: string where "Qwen = ''qwen''"
definition Zhipu :: string where "Zhipu = ''zhipu''"
definition Llama :: string where "Llama = ''llama''"

definition Frontier :: string where "Frontier = ''frontier''"
definition Efficient :: string where "Efficient = ''efficient''"
definition Tiny :: string where "Tiny = ''tiny''"

definition TextInput :: string where "TextInput = ''text''"
definition ImageInput :: string where "ImageInput = ''image''"

definition EffortNone :: string where "EffortNone = ''none''"
definition EffortLow :: string where "EffortLow = ''low''"
definition EffortMedium :: string where "EffortMedium = ''medium''"
definition EffortHigh :: string where "EffortHigh = ''high''"
definition EffortXHigh :: string where "EffortXHigh = ''xhigh''"

definition HashlineJSON :: string where "HashlineJSON = ''hashline-json''"
definition HashlineXML :: string where "HashlineXML = ''hashline-xml''"
definition HashlineContextual :: string where "HashlineContextual = ''hashline-contextual''"

lemmas effort_defs = EffortNone_def EffortLow_def EffortMedium_def EffortHigh_def EffortXHigh_def

section \<open>Prices\<close>

record threshold_rate =
  tr_above :: int
  tr_input :: float64
  tr_output :: float64
  tr_cacheRead :: float64
  tr_cacheWrite :: float64

record pricing =
  pr_input :: float64
  pr_output :: float64
  pr_cacheRead :: float64
  pr_cacheWrite :: float64
  pr_thresholds :: "threshold_rate list"

definition apply_rate :: "int \<Rightarrow> threshold_rate \<Rightarrow> pricing \<Rightarrow> pricing" where
  "apply_rate tokens t r =
     (if tokens > tr_above t
      then r\<lparr>pr_input := tr_input t, pr_output := tr_output t, pr_cacheRead := tr_cacheRead t, pr_cacheWrite := tr_cacheWrite t\<rparr>
      else r)"

definition Rates :: "pricing \<Rightarrow> int \<Rightarrow> pricing" where
  "Rates p tokens = fold (apply_rate tokens) (pr_thresholds p) p"

definition Estimate :: "pricing \<Rightarrow> int \<Rightarrow> int \<Rightarrow> int \<Rightarrow> float64" where
  "Estimate p input output cached =
     (let r = Rates p input;
          fresh = (if sub64 input cached < 0 then 0 else sub64 input cached)
      in fdiv (fadd (fadd (fmul (ffloat fresh) (pr_input r)) (fmul (ffloat cached) (pr_cacheRead r)))
                    (fmul (ffloat output) (pr_output r))) 1000000)"

definition EstimateDetailed :: "pricing \<Rightarrow> int \<Rightarrow> int \<Rightarrow> int \<Rightarrow> int \<Rightarrow> float64" where
  "EstimateDetailed p input output cacheRead cacheWrite =
     (let r = Rates p input;
          left = sub64 (sub64 input cacheRead) cacheWrite;
          fresh = (if left < 0 then 0 else left)
      in fdiv (fadd (fadd (fadd (fmul (ffloat fresh) (pr_input r)) (fmul (ffloat cacheRead) (pr_cacheRead r)))
                          (fmul (ffloat cacheWrite) (pr_cacheWrite r)))
                    (fmul (ffloat output) (pr_output r))) 1000000)"

section \<open>Specs\<close>

record compat =
  cp_maxTokensField :: string
  cp_toolChoice :: bool
  cp_reasoningEffort :: bool
  cp_wireMap :: "(string \<times> string) list"
  cp_reasoningEcho :: bool
  cp_assistantText :: bool
  cp_strictTools :: bool
  cp_idleTimeout :: int
  cp_firstByteTimeout :: int
  cp_systemStyle :: string
  cp_cacheControl :: bool

record model_spec =
  ms_id :: string
  ms_model :: string
  ms_family :: string
  ms_tier :: string
  ms_inputs :: "string list"
  ms_context :: int
  ms_maxOutput :: int
  ms_pricing :: pricing
  ms_effort :: "string list"
  ms_workEffort :: string
  ms_callsPerTask :: float64
  ms_compat :: compat
  ms_dialect :: string
  ms_discovered :: bool
  ms_explicitOnly :: bool

record model =
  md_name :: string
  md_family :: string
  md_tier :: string
  md_inputs :: "string list"
  md_context :: int
  md_maxOutput :: int
  md_effort :: "string list"
  md_workEffort :: string
  md_callsPerTask :: float64
  md_dialect :: string
  md_idleTimeout :: int
  md_firstByteTimeout :: int
  md_explicitOnly :: bool

record route =
  rt_provider :: string
  rt_model :: string
  rt_wireID :: string
  rt_pricing :: pricing
  rt_context :: int
  rt_maxOutput :: int

definition ProviderCompat :: "string \<Rightarrow> model \<Rightarrow> compat \<times> string list" where
  "ProviderCompat provider m =
     (let reasoning = list_ex (\<lambda>e. e \<noteq> EffortNone) (md_effort m);
          c0 = \<lparr>cp_maxTokensField = [], cp_toolChoice = True, cp_reasoningEffort = reasoning, cp_wireMap = [],
                cp_reasoningEcho = False, cp_assistantText = False, cp_strictTools = False,
                cp_idleTimeout = md_idleTimeout m, cp_firstByteTimeout = md_firstByteTimeout m,
                cp_systemStyle = ''top-level'', cp_cacheControl = False\<rparr>;
          (c, effort) =
            (if provider = ''anthropic''
             then (c0\<lparr>cp_maxTokensField := ''max_tokens'', cp_strictTools := True, cp_cacheControl := True\<rparr>, md_effort m)
             else if provider = ''openai''
             then (c0\<lparr>cp_maxTokensField := ''max_completion_tokens'', cp_assistantText := True, cp_strictTools := True,
                      cp_cacheControl := True\<rparr>, md_effort m)
             else if provider = ''ramp''
             then (c0\<lparr>cp_maxTokensField := ''max_output_tokens'', cp_strictTools := (md_family m = OpenAI)\<rparr>,
                   filter (\<lambda>e. e \<noteq> EffortNone) (md_effort m))
             else (c0\<lparr>cp_maxTokensField := ''max_tokens'', cp_reasoningEcho := reasoning, cp_assistantText := True\<rparr>, md_effort m))
      in (if reasoning then c\<lparr>cp_wireMap := map (\<lambda>e. (e, e)) effort\<rparr> else c, effort))"

definition route_spec :: "route \<Rightarrow> model \<Rightarrow> model_spec" where
  "route_spec r m =
     (case ProviderCompat (rt_provider r) m of (c, effort) \<Rightarrow>
      \<lparr>ms_id = rt_provider r @ ''/'' @ (if rt_wireID r = [] then md_name m else rt_wireID r),
       ms_model = md_name m, ms_family = md_family m, ms_tier = md_tier m, ms_inputs = md_inputs m,
       ms_context = (if rt_context r > 0 then rt_context r else md_context m),
       ms_maxOutput = (if rt_maxOutput r > 0 then rt_maxOutput r else md_maxOutput m),
       ms_pricing = rt_pricing r, ms_effort = effort, ms_workEffort = md_workEffort m,
       ms_callsPerTask = md_callsPerTask m, ms_compat = c, ms_dialect = md_dialect m,
       ms_discovered = False, ms_explicitOnly = md_explicitOnly m\<rparr>)"

definition byName :: "model list \<Rightarrow> string \<Rightarrow> model option" where
  "byName models name = map_of (rev (map (\<lambda>m. (md_name m, m)) models)) name"

text \<open>A route that names no curated model panics, which is the error value.\<close>

fun Expand :: "model list \<Rightarrow> route list \<Rightarrow> string + model_spec list" where
  "Expand models [] = Inr []"
| "Expand models (r # rs) =
     (case byName models (rt_model r) of
        None \<Rightarrow> Inl (''model: route '' @ rt_provider r @ '' names unknown model '' @ rt_model r)
      | Some m \<Rightarrow> (case Expand models rs of Inl e \<Rightarrow> Inl e | Inr specs \<Rightarrow> Inr (route_spec r m # specs)))"

text \<open>
  \<^verbatim>\<open>strings.EqualFold\<close> on ASCII strings; \<open>uni\<close> decides the strings with a byte beyond ASCII.
\<close>

definition EqualFold :: "(string \<Rightarrow> string \<Rightarrow> bool) \<Rightarrow> string \<Rightarrow> string \<Rightarrow> bool" where
  "EqualFold uni s t =
     (if list_all (\<lambda>c. (of_char c :: nat) < 128) (s @ t) then map ascii_lower s = map ascii_lower t else uni s t)"

definition canonical_in :: "(string \<Rightarrow> string \<Rightarrow> bool) \<Rightarrow> model list \<Rightarrow> route list \<Rightarrow> string \<Rightarrow> model option" where
  "canonical_in uni models routes wire =
     (case List.find (\<lambda>m. EqualFold uni (md_name m) wire) models of
        Some m \<Rightarrow> Some m
      | None \<Rightarrow>
          (case List.find (\<lambda>r. rt_wireID r \<noteq> [] \<and> EqualFold uni (rt_wireID r) wire
                               \<and> list_ex (\<lambda>m. md_name m = rt_model r) models) routes of
             Some r \<Rightarrow> List.find (\<lambda>m. md_name m = rt_model r) models
           | None \<Rightarrow> None))"

section \<open>The active catalog\<close>

text \<open>The catalog in use is the installed one, or the built-in one before any was installed.\<close>

type_synonym active_catalog = "model_spec list option"

definition Install :: "model_spec list \<Rightarrow> active_catalog \<Rightarrow> active_catalog" where
  "Install specs active = Some specs"

definition All :: "model_spec list \<Rightarrow> active_catalog \<Rightarrow> model_spec list" where
  "All builtin active = (case active of Some c \<Rightarrow> c | None \<Rightarrow> builtin)"

definition Get :: "model_spec list \<Rightarrow> string \<Rightarrow> model_spec option" where
  "Get catalog ident = List.find (\<lambda>m. ms_id m = ident) catalog"

definition Supports :: "model_spec \<Rightarrow> string \<Rightarrow> bool" where
  "Supports m x = list_ex (\<lambda>i. i = x) (ms_inputs m)"

section \<open>The built-in tables\<close>

definition curated ::
  "string \<Rightarrow> string \<Rightarrow> string \<Rightarrow> string list \<Rightarrow> int \<Rightarrow> int \<Rightarrow> string list \<Rightarrow> string \<Rightarrow> float64 \<Rightarrow> string \<Rightarrow> int \<Rightarrow> bool \<Rightarrow> model" where
  "curated name family tier inputs window maxOut effort work calls dialect idle explicit =
     \<lparr>md_name = name, md_family = family, md_tier = tier, md_inputs = inputs, md_context = window,
      md_maxOutput = maxOut, md_effort = effort, md_workEffort = work, md_callsPerTask = calls,
      md_dialect = dialect, md_idleTimeout = idle, md_firstByteTimeout = 0, md_explicitOnly = explicit\<rparr>"

definition served :: "string \<Rightarrow> string \<Rightarrow> string \<Rightarrow> pricing \<Rightarrow> route" where
  "served provider name wire price =
     \<lparr>rt_provider = provider, rt_model = name, rt_wireID = wire, rt_pricing = price, rt_context = 0, rt_maxOutput = 0\<rparr>"

definition Models :: "model list" where
  "Models =
     [curated ''claude-fable-5'' Anthropic Frontier [TextInput, ImageInput] 1000000 128000 [EffortLow, EffortMedium, EffortHigh, EffortXHigh] [] (0) HashlineXML 15 False,
      curated ''claude-opus-5-5'' Anthropic Frontier [TextInput, ImageInput] 1000000 128000 [EffortLow, EffortMedium, EffortHigh, EffortXHigh] EffortLow (1) HashlineXML 15 False,
      curated ''claude-sonnet-5'' Anthropic Efficient [TextInput, ImageInput] 1000000 128000 [EffortLow, EffortMedium, EffortHigh, EffortXHigh] [] (0) HashlineXML 10 False,
      curated ''claude-sonnet-5-5'' Anthropic Efficient [TextInput, ImageInput] 1000000 128000 [EffortLow, EffortMedium, EffortHigh, EffortXHigh] EffortLow (1) HashlineXML 10 False,
      curated ''claude-haiku-5-5'' Anthropic Tiny [TextInput, ImageInput] 1000000 128000 [EffortLow, EffortMedium, EffortHigh, EffortXHigh] [] (0) HashlineXML 5 True,
      curated ''gpt-5.6-sol'' OpenAI Frontier [TextInput, ImageInput] 1050000 128000 [EffortNone, EffortLow, EffortMedium, EffortHigh, EffortXHigh] [] (0) HashlineJSON 15 False,
      curated ''gpt-5.6-terra'' OpenAI Efficient [TextInput, ImageInput] 1050000 128000 [EffortNone, EffortLow, EffortMedium, EffortHigh, EffortXHigh] [] (0) HashlineJSON 12 False,
      curated ''gpt-5.6-luna'' OpenAI Tiny [TextInput, ImageInput] 1050000 128000 [EffortNone, EffortLow, EffortMedium, EffortHigh] [] (0) HashlineContextual 10 False,
      curated ''gpt-6.1-sol'' OpenAI Frontier [TextInput, ImageInput] 1050000 128000 [EffortNone, EffortLow, EffortMedium, EffortHigh, EffortXHigh] [] (fl (26 / 10)) HashlineJSON 15 False,
      curated ''gpt-6-luna'' OpenAI Tiny [TextInput, ImageInput] 1050000 128000 [EffortNone, EffortLow, EffortMedium, EffortHigh, EffortXHigh] [] (0) HashlineContextual 10 False,
      curated ''grok-4.5'' XAI Frontier [TextInput, ImageInput] 500000 128000 [EffortLow, EffortMedium, EffortHigh] [] (0) HashlineJSON 15 False,
      curated ''grok-4.6'' XAI Frontier [TextInput, ImageInput] 500000 128000 [EffortLow, EffortMedium, EffortHigh] [] (0) HashlineJSON 6 False,
      curated ''grok-4.7'' XAI Frontier [TextInput, ImageInput] 500000 128000 [EffortLow, EffortMedium, EffortHigh, EffortXHigh] EffortLow (2) HashlineJSON 10 False,
      curated ''kimi-k2p7-code'' Moonshot Frontier [TextInput, ImageInput] 262144 32768 [EffortLow, EffortMedium, EffortHigh] [] (0) HashlineJSON 15 False,
      curated ''kimi-k3'' Moonshot Efficient [TextInput, ImageInput] 1048576 128000 [EffortLow, EffortMedium, EffortHigh, EffortXHigh] [] (0) HashlineContextual 10 False,
      curated ''qwen3p7-plus'' Qwen Efficient [TextInput, ImageInput] 1000000 32768 [EffortLow, EffortMedium, EffortHigh] [] (0) HashlineJSON 15 False,
      curated ''qwen3p8-max'' Qwen Efficient [TextInput, ImageInput] 1000000 128000 [EffortLow, EffortMedium, EffortHigh, EffortXHigh] [] (0) HashlineContextual 10 False,
      curated ''deepseek-v4-flash-0731'' DeepSeek Efficient [TextInput] 1048576 128000 [EffortHigh] [] (0) HashlineContextual 15 False,
      curated ''deepseek-v4.1-flash'' DeepSeek Efficient [TextInput, ImageInput] 1048576 128000 [EffortLow, EffortMedium, EffortHigh, EffortXHigh] EffortMedium (fl (27 / 10)) HashlineContextual 10 False,
      curated ''glm-5p3'' Zhipu Efficient [TextInput] 1048576 128000 [EffortLow, EffortMedium, EffortHigh, EffortXHigh] [] (0) HashlineContextual 10 False,
      curated ''llama-3.3-70b-instruct-turbo'' Llama Tiny [TextInput] 131072 16384 [EffortNone] [] (0) HashlineJSON 5 False]"

definition Routes :: "route list" where
  "Routes =
     [served ''anthropic'' ''claude-fable-5'' [] \<lparr>pr_input = 10, pr_output = 50, pr_cacheRead = 1, pr_cacheWrite = fl (125 / 10), pr_thresholds = []\<rparr>,
      served ''anthropic'' ''claude-sonnet-5'' [] \<lparr>pr_input = 2, pr_output = 10, pr_cacheRead = fl (2 / 10), pr_cacheWrite = fl (25 / 10), pr_thresholds = []\<rparr>,
      served ''anthropic'' ''claude-sonnet-5-5'' [] \<lparr>pr_input = 2, pr_output = 10, pr_cacheRead = fl (2 / 10), pr_cacheWrite = fl (25 / 10), pr_thresholds = []\<rparr>,
      served ''anthropic'' ''claude-haiku-5-5'' [] \<lparr>pr_input = fl (1 / 10), pr_output = fl (5 / 10), pr_cacheRead = fl (1 / 100), pr_cacheWrite = fl (125 / 1000), pr_thresholds = [\<lparr>tr_above = 100000, tr_input = fl (5 / 10), tr_output = fl (25 / 10), tr_cacheRead = fl (5 / 100), tr_cacheWrite = fl (625 / 1000)\<rparr>]\<rparr>,
      served ''openai'' ''gpt-5.6-sol'' [] \<lparr>pr_input = 5, pr_output = 30, pr_cacheRead = fl (5 / 10), pr_cacheWrite = fl (625 / 100), pr_thresholds = [\<lparr>tr_above = 272000, tr_input = 10, tr_output = 45, tr_cacheRead = 1, tr_cacheWrite = fl (125 / 10)\<rparr>]\<rparr>,
      served ''openai'' ''gpt-5.6-terra'' [] \<lparr>pr_input = 2, pr_output = 12, pr_cacheRead = fl (2 / 10), pr_cacheWrite = fl (25 / 10), pr_thresholds = [\<lparr>tr_above = 272000, tr_input = 4, tr_output = 18, tr_cacheRead = fl (4 / 10), tr_cacheWrite = 5\<rparr>]\<rparr>,
      served ''openai'' ''gpt-5.6-luna'' [] \<lparr>pr_input = fl (2 / 10), pr_output = fl (12 / 10), pr_cacheRead = fl (2 / 100), pr_cacheWrite = fl (25 / 100), pr_thresholds = [\<lparr>tr_above = 272000, tr_input = fl (4 / 10), tr_output = fl (18 / 10), tr_cacheRead = fl (4 / 100), tr_cacheWrite = fl (5 / 10)\<rparr>]\<rparr>,
      served ''fireworks'' ''kimi-k2p7-code'' ''accounts/fireworks/models/kimi-k2p7-code'' \<lparr>pr_input = fl (95 / 100), pr_output = 4, pr_cacheRead = fl (48 / 100), pr_cacheWrite = 0, pr_thresholds = []\<rparr>,
      served ''fireworks'' ''qwen3p7-plus'' ''accounts/fireworks/models/qwen3p7-plus'' \<lparr>pr_input = fl (60 / 100), pr_output = fl (360 / 100), pr_cacheRead = fl (30 / 100), pr_cacheWrite = 0, pr_thresholds = []\<rparr>,
      served ''xai'' ''grok-4.5'' [] \<lparr>pr_input = 2, pr_output = 6, pr_cacheRead = fl (3 / 10), pr_cacheWrite = 0, pr_thresholds = [\<lparr>tr_above = 200000, tr_input = 4, tr_output = 12, tr_cacheRead = fl (6 / 10), tr_cacheWrite = 0\<rparr>]\<rparr>,
      served ''xai'' ''grok-4.6'' [] \<lparr>pr_input = 2, pr_output = 6, pr_cacheRead = fl (5 / 10), pr_cacheWrite = 0, pr_thresholds = []\<rparr>,
      served ''together'' ''deepseek-v4-flash-0731'' ''deepseek-ai/DeepSeek-V4-Flash-0731'' \<lparr>pr_input = fl (14 / 100), pr_output = fl (28 / 100), pr_cacheRead = fl (3 / 100), pr_cacheWrite = 0, pr_thresholds = []\<rparr>,
      served ''together'' ''llama-3.3-70b-instruct-turbo'' ''meta-llama/Llama-3.3-70B-Instruct-Turbo'' \<lparr>pr_input = fl (88 / 100), pr_output = fl (88 / 100), pr_cacheRead = 0, pr_cacheWrite = 0, pr_thresholds = []\<rparr>,
      served ''ramp'' ''claude-opus-5-5'' [] \<lparr>pr_input = 4, pr_output = 20, pr_cacheRead = fl (2 / 10), pr_cacheWrite = 5, pr_thresholds = []\<rparr>,
      served ''ramp'' ''claude-sonnet-5-5'' [] \<lparr>pr_input = 2, pr_output = 10, pr_cacheRead = fl (2 / 10), pr_cacheWrite = fl (25 / 10), pr_thresholds = []\<rparr>,
      served ''ramp'' ''gpt-6.1-sol'' [] \<lparr>pr_input = 2, pr_output = 10, pr_cacheRead = fl (1 / 10), pr_cacheWrite = 0, pr_thresholds = []\<rparr>,
      served ''ramp'' ''gpt-6-luna'' [] \<lparr>pr_input = fl (1 / 10), pr_output = fl (5 / 10), pr_cacheRead = fl (1 / 100), pr_cacheWrite = 0, pr_thresholds = []\<rparr>,
      served ''ramp'' ''deepseek-v4.1-flash'' [] \<lparr>pr_input = fl (3 / 10), pr_output = fl (12 / 10), pr_cacheRead = fl (6 / 1000), pr_cacheWrite = 0, pr_thresholds = []\<rparr>,
      served ''ramp'' ''kimi-k3'' [] \<lparr>pr_input = 3, pr_output = 15, pr_cacheRead = fl (3 / 10), pr_cacheWrite = 0, pr_thresholds = []\<rparr>,
      served ''ramp'' ''qwen3p8-max'' [] \<lparr>pr_input = 2, pr_output = 6, pr_cacheRead = fl (25 / 100), pr_cacheWrite = 0, pr_thresholds = []\<rparr>,
      served ''ramp'' ''glm-5p3'' [] \<lparr>pr_input = fl (14 / 10), pr_output = fl (44 / 10), pr_cacheRead = fl (26 / 100), pr_cacheWrite = 0, pr_thresholds = []\<rparr>,
      served ''ramp'' ''grok-4.7'' [] \<lparr>pr_input = 2, pr_output = 6, pr_cacheRead = fl (5 / 10), pr_cacheWrite = 0, pr_thresholds = []\<rparr>]"

section \<open>Laws of the prices\<close>

lemma fold_last_rate:
  "fold (apply_rate tokens) ts r =
     (case filter (\<lambda>t. tokens > tr_above t) ts of [] \<Rightarrow> r
      | hits \<Rightarrow> (let t = last hits in r\<lparr>pr_input := tr_input t, pr_output := tr_output t,
                    pr_cacheRead := tr_cacheRead t, pr_cacheWrite := tr_cacheWrite t\<rparr>))"
  by (induction ts arbitrary: r) (auto simp: apply_rate_def Let_def split: list.splits)

text \<open>\<open>near k x y\<close>: \<open>y\<close> comes from the non-negative \<open>x\<close> by at most \<open>k\<close> roundings.\<close>

definition near :: "nat \<Rightarrow> rat \<Rightarrow> rat \<Rightarrow> bool" where
  "near k x y \<longleftrightarrow> x * (1 - 1 / 2 ^ 53) ^ k \<le> y \<and> y \<le> x * (1 + 1 / 2 ^ 53) ^ k"

lemma near_nonneg: "near k x y \<Longrightarrow> 0 \<le> x \<Longrightarrow> 0 \<le> y"
  unfolding near_def by (rule order_trans [of _ "x * (1 - 1 / 2 ^ 53) ^ k"]) auto

lemma near_fl:
  assumes "near k x y" and "0 \<le> x"
  shows "near (Suc k) x (fl y)"
proof (cases "y = 0")
  case True
  then have "x * (1 - 1 / 2 ^ 53) ^ k \<le> 0" using assms(1) by (simp add: near_def)
  moreover have "(0 :: rat) < (1 - 1 / 2 ^ 53) ^ k" by (rule zero_less_power) simp
  ultimately have "x = 0" using assms(2) by (simp only: mult_le_0_iff) linarith
  with True show ?thesis by (simp add: near_def)
next
  case False
  have y: "0 \<le> y" using near_nonneg [OF assms] .
  have "\<bar>fl y - y\<bar> \<le> y / 2 ^ 53" using fl_relative [OF False] y by simp
  then have "y - y / 2 ^ 53 \<le> fl y" "fl y \<le> y + y / 2 ^ 53" by linarith+
  then have b: "y * (1 - 1 / 2 ^ 53) \<le> fl y" "fl y \<le> y * (1 + 1 / 2 ^ 53)" by (simp_all add: field_simps)
  have "x * (1 - 1 / 2 ^ 53) ^ k * (1 - 1 / 2 ^ 53) \<le> y * (1 - 1 / 2 ^ 53)"
    using assms(1) by (intro mult_right_mono) (simp_all add: near_def)
  moreover have "y * (1 + 1 / 2 ^ 53) \<le> x * (1 + 1 / 2 ^ 53) ^ k * (1 + 1 / 2 ^ 53)"
    using assms(1) by (intro mult_right_mono) (simp_all add: near_def)
  ultimately show ?thesis using b by (simp add: near_def mult_ac)
qed

lemma near_add: "near k x y \<Longrightarrow> near k x' y' \<Longrightarrow> near k (x + x') (y + y')"
  by (simp add: near_def distrib_right)

lemma near_scale: "near k x y \<Longrightarrow> 0 \<le> c \<Longrightarrow> near k (x * c) (y * c)"
proof -
  assume a: "near k x y" "0 \<le> c"
  then have "x * (1 - 1 / 2 ^ 53) ^ k * c \<le> y * c" "y * c \<le> x * (1 + 1 / 2 ^ 53) ^ k * c"
    unfolding near_def by (blast intro: mult_right_mono)+
  then show ?thesis unfolding near_def by (simp only: mult_ac)
qed

lemma near_more:
  assumes "near k x y" and "0 \<le> x" and "k \<le> l"
  shows "near l x y"
proof -
  have "(1 - 1 / 2 ^ 53 :: rat) ^ l \<le> (1 - 1 / 2 ^ 53) ^ k" by (rule power_decreasing [OF assms(3)]) simp_all
  moreover have "(1 + 1 / 2 ^ 53 :: rat) ^ k \<le> (1 + 1 / 2 ^ 53) ^ l" by (rule power_increasing [OF assms(3)]) simp
  ultimately show ?thesis
    using assms(1,2) unfolding near_def by (meson mult_left_mono order_trans)
qed

lemma near_term: "0 \<le> n \<Longrightarrow> 0 \<le> c \<Longrightarrow> near 2 (of_int n * c) (fmul (ffloat n) c)"
proof -
  assume n: "0 \<le> n" and c: "0 \<le> c"
  have "near 0 (of_int n) (of_int n)" by (simp add: near_def)
  from near_scale [OF near_fl [OF this] c] n have "near 1 (of_int n * c) (ffloat n * c)" by simp
  from near_fl [OF this] n c show ?thesis by (simp add: numeral_2_eq_2)
qed

end
