(* ===== verification/Router.thy ===== *)
theory Router
  imports Model_Catalog Work_Items "HOL-Library.Word"
begin

unbundle bit_operations_syntax

text \<open>
  The routing policy of \<^verbatim>\<open>internal/router/router.go\<close>: which model and reasoning effort serve
  the next call. The ledger's cache entries are a function, its routing records a list the
  decision appends to, and whether that write succeeds is an argument. An index out of range (a
  panic) is \<open>None\<close> in \<open>effortFor\<close> and \<open>score\<close>. \<^verbatim>\<open>slices.SortFunc\<close> is an insertion sort up to
  twelve elements, as the library implements it; beyond, its pattern-defeating quicksort is the
  argument \<open>pdq\<close>. The JSON columns of a routing record, telemetry and the text that explains a
  decision to people are left out.
\<close>

section \<open>State\<close>

record stall_signals =
  st_failedCommands :: int
  st_repeatedEdits :: int
  st_testFailStreak :: int
  st_reviewRejected :: bool

record cache_entry =
  ce_warmPrefix :: int
  ce_lastHit :: go_time
  ce_ttl :: int

definition cache_Valid :: "cache_entry \<Rightarrow> int \<Rightarrow> bool" where
  "cache_Valid e now \<longleftrightarrow>
     ce_warmPrefix e > 0 \<and> (case ce_lastHit e of None \<Rightarrow> False | Some t \<Rightarrow> now < t + ce_ttl e)"

record cache_estimate =
  es_warmTokens :: int
  es_freshTokens :: int
  es_warm :: bool
  es_cost :: float64
  es_toCliff :: int

record route_performance =
  pf_calls :: int
  pf_failureRate :: float64
  pf_latency :: float64
  pf_outputPerCall :: float64
  pf_cacheReadRatio :: float64

record routing_state =
  rs_session :: string
  rs_turn :: int
  rs_point :: string
  rs_phase :: string
  rs_current :: string
  rs_input :: int
  rs_output :: int
  rs_hasImage :: bool
  rs_stall :: stall_signals
  rs_excludeFamilies :: "string list"
  rs_excludeModels :: "string list"
  rs_available :: "string list option"
  rs_tierPin :: string
  rs_background :: bool
  rs_modelPin :: string
  rs_effortPin :: string
  rs_implementer :: string
  rs_performance :: "(string \<times> route_performance) list"

record router_config =
  rc_frontierPhases :: "string list"
  rc_disableSwitch :: bool
  rc_defaultModel :: string
  rc_interactive :: float64
  rc_background :: float64

record candidate =
  cd_model :: string
  cd_effort :: string
  cd_cost :: float64
  cd_workCost :: float64
  cd_workSeconds :: float64
  cd_timeCost :: float64
  cd_score :: float64
  cd_cache :: cache_estimate
  cd_rejected :: string
  cd_floorRejected :: bool

record decision =
  dc_model :: "model_spec option"
  dc_effort :: string
  dc_dialect :: string
  dc_toolset :: string
  dc_wasSwitch :: bool
  dc_candidates :: "candidate list"
  dc_floorWinner :: string

record routing_record =
  rr_session :: string
  rr_turn :: int
  rr_point :: string
  rr_chosen :: string
  rr_effort :: string
  rr_wasSwitch :: bool

datatype decide_error = NoCompatible "candidate list" | RecordFailed string | RouterPanic

definition ReviewCreation :: string where "ReviewCreation = ''review''"
definition TurnStart :: string where "TurnStart = ''turn''"
definition Escalation :: string where "Escalation = ''escalation''"

definition time_For :: "router_config \<Rightarrow> bool \<Rightarrow> float64" where
  "time_For cfg background = (if background then rc_background cfg else rc_interactive cfg)"

section \<open>Effort\<close>

definition effortLadder :: "string list" where
  "effortLadder = [EffortNone, EffortLow, EffortMedium, EffortHigh, EffortXHigh]"

definition slices_Index :: "'a list \<Rightarrow> 'a \<Rightarrow> int" where
  "slices_Index xs x = (let n = length (takeWhile (\<lambda>y. y \<noteq> x) xs) in if n < length xs then int n else -1)"

definition failing :: "stall_signals \<Rightarrow> bool" where
  "failing s \<longleftrightarrow> st_failedCommands s \<ge> 2 \<or> st_testFailStreak s \<ge> 2 \<or> st_repeatedEdits s \<ge> 3 \<or> st_reviewRejected s"

definition supportedEffort :: "model_spec \<Rightarrow> string \<Rightarrow> string" where
  "supportedEffort m want =
     (let upto_at = nat (slices_Index effortLadder want + 1) in
      case List.find (\<lambda>e. e \<in> set (ms_effort m)) (rev (take upto_at effortLadder)) of
        Some e \<Rightarrow> e
      | None \<Rightarrow> (case List.find (\<lambda>e. e \<in> set (ms_effort m)) (drop upto_at effortLadder) of
                   Some e \<Rightarrow> e | None \<Rightarrow> EffortNone))"

definition wanted_effort :: "model_spec \<Rightarrow> routing_state \<Rightarrow> string" where
  "wanted_effort m s =
     (let w0 = EffortMedium;
          w1 = (if ms_workEffort m \<noteq> [] \<and> (rs_phase s \<in> set [''explore'', ''implement'']
                     \<or> rs_phase s = ''review'' \<and> rs_point s \<noteq> ReviewCreation)
                then ms_workEffort m else w0);
          w2 = (if rs_phase s = ''plan'' then EffortMedium else w1);
          w3 = (if rs_phase s = ''diagnose'' \<or> rs_point s = ReviewCreation then EffortHigh else w2)
      in if rs_phase s = ''wrap-up'' then EffortLow else w3)"

definition raised_effort :: "string \<Rightarrow> string option" where
  "raised_effort want =
     (let i = nat (slices_Index effortLadder want + 1) in
      if i < length effortLadder then Some (effortLadder ! i) else None)"

definition effortFor :: "model_spec \<Rightarrow> routing_state \<Rightarrow> string option" where
  "effortFor m s =
     (if rs_effortPin s \<noteq> [] \<and> rs_effortPin s \<in> set (ms_effort m) then Some (rs_effortPin s)
      else let want = wanted_effort m s in
        if failing (rs_stall s) \<and> want \<noteq> EffortHigh
        then map_option (supportedEffort m) (raised_effort want)
        else Some (supportedEffort m want))"

section \<open>Cost of a unit of work\<close>

definition performance_of :: "routing_state \<Rightarrow> string \<Rightarrow> route_performance" where
  "performance_of s key =
     (case map_of (rs_performance s) key of Some p \<Rightarrow> p
      | None \<Rightarrow> \<lparr>pf_calls = 0, pf_failureRate = 0, pf_latency = 0, pf_outputPerCall = 0, pf_cacheReadRatio = 0\<rparr>)"

definition EffortStatsKey :: "string \<Rightarrow> string \<Rightarrow> string" where
  "EffortStatsKey rt effort = rt @ ''@'' @ effort"

definition blend :: "float64 \<Rightarrow> float64 \<Rightarrow> float64 \<Rightarrow> float64" where
  "blend observed prior w =
     (if observed \<le> 0 then prior else fadd (fmul w observed) (fmul (fsub 1 w) prior))"

definition shrink_weight :: "int \<Rightarrow> float64" where
  "shrink_weight calls = fdiv (ffloat calls) (ffloat (add64 calls 20))"

definition workEstimate :: "model_spec \<Rightarrow> routing_state \<Rightarrow> int \<Rightarrow> string \<Rightarrow> float64 \<times> float64" where
  "workEstimate m s warmTokens effort =
     (let perf = performance_of s (ms_id m);
          weight = shrink_weight (pf_calls perf);
          output0 = blend (pf_outputPerCall perf) 1000 weight;
          ratio0 = blend (pf_cacheReadRatio perf) (fl (7 / 10)) weight;
          latency0 = blend (pf_latency perf) 10 weight;
          (output, ratio, latency) =
            (case map_of (rs_performance s) (EffortStatsKey (ms_id m) effort) of
               Some own \<Rightarrow>
                 (if effort \<noteq> []
                  then let w = shrink_weight (pf_calls own) in
                    (blend (pf_outputPerCall own) output0 w, blend (pf_cacheReadRatio own) ratio0 w, blend (pf_latency own) latency0 w)
                  else (output0, ratio0, latency0))
             | None \<Rightarrow> (output0, ratio0, latency0));
          calls = (if ms_callsPerTask m \<le> 0 then 2 else ms_callsPerTask m);
          nxt = Estimate (ms_pricing m) (rs_input s) (ftrunc output) warmTokens;
          steady = Estimate (ms_pricing m) (rs_input s) (ftrunc output) (ftrunc (fmul ratio (ffloat (rs_input s))));
          total = fmul 10 calls;
          retries = fdiv 1 (fsub 1 (min (1 / 2) (fmul weight (pf_failureRate perf))))
      in (fmul (fadd nxt (fmul (fsub total 1) steady)) retries, fmul (fmul total latency) retries))"

section \<open>Scoring\<close>

definition hard_reject :: "router_config \<Rightarrow> routing_state \<Rightarrow> bool \<Rightarrow> model_spec \<Rightarrow> string" where
  "hard_reject cfg s alternate m =
     (if rs_modelPin s \<noteq> [] \<and> ms_id m \<noteq> rs_modelPin s \<and> ms_model m \<noteq> rs_modelPin s then ''model pinned''
      else if rc_disableSwitch cfg \<and> rc_defaultModel cfg \<noteq> [] \<and> ms_id m \<noteq> rc_defaultModel cfg then ''default model pinned''
      else if ms_explicitOnly m \<and> rs_modelPin s = [] \<and> ms_id m \<noteq> rc_defaultModel cfg \<and> ms_model m \<noteq> rc_defaultModel cfg
        then ''used only when named''
      else if (case rs_available s of Some av \<Rightarrow> ms_id m \<notin> set av | None \<Rightarrow> False) then ''provider not configured''
      else if ms_id m \<in> set (rs_excludeModels s) then ''model excluded after provider failure''
      else if rs_hasImage s \<and> \<not> Supports m ImageInput then ''image unsupported''
      else if add64 (rs_input s) (rs_output s) > ms_context m then ''context does not fit''
      else if ms_family m \<in> set (rs_excludeFamilies s) then ''family excluded''
      else if alternate \<and> ms_family m = rs_implementer s then ''reviewer must use another family''
      else if rs_tierPin s \<noteq> [] \<and> ms_tier m \<noteq> rs_tierPin s then ''tier pinned''
      else if rc_disableSwitch cfg \<and> rs_current s \<noteq> [] \<and> ms_id m \<noteq> rs_current s then ''switching disabled''
      else [])"

definition floors_on :: "routing_state \<Rightarrow> bool \<Rightarrow> bool \<Rightarrow> bool" where
  "floors_on s pinned relax \<longleftrightarrow> \<not> relax \<and> \<not> pinned \<and> rs_tierPin s = []"

definition frontier_floor :: "router_config \<Rightarrow> routing_state \<Rightarrow> bool \<Rightarrow> bool" where
  "frontier_floor cfg s floors \<longleftrightarrow>
     floors \<and> (rs_phase s \<in> set (rc_frontierPhases cfg) \<or> rs_point s = ReviewCreation
       \<or> st_reviewRejected (rs_stall s) \<and> (rs_point s = TurnStart \<or> rs_point s = Escalation))"

definition floor_reject :: "router_config \<Rightarrow> routing_state \<Rightarrow> bool \<Rightarrow> model_spec \<Rightarrow> string" where
  "floor_reject cfg s floors m =
     (if frontier_floor cfg s floors \<and> ms_tier m \<noteq> Frontier then ''needs a frontier model''
      else if floors \<and> ms_tier m = Tiny then ''tiny models are a last resort''
      else [])"

definition empty_estimate :: cache_estimate where
  "empty_estimate = \<lparr>es_warmTokens = 0, es_freshTokens = 0, es_warm = False, es_cost = 0, es_toCliff = 0\<rparr>"

definition empty_candidate :: "string \<Rightarrow> candidate" where
  "empty_candidate ident =
     \<lparr>cd_model = ident, cd_effort = [], cd_cost = 0, cd_workCost = 0, cd_workSeconds = 0, cd_timeCost = 0, cd_score = 0,
      cd_cache = empty_estimate, cd_rejected = [], cd_floorRejected = False\<rparr>"

definition cache_estimate_for :: "model_spec \<Rightarrow> routing_state \<Rightarrow> cache_entry \<Rightarrow> int \<Rightarrow> cache_estimate" where
  "cache_estimate_for m s entry now =
     (let warm = cache_Valid entry now;
          warmTokens = (if warm then min (ce_warmPrefix entry) (rs_input s) else 0)
      in \<lparr>es_warmTokens = warmTokens, es_freshTokens = sub64 (rs_input s) warmTokens, es_warm = warm,
          es_cost = Estimate (ms_pricing m) (rs_input s) (rs_output s) warmTokens,
          es_toCliff = (case List.find (\<lambda>t. tr_above t > rs_input s) (pr_thresholds (ms_pricing m)) of
                          Some t \<Rightarrow> sub64 (tr_above t) (rs_input s) | None \<Rightarrow> 0)\<rparr>)"

definition score_model ::
  "router_config \<Rightarrow> (string \<Rightarrow> string \<Rightarrow> cache_entry) \<Rightarrow> int \<Rightarrow> routing_state \<Rightarrow> bool \<Rightarrow> bool \<Rightarrow> bool \<Rightarrow> model_spec \<Rightarrow> candidate option" where
  "score_model cfg cache now s alternate pinned relax m =
     (let c = empty_candidate (ms_id m); rejected = hard_reject cfg s alternate m in
      if rejected \<noteq> [] then Some (c\<lparr>cd_rejected := rejected\<rparr>)
      else let why = floor_reject cfg s (floors_on s pinned relax) m;
               est = cache_estimate_for m s (cache (rs_session s) (ms_id m)) now
        in case effortFor m s of
             None \<Rightarrow> None
           | Some effort \<Rightarrow>
               (case workEstimate m s (es_warmTokens est) effort of (workCost, workSeconds) \<Rightarrow>
                let timeCost = fmul (fdiv workSeconds 60) (time_For cfg (rs_background s)) in
                Some (c\<lparr>cd_effort := effort, cd_cost := es_cost est, cd_workCost := workCost, cd_workSeconds := workSeconds,
                        cd_timeCost := timeCost, cd_score := - fadd workCost timeCost, cd_cache := est,
                        cd_rejected := why, cd_floorRejected := (why \<noteq> [])\<rparr>)))"

definition score ::
  "router_config \<Rightarrow> model_spec list \<Rightarrow> (string \<Rightarrow> string \<Rightarrow> cache_entry) \<Rightarrow> int \<Rightarrow> routing_state \<Rightarrow> bool \<Rightarrow> bool \<Rightarrow> bool
     \<Rightarrow> candidate list option" where
  "score cfg catalog cache now s alternate pinned relax =
     those (map (score_model cfg cache now s alternate pinned relax) catalog)"

definition reviewHasAlternateFamily :: "router_config \<Rightarrow> model_spec list \<Rightarrow> routing_state \<Rightarrow> bool" where
  "reviewHasAlternateFamily cfg catalog s =
     (if rs_point s \<noteq> ReviewCreation \<or> rs_implementer s = [] then False
      else list_ex (\<lambda>m. \<not> (ms_family m = rs_implementer s
              \<or> (case rs_available s of Some av \<Rightarrow> ms_id m \<notin> set av | None \<Rightarrow> False)
              \<or> ms_id m \<in> set (rs_excludeModels s)
              \<or> ms_family m \<in> set (rs_excludeFamilies s)
              \<or> rs_hasImage s \<and> \<not> Supports m ImageInput
              \<or> add64 (rs_input s) (rs_output s) > ms_context m
              \<or> rs_tierPin s \<noteq> [] \<and> ms_tier m \<noteq> rs_tierPin s
              \<or> rc_disableSwitch cfg \<and> rc_defaultModel cfg \<noteq> [] \<and> ms_id m \<noteq> rc_defaultModel cfg)) catalog)"

section \<open>Exploration\<close>

definition fnv32a :: "string \<Rightarrow> 32 word" where
  "fnv32a s = fold (\<lambda>c h. (h XOR of_nat (of_char c)) * 16777619) s 2166136261"

definition itoa_int :: "int \<Rightarrow> string" where
  "itoa_int n = (if n < 0 then ''-'' @ itoa_nat (nat (- n)) else itoa_nat (nat n))"

definition explore_now :: "routing_state \<Rightarrow> bool" where
  "explore_now s \<longleftrightarrow>
     uint (fnv32a (rs_session s @ ''/'' @ itoa_int (rs_turn s) @ ''/'' @ rs_point s)) mod 10 = 0"

fun explore_pick :: "routing_state \<Rightarrow> candidate list \<Rightarrow> candidate option \<Rightarrow> candidate option" where
  "explore_pick s [] pick = pick"
| "explore_pick s (c # cs) pick =
     (if pf_calls (performance_of s (cd_model c)) \<ge> 20 then explore_pick s cs pick
      else if (case pick of None \<Rightarrow> True | Some p \<Rightarrow> cd_workCost c < cd_workCost p) then explore_pick s cs (Some c)
      else explore_pick s cs pick)"

definition exploration :: "routing_state \<Rightarrow> candidate list \<Rightarrow> candidate option" where
  "exploration s valid =
     (if \<not> rs_background s \<or> rs_modelPin s \<noteq> [] \<or> rs_point s = ReviewCreation then None
      else if \<not> explore_now s then None
      else explore_pick s valid None)"

section \<open>The decision\<close>

definition candidate_cmp :: "router_config \<Rightarrow> routing_state \<Rightarrow> candidate \<Rightarrow> candidate \<Rightarrow> int" where
  "candidate_cmp cfg s a b =
     (if cd_score a > cd_score b then -1
      else if cd_score a < cd_score b then 1
      else if cd_model a = rs_current s then -1
      else if rs_current s = [] \<and> rc_defaultModel cfg \<noteq> [] \<and> cd_model a = rc_defaultModel cfg then -1
      else if rs_current s = [] \<and> rc_defaultModel cfg \<noteq> [] \<and> cd_model b = rc_defaultModel cfg then 1
      else if cd_model a < cd_model b then -1 else if cd_model a > cd_model b then 1 else 0)"

text \<open>One pass of \<^verbatim>\<open>insertionSortCmpFunc\<close>: the new element moves left while it compares below its neighbour.\<close>

fun insert_left :: "('a \<Rightarrow> 'a \<Rightarrow> int) \<Rightarrow> 'a \<Rightarrow> 'a list \<Rightarrow> 'a list" where
  "insert_left cmp x [] = [x]"
| "insert_left cmp x (y # ys) = (if cmp x y < 0 then y # insert_left cmp x ys else x # y # ys)"

definition insertion_sort :: "('a \<Rightarrow> 'a \<Rightarrow> int) \<Rightarrow> 'a list \<Rightarrow> 'a list" where
  "insertion_sort cmp xs = rev (fold (insert_left cmp) xs [])"

definition SortFunc :: "(('a \<Rightarrow> 'a \<Rightarrow> int) \<Rightarrow> 'a list \<Rightarrow> 'a list) \<Rightarrow> ('a \<Rightarrow> 'a \<Rightarrow> int) \<Rightarrow> 'a list \<Rightarrow> 'a list" where
  "SortFunc pdq cmp xs = (if length xs \<le> 12 then insertion_sort cmp xs else pdq cmp xs)"

definition anyValid :: "candidate list \<Rightarrow> bool" where
  "anyValid cs = list_ex (\<lambda>c. cd_rejected c = []) cs"

definition toolset :: "model_spec option \<Rightarrow> string" where
  "toolset m = (case m of Some spec \<Rightarrow> if cp_strictTools (ms_compat spec) then ''strict'' else ''portable'' | None \<Rightarrow> ''portable'')"

fun floor_winner :: "candidate list \<Rightarrow> string \<Rightarrow> float64 \<Rightarrow> string" where
  "floor_winner [] winner best = winner"
| "floor_winner (c # cs) winner best =
     (if cd_floorRejected c \<and> cd_score c > best then floor_winner cs (cd_model c) (cd_score c) else floor_winner cs winner best)"

definition with_defaults :: "routing_state \<Rightarrow> routing_state" where
  "with_defaults s =
     s\<lparr>rs_input := (if rs_input s \<le> 0 then 4000 else rs_input s),
       rs_output := (if rs_output s \<le> 0 then 2000 else rs_output s)\<rparr>"

definition pinned_model :: "router_config \<Rightarrow> routing_state \<Rightarrow> bool" where
  "pinned_model cfg s \<longleftrightarrow> rc_disableSwitch cfg \<and> rc_defaultModel cfg \<noteq> [] \<or> rs_modelPin s \<noteq> []"

definition candidates_for ::
  "router_config \<Rightarrow> model_spec list \<Rightarrow> (string \<Rightarrow> string \<Rightarrow> cache_entry) \<Rightarrow> int \<Rightarrow> routing_state \<Rightarrow> candidate list option" where
  "candidates_for cfg catalog cache now s =
     (let alternate = reviewHasAlternateFamily cfg catalog s; pinned = pinned_model cfg s in
      case score cfg catalog cache now s alternate pinned False of
        None \<Rightarrow> None
      | Some cs \<Rightarrow> if anyValid cs then Some cs else score cfg catalog cache now s alternate pinned True)"

definition decided ::
  "model_spec list \<Rightarrow> routing_state \<Rightarrow> candidate list \<Rightarrow> candidate \<Rightarrow> decision" where
  "decided active s candidates chosen =
     (let spec = Get active (cd_model chosen);
          ident = (case spec of Some m \<Rightarrow> ms_id m | None \<Rightarrow> [])
      in \<lparr>dc_model = spec, dc_effort = cd_effort chosen,
          dc_dialect = (case spec of Some m \<Rightarrow> ms_dialect m | None \<Rightarrow> []), dc_toolset = toolset spec,
          dc_wasSwitch = (rs_current s \<noteq> [] \<and> rs_current s \<noteq> ident), dc_candidates = candidates,
          dc_floorWinner = floor_winner candidates [] (cd_score chosen)\<rparr>)"

definition record_for :: "routing_state \<Rightarrow> decision \<Rightarrow> routing_record" where
  "record_for s d =
     \<lparr>rr_session = rs_session s, rr_turn = rs_turn s, rr_point = rs_point s,
      rr_chosen = (case dc_model d of Some m \<Rightarrow> ms_id m | None \<Rightarrow> []), rr_effort = dc_effort d,
      rr_wasSwitch = dc_wasSwitch d\<rparr>"

definition Decide ::
  "((candidate \<Rightarrow> candidate \<Rightarrow> int) \<Rightarrow> candidate list \<Rightarrow> candidate list) \<Rightarrow> router_config \<Rightarrow> model_spec list \<Rightarrow> model_spec list
     \<Rightarrow> (string \<Rightarrow> string \<Rightarrow> cache_entry) \<Rightarrow> int \<Rightarrow> (routing_record \<Rightarrow> string option) \<Rightarrow> routing_record list \<Rightarrow> routing_state
     \<Rightarrow> (decide_error + decision) \<times> routing_record list" where
  "Decide pdq cfg catalog active cache now write_error ledger s0 =
     (let s = with_defaults s0 in
      case candidates_for cfg catalog cache now s of
        None \<Rightarrow> (Inl RouterPanic, ledger)
      | Some candidates \<Rightarrow>
          (let valid = filter (\<lambda>c. cd_rejected c = []) candidates in
           if valid = [] then (Inl (NoCompatible candidates), ledger)
           else let ranked = SortFunc pdq (candidate_cmp cfg s) valid;
                    chosen = (case exploration s ranked of Some pick \<Rightarrow> pick | None \<Rightarrow> hd ranked);
                    d = decided active s candidates chosen;
                    r = record_for s d
             in case write_error r of
                  Some e \<Rightarrow> (Inl (RecordFailed e), ledger)
                | None \<Rightarrow> (Inr d, ledger @ [r])))"

end
