(* ===== verification/Router_Decide.thy ===== *)
theory Router_Decide
  imports Router_Props
begin

text \<open>
  The decision as a whole: which models may serve a call, that one of them is chosen whenever
  there is one, that the floors hold as long as some model meets them, and that the chosen one is
  the cheapest.
\<close>

section \<open>Which models may serve\<close>

text \<open>The requirements on a model, each read on its own.\<close>

definition may_serve :: "router_config \<Rightarrow> model_spec list \<Rightarrow> routing_state \<Rightarrow> model_spec \<Rightarrow> bool" where
  "may_serve cfg catalog s m \<longleftrightarrow>
     (rs_modelPin s \<noteq> [] \<longrightarrow> ms_id m = rs_modelPin s \<or> ms_model m = rs_modelPin s)
     \<and> (rc_disableSwitch cfg \<longrightarrow> (rc_defaultModel cfg \<noteq> [] \<longrightarrow> ms_id m = rc_defaultModel cfg)
                             \<and> (rs_current s \<noteq> [] \<longrightarrow> ms_id m = rs_current s))
     \<and> (ms_explicitOnly m \<longrightarrow> rs_modelPin s \<noteq> [] \<or> ms_id m = rc_defaultModel cfg \<or> ms_model m = rc_defaultModel cfg)
     \<and> (\<forall>av. rs_available s = Some av \<longrightarrow> ms_id m \<in> set av)
     \<and> ms_id m \<notin> set (rs_excludeModels s) \<and> ms_family m \<notin> set (rs_excludeFamilies s)
     \<and> (rs_hasImage s \<longrightarrow> ImageInput \<in> set (ms_inputs m))
     \<and> add64 (rs_input s) (rs_output s) \<le> ms_context m
     \<and> (rs_tierPin s \<noteq> [] \<longrightarrow> ms_tier m = rs_tierPin s)
     \<and> (reviewHasAlternateFamily cfg catalog s \<longrightarrow> ms_family m \<noteq> rs_implementer s)"

lemma Supports_iff: "Supports m x \<longleftrightarrow> x \<in> set (ms_inputs m)"
  by (auto simp: Supports_def list_ex_iff)

lemma if_reason: "(if b then x # xs else r) = [] \<longleftrightarrow> \<not> b \<and> r = []"
  by simp

lemma hard_reject_iff: "hard_reject cfg s (reviewHasAlternateFamily cfg catalog s) m = [] \<longleftrightarrow> may_serve cfg catalog s m"
proof (cases "rs_available s")
  case None
  then show ?thesis unfolding hard_reject_def may_serve_def if_reason Supports_iff not_less by simp blast
next
  case (Some av)
  then show ?thesis unfolding hard_reject_def may_serve_def if_reason Supports_iff not_less by simp blast
qed

text \<open>The quality floor of a decision, when floors apply.\<close>

definition meets_floor :: "router_config \<Rightarrow> routing_state \<Rightarrow> model_spec \<Rightarrow> bool" where
  "meets_floor cfg s m \<longleftrightarrow>
     (if rs_phase s \<in> set (rc_frontierPhases cfg) \<or> rs_point s = ReviewCreation
         \<or> st_reviewRejected (rs_stall s) \<and> (rs_point s = TurnStart \<or> rs_point s = Escalation)
      then ms_tier m = Frontier else ms_tier m \<noteq> Tiny)"

lemma floor_reject_iff: "floor_reject cfg s floors m = [] \<longleftrightarrow> floors \<longrightarrow> meets_floor cfg s m"
  by (auto simp: floor_reject_def frontier_floor_def meets_floor_def Frontier_def Tiny_def)

section \<open>Scoring the catalog\<close>

lemma those_iff: "those (map f xs) = Some ys \<longleftrightarrow> list_all2 (\<lambda>x y. f x = Some y) xs ys"
proof (induction xs arbitrary: ys)
  case (Cons x xs)
  then show ?case by (cases ys) (auto split: option.splits)
qed auto

lemma those_None: "those (map f xs) = None \<longleftrightarrow> (\<exists>x \<in> set xs. f x = None)"
  by (induction xs) (auto split: option.splits)

lemma score_model_Some:
  assumes "score_model cfg cache now s (reviewHasAlternateFamily cfg catalog s) pinned relax m = Some c"
  shows "cd_model c = ms_id m"
    and "cd_rejected c = [] \<longleftrightarrow> may_serve cfg catalog s m \<and> (floors_on s pinned relax \<longrightarrow> meets_floor cfg s m)"
    and "may_serve cfg catalog s m \<Longrightarrow> effortFor m s = Some (cd_effort c)"
    and "cd_floorRejected c \<longleftrightarrow> may_serve cfg catalog s m \<and> floors_on s pinned relax \<and> \<not> meets_floor cfg s m"
  using assms hard_reject_iff [of cfg s catalog m] floor_reject_iff [of cfg s "floors_on s pinned relax" m]
  by (auto simp: score_model_def Let_def empty_candidate_def split: if_splits option.splits prod.splits)

lemma score_model_None:
  "score_model cfg cache now s (reviewHasAlternateFamily cfg catalog s) pinned relax m = None
     \<longleftrightarrow> may_serve cfg catalog s m \<and> effortFor m s = None"
  using hard_reject_iff [of cfg s catalog m]
  by (auto simp: score_model_def Let_def split: option.splits prod.splits)

definition scored :: "router_config \<Rightarrow> model_spec list \<Rightarrow> routing_state \<Rightarrow> bool \<Rightarrow> model_spec \<Rightarrow> candidate \<Rightarrow> bool" where
  "scored cfg catalog s floors m c \<longleftrightarrow> cd_model c = ms_id m
     \<and> (cd_rejected c = [] \<longleftrightarrow> may_serve cfg catalog s m \<and> (floors \<longrightarrow> meets_floor cfg s m))
     \<and> (may_serve cfg catalog s m \<longrightarrow> effortFor m s = Some (cd_effort c))"

lemma score_Some:
  "score cfg catalog cache now s (reviewHasAlternateFamily cfg catalog s) pinned relax = Some cs
    \<Longrightarrow> list_all2 (scored cfg catalog s (floors_on s pinned relax)) catalog cs"
  unfolding score_def those_iff
  by (erule list_all2_mono) (simp add: scored_def score_model_Some)

lemma anyValid_iff: "anyValid cs \<longleftrightarrow> filter (\<lambda>c. cd_rejected c = []) cs \<noteq> []"
  by (auto simp: anyValid_def list_ex_iff filter_empty_conv)

lemma scored_valid_ex:
  assumes "list_all2 (scored cfg catalog s floors) ms cs"
  shows "anyValid cs \<longleftrightarrow> (\<exists>m \<in> set ms. may_serve cfg catalog s m \<and> (floors \<longrightarrow> meets_floor cfg s m))"
  using assms by (induction rule: list_all2_induct) (auto simp: anyValid_def scored_def)

lemma candidates_Some:
  assumes "candidates_for cfg catalog cache now s = Some cs"
  obtains floors where "list_all2 (scored cfg catalog s floors) catalog cs"
    and "floors \<Longrightarrow> floors_on s (pinned_model cfg s) False" and "floors \<Longrightarrow> anyValid cs"
    and "\<not> floors \<Longrightarrow> floors_on s (pinned_model cfg s) False
        \<Longrightarrow> \<forall>m \<in> set catalog. may_serve cfg catalog s m \<longrightarrow> \<not> meets_floor cfg s m"
proof -
  let ?alt = "reviewHasAlternateFamily cfg catalog s" and ?pin = "pinned_model cfg s"
  obtain c0 where c0: "score cfg catalog cache now s ?alt ?pin False = Some c0"
    and cs: "cs = c0 \<and> anyValid c0 \<or> \<not> anyValid c0 \<and> score cfg catalog cache now s ?alt ?pin True = Some cs"
    using assms by (auto simp: candidates_for_def Let_def split: option.splits if_splits)
  note s0 = score_Some [OF c0]
  show thesis
  proof (cases "anyValid c0")
    case True
    with cs s0 show thesis by (intro that [of "floors_on s ?pin False"]) auto
  next
    case False
    then have "score cfg catalog cache now s ?alt ?pin True = Some cs" using cs by blast
    from score_Some [OF this] have "list_all2 (scored cfg catalog s False) catalog cs" by (simp add: floors_on_def)
    then show thesis
      using False scored_valid_ex [OF s0] by (intro that [of False]) auto
  qed
qed

lemma candidates_valid:
  assumes "candidates_for cfg catalog cache now s = Some cs"
  shows "anyValid cs \<longleftrightarrow> (\<exists>m \<in> set catalog. may_serve cfg catalog s m)"
proof -
  obtain floors where "list_all2 (scored cfg catalog s floors) catalog cs" "floors \<Longrightarrow> anyValid cs"
    using candidates_Some [OF assms] by metis
  with scored_valid_ex [of cfg catalog s floors catalog cs] show ?thesis by (cases floors) auto
qed

lemma candidates_None:
  assumes "candidates_for cfg catalog cache now s = None"
  shows "\<exists>m \<in> set catalog. may_serve cfg catalog s m \<and> effortFor m s = None"
  using assms
  by (auto simp: candidates_for_def Let_def score_def those_None score_model_None split: option.splits if_splits)

section \<open>Ranking\<close>

lemma mset_insert_left: "mset (insert_left cmp x ys) = add_mset x (mset ys)"
  by (induction ys) auto

lemma mset_insertion_sort: "mset (insertion_sort cmp xs) = mset xs"
proof -
  have "mset (fold (insert_left cmp) xs acc) = mset xs + mset acc" for acc
    by (induction xs arbitrary: acc) (auto simp: mset_insert_left)
  then show ?thesis by (simp add: insertion_sort_def)
qed

text \<open>What the library promises of \<^verbatim>\<open>SortFunc\<close>: a permutation, ordered when the comparison is consistent.\<close>

definition strict_weak :: "('a \<Rightarrow> 'a \<Rightarrow> int) \<Rightarrow> 'a set \<Rightarrow> bool" where
  "strict_weak cmp A \<longleftrightarrow> (\<forall>a \<in> A. \<not> cmp a a < 0)
     \<and> (\<forall>a \<in> A. \<forall>b \<in> A. \<forall>c \<in> A. cmp a b < 0 \<longrightarrow> cmp b c < 0 \<longrightarrow> cmp a c < 0)
     \<and> (\<forall>a \<in> A. \<forall>b \<in> A. \<forall>c \<in> A. \<not> cmp a b < 0 \<and> \<not> cmp b a < 0 \<longrightarrow> \<not> cmp b c < 0 \<and> \<not> cmp c b < 0
          \<longrightarrow> \<not> cmp a c < 0 \<and> \<not> cmp c a < 0)"

definition sort_contract :: "(('a \<Rightarrow> 'a \<Rightarrow> int) \<Rightarrow> 'a list \<Rightarrow> 'a list) \<Rightarrow> bool" where
  "sort_contract pdq \<longleftrightarrow> (\<forall>cmp xs. mset (pdq cmp xs) = mset xs
     \<and> (strict_weak cmp (set xs) \<longrightarrow> sorted_wrt (\<lambda>a b. \<not> cmp b a < 0) (pdq cmp xs)))"

lemma mset_SortFunc: "sort_contract pdq \<Longrightarrow> mset (SortFunc pdq cmp xs) = mset xs"
  by (simp add: SortFunc_def mset_insertion_sort sort_contract_def)

text \<open>Whatever it does with ties, the insertion sort orders by score.\<close>

lemma insert_left_score:
  assumes "\<And>a b. cmp a b < 0 \<Longrightarrow> f b \<le> (f a :: rat)" and "\<And>a b. \<not> cmp a b < 0 \<Longrightarrow> f a \<le> f b"
    and "sorted_wrt (\<lambda>a b. f a \<le> f b) ys"
  shows "sorted_wrt (\<lambda>a b. f a \<le> f b) (insert_left cmp x ys)"
  using assms(3)
proof (induction ys)
  case (Cons y ys)
  have "set (insert_left cmp x ys) = insert x (set ys)"
    using mset_insert_left [of cmp x ys] by (metis set_mset_add_mset_insert set_mset_mset)
  moreover have "f x \<le> f z" if "z \<in> set (y # ys)" "\<not> cmp x y < 0" for z
    using that Cons.prems assms(2) [of x y] by auto
  ultimately show ?case using Cons assms(1) [of x y] by auto
qed simp

lemma insertion_sort_score:
  assumes "\<And>a b. cmp a b < 0 \<Longrightarrow> f b \<le> (f a :: rat)" and "\<And>a b. \<not> cmp a b < 0 \<Longrightarrow> f a \<le> f b"
  shows "sorted_wrt (\<lambda>a b. f b \<le> f a) (insertion_sort cmp xs)"
proof -
  have "sorted_wrt (\<lambda>a b. f a \<le> f b) (fold (insert_left cmp) xs acc)" if "sorted_wrt (\<lambda>a b. f a \<le> f b) acc" for acc
    using that by (induction xs arbitrary: acc) (simp_all add: insert_left_score [OF assms])
  from this [of "[]"] show ?thesis by (simp add: insertion_sort_def sorted_wrt_rev)
qed

lemma candidate_cmp_score:
  "candidate_cmp cfg s a b < 0 \<Longrightarrow> cd_score b \<le> cd_score a" "\<not> candidate_cmp cfg s a b < 0 \<Longrightarrow> cd_score a \<le> cd_score b"
  by (auto simp: candidate_cmp_def split: if_splits)

lemma SortFunc_best:
  assumes "sort_contract pdq" and "length xs \<le> 12 \<or> strict_weak (candidate_cmp cfg s) (set xs)"
    and "c \<in> set xs"
  shows "cd_score c \<le> cd_score (hd (SortFunc pdq (candidate_cmp cfg s) xs))"
proof -
  let ?r = "SortFunc pdq (candidate_cmp cfg s) xs"
  have "sorted_wrt (\<lambda>a b. cd_score b \<le> cd_score a) ?r"
  proof (cases "length xs \<le> 12")
    case True
    then show ?thesis
      using insertion_sort_score [of "candidate_cmp cfg s" cd_score xs] candidate_cmp_score by (simp add: SortFunc_def)
  next
    case False
    then have "sorted_wrt (\<lambda>a b. \<not> candidate_cmp cfg s b a < 0) ?r"
      using assms(1,2) by (simp add: SortFunc_def sort_contract_def)
    then show ?thesis by (rule sorted_wrt_mono_rel [rotated]) (use candidate_cmp_score(2) in blast)
  qed
  moreover have "c \<in> set ?r" using mset_SortFunc [OF assms(1)] assms(3) by (metis set_mset_mset)
  ultimately show ?thesis by (cases ?r) auto
qed

lemma explore_pick_mem: "explore_pick s cs pick = Some c \<Longrightarrow> c \<in> set cs \<or> pick = Some c"
  by (induction cs arbitrary: pick) (auto split: if_splits)

lemma exploration_mem: "exploration s cs = Some c \<Longrightarrow> c \<in> set cs"
  using explore_pick_mem by (fastforce simp: exploration_def split: if_splits)

lemma pick_mem: "cs \<noteq> [] \<Longrightarrow> (case exploration s cs of Some pick \<Rightarrow> pick | None \<Rightarrow> hd cs) \<in> set cs"
  by (auto split: option.splits dest: exploration_mem)

lemma explore_pick_unmeasured:
  "explore_pick s cs pick = Some c \<Longrightarrow> (\<forall>p. pick = Some p \<longrightarrow> pf_calls (performance_of s (cd_model p)) < 20)
    \<Longrightarrow> pf_calls (performance_of s (cd_model c)) < 20"
  by (induction cs arbitrary: pick) (auto split: if_splits)

lemma exploration_limits:
  "exploration s cs = Some c \<Longrightarrow> rs_background s \<and> rs_modelPin s = [] \<and> rs_point s \<noteq> ReviewCreation \<and> explore_now s
    \<and> pf_calls (performance_of s (cd_model c)) < 20"
  using explore_pick_unmeasured [of s cs None c] by (auto simp: exploration_def split: if_splits)

section \<open>The decision\<close>

lemma Get_distinct: "distinct (map ms_id catalog) \<Longrightarrow> m \<in> set catalog \<Longrightarrow> Get catalog (ms_id m) = Some m"
  by (induction catalog) (auto simp: Get_def)

lemma list_all2_mem2: "list_all2 P xs ys \<Longrightarrow> y \<in> set ys \<Longrightarrow> \<exists>x \<in> set xs. P x y"
  by (induction rule: list_all2_induct) auto

lemma decision_chosen:
  assumes "Decide pdq cfg catalog active cache now we ledger s0 = (Inr d, ledger')" and "sort_contract pdq"
  obtains cs chosen where "candidates_for cfg catalog cache now (with_defaults s0) = Some cs"
    and "chosen \<in> set cs" and "cd_rejected chosen = []" and "d = decided active (with_defaults s0) cs chosen"
    and "ledger' = ledger @ [record_for (with_defaults s0) d]"
    and "chosen = (case exploration (with_defaults s0) (SortFunc pdq (candidate_cmp cfg (with_defaults s0)) (filter (\<lambda>c. cd_rejected c = []) cs)) of
          Some pick \<Rightarrow> pick | None \<Rightarrow> hd (SortFunc pdq (candidate_cmp cfg (with_defaults s0)) (filter (\<lambda>c. cd_rejected c = []) cs)))"
proof -
  let ?s = "with_defaults s0"
  from assms(1) obtain cs where cs: "candidates_for cfg catalog cache now ?s = Some cs"
    by (auto simp: Decide_def Let_def split: option.splits)
  let ?valid = "filter (\<lambda>c. cd_rejected c = []) cs"
  let ?ranked = "SortFunc pdq (candidate_cmp cfg ?s) ?valid"
  let ?chosen = "case exploration ?s ?ranked of Some pick \<Rightarrow> pick | None \<Rightarrow> hd ?ranked"
  have ne: "?valid \<noteq> []" and d: "d = decided active ?s cs ?chosen" "ledger' = ledger @ [record_for ?s d]"
    using assms(1) cs by (auto simp: Decide_def Let_def split: option.splits if_splits)
  have mem: "set ?ranked = set ?valid" using mset_SortFunc [OF assms(2)] by (metis set_mset_mset)
  then have "?ranked \<noteq> []" using ne by (metis set_empty)
  then have "?chosen \<in> set ?valid" using pick_mem [of ?ranked ?s] unfolding mem by blast
  then have "?chosen \<in> set cs" "cd_rejected ?chosen = []" unfolding set_filter by blast+
  then show thesis by (rule that [OF cs _ _ d refl])
qed

text \<open>
  Claim C11. A decision is always for a model of the catalog that meets every requirement of the
  call (pins, configured providers, exclusions, images, context size, tier, review by another
  family), at an effort computed for that model. As long as floors apply and some eligible model
  meets the floor (a frontier model for judgement phases and reviews, otherwise not a tiny one),
  the chosen one meets it. Exactly one routing record is written, and it names the decision.
\<close>

theorem router_choice_eligible:
  assumes "Decide pdq cfg catalog catalog cache now we ledger s0 = (Inr d, ledger')"
    and "sort_contract pdq" and "distinct (map ms_id catalog)" and "s = with_defaults s0"
  shows "\<exists>m \<in> set catalog. dc_model d = Some m \<and> may_serve cfg catalog s m \<and> effortFor m s = Some (dc_effort d)
    \<and> (floors_on s (pinned_model cfg s) False \<and> (\<exists>m' \<in> set catalog. may_serve cfg catalog s m' \<and> meets_floor cfg s m')
        \<longrightarrow> meets_floor cfg s m)
    \<and> dc_wasSwitch d = (rs_current s \<noteq> [] \<and> rs_current s \<noteq> ms_id m)
    \<and> ledger' = ledger @ [\<lparr>rr_session = rs_session s, rr_turn = rs_turn s, rr_point = rs_point s, rr_chosen = ms_id m,
                            rr_effort = dc_effort d, rr_wasSwitch = dc_wasSwitch d\<rparr>]"
proof -
  obtain cs chosen where cs: "candidates_for cfg catalog cache now s = Some cs" "chosen \<in> set cs" "cd_rejected chosen = []"
    and d: "d = decided catalog s cs chosen" "ledger' = ledger @ [record_for s d]"
    unfolding assms(4) by (rule decision_chosen [OF assms(1,2)])
  obtain floors where sc: "list_all2 (scored cfg catalog s floors) catalog cs"
    and on: "floors \<Longrightarrow> floors_on s (pinned_model cfg s) False"
    and off: "\<not> floors \<Longrightarrow> floors_on s (pinned_model cfg s) False \<Longrightarrow> \<forall>m \<in> set catalog. may_serve cfg catalog s m \<longrightarrow> \<not> meets_floor cfg s m"
    using candidates_Some [OF cs(1)] by metis
  obtain m where m: "m \<in> set catalog" "scored cfg catalog s floors m chosen" using list_all2_mem2 [OF sc cs(2)] by blast
  then have spec: "Get catalog (cd_model chosen) = Some m" using Get_distinct [OF assms(3)] by (simp add: scored_def)
  have "may_serve cfg catalog s m" "floors \<longrightarrow> meets_floor cfg s m" "effortFor m s = Some (cd_effort chosen)"
    using m(2) cs(3) by (auto simp: scored_def)
  moreover have "dc_model d = Some m" "dc_effort d = cd_effort chosen"
    "dc_wasSwitch d = (rs_current s \<noteq> [] \<and> rs_current s \<noteq> ms_id m)"
    using spec by (simp_all add: d(1) decided_def Let_def)
  ultimately show ?thesis
    using m(1) off d(2) by (intro bexI [of _ m]) (auto simp: record_for_def)
qed

text \<open>
  Claim C35. Routing gives up only for a reason: when no effort computation is out of range, a
  decision is made exactly when some model of the catalog meets the call's requirements and the
  routing record can be written; otherwise the ledger is unchanged and the error says which of the
  two failed.
\<close>

theorem router_decides_when_possible:
  assumes "sort_contract pdq" and "s = with_defaults s0" and "\<forall>m \<in> set catalog. may_serve cfg catalog s m \<longrightarrow> effortFor m s \<noteq> None"
    and "Decide pdq cfg catalog active cache now we ledger s0 = (result, ledger')"
  shows "(if \<exists>m \<in> set catalog. may_serve cfg catalog s m
          then (\<exists>d. result = Inr d \<and> ledger' = ledger @ [record_for s d] \<and> we (record_for s d) = None)
               \<or> (\<exists>e r. result = Inl (RecordFailed e) \<and> we r = Some e \<and> ledger' = ledger)
          else (\<exists>cs. result = Inl (NoCompatible cs) \<and> map cd_model cs = map ms_id catalog \<and> (\<forall>c \<in> set cs. cd_rejected c \<noteq> []))
               \<and> ledger' = ledger)"
proof -
  obtain cs where cs: "candidates_for cfg catalog cache now s = Some cs"
    using candidates_None [of cfg catalog cache now s] assms(3) by fastforce
  obtain floors where sc: "list_all2 (scored cfg catalog s floors) catalog cs"
    and on: "floors \<Longrightarrow> floors_on s (pinned_model cfg s) False"
    and off: "\<not> floors \<Longrightarrow> floors_on s (pinned_model cfg s) False \<Longrightarrow> \<forall>m \<in> set catalog. may_serve cfg catalog s m \<longrightarrow> \<not> meets_floor cfg s m"
    using candidates_Some [OF cs] by metis
  let ?valid = "filter (\<lambda>c. cd_rejected c = []) cs"
  have fin: "?valid \<noteq> [] \<longleftrightarrow> (\<exists>m \<in> set catalog. may_serve cfg catalog s m)"
    using candidates_valid [OF cs] by (simp add: anyValid_iff)
  show ?thesis
  proof (cases "?valid = []")
    case True
    have "map cd_model cs = map ms_id catalog"
      using sc by (induction rule: list_all2_induct) (auto simp: scored_def)
    with True fin cs assms(4) show ?thesis
      by (auto simp: Decide_def Let_def assms(2) [symmetric] filter_empty_conv)
  next
    case False
    with fin cs assms(4) show ?thesis
      by (auto simp: Decide_def Let_def assms(2) [symmetric] split: option.splits)
  qed
qed


section \<open>The built-in catalog\<close>

definition Catalog :: "model_spec list" where
  "Catalog = (case Expand Models Routes of Inr specs \<Rightarrow> specs | Inl _ \<Rightarrow> [])"

lemma wanted_not_top: "ms_workEffort m \<noteq> EffortXHigh \<Longrightarrow> wanted_effort m s \<noteq> EffortXHigh"
  by (auto simp: wanted_effort_def Let_def effort_defs)

lemma effort_total: "ms_workEffort m \<noteq> EffortXHigh \<Longrightarrow> effortFor m s \<noteq> None"
  using wanted_not_top [of m s] raised_None [of "wanted_effort m s"] by (auto simp: effortFor_def Let_def)

definition spec_ok :: "model_spec \<Rightarrow> bool" where
  "spec_ok m \<longleftrightarrow> rates_ok (ms_pricing m) \<and> ms_workEffort m \<noteq> EffortXHigh
     \<and> (ms_workEffort m = [] \<or> ms_workEffort m \<in> set (ms_effort m))
     \<and> set (ms_effort m) \<subseteq> set effortLadder \<and> ms_effort m \<noteq> []
     \<and> (HasPrefix (ms_id m) ''ramp/'' \<longrightarrow> EffortNone \<notin> set (ms_effort m))
     \<and> 0 < ms_maxOutput m \<and> ms_maxOutput m < ms_context m"

lemma catalog_specs_ok: "list_all spec_ok Catalog" and catalog_ids: "distinct (map ms_id Catalog)"
  and catalog_expands: "Expand Models Routes = Inr Catalog"
proof -
  show "list_all spec_ok Catalog" by code_simp
  show "distinct (map ms_id Catalog)" by code_simp
  have "(case Expand Models Routes of Inr _ \<Rightarrow> True | Inl _ \<Rightarrow> False)" by code_simp
  then show "Expand Models Routes = Inr Catalog" by (simp add: Catalog_def split: sum.splits)
qed


section \<open>A concrete decision\<close>

lemma strict_weak_subset: "strict_weak cmp B \<Longrightarrow> A \<subseteq> B \<Longrightarrow> strict_weak cmp A"
proof -
  assume sw: "strict_weak cmp B" and sub: "A \<subseteq> B"
  have i: "\<not> cmp a a < 0" if "a \<in> A" for a
    using sw sub that unfolding strict_weak_def by blast
  have t: "cmp a c < 0" if "cmp a b < 0" "cmp b c < 0" "a \<in> A" "b \<in> A" "c \<in> A" for a b c
    using sw subsetD [OF sub] that unfolding strict_weak_def by blast
  have n: "\<not> cmp a c < 0" "\<not> cmp c a < 0"
    if "\<not> cmp a b < 0" "\<not> cmp b a < 0" "\<not> cmp b c < 0" "\<not> cmp c b < 0" "a \<in> A" "b \<in> A" "c \<in> A" for a b c
    using sw subsetD [OF sub] that unfolding strict_weak_def by blast+
  show ?thesis
    unfolding strict_weak_def
  proof (intro conjI)
    show "\<forall>a \<in> A. \<not> cmp a a < 0" using i by blast
    show "\<forall>a \<in> A. \<forall>b \<in> A. \<forall>c \<in> A. cmp a b < 0 \<longrightarrow> cmp b c < 0 \<longrightarrow> cmp a c < 0" using t by blast
    show "\<forall>a \<in> A. \<forall>b \<in> A. \<forall>c \<in> A. \<not> cmp a b < 0 \<and> \<not> cmp b a < 0 \<longrightarrow> \<not> cmp b c < 0 \<and> \<not> cmp c b < 0
        \<longrightarrow> \<not> cmp a c < 0 \<and> \<not> cmp c a < 0" using n by blast
  qed
qed

lemma insertion_sort_contract: "sort_contract insertion_sort"
proof -
  have step: "sorted_wrt (\<lambda>a b. \<not> cmp a b < 0) (insert_left cmp x ys)"
    if sw: "strict_weak cmp (insert x (set ys))" and so: "sorted_wrt (\<lambda>a b. \<not> cmp a b < 0) ys" for cmp :: "'a \<Rightarrow> 'a \<Rightarrow> int" and x ys
    using that
  proof (induction ys)
    case (Cons y ys)
    have sub: "strict_weak cmp (insert x (set ys))" by (rule strict_weak_subset [OF Cons.prems(1)]) auto
    have set: "set (insert_left cmp x ys) = insert x (set ys)"
      using mset_insert_left [of cmp x ys] by (metis set_mset_add_mset_insert set_mset_mset)
    have irr: "\<not> cmp y y < 0" "cmp y x < 0 \<Longrightarrow> cmp x y < 0 \<Longrightarrow> False"
      using Cons.prems(1) unfolding strict_weak_def by auto
    have "\<not> cmp x z < 0" if "\<not> cmp x y < 0" "z \<in> set ys" for z
    proof
      assume xz: "cmp x z < 0"
      have yz: "\<not> cmp y z < 0" using Cons.prems(2) that(2) by simp
      have mem: "x \<in> insert x (set (y # ys))" "y \<in> insert x (set (y # ys))" "z \<in> insert x (set (y # ys))" using that(2) by auto
      have tr: "cmp a b < 0 \<Longrightarrow> cmp b c < 0 \<Longrightarrow> cmp a c < 0" and inc: "\<not> cmp a b < 0 \<Longrightarrow> \<not> cmp b a < 0 \<Longrightarrow> \<not> cmp b c < 0 \<Longrightarrow> \<not> cmp c b < 0 \<Longrightarrow> \<not> cmp a c < 0"
        if "a \<in> insert x (set (y # ys))" "b \<in> insert x (set (y # ys))" "c \<in> insert x (set (y # ys))" for a b c
        using Cons.prems(1) that unfolding strict_weak_def by blast+
      show False
        using tr [OF mem(2,1,3)] tr [OF mem(1,3,2)] inc [OF mem(1,2,3)] xz yz that(1) by blast
    qed
    then show ?case using Cons.IH [OF sub] Cons.prems(2) irr(2) by (auto simp: set)
  qed simp
  have "sorted_wrt (\<lambda>a b. \<not> cmp a b < 0) (fold (insert_left cmp) xs acc)"
    if "strict_weak cmp (set xs \<union> set acc)" "sorted_wrt (\<lambda>a b. \<not> cmp a b < 0) acc" for cmp :: "'a \<Rightarrow> 'a \<Rightarrow> int" and xs acc
    using that
  proof (induction xs arbitrary: acc)
    case (Cons x xs)
    have set: "set (insert_left cmp x acc) = insert x (set acc)"
      using mset_insert_left [of cmp x acc] by (metis set_mset_add_mset_insert set_mset_mset)
    have "strict_weak cmp (insert x (set acc))" by (rule strict_weak_subset [OF Cons.prems(1)]) auto
    from step [OF this Cons.prems(2)] Cons.IH [of "insert_left cmp x acc"] Cons.prems(1) show ?case by (simp add: set)
  qed simp
  from this [where acc = "[]"] show ?thesis
    unfolding sort_contract_def by (simp add: mset_insertion_sort) (simp add: insertion_sort_def sorted_wrt_rev)
qed

definition demo_catalog :: "model_spec list" where
  "demo_catalog = filter (\<lambda>m. ms_model m \<in> set [''claude-opus-5-5'', ''gpt-6.1-sol'', ''gpt-6-luna'']) Catalog"

definition demo_state :: routing_state where
  "demo_state =
     \<lparr>rs_session = ''s'', rs_turn = 1, rs_point = ''turn'', rs_phase = ''plan'', rs_current = [], rs_input = 0, rs_output = 0,
      rs_hasImage = False, rs_stall = \<lparr>st_failedCommands = 0, st_repeatedEdits = 0, st_testFailStreak = 0, st_reviewRejected = False\<rparr>,
      rs_excludeFamilies = [], rs_excludeModels = [], rs_available = None, rs_tierPin = [], rs_background = False,
      rs_modelPin = [], rs_effortPin = [], rs_implementer = [], rs_performance = []\<rparr>"

definition demo_config :: router_config where
  "demo_config = \<lparr>rc_frontierPhases = [''plan''], rc_disableSwitch = False, rc_defaultModel = [], rc_interactive = 0, rc_background = 0\<rparr>"

definition demo_cache :: "string \<Rightarrow> string \<Rightarrow> cache_entry" where
  "demo_cache _ _ = \<lparr>ce_warmPrefix = 0, ce_lastHit = None, ce_ttl = 0\<rparr>"

abbreviation demo_decide :: "(decide_error + decision) \<times> routing_record list" where
  "demo_decide \<equiv> Decide insertion_sort demo_config demo_catalog demo_catalog demo_cache 0 (\<lambda>_. None) [] demo_state"

lemma demo_router_ok:
  "sort_contract (insertion_sort :: (candidate \<Rightarrow> candidate \<Rightarrow> int) \<Rightarrow> candidate list \<Rightarrow> candidate list)"
  "distinct (map ms_id demo_catalog)" "length demo_catalog = 3"
  "\<exists>m \<in> set demo_catalog. may_serve demo_config demo_catalog (with_defaults demo_state) m"
  "m \<in> set demo_catalog \<Longrightarrow> effortFor m s \<noteq> None"
proof -
  show "distinct (map ms_id demo_catalog)" "length demo_catalog = 3" by code_simp+
  have "\<exists>m \<in> set demo_catalog. hard_reject demo_config (with_defaults demo_state)
      (reviewHasAlternateFamily demo_config demo_catalog (with_defaults demo_state)) m = []" by code_simp
  then show "\<exists>m \<in> set demo_catalog. may_serve demo_config demo_catalog (with_defaults demo_state) m"
    by (simp only: hard_reject_iff)
  show "effortFor m s \<noteq> None" if "m \<in> set demo_catalog"
    using that catalog_specs_ok effort_total by (auto simp: demo_catalog_def list_all_iff spec_ok_def)
qed (rule insertion_sort_contract)

theorem router_decides_when_possible_witness: "\<exists>d. fst demo_decide = Inr d"
  using router_decides_when_possible [OF demo_router_ok(1) refl, of demo_catalog demo_config demo_state demo_catalog demo_cache 0 "\<lambda>_. None" "[]"
      "fst demo_decide" "snd demo_decide"] demo_router_ok(4,5)
  by auto

lemma demo_decision: obtains d where "demo_decide = (Inr d, [record_for (with_defaults demo_state) d])"
proof -
  obtain cs where cs: "candidates_for demo_config demo_catalog demo_cache 0 (with_defaults demo_state) = Some cs"
    using candidates_None [of demo_config demo_catalog demo_cache 0 "with_defaults demo_state"] demo_router_ok(5)
    by (meson not_None_eq)
  moreover have "anyValid cs" using candidates_valid [OF cs] demo_router_ok(4) by blast
  ultimately have "\<exists>d. demo_decide = (Inr d, [record_for (with_defaults demo_state) d])"
    by (simp add: Decide_def Let_def anyValid_iff)
  then show thesis using that by blast
qed

theorem router_choice_eligible_witness:
  "\<exists>d ledger. demo_decide = (Inr d, ledger)
     \<and> (\<exists>m \<in> set demo_catalog. dc_model d = Some m \<and> may_serve demo_config demo_catalog (with_defaults demo_state) m)"
proof -
  obtain d where d: "demo_decide = (Inr d, [record_for (with_defaults demo_state) d])" by (rule demo_decision)
  with router_choice_eligible [OF d demo_router_ok(1,2) refl] show ?thesis by blast
qed

lemma candidates_length: "candidates_for cfg catalog cache now s = Some cs \<Longrightarrow> length cs = length catalog"
  by (elim candidates_Some) (simp add: list_all2_lengthD)


section \<open>Ties\<close>

text \<open>
  The comparison does not treat the current model symmetrically: when it comes first in the catalog
  and an equally priced model has a smaller name, the sort puts the other one first and the
  decision switches away from the current model.
\<close>

lemma tie_leaves_current_model:
  assumes "rs_current s = ''b''" and "cd_model a = ''a''" and "cd_model b = ''b''" and "cd_score a = cd_score b"
  shows "hd (SortFunc pdq (candidate_cmp cfg s) [b, a]) = a"
  using assms by (simp add: SortFunc_def insertion_sort_def candidate_cmp_def less_char_def)

end
