(* ===== verification/Progress.thy ===== *)
theory Progress
  imports Go_Sha256 Go_Strings
begin

text \<open>
  The progress tracker of \<^verbatim>\<open>internal/core/progress.go\<close>, with which the turn loop notices a
  stalled run and takes misbehaving models out of it, the guard on open todo items of
  \<^verbatim>\<open>todo_guard.go\<close>, and the tool constraints of a turn of \<^verbatim>\<open>turnmode.go\<close>. Tool arguments and
  results are JSON-like values; their serialisation \<^verbatim>\<open>store.JSON\<close> is the parameter \<open>json\<close>. The
  Go maps are functions with the zero value as default.
\<close>

section \<open>Values\<close>

datatype gval = GNull | GBool bool | GNum int | GStr string | GList "gval list" | GMap "(string \<times> gval) list"

definition str_field :: "(string \<times> gval) list \<Rightarrow> string \<Rightarrow> string" where
  "str_field fields key = (case map_of fields key of Some (GStr v) \<Rightarrow> v | _ \<Rightarrow> [])"

definition stringArg :: "(string \<times> gval) list \<Rightarrow> string \<Rightarrow> string" where
  "stringArg args key = str_field args key"

definition fingerprint :: "(gval \<Rightarrow> string) \<Rightarrow> string \<Rightarrow> gval \<Rightarrow> string" where
  "fingerprint json pre v = hex_encode (take 8 (sha256 (pre @ [CHR 0x00] @ json v)))"

definition entry_path :: "gval \<Rightarrow> string list" where
  "entry_path e = (case e of GMap fields \<Rightarrow> (if str_field fields ''path'' \<noteq> [] then [str_field fields ''path''] else []) | _ \<Rightarrow> [])"

definition editResultPaths :: "gval \<Rightarrow> string list" where
  "editResultPaths v =
     (case v of
        GMap fields \<Rightarrow>
          concat (map (\<lambda>key. case map_of fields key of Some (GList es) \<Rightarrow> concat (map entry_path es) | _ \<Rightarrow> [])
                   [''replaced'', ''files''])
      | _ \<Rightarrow> [])"

definition outputTail :: "gval \<Rightarrow> string" where
  "outputTail v =
     (case v of GMap fields \<Rightarrow> (let s = str_field fields ''summary'' in if length s > 1500 then drop (length s - 1500) s else s)
      | _ \<Rightarrow> [])"

section \<open>The tracker\<close>

record command_record =
  cr_command :: string
  cr_output :: string

record tracker =
  pt_phase :: string
  pt_phaseTurns :: nat
  pt_noProgressTurns :: nat
  pt_repeatedReads :: nat
  pt_repeatedSearch :: nat
  pt_repeatedTodos :: nat
  pt_completionRejections :: nat
  pt_delegated :: bool
  pt_edited :: bool
  pt_verified :: bool
  pt_turnsSinceEdit :: nat
  pt_reviewed :: bool
  pt_reviewRemediation :: bool
  pt_seenResults :: "string \<Rightarrow> string"
  pt_lastTodo :: string
  pt_turnProgress :: bool
  pt_turnEdited :: bool
  pt_turnVerified :: bool
  pt_editedPaths :: "string list"
  pt_checks :: "command_record list"
  pt_workspaceHash :: string
  pt_reviewRejections :: nat
  pt_excluded :: "string list"
  pt_strikes :: "string \<Rightarrow> nat"
  pt_exclusionReasons :: "string \<Rightarrow> string"
  pt_rejectedDiff :: string
  pt_rejectedReview :: string
  pt_adjudicatedDiffs :: "string list"
  pt_unchangedRefusals :: "string \<Rightarrow> nat"
  pt_answerRejections :: nat
  pt_finalRejections :: nat
  pt_todoRejections :: nat

definition newProgressTracker :: tracker where
  "newProgressTracker =
     \<lparr>pt_phase = [], pt_phaseTurns = 0, pt_noProgressTurns = 0, pt_repeatedReads = 0, pt_repeatedSearch = 0,
      pt_repeatedTodos = 0, pt_completionRejections = 0, pt_delegated = False, pt_edited = False, pt_verified = False,
      pt_turnsSinceEdit = 0, pt_reviewed = False, pt_reviewRemediation = False, pt_seenResults = (\<lambda>_. []), pt_lastTodo = [],
      pt_turnProgress = False, pt_turnEdited = False, pt_turnVerified = False, pt_editedPaths = [], pt_checks = [], pt_workspaceHash = [],
      pt_reviewRejections = 0, pt_excluded = [], pt_strikes = (\<lambda>_. 0), pt_exclusionReasons = (\<lambda>_. []),
      pt_rejectedDiff = [], pt_rejectedReview = [], pt_adjudicatedDiffs = [], pt_unchangedRefusals = (\<lambda>_. 0),
      pt_answerRejections = 0, pt_finalRejections = 0, pt_todoRejections = 0\<rparr>"

definition beginTurn :: "string \<Rightarrow> tracker \<Rightarrow> tracker" where
  "beginTurn phase p =
     (let p = (if phase \<noteq> pt_phase p then p\<lparr>pt_phase := phase, pt_phaseTurns := 0, pt_noProgressTurns := 0\<rparr> else p)
      in p\<lparr>pt_phaseTurns := pt_phaseTurns p + 1, pt_turnProgress := False, pt_turnEdited := False, pt_turnVerified := False\<rparr>)"

text \<open>The answer to a repeated call; \<open>hint\<close> is the advice of the message.\<close>

definition suppressed :: "string \<Rightarrow> gval" where
  "suppressed hint = GMap [(''suppressed'', GBool True), (''unchanged'', GBool True), (''hint'', GStr hint)]"

definition repeat_hint :: string where
  "repeat_hint = ''This exact result is unchanged from an earlier call. Use existing evidence, change the query/window, delegate exploration, or advance the todo.''"

definition todo_hint :: string where
  "todo_hint = ''This todo is unchanged. Do not submit it again; gather new evidence or advance an item/phase.''"

definition note_edit :: "(string \<times> gval) list \<Rightarrow> gval \<Rightarrow> tracker \<Rightarrow> tracker" where
  "note_edit args v p =
     (let paths = editResultPaths v @ (if stringArg args ''path'' \<noteq> [] then [stringArg args ''path''] else [])
      in p\<lparr>pt_turnProgress := True, pt_turnEdited := True, pt_edited := True, pt_verified := False, pt_reviewed := False,
           pt_checks := [], pt_editedPaths := paths @ pt_editedPaths p\<rparr>)"

definition note_exec :: "(string \<times> gval) list \<Rightarrow> gval \<Rightarrow> tracker \<Rightarrow> tracker" where
  "note_exec args v p =
     (if pt_edited p
      then let checks = pt_checks p @ [\<lparr>cr_command = stringArg args ''command'', cr_output = outputTail v\<rparr>]
        in p\<lparr>pt_turnProgress := True, pt_turnVerified := True, pt_verified := True,
             pt_checks := (if length checks > 8 then tl checks else checks)\<rparr>
      else p)"

definition note_tool :: "(gval \<Rightarrow> string) \<Rightarrow> string \<Rightarrow> (string \<times> gval) list \<Rightarrow> gval \<Rightarrow> tracker \<Rightarrow> tracker \<times> gval" where
  "note_tool json name args v p =
     (if name = ''todo''
      then let h = fingerprint json ''todo'' (GMap args) in
        if pt_lastTodo p = h then (p\<lparr>pt_repeatedTodos := pt_repeatedTodos p + 1\<rparr>, suppressed todo_hint)
        else (p\<lparr>pt_lastTodo := h, pt_turnProgress := True\<rparr>, v)
      else if name = ''spawn'' then (p\<lparr>pt_turnProgress := True, pt_delegated := True\<rparr>, v)
      else if name \<in> set [''edit'', ''write'', ''replace'', ''ast_edit''] then (note_edit args v p, v)
      else if name = ''exec'' then (note_exec args v p, v)
      else (p, v))"

definition observe ::
  "(gval \<Rightarrow> string) \<Rightarrow> string \<Rightarrow> (string \<times> gval) list \<Rightarrow> gval \<Rightarrow> bool \<Rightarrow> tracker \<Rightarrow> tracker \<times> gval" where
  "observe json name args v failed p =
     (if failed then (p, v)
      else if name = ''read'' \<or> name = ''search''
      then let key = fingerprint json name (GMap args); h = fingerprint json ''result'' v in
        if pt_seenResults p key = h
        then (if name = ''read'' then p\<lparr>pt_repeatedReads := pt_repeatedReads p + 1\<rparr>
              else p\<lparr>pt_repeatedSearch := pt_repeatedSearch p + 1\<rparr>, suppressed repeat_hint)
        else note_tool json name args v (p\<lparr>pt_seenResults := (pt_seenResults p)(key := h)\<rparr>)
      else note_tool json name args v p)"

text \<open>
  \<^verbatim>\<open>syncWorkspaceChanges\<close> of \<^verbatim>\<open>verification.go\<close>: \<open>changes\<close> are the changed paths with their content
  hashes, or \<open>None\<close> when the workspace cannot tell.
\<close>

definition syncWorkspaceChanges :: "(gval \<Rightarrow> string) \<Rightarrow> (string \<times> string) list option \<Rightarrow> tracker \<Rightarrow> tracker" where
  "syncWorkspaceChanges json changes p =
     (case changes of
        None \<Rightarrow> p
      | Some cs \<Rightarrow>
          let hash = fingerprint json ''workspace'' (GMap (map (\<lambda>(path, h). (path, GStr h)) cs)) in
          if hash = pt_workspaceHash p then p
          else let previous = pt_workspaceHash p; p = p\<lparr>pt_workspaceHash := hash\<rparr> in
            if cs = [] \<and> previous = [] then p
            else p\<lparr>pt_edited := True, pt_turnEdited := True, pt_turnProgress := True, pt_verified := False,
                   pt_reviewed := False, pt_checks := [], pt_editedPaths := map fst cs @ pt_editedPaths p\<rparr>)"

definition endTurn :: "tracker \<Rightarrow> tracker" where
  "endTurn p =
     (let p = p\<lparr>pt_turnsSinceEdit := (if pt_turnEdited p then 0 else pt_turnsSinceEdit p + 1)\<rparr>
      in p\<lparr>pt_noProgressTurns := (if pt_turnProgress p then 0 else pt_noProgressTurns p + 1)\<rparr>)"

definition strike :: "string \<Rightarrow> string \<Rightarrow> tracker \<Rightarrow> tracker \<times> bool" where
  "strike model kind p =
     (let key = model @ ''|'' @ kind; n = pt_strikes p key + 1 in
      if n \<ge> 3 then (p\<lparr>pt_strikes := (pt_strikes p)(key := 0)\<rparr>, True)
      else (p\<lparr>pt_strikes := (pt_strikes p)(key := n)\<rparr>, False))"

definition exclude :: "string \<Rightarrow> tracker \<Rightarrow> tracker" where
  "exclude model p = (if model \<in> set (pt_excluded p) then p else p\<lparr>pt_excluded := pt_excluded p @ [model]\<rparr>)"

definition dropModel :: "string \<Rightarrow> string \<Rightarrow> tracker \<Rightarrow> tracker" where
  "dropModel model reason p =
     (let p = exclude model p in p\<lparr>pt_exclusionReasons := (pt_exclusionReasons p)(model := reason)\<rparr>)"

definition markReviewRejected :: "bool \<Rightarrow> tracker \<Rightarrow> tracker" where
  "markReviewRejected reviewed p =
     p\<lparr>pt_reviewRemediation := True,
       pt_reviewRejections := (if reviewed then pt_reviewRejections p + 1 else pt_reviewRejections p)\<rparr>"

definition maxReviewRejections :: nat where
  "maxReviewRejections = 4"

definition reviewRemediationReason :: "string \<Rightarrow> tracker \<Rightarrow> string" where
  "reviewRemediationReason parentJob p =
     (if parentJob \<noteq> [] \<or> \<not> pt_reviewRemediation p then []
      else if pt_reviewRejections p \<ge> maxReviewRejections
      then ''independent review rejected the change '' @ itoa_nat (pt_reviewRejections p) @ '' times''
      else [])"

definition stall :: "tracker \<Rightarrow> (string \<times> nat) list" where
  "stall p =
     [(''no_progress_turns'', pt_noProgressTurns p), (''phase_turns'', pt_phaseTurns p), (''repeated_reads'', pt_repeatedReads p),
      (''repeated_searches'', pt_repeatedSearch p), (''repeated_todos'', pt_repeatedTodos p)]"

record outcome =
  oc_noProgressTurns :: nat
  oc_duplicateReads :: nat
  oc_duplicateSearches :: nat
  oc_completionRejects :: nat
  oc_explorationWorker :: bool
  oc_verified :: bool
  oc_reviewDisputed :: bool
  oc_independentlyReviewed :: bool

definition export_outcome :: "tracker \<Rightarrow> outcome" where
  "export_outcome p =
     \<lparr>oc_noProgressTurns = pt_noProgressTurns p, oc_duplicateReads = pt_repeatedReads p, oc_duplicateSearches = pt_repeatedSearch p,
      oc_completionRejects = pt_completionRejections p, oc_explorationWorker = pt_delegated p, oc_verified = pt_verified p,
      oc_reviewDisputed = (pt_adjudicatedDiffs p \<noteq> []), oc_independentlyReviewed = pt_reviewed p\<rparr>"

section \<open>Open todo items\<close>

definition maxTodoRejections :: nat where
  "maxTodoRejections = 2"

text \<open>The open items of the session's plan, or the error of the store; whether the answer is refused.\<close>

definition openTodosGuard :: "string \<Rightarrow> bool \<Rightarrow> string list option \<Rightarrow> tracker \<Rightarrow> tracker \<times> bool" where
  "openTodosGuard parentJob canUpdate openItems p =
     (if parentJob \<noteq> [] \<or> \<not> canUpdate then (p, False)
      else case openItems of
        None \<Rightarrow> (p, False)
      | Some items \<Rightarrow>
          if items = [] then (p, False)
          else if pt_todoRejections p \<ge> maxTodoRejections then (p, False)
          else (p\<lparr>pt_todoRejections := pt_todoRejections p + 1, pt_completionRejections := pt_completionRejections p + 1\<rparr>, True))"

definition OpenTodosMessage :: "string list \<Rightarrow> string" where
  "OpenTodosMessage items =
     ''Your todo plan still has open items:'' @ [CHR 0x0A] @ ''- '' @ join_str ([CHR 0x0A] @ ''- '') items
     @ [CHR 0x0A] @ ''Do them, or update the plan with todo (mark an item completed, or dropped if you decided it is not needed) before finishing.''"

section \<open>Tool constraints of a turn\<close>

record turn_mode =
  tm_directives :: "string list"
  tm_allowed :: "string list option"
  tm_noCalls :: bool

text \<open>A variadic call without tools passes the nil slice, which allows every tool; the flag forbids them.\<close>

definition restrict :: "string \<Rightarrow> string list \<Rightarrow> turn_mode \<Rightarrow> turn_mode" where
  "restrict directive tools tm =
     tm\<lparr>tm_directives := tm_directives tm @ [directive], tm_noCalls := (tools = []),
        tm_allowed := (if tools = [] then None else Some tools)\<rparr>"

definition turn_active :: "turn_mode \<Rightarrow> bool" where
  "turn_active tm \<longleftrightarrow> tm_directives tm \<noteq> []"

definition permits :: "turn_mode \<Rightarrow> string \<Rightarrow> bool" where
  "permits tm tool \<longleftrightarrow>
     (if tm_noCalls tm then False else (case tm_allowed tm of None \<Rightarrow> True | Some tools \<Rightarrow> tool \<in> set tools))"

definition unavailable :: "turn_mode \<Rightarrow> string \<Rightarrow> string" where
  "unavailable tm tool =
     (if tm_noCalls tm
      then ''tool '' @ tool @ '' is unavailable this turn: no tool calls are allowed. Return the final result as text now.''
      else ''tool '' @ tool @ '' is unavailable this turn; allowed tools: ''
        @ join_str '', '' (case tm_allowed tm of Some tools \<Rightarrow> tools | None \<Rightarrow> []) @ ''.'')"

definition turn_text :: "turn_mode \<Rightarrow> string" where
  "turn_text tm =
     ''HARNESS DIRECTIVE FOR THIS TURN'' @ [CHR 0x0A] @ join_str [CHR 0x0A] (tm_directives tm)
     @ (if tm_noCalls tm then [CHR 0x0A] @ ''Tool calls are disabled for this turn. Respond with text only.''
        else case tm_allowed tm of
          Some tools \<Rightarrow> [CHR 0x0A] @ ''Only these tools may be called this turn: '' @ join_str '', '' tools @ ''.''
        | None \<Rightarrow> [])"

definition turn_apply :: "turn_mode \<Rightarrow> (string \<times> string) list \<Rightarrow> (string \<times> string) list" where
  "turn_apply tm history = (if turn_active tm then history @ [(''user'', turn_text tm)] else history)"

section \<open>Three strikes\<close>

fun strikes_run :: "(string \<times> string) list \<Rightarrow> tracker \<Rightarrow> tracker \<times> bool list" where
  "strikes_run [] p = (p, [])"
| "strikes_run ((model, kind) # evs) p =
     (case strike model kind p of (p', hit) \<Rightarrow> (case strikes_run evs p' of (p'', hits) \<Rightarrow> (p'', hit # hits)))"

abbreviation strike_key :: "string \<times> string \<Rightarrow> string" where
  "strike_key ev \<equiv> fst ev @ ''|'' @ snd ev"

lemma strikes_run_count:
  assumes "\<And>key. pt_strikes p key = length (filter (\<lambda>e. strike_key e = key) past) mod 3"
  shows "snd (strikes_run evs p)
    = map (\<lambda>i. length (filter (\<lambda>e. strike_key e = strike_key (evs ! i)) (past @ take (Suc i) evs)) mod 3 = 0) [0..<length evs]"
  using assms
proof (induction evs arbitrary: p past)
  case (Cons ev evs)
  obtain model kind where ev: "ev = (model, kind)" by force
  let ?n = "length (filter (\<lambda>e. strike_key e = strike_key ev) past)"
  obtain p' hit where s: "strike model kind p = (p', hit)" by force
  have hit: "hit \<longleftrightarrow> Suc ?n mod 3 = 0"
    using s Cons.prems [of "strike_key ev"] by (auto simp: strike_def Let_def ev split: if_splits; presburger)
  have "pt_strikes p' key = length (filter (\<lambda>e. strike_key e = key) (past @ [ev])) mod 3" for key
    using s Cons.prems [of key] by (auto simp: strike_def Let_def ev split: if_splits; presburger)
  from Cons.IH [OF this] have tail: "snd (strikes_run evs p')
      = map (\<lambda>i. length (filter (\<lambda>e. strike_key e = strike_key (evs ! i)) (past @ [ev] @ take (Suc i) evs)) mod 3 = 0) [0..<length evs]"
    by simp
  have "snd (strikes_run (ev # evs) p) = hit # snd (strikes_run evs p')" using s by (simp add: ev split: prod.splits)
  then show ?case
    by (simp add: hit tail map_upt_Suc del: upt_Suc)
qed simp

text \<open>
  Over any sequence of misbehaviours, in any interleaving of models and kinds, a strike is
  reported as the third exactly when the number of strikes with its model and kind so far is a
  multiple of three.
\<close>

theorem every_third_strike:
  assumes "p = newProgressTracker" and "i < length evs"
  shows "snd (strikes_run evs p) ! i
    \<longleftrightarrow> length (filter (\<lambda>e. strike_key e = strike_key (evs ! i)) (take (Suc i) evs)) mod 3 = 0"
  using strikes_run_count [of p "[]" evs] assms by (simp add: newProgressTracker_def)

theorem every_third_strike_witness:
  "snd (strikes_run [(''a'', ''empty''), (''b'', ''empty''), (''a'', ''empty''), (''a'', ''empty'')] newProgressTracker) ! 3"
  using every_third_strike [OF refl, of 3 "[(''a'', ''empty''), (''b'', ''empty''), (''a'', ''empty''), (''a'', ''empty'')]"]
  by (simp add: numeral_3_eq_3)

end
