(* ===== verification/Completion_Gate.thy ===== *)
theory Completion_Gate
  imports Progress Go_Float
begin

text \<open>
  The gate a final answer passes in the turn loop of \<^verbatim>\<open>internal/core/engine.go\<close>: the check that it
  answers the latest request (\<^verbatim>\<open>answer_check.go\<close>), the host's final check, independent review with
  disputes and adjudication (\<^verbatim>\<open>review_dispute.go\<close>), the result schema and the open todo items. The
  classifier, the host's check, the reviewers and the schema validator are fields of the
  environment; events and the text of the messages stored for the model are the outcome of a
  refusal. The phase a session moves to (\<^verbatim>\<open>inferPhase\<close>) is here too.
\<close>

section \<open>Disputes\<close>

definition reviewDisputeMarker :: string where
  "reviewDisputeMarker = ''REVIEW_DISPUTE:''"

definition containsAny :: "string \<Rightarrow> string list \<Rightarrow> bool" where
  "containsAny s vals = list_ex (str_contains s) vals"

text \<open>
  \<^verbatim>\<open>strings.ToLower\<close> where the result is only searched for ASCII text: besides the ASCII letters only the
  Kelvin sign and the dotted capital I become ASCII, the other letters never match.
\<close>

definition lower_for_search :: "string \<Rightarrow> string" where
  "lower_for_search s =
     map ascii_lower (ReplaceAll (ReplaceAll s [CHR 0xE2, CHR 0x84, CHR 0xAA] ''k'') [CHR 0xC4, CHR 0xB0] ''i'')"

definition dispute_claim :: "string \<Rightarrow> bool" where
  "dispute_claim claim \<longleftrightarrow>
     containsAny claim [''finding'', ''reviewer'', ''review '']
     \<and> containsAny claim [''i dispute'', ''i disagree with'', ''false positive'', ''is wrong'', ''are wrong'', ''is incorrect'',
         ''are incorrect'', ''not a correctness bug'', ''not a bug'', ''does work'', ''does handle'', ''is handled'',
         ''already handles'', ''already handled'']
     \<and> containsAny claim [''because'', ''since '', ''actually'', ''instead'', ''but '', '':'']"

definition disputesReview :: "string \<Rightarrow> bool" where
  "disputesReview answer \<longleftrightarrow>
     str_contains answer reviewDisputeMarker
     \<or> list_ex (\<lambda>paragraph. list_ex dispute_claim (split_byte (CHR '';'') paragraph))
         (split_byte (CHR 0x0A) (lower_for_search answer))"

definition disputeRebuttal :: "string \<Rightarrow> string" where
  "disputeRebuttal answer =
     (case str_index answer reviewDisputeMarker of
        Some i \<Rightarrow> TrimSpace (drop (i + length reviewDisputeMarker) answer)
      | None \<Rightarrow> TrimSpace answer)"

definition reviewDiffHash :: "string option \<Rightarrow> string" where
  "reviewDiffHash diff = (case diff of None \<Rightarrow> [] | Some d \<Rightarrow> if d = [] then [] else hex_encode (sha256 d))"

section \<open>Phases\<close>

definition isEditTool :: "string \<Rightarrow> bool" where
  "isEditTool name \<longleftrightarrow> name \<in> set [''edit'', ''write'', ''replace'', ''ast_edit'']"

definition inferPhase :: "string \<Rightarrow> string \<Rightarrow> tracker \<Rightarrow> string \<Rightarrow> string" where
  "inferPhase toolName command p phase =
     (let next = (if isEditTool toolName \<and> phase \<in> set [''explore'', ''plan''] then ''implement'' else phase);
          next = (if isEditTool toolName \<and> next \<in> set [''review'', ''diagnose''] then ''implement'' else next);
          next = (if toolName = ''exec'' \<and> pt_edited p
                    \<and> containsAny (lower_for_search command) ['' test'', ''test '', ''lint'', ''typecheck'', ''build'', ''check'', ''vet'']
                  then ''review'' else next)
      in if next = ''review'' \<and> pt_reviewed p \<and> pt_verified p then ''wrap-up'' else next)"

section \<open>The gate\<close>

datatype review_error = ReviewInconclusive string | ReviewUnavailable string

type_synonym review_result = "bool \<times> string \<times> review_error option"

record completion_env =
  ce_parentJob :: string
  ce_depth :: int
  ce_model :: string
  ce_answer :: string
  ce_latestRequest :: string
  ce_spec :: string
  ce_sessionSpec :: string
  ce_jevReview :: bool
  ce_classify :: "(string \<Rightarrow> string \<Rightarrow> float64 option) option"
  ce_finalCheck :: "(string \<Rightarrow> string) option"
  ce_noCalls :: bool
  ce_changes :: "(string \<times> string) list option"
  ce_diff :: "string option"
  ce_review :: "command_record list \<Rightarrow> review_result"
  ce_adjudicate :: "string \<Rightarrow> string \<Rightarrow> review_result"
  ce_invalid :: "string option"
  ce_schemaText :: string
  ce_canTodo :: bool
  ce_openTodos :: "string list option"

datatype gate_result = Refused string string | AskPerson string | Accepted

definition maxAnswerRejections :: nat where
  "maxAnswerRejections = 2"

definition maxFinalRejections :: nat where
  "maxFinalRejections = 2"

definition offTopicBelow :: float64 where
  "offTopicBelow = 1 / 4"

definition truncate_str :: "string \<Rightarrow> nat \<Rightarrow> string" where
  "truncate_str s n = (if length s \<le> n then s else take n s @ [CHR 0xE2, CHR 0x80, CHR 0xA6])"

text \<open>
  The classifier gets the request and the result, cut to 6000 bytes, and may answer a probability
  or nothing. It also sees the todo plan, which does not change during the check and is part of
  \<open>ask\<close>.
\<close>

definition checkAnswer :: "completion_env \<Rightarrow> string \<Rightarrow> string \<times> bool" where
  "checkAnswer env latest =
     (let request = (if TrimSpace latest = [] then TrimSpace (ce_sessionSpec env) else TrimSpace latest) in
      case ce_classify env of
        None \<Rightarrow> (request, False)
      | Some ask \<Rightarrow>
          if \<not> ce_jevReview env \<or> request = [] \<or> TrimSpace (ce_answer env) = [] then (request, False)
          else (case ask (truncate_str request 6000) (truncate_str (ce_answer env) 6000) of
                  None \<Rightarrow> (request, False)
                | Some q \<Rightarrow> (request, q < offTopicBelow)))"

definition count_rejection :: "tracker \<Rightarrow> tracker" where
  "count_rejection p = p\<lparr>pt_completionRejections := pt_completionRejections p + 1\<rparr>"

definition gate_answer :: "completion_env \<Rightarrow> tracker \<Rightarrow> tracker \<times> gate_result option" where
  "gate_answer env p =
     (if pt_answerRejections p < maxAnswerRejections
      then (case checkAnswer env (if ce_parentJob env \<noteq> [] then ce_spec env else ce_latestRequest env) of
              (request, off) \<Rightarrow>
                if off
                then (count_rejection (p\<lparr>pt_answerRejections := pt_answerRejections p + 1\<rparr>),
                      Some (if ce_parentJob env \<noteq> []
                        then Refused ''final result does not address the assigned task''
                          (''Completion rejected: your final result does not address the assigned task (the spec):''
                           @ [CHR 0x0A, CHR 0x0A] @ request @ [CHR 0x0A, CHR 0x0A]
                           @ ''Continue the assigned work, or explain plainly why it cannot be done.'')
                        else Refused ''final result does not address the latest request''
                          (''Completion rejected: your final result does not address the person'' @ [CHR 0x27] @ ''s latest request:''
                           @ [CHR 0x0A, CHR 0x0A] @ request @ [CHR 0x0A, CHR 0x0A]
                           @ ''Earlier requests in this session are already answered. Continue the work for the latest request, or explain plainly why it cannot be done.'')))
                else (p, None))
      else (p, None))"

definition gate_final :: "completion_env \<Rightarrow> tracker \<Rightarrow> tracker \<times> gate_result option" where
  "gate_final env p =
     (case ce_finalCheck env of
        None \<Rightarrow> (p, None)
      | Some check \<Rightarrow>
          if ce_parentJob env = [] \<and> \<not> ce_noCalls env \<and> pt_finalRejections p < maxFinalRejections
          then (let note = TrimSpace (check (ce_answer env)) in
                if note \<noteq> []
                then (count_rejection (p\<lparr>pt_finalRejections := pt_finalRejections p + 1\<rparr>), Some (Refused ''host final check'' note))
                else (p, None))
          else (p, None))"

definition review_verdict :: "string \<Rightarrow> bool \<Rightarrow> string \<Rightarrow> tracker \<Rightarrow> tracker \<times> gate_result option" where
  "review_verdict diffHash passed reviewText p =
     (let p = p\<lparr>pt_reviewed := passed\<rparr> in
      if passed then (p, None)
      else ((markReviewRejected True (count_rejection p))\<lparr>pt_rejectedDiff := diffHash, pt_rejectedReview := reviewText\<rparr>,
            Some (Refused ''independent review failed'' (''Independent review rejected completion. Address these correctness findings, re-run verification, then complete. The final answer goes to the person, not the reviewer: it must describe the whole change made for their request, not only the fix for these findings:'' @ [CHR 0x0A] @ reviewText))))"

definition gate_unchanged :: "completion_env \<Rightarrow> string \<Rightarrow> tracker \<Rightarrow> tracker \<times> gate_result option" where
  "gate_unchanged env diffHash p =
     (let already = (diffHash \<in> set (pt_adjudicatedDiffs p)) in
      if \<not> already \<and> (disputesReview (ce_answer env) \<or> pt_unchangedRefusals p diffHash \<ge> 1)
      then (let p = p\<lparr>pt_adjudicatedDiffs := diffHash # pt_adjudicatedDiffs p\<rparr> in
            case ce_adjudicate env (pt_rejectedReview p) (disputeRebuttal (ce_answer env)) of
              (_, _, Some _) \<Rightarrow>
                (markReviewRejected False (count_rejection p),
                 Some (Refused ''adjudication inconclusive; original findings stand''
                   (''Adjudication could not provide a consistent independent verdict. The original findings still stand; fix them and re-run verification:'' @ [CHR 0x0A] @ pt_rejectedReview p)))
            | (passed, reviewText, None) \<Rightarrow> review_verdict diffHash passed reviewText p)
      else if already
      then (if ce_parentJob env = []
            then (p, Some (AskPerson ''Independent review and adjudication upheld findings on this change, and the agent disputes them without editing. Keep going, stop here, or reply with guidance.''))
            else (p, None))
      else (markReviewRejected True (count_rejection
              (p\<lparr>pt_unchangedRefusals := (pt_unchangedRefusals p)(diffHash := pt_unchangedRefusals p diffHash + 1)\<rparr>)),
            Some (Refused ''diff unchanged since a failed review''
              (''Completion rejected: the workspace diff has not changed since the independent review that rejected it. Fix the findings with edit and re-run verification, or dispute them with a line `'' @ reviewDisputeMarker @ ''` and the correctness rebuttal. This diff is refused once; the next unchanged completion is adjudicated.'' @ [CHR 0x0A] @ pt_rejectedReview p))))"

definition gate_review :: "completion_env \<Rightarrow> tracker \<Rightarrow> tracker \<times> gate_result option" where
  "gate_review env p =
     (if pt_edited p \<and> \<not> pt_reviewed p \<and> ce_depth env > 0
      then (let diffHash = reviewDiffHash (ce_diff env) in
            if diffHash \<noteq> [] \<and> diffHash = pt_rejectedDiff p then gate_unchanged env diffHash p
            else (case ce_review env (pt_checks p) of
                    (_, _, Some _) \<Rightarrow> (p\<lparr>pt_reviewed := True\<rparr>, None)
                  | (passed, reviewText, None) \<Rightarrow> review_verdict diffHash passed reviewText p))
      else (p, None))"

definition gate_schema :: "completion_env \<Rightarrow> tracker \<Rightarrow> tracker \<times> gate_result option" where
  "gate_schema env p =
     (case ce_invalid env of
        None \<Rightarrow> (p, None)
      | Some err \<Rightarrow>
          (case strike (ce_model env) ''result_schema'' (count_rejection p) of (q, third) \<Rightarrow>
           (if third then dropModel (ce_model env) (''a result that failed the required schema three times: '' @ err) q else q,
            Some (Refused ''result schema validation failed''
              (''Completion rejected: your final result did not validate against the required result schema ('' @ err @ ''). The schema is:''
               @ [CHR 0x0A] @ ce_schemaText env @ [CHR 0x0A] @ ''Return a corrected final JSON result that satisfies it exactly.'')))))"

definition gate_todos :: "completion_env \<Rightarrow> tracker \<Rightarrow> tracker \<times> gate_result option" where
  "gate_todos env p =
     (case openTodosGuard (ce_parentJob env) (ce_canTodo env) (ce_openTodos env) p of (q, refused) \<Rightarrow>
      (q, if refused
          then Some (Refused ''open todo items'' (OpenTodosMessage (case ce_openTodos env of Some items \<Rightarrow> items | None \<Rightarrow> [])))
          else None))"

text \<open>The stages in the order of the code; the first that refuses or asks ends the attempt.\<close>

definition and_then ::
  "tracker \<times> gate_result option \<Rightarrow> (tracker \<Rightarrow> tracker \<times> gate_result option) \<Rightarrow> tracker \<times> gate_result option" where
  "and_then r f = (case r of (p, Some out) \<Rightarrow> (p, Some out) | (p, None) \<Rightarrow> f p)"

definition completion :: "(gval \<Rightarrow> string) \<Rightarrow> completion_env \<Rightarrow> tracker \<Rightarrow> tracker \<times> gate_result" where
  "completion json env p =
     (case and_then (and_then (and_then (and_then (gate_answer env p)
              (gate_final env))
              (\<lambda>q. gate_review env (syncWorkspaceChanges json (ce_changes env) q)))
              (gate_schema env))
              (gate_todos env)
      of (q, Some out) \<Rightarrow> (q, out) | (q, None) \<Rightarrow> (q, Accepted))"

end
