(* ===== verification/Completion_Props.thy ===== *)
theory Completion_Props
  imports Completion_Gate
begin

text \<open>
  The states a run brings the tracker to, what an accepted answer has passed, and the bound on how
  often answers are refused while the change stays the same.
\<close>

section \<open>A run\<close>

text \<open>What the turn loop does to the tracker between two final answers, one step at a time.\<close>

inductive loop_step :: "tracker \<Rightarrow> tracker \<Rightarrow> bool" where
  begin_turn: "loop_step p (beginTurn phase p)"
| observe_call: "loop_step p (fst (observe json name args v failed p))"
| sync_workspace: "loop_step p (syncWorkspaceChanges json changes p)"
| end_turn: "loop_step p (endTurn p)"
| drop_model: "loop_step p (dropModel model reason p)"

inductive tracker_step :: "tracker \<Rightarrow> tracker \<Rightarrow> bool" where
  loop: "loop_step p q \<Longrightarrow> tracker_step p q"
| final_answer: "tracker_step p (fst (completion json env p))"

definition tracker_ok :: "tracker \<Rightarrow> bool" where
  "tracker_ok p \<longleftrightarrow>
     length (pt_checks p) \<le> 8 \<and> (\<forall>key. pt_strikes p key < 3) \<and> distinct (pt_excluded p)
     \<and> pt_todoRejections p \<le> 2 \<and> pt_answerRejections p \<le> 2 \<and> pt_finalRejections p \<le> 2
     \<and> pt_todoRejections p + pt_answerRejections p + pt_finalRejections p + pt_reviewRejections p \<le> pt_completionRejections p
     \<and> (\<forall>d. pt_unchangedRefusals p d \<le> 1)
     \<and> (pt_verified p \<longrightarrow> pt_edited p) \<and> (pt_verified p \<longleftrightarrow> pt_checks p \<noteq> []) \<and> (pt_reviewed p \<longrightarrow> pt_edited p)
     \<and> (pt_turnEdited p \<longrightarrow> pt_turnProgress p \<and> pt_edited p) \<and> (pt_turnVerified p \<longrightarrow> pt_turnProgress p \<and> pt_edited p)
     \<and> (\<forall>c \<in> set (pt_checks p). length (cr_output c) \<le> 1500)"

lemma outputTail_length: "length (outputTail v) \<le> 1500"
  by (auto simp: outputTail_def Let_def split: gval.splits)

lemma note_exec_ok: "tracker_ok p \<Longrightarrow> tracker_ok (note_exec args v p)"
proof -
  assume ok: "tracker_ok p"
  let ?c = "\<lparr>cr_command = stringArg args ''command'', cr_output = outputTail v\<rparr>"
  have "set (tl (pt_checks p @ [?c])) \<subseteq> set (pt_checks p @ [?c])" by (cases "pt_checks p") auto
  moreover have "tl (pt_checks p @ [?c]) \<noteq> []" if "length (pt_checks p) \<ge> 8" using that by (cases "pt_checks p") auto
  ultimately show ?thesis
    using ok outputTail_length [of v] by (auto simp: note_exec_def tracker_ok_def Let_def)
qed

lemma note_tool_ok: "tracker_ok p \<Longrightarrow> tracker_ok (fst (note_tool json name args v p))"
  using note_exec_ok [of p args v] by (auto simp: note_tool_def Let_def note_edit_def tracker_ok_def)

lemma observe_ok: "tracker_ok p \<Longrightarrow> tracker_ok (fst (observe json name args v failed p))"
proof -
  assume ok: "tracker_ok p"
  then have "tracker_ok (p\<lparr>pt_seenResults := f\<rparr>)" "tracker_ok (p\<lparr>pt_repeatedReads := n\<rparr>)" "tracker_ok (p\<lparr>pt_repeatedSearch := n\<rparr>)" for f n
    by (simp_all add: tracker_ok_def)
  with ok note_tool_ok show ?thesis by (simp add: observe_def Let_def)
qed

lemma sync_ok: "tracker_ok p \<Longrightarrow> tracker_ok (syncWorkspaceChanges json changes p)"
  by (auto simp: tracker_ok_def syncWorkspaceChanges_def Let_def split: option.splits)

lemma strike_ok: "tracker_ok p \<Longrightarrow> tracker_ok (fst (strike model kind p))"
  by (auto simp: tracker_ok_def strike_def Let_def)

lemma drop_ok: "tracker_ok p \<Longrightarrow> tracker_ok (dropModel model reason p)"
  by (auto simp: tracker_ok_def dropModel_def exclude_def Let_def)

lemma loop_step_ok: "loop_step p q \<Longrightarrow> tracker_ok p \<Longrightarrow> tracker_ok q"
  by (induction rule: loop_step.induct)
    (simp_all add: observe_ok sync_ok drop_ok, auto simp: tracker_ok_def beginTurn_def endTurn_def Let_def)

lemma gate_answer_ok: "tracker_ok p \<Longrightarrow> tracker_ok (fst (gate_answer env p))"
  by (auto simp: tracker_ok_def gate_answer_def count_rejection_def maxAnswerRejections_def split: prod.splits)

lemma gate_final_ok: "tracker_ok p \<Longrightarrow> tracker_ok (fst (gate_final env p))"
  by (auto simp: tracker_ok_def gate_final_def count_rejection_def maxFinalRejections_def Let_def split: option.splits)

lemma review_verdict_ok: "tracker_ok p \<Longrightarrow> pt_edited p \<Longrightarrow> tracker_ok (fst (review_verdict d passed t p))"
  by (auto simp: tracker_ok_def review_verdict_def count_rejection_def markReviewRejected_def Let_def)

lemma gate_unchanged_ok:
  assumes "tracker_ok p" and "pt_edited p"
  shows "tracker_ok (fst (gate_unchanged env d p))"
proof -
  have adj: "tracker_ok (p\<lparr>pt_adjudicatedDiffs := ds\<rparr>)" for ds using assms(1) by (simp add: tracker_ok_def)
  moreover have "tracker_ok (markReviewRejected False (count_rejection (p\<lparr>pt_adjudicatedDiffs := ds\<rparr>)))" for ds
    using assms(1) by (auto simp: tracker_ok_def count_rejection_def markReviewRejected_def)
  moreover have "tracker_ok (markReviewRejected True (count_rejection
      (p\<lparr>pt_unchangedRefusals := (pt_unchangedRefusals p)(d := pt_unchangedRefusals p d + 1)\<rparr>)))" if "pt_unchangedRefusals p d < 1"
    using assms(1) that by (auto simp: tracker_ok_def count_rejection_def markReviewRejected_def)
  ultimately show ?thesis
    using assms review_verdict_ok [OF adj]
    by (auto simp: gate_unchanged_def Let_def not_le split: prod.splits option.splits)
qed

lemma gate_review_ok:
  assumes "tracker_ok p"
  shows "tracker_ok (fst (gate_review env p))"
proof (cases "pt_edited p")
  case True
  have "tracker_ok (p\<lparr>pt_reviewed := True\<rparr>)" using assms True by (simp add: tracker_ok_def)
  with assms True gate_unchanged_ok review_verdict_ok show ?thesis
    by (auto simp: gate_review_def Let_def split: prod.splits option.splits)
qed (simp add: gate_review_def assms)

lemma gate_schema_ok:
  assumes "tracker_ok p"
  shows "tracker_ok (fst (gate_schema env p))"
proof -
  have "tracker_ok (count_rejection p)" using assms by (simp add: tracker_ok_def count_rejection_def)
  then have "tracker_ok (fst (strike (ce_model env) ''result_schema'' (count_rejection p)))" by (rule strike_ok)
  then show ?thesis using assms drop_ok by (auto simp: gate_schema_def split: option.splits prod.splits)
qed

lemma gate_todos_ok: "tracker_ok p \<Longrightarrow> tracker_ok (fst (gate_todos env p))"
  by (auto simp: tracker_ok_def gate_todos_def openTodosGuard_def maxTodoRejections_def split: option.splits)

lemma and_then_ok: "tracker_ok (fst r) \<Longrightarrow> (\<And>q. tracker_ok q \<Longrightarrow> tracker_ok (fst (f q))) \<Longrightarrow> tracker_ok (fst (and_then r f))"
  by (auto simp: and_then_def split: prod.splits option.splits)

lemma completion_fst:
  "fst (completion json env p) = fst (and_then (and_then (and_then (and_then (gate_answer env p)
              (gate_final env)) (\<lambda>q. gate_review env (syncWorkspaceChanges json (ce_changes env) q)))
              (gate_schema env)) (gate_todos env))"
  by (simp add: completion_def split: prod.split option.split)

lemma completion_ok: "tracker_ok p \<Longrightarrow> tracker_ok (fst (completion json env p))"
  unfolding completion_fst
  by (intro and_then_ok) (simp_all add: gate_answer_ok gate_final_ok sync_ok gate_review_ok gate_schema_ok gate_todos_ok)

lemma tracker_step_ok: "tracker_step p q \<Longrightarrow> tracker_ok p \<Longrightarrow> tracker_ok q"
  by (induction rule: tracker_step.induct) (simp_all add: loop_step_ok completion_ok)

text \<open>
  Claim C38. In every state a run can bring the tracker to: at most eight checks are kept, each with at
  most 1500 bytes of output, and there are some exactly when the change counts as verified; only an
  edited workspace is verified or reviewed; no model has three open strikes and none is excluded
  twice; the answer check, the host's check and the todo guard refused at most two answers each, no
  unchanged diff was refused more than once without adjudication, and all refusals are counted. A
  turn that edited or checked counts as progress.
\<close>

theorem tracker_invariant:
  assumes "tracker_step\<^sup>*\<^sup>* newProgressTracker p"
  shows "length (pt_checks p) \<le> 8 \<and> (\<forall>c \<in> set (pt_checks p). length (cr_output c) \<le> 1500)
    \<and> (pt_verified p \<longleftrightarrow> pt_checks p \<noteq> []) \<and> (pt_verified p \<or> pt_reviewed p \<longrightarrow> pt_edited p)
    \<and> (\<forall>key. pt_strikes p key < 3) \<and> distinct (pt_excluded p)
    \<and> pt_todoRejections p \<le> 2 \<and> pt_answerRejections p \<le> 2 \<and> pt_finalRejections p \<le> 2 \<and> (\<forall>d. pt_unchangedRefusals p d \<le> 1)
    \<and> pt_todoRejections p + pt_answerRejections p + pt_finalRejections p + pt_reviewRejections p \<le> pt_completionRejections p
    \<and> (pt_turnEdited p \<or> pt_turnVerified p \<longrightarrow> pt_turnProgress p \<and> pt_edited p)"
proof -
  have "tracker_ok newProgressTracker" by (simp add: tracker_ok_def newProgressTracker_def)
  with assms have "tracker_ok p" by (induction rule: rtranclp_induct) (simp_all add: tracker_step_ok)
  then show ?thesis unfolding tracker_ok_def by blast
qed

theorem tracker_invariant_witness:
  "distinct (pt_excluded (dropModel ''m'' ''empty'' (dropModel ''m'' ''empty'' newProgressTracker)))"
proof -
  have "tracker_step\<^sup>*\<^sup>* newProgressTracker (dropModel ''m'' ''empty'' (dropModel ''m'' ''empty'' newProgressTracker))"
    by (rule rtranclp.rtrancl_into_rtrancl [OF r_into_rtranclp [where r = tracker_step, OF loop [OF drop_model]] loop [OF drop_model]])
  from tracker_invariant [OF this] show ?thesis by blast
qed

section \<open>What an accepted answer has passed\<close>

text \<open>
  \<open>review_settled\<close>: the edited workspace was reviewed since its last change, or this attempt's
  review or adjudication passed it or could reach no verdict, or an adjudicated dispute goes to the
  parent.
\<close>

definition review_settled :: "completion_env \<Rightarrow> tracker \<Rightarrow> bool" where
  "review_settled env p \<longleftrightarrow>
     (let d = reviewDiffHash (ce_diff env); (passed, _, err) = ce_review env (pt_checks p);
          (upheld, _, err') = ce_adjudicate env (pt_rejectedReview p) (disputeRebuttal (ce_answer env))
      in pt_reviewed p
         \<or> (if d \<noteq> [] \<and> d = pt_rejectedDiff p
            then d \<in> set (pt_adjudicatedDiffs p) \<and> ce_parentJob env \<noteq> [] \<or> d \<notin> set (pt_adjudicatedDiffs p) \<and> upheld \<and> err' = None
            else passed \<or> err \<noteq> None))"

lemma gate_review_settled:
  assumes "gate_review env p = (q, None)" and "pt_edited p" and "ce_depth env > 0"
  shows "review_settled env p"
proof (cases "pt_reviewed p")
  case False
  obtain a t e where r: "ce_review env (pt_checks p) = (a, t, e)" by (metis prod_cases3)
  obtain a' t' e' where d: "ce_adjudicate env (pt_rejectedReview p) (disputeRebuttal (ce_answer env)) = (a', t', e')" by (metis prod_cases3)
  show ?thesis
    using assms False
    by (auto simp: gate_review_def review_settled_def gate_unchanged_def review_verdict_def Let_def r d split: if_splits option.splits)
qed (simp add: review_settled_def split: prod.split)

lemma and_then_None: "and_then r f = (q, None) \<longleftrightarrow> (\<exists>p. r = (p, None) \<and> f p = (q, None))"
  by (auto simp: and_then_def split: prod.splits option.splits)

lemma gate_answer_None: "gate_answer env p = (q, None) \<Longrightarrow> q = p"
  by (auto simp: gate_answer_def split: if_splits prod.splits)

lemma gate_final_None: "gate_final env p = (q, None) \<Longrightarrow> q = p"
  by (auto simp: gate_final_def Let_def split: if_splits option.splits)

lemma gate_review_frame:
  "gate_review env p = (q, out) \<Longrightarrow> pt_answerRejections q = pt_answerRejections p \<and> pt_finalRejections q = pt_finalRejections p
    \<and> pt_todoRejections q = pt_todoRejections p"
  by (auto simp: gate_review_def gate_unchanged_def review_verdict_def markReviewRejected_def count_rejection_def Let_def
      split: if_splits option.splits prod.splits)

lemma sync_frame [simp]:
  "pt_answerRejections (syncWorkspaceChanges json ch p) = pt_answerRejections p"
  "pt_finalRejections (syncWorkspaceChanges json ch p) = pt_finalRejections p"
  "pt_todoRejections (syncWorkspaceChanges json ch p) = pt_todoRejections p"
  "pt_rejectedDiff (syncWorkspaceChanges json ch p) = pt_rejectedDiff p"
  "pt_adjudicatedDiffs (syncWorkspaceChanges json ch p) = pt_adjudicatedDiffs p"
  "pt_unchangedRefusals (syncWorkspaceChanges json ch p) = pt_unchangedRefusals p"
  by (simp_all add: syncWorkspaceChanges_def Let_def split: option.split)


definition demo_env :: completion_env where
  "demo_env =
     \<lparr>ce_parentJob = [], ce_depth = 1, ce_model = ''m'', ce_answer = ''done'', ce_latestRequest = ''fix it'', ce_spec = [], ce_sessionSpec = [],
      ce_jevReview = False, ce_classify = None, ce_finalCheck = None, ce_noCalls = False, ce_changes = None, ce_diff = Some ''d'',
      ce_review = (\<lambda>checks. (checks \<noteq> [], [], None)), ce_adjudicate = (\<lambda>_ _. (False, [], None)), ce_invalid = None,
      ce_schemaText = [], ce_canTodo = True, ce_openTodos = Some []\<rparr>"

definition demo_tracker :: tracker where
  "demo_tracker = newProgressTracker\<lparr>pt_edited := True, pt_verified := True, pt_checks := [\<lparr>cr_command = ''go test'', cr_output = []\<rparr>]\<rparr>"

lemma demo_accepted: "completion (\<lambda>_. []) demo_env demo_tracker = (demo_tracker\<lparr>pt_reviewed := True\<rparr>, Accepted)"
  by (simp add: completion_def demo_env_def demo_tracker_def newProgressTracker_def and_then_def gate_answer_def gate_final_def gate_review_def
      gate_schema_def gate_todos_def openTodosGuard_def checkAnswer_def syncWorkspaceChanges_def review_verdict_def maxAnswerRejections_def Let_def)


section \<open>Refusals are bounded\<close>

text \<open>
  \<open>refusals d p n q\<close>: a run from \<open>p\<close> to \<open>q\<close> in which \<open>n\<close> answers were refused, all with the diff \<open>d\<close> and a
  result that satisfies the schema, with anything else happening in between.
\<close>

inductive refusals :: "string \<Rightarrow> tracker \<Rightarrow> nat \<Rightarrow> tracker \<Rightarrow> bool" for d p where
  start: "refusals d p 0 p"
| between: "refusals d p n q \<Longrightarrow> loop_step q r \<Longrightarrow> refusals d p n r"
| refused: "refusals d p n q \<Longrightarrow> reviewDiffHash (ce_diff env) = d \<Longrightarrow> ce_invalid env = None
    \<Longrightarrow> completion json env q = (r, Refused reason msg) \<Longrightarrow> refusals d p (Suc n) r"

definition review_potential :: "string \<Rightarrow> tracker \<Rightarrow> nat" where
  "review_potential d p =
     (if d = pt_rejectedDiff p
      then (if d \<in> set (pt_adjudicatedDiffs p) then 0 else if pt_unchangedRefusals p d \<ge> 1 then 1 else 2)
      else 3)"

definition potential :: "string \<Rightarrow> tracker \<Rightarrow> nat" where
  "potential d p = (2 - pt_answerRejections p) + (2 - pt_finalRejections p) + (2 - pt_todoRejections p) + review_potential d p"

text \<open>The fields the potential reads.\<close>

definition gate_fields :: "tracker \<Rightarrow> nat \<times> nat \<times> nat \<times> string \<times> string list \<times> (string \<Rightarrow> nat)" where
  "gate_fields p = (pt_answerRejections p, pt_finalRejections p, pt_todoRejections p, pt_rejectedDiff p, pt_adjudicatedDiffs p, pt_unchangedRefusals p)"

lemma review_potential_frame [simp]:
  "review_potential d (p\<lparr>pt_answerRejections := n\<rparr>) = review_potential d p"
  "review_potential d (p\<lparr>pt_finalRejections := n\<rparr>) = review_potential d p"
  by (simp_all add: review_potential_def)

lemma potential_cong: "gate_fields p = gate_fields q \<Longrightarrow> potential d p = potential d q"
  by (simp add: gate_fields_def potential_def review_potential_def)

lemma sync_fields: "gate_fields (syncWorkspaceChanges json ch p) = gate_fields p"
  by (simp add: gate_fields_def)

lemma loop_step_fields: "loop_step p q \<Longrightarrow> gate_fields q = gate_fields p"
  by (induction rule: loop_step.induct)
    (auto simp: gate_fields_def beginTurn_def observe_def note_tool_def note_edit_def note_exec_def endTurn_def dropModel_def exclude_def Let_def)

lemma gate_answer_refused:
  "gate_answer env p = (q, Some out) \<Longrightarrow> pt_answerRejections p < 2 \<and> gate_fields q = gate_fields (p\<lparr>pt_answerRejections := pt_answerRejections p + 1\<rparr>)"
  by (simp add: gate_answer_def maxAnswerRejections_def gate_fields_def count_rejection_def split: if_splits prod.splits) auto

lemma gate_final_refused:
  "gate_final env p = (q, Some out) \<Longrightarrow> pt_finalRejections p < 2 \<and> gate_fields q = gate_fields (p\<lparr>pt_finalRejections := pt_finalRejections p + 1\<rparr>)"
  by (simp add: gate_final_def maxFinalRejections_def gate_fields_def count_rejection_def Let_def split: if_splits option.splits) auto

lemma gate_answer_potential: "gate_answer env p = (q, Some out) \<Longrightarrow> potential d q < potential d p"
  using gate_answer_refused [of env p q out] potential_cong [of q "p\<lparr>pt_answerRejections := pt_answerRejections p + 1\<rparr>" d]
  by (auto simp: potential_def [of d p] potential_def [of d "p\<lparr>pt_answerRejections := Suc (pt_answerRejections p)\<rparr>"])

lemma gate_final_potential: "gate_final env p = (q, Some out) \<Longrightarrow> potential d q < potential d p"
  using gate_final_refused [of env p q out] potential_cong [of q "p\<lparr>pt_finalRejections := pt_finalRejections p + 1\<rparr>" d]
  by (auto simp: potential_def [of d p] potential_def [of d "p\<lparr>pt_finalRejections := Suc (pt_finalRejections p)\<rparr>"])

lemma gate_todos_potential:
  "gate_todos env p = (q, out) \<Longrightarrow> (case out of None \<Rightarrow> potential d q = potential d p | Some _ \<Rightarrow> potential d q < potential d p)"
  by (auto simp: gate_todos_def openTodosGuard_def maxTodoRejections_def potential_def review_potential_def
      split: if_splits option.splits)

lemma review_verdict_potential:
  "review_verdict d passed t p = (q, out) \<Longrightarrow>
    gate_fields q = (if passed then gate_fields p else gate_fields (p\<lparr>pt_rejectedDiff := d\<rparr>)) \<and> (out = None \<longleftrightarrow> passed)"
  by (auto simp: review_verdict_def gate_fields_def markReviewRejected_def count_rejection_def Let_def)

lemma gate_unchanged_cases:
  assumes "gate_unchanged env d p = (q, out)"
  obtains (adjudicated) "d \<notin> set (pt_adjudicatedDiffs p)" "gate_fields q = gate_fields (p\<lparr>pt_adjudicatedDiffs := d # pt_adjudicatedDiffs p\<rparr>)
      \<or> gate_fields q = gate_fields (p\<lparr>pt_adjudicatedDiffs := d # pt_adjudicatedDiffs p, pt_rejectedDiff := d\<rparr>)"
  | (stuck) "q = p" "out = None \<or> (\<exists>msg. out = Some (AskPerson msg))"
  | (again) "d \<notin> set (pt_adjudicatedDiffs p)" "pt_unchangedRefusals p d < 1"
      "gate_fields q = gate_fields (p\<lparr>pt_unchangedRefusals := (pt_unchangedRefusals p)(d := pt_unchangedRefusals p d + 1)\<rparr>)"
proof (cases "d \<in> set (pt_adjudicatedDiffs p)")
  case True
  then show thesis using assms stuck by (auto simp: gate_unchanged_def Let_def split: if_splits)
next
  case False
  let ?p = "p\<lparr>pt_adjudicatedDiffs := d # pt_adjudicatedDiffs p\<rparr>"
  show thesis
  proof (cases "disputesReview (ce_answer env) \<or> pt_unchangedRefusals p d \<ge> 1")
    case True
    obtain a t e where r: "ce_adjudicate env (pt_rejectedReview p) (disputeRebuttal (ce_answer env)) = (a, t, e)" by (metis prod_cases3)
    have "gate_fields q = gate_fields ?p \<or> gate_fields q = gate_fields (?p\<lparr>pt_rejectedDiff := d\<rparr>)"
    proof (cases e)
      case None
      then have "review_verdict d a t ?p = (q, out)" using assms False True r by (simp add: gate_unchanged_def Let_def)
      from review_verdict_potential [OF this] show ?thesis by (auto split: if_splits)
    next
      case (Some err)
      then have "q = markReviewRejected False (count_rejection ?p)" using assms False True r by (simp add: gate_unchanged_def Let_def)
      then show ?thesis by (simp add: gate_fields_def markReviewRejected_def count_rejection_def)
    qed
    then show thesis by (rule adjudicated [OF False])
  next
    case nd: False
    then have q: "q = markReviewRejected True (count_rejection (p\<lparr>pt_unchangedRefusals := (pt_unchangedRefusals p)(d := pt_unchangedRefusals p d + 1)\<rparr>))"
      using assms False by (simp add: gate_unchanged_def Let_def)
    show thesis by (rule again [OF False]) (use nd in \<open>simp_all add: q gate_fields_def markReviewRejected_def count_rejection_def\<close>)
  qed
qed

lemma gate_review_potential:
  assumes "gate_review env p = (q, out)" and "reviewDiffHash (ce_diff env) = d" and "d \<noteq> []"
  shows "case out of None \<Rightarrow> potential d q \<le> potential d p | Some (AskPerson _) \<Rightarrow> True | Some _ \<Rightarrow> potential d q < potential d p"
proof (cases "pt_edited p \<and> \<not> pt_reviewed p \<and> ce_depth env > 0")
  case act: True
  show ?thesis
  proof (cases "d = pt_rejectedDiff p")
    case True
    have u: "gate_unchanged env d p = (q, out)" using assms act True by (simp add: gate_review_def Let_def)
    then show ?thesis
    proof (cases rule: gate_unchanged_cases)
      case adjudicated
      have "potential d q < potential d p"
        using adjudicated(2) potential_cong [of q _ d] adjudicated(1) True by (auto simp: potential_def review_potential_def)
      then show ?thesis by (simp split: option.split gate_result.split)
    next
      case stuck
      then show ?thesis by auto
    next
      case again
      have "potential d q < potential d p"
        using potential_cong [OF again(3), of d] again(1,2) True by (simp add: potential_def review_potential_def)
      then show ?thesis by (simp split: option.split gate_result.split)
    qed
  next
    case False
    obtain a t e where r: "ce_review env (pt_checks p) = (a, t, e)" by (metis prod_cases3)
    show ?thesis
    proof (cases e)
      case None
      then have v: "review_verdict d a t p = (q, out)" using assms act False r by (simp add: gate_review_def Let_def)
      have "potential d (p\<lparr>pt_rejectedDiff := d\<rparr>) < potential d p" using False by (simp add: potential_def review_potential_def)
      with review_verdict_potential [OF v] potential_cong [of q _ d] show ?thesis
        by (cases a) (auto split: option.splits gate_result.splits)
    next
      case (Some err)
      then have "q = p\<lparr>pt_reviewed := True\<rparr>" "out = None" using assms act False r by (auto simp: gate_review_def Let_def)
      then show ?thesis by (simp add: potential_def review_potential_def)
    qed
  qed
qed (use assms(1) in \<open>auto simp: gate_review_def\<close>)

lemma refused_potential:
  assumes "completion json env p = (q, Refused reason msg)" and "reviewDiffHash (ce_diff env) = d" and "d \<noteq> []" and "ce_invalid env = None"
  shows "potential d q < potential d p"
proof -
  let ?s = "syncWorkspaceChanges json (ce_changes env) p"
  have s: "potential d ?s = potential d p" by (rule potential_cong [OF sync_fields])
  obtain a oa where a: "gate_answer env p = (a, oa)" by force
  obtain f oo where f: "gate_final env p = (f, oo)" by force
  obtain r rr where r: "gate_review env ?s = (r, rr)" by force
  obtain t tt where t: "gate_todos env r = (t, tt)" by force
  have sch: "gate_schema env r = (r, None)" by (simp add: gate_schema_def assms(4))
  note rp = gate_review_potential [OF r assms(2,3)] and tp = gate_todos_potential [OF t, of d]
  show ?thesis
  proof (cases oa)
    case (Some x)
    then have "q = a" using assms(1) a by (auto simp: completion_def and_then_def)
    then show ?thesis using gate_answer_potential a Some by blast
  next
    case an: None
    then have ap: "a = p" using a gate_answer_None by blast
    show ?thesis
    proof (cases oo)
      case (Some x)
      then have "q = f" using assms(1) a an ap f by (auto simp: completion_def and_then_def)
      then show ?thesis using gate_final_potential f Some by blast
    next
      case fn: None
      then have fp: "f = p" using f gate_final_None by blast
      show ?thesis
      proof (cases rr)
        case (Some x)
        then have "q = r" "x = Refused reason msg" using assms(1) a an ap f fn fp r by (auto simp: completion_def and_then_def)
        then show ?thesis using rp Some s by simp
      next
        case None
        then have "(q, Some (Refused reason msg)) = (t, tt)"
          using assms(1) a an ap f fn fp r sch t by (auto simp: completion_def and_then_def split: option.splits)
        then show ?thesis using rp tp None s by auto
      qed
    qed
  qed
qed

lemma refusals_potential:
  "refusals d p n q \<Longrightarrow> d \<noteq> [] \<Longrightarrow> potential d q + n \<le> potential d p"
proof (induction rule: refusals.induct)
  case (between n q r)
  then show ?case using potential_cong [OF loop_step_fields [OF between.hyps(2)], of d] by simp
next
  case (refused n q env json r reason msg)
  then show ?case using refused_potential [OF refused.hyps(4,2) _ refused.hyps(3)] by fastforce
qed simp

text \<open>
  Claim C10. A run cannot be kept from finishing by refusals: while the change under review stays the same and results satisfy their
  schema, at most nine final answers are refused, whatever the reviewers, the adjudicator, the
  classifier, the host and the plan say and whatever tools are called in between; the next answer
  is accepted or the person is asked.
\<close>

theorem refusals_bounded:
  assumes "refusals d newProgressTracker n q" and "d \<noteq> []"
  shows "n \<le> 9 \<and> (n = 9 \<longrightarrow> reviewDiffHash (ce_diff env) = d \<longrightarrow> ce_invalid env = None
    \<longrightarrow> (\<exists>r. completion json env q = (r, Accepted)) \<or> (\<exists>r msg. completion json env q = (r, AskPerson msg)))"
proof -
  have start: "potential d newProgressTracker = 9"
    using assms(2) by (simp add: potential_def review_potential_def newProgressTracker_def)
  have n: "potential d q + n \<le> 9" using refusals_potential [OF assms] start by simp
  obtain r out where out: "completion json env q = (r, out)" by force
  have "out \<noteq> Refused reason msg" if "n = 9" "reviewDiffHash (ce_diff env) = d" "ce_invalid env = None" for reason msg
    using refused_potential [of json env q r reason msg d] out that n assms(2) by auto
  then show ?thesis using n out by (cases out) auto
qed

theorem refusals_bounded_witness:
  "\<exists>q. refusals (reviewDiffHash (Some ''d'')) newProgressTracker 1 q \<and> (1::nat) \<le> 9"
proof -
  let ?env = "demo_env\<lparr>ce_openTodos := Some [''x'']\<rparr>"
  let ?q = "newProgressTracker\<lparr>pt_todoRejections := 1, pt_completionRejections := 1\<rparr>"
  have q: "completion (\<lambda>_. []) ?env newProgressTracker = (?q, Refused ''open todo items'' (OpenTodosMessage [''x'']))"
    by (simp add: completion_def demo_env_def newProgressTracker_def and_then_def gate_answer_def gate_final_def gate_review_def
        gate_schema_def gate_todos_def openTodosGuard_def checkAnswer_def syncWorkspaceChanges_def maxTodoRejections_def maxAnswerRejections_def Let_def)
  have "refusals (reviewDiffHash (Some ''d'')) newProgressTracker (Suc 0) ?q"
    by (rule refusals.refused [OF refusals.start _ _ q]) (simp_all add: demo_env_def)
  moreover have "reviewDiffHash (Some ''d'') \<noteq> []"
    using length_hex_encode [of "sha256 ''d''"] by (auto simp: reviewDiffHash_def simp del: length_hex_encode)
  ultimately show ?thesis using refusals_bounded by fastforce
qed

end
