(* ===== verification/Session_Store.thy ===== *)
theory Session_Store
  imports Work_Items
begin

text \<open>
  The part of the SQLite store that retention works on: listing, deleting and archiving sessions
  (\<^verbatim>\<open>internal/store/store.go\<close> and \<^verbatim>\<open>archive.go\<close>). The database is its \<^verbatim>\<open>sessions\<close> table, the
  rows of every table keyed by \<^verbatim>\<open>session_id\<close> (the table's name, the session and the row's
  content), and the archives. A transaction either commits, as one step, or fails with an error
  of the database and leaves everything as it was; whether it fails is an argument. Compressing and
  encoding an archive is the parameter \<open>enc\<close>, reading it back \<open>dec\<close>.
\<close>

section \<open>The database\<close>

record session =
  se_id :: string
  se_parent :: string
  se_status :: string
  se_updated :: int
  se_archived :: go_time

record db_row =
  dr_table :: string
  dr_session :: string
  dr_seq :: int
  dr_content :: string

record session_db =
  db_sessions :: "session list"
  db_rows :: "db_row list"
  db_archives :: "(string \<times> string) list"

text \<open>What an archive holds: the rows of each archived table, in the order of the struct.\<close>

definition archived_tables :: "string list" where
  "archived_tables = [''events'', ''messages'', ''todos'', ''work_items'', ''continuation'', ''pending_inputs'', ''checkpoints'']"

definition cleared_tables :: "string list" where
  "cleared_tables = [''request_receipts'', ''events'', ''messages'', ''todos'', ''work_items'', ''continuation'', ''cache_ledger'',
     ''routing_records'', ''checkpoints'', ''pending_inputs'', ''queued_messages'', ''memory_watermarks'']"

definition deleted_tables :: "string list" where
  "deleted_tables = [''request_receipts'', ''events'', ''messages'', ''todos'', ''work_items'', ''continuation'', ''cache_ledger'',
     ''jobs'', ''routing_records'', ''checkpoints'', ''pending_inputs'', ''queued_messages'', ''session_archives'',
     ''memory_watermarks'', ''memory_sightings'']"

definition table_rows :: "session_db \<Rightarrow> string \<Rightarrow> string \<Rightarrow> string list" where
  "table_rows db sid table =
     map dr_content (filter (\<lambda>r. dr_table r = table \<and> dr_session r = sid) (db_rows db))"

definition last_seq :: "session_db \<Rightarrow> string \<Rightarrow> int" where
  "last_seq db sid = fold max (map dr_seq (filter (\<lambda>r. dr_table r = ''events'' \<and> dr_session r = sid) (db_rows db))) 0"

definition session_archive :: "session_db \<Rightarrow> string \<Rightarrow> string list list" where
  "session_archive db sid = map (table_rows db sid) archived_tables"

definition clear_rows :: "string list \<Rightarrow> string \<Rightarrow> db_row list \<Rightarrow> db_row list" where
  "clear_rows tables sid rows = filter (\<lambda>r. \<not> (dr_session r = sid \<and> dr_table r \<in> set tables)) rows"

section \<open>Operations\<close>

abbreviation no_rows :: string where
  "no_rows \<equiv> ''sql: no rows in result set''"

definition Session :: "string \<Rightarrow> session_db \<Rightarrow> string + session" where
  "Session sid db = (case List.find (\<lambda>x. se_id x = sid) (db_sessions db) of Some x \<Rightarrow> Inr x | None \<Rightarrow> Inl no_rows)"

text \<open>Newest first; the database compares the times' text.\<close>

definition sessionsWhere :: "(session \<Rightarrow> bool) \<Rightarrow> session_db \<Rightarrow> session list" where
  "sessionsWhere P db = rev (sort_key se_updated (filter P (db_sessions db)))"

definition Sessions :: "session_db \<Rightarrow> session list" where
  "Sessions db = sessionsWhere (\<lambda>x. se_parent x = []) db"

definition ChildSessions :: "session_db \<Rightarrow> session list" where
  "ChildSessions db = sessionsWhere (\<lambda>x. se_parent x \<noteq> []) db"

definition DeleteSession :: "string option \<Rightarrow> string \<Rightarrow> session_db \<Rightarrow> string option \<times> session_db" where
  "DeleteSession io sid db =
     (case io of Some e \<Rightarrow> (Some e, db)
      | None \<Rightarrow>
          if \<not> list_ex (\<lambda>x. se_id x = sid) (db_sessions db) then (Some no_rows, db)
          else (None, db\<lparr>db_sessions := filter (\<lambda>x. se_id x \<noteq> sid) (db_sessions db),
                         db_rows := clear_rows deleted_tables sid (db_rows db),
                         db_archives := filter (\<lambda>(k, _). k \<noteq> sid) (db_archives db)\<rparr>))"

text \<open>
  The rows are read before the transaction: \<open>read\<close> is the database then, \<open>db\<close> the one the
  transaction sees. The transaction gives up when events were added in between.
\<close>

definition ArchiveSession ::
  "(string list list \<Rightarrow> string) \<Rightarrow> int \<Rightarrow> string option \<Rightarrow> string \<Rightarrow> session_db \<Rightarrow> session_db \<Rightarrow> string option \<times> session_db" where
  "ArchiveSession enc now io sid read db =
     (case Session sid read of
        Inl e \<Rightarrow> (Some e, db)
      | Inr x \<Rightarrow>
          if se_archived x \<noteq> None then (None, db)
          else case io of Some e \<Rightarrow> (Some e, db)
          | None \<Rightarrow>
              if last_seq db sid \<noteq> last_seq read sid
              then (Some (''archive session '' @ sid @ '': events changed while archiving''), db)
              else (case Session sid db of
                  Inl e \<Rightarrow> (Some e, db)
                | Inr y \<Rightarrow>
                    if se_archived y \<noteq> None then (None, db)
                    else (None, db\<lparr>db_sessions := map (\<lambda>z. if se_id z = sid then z\<lparr>se_archived := Some now\<rparr> else z) (db_sessions db),
                                   db_rows := clear_rows cleared_tables sid (db_rows db),
                                   db_archives := (sid, enc (session_archive read sid)) # db_archives db\<rparr>)))"

definition ReadArchive :: "(string \<Rightarrow> string list list option) \<Rightarrow> string \<Rightarrow> session_db \<Rightarrow> string + string list list" where
  "ReadArchive dec sid db =
     (case map_of (db_archives db) sid of
        None \<Rightarrow> Inl no_rows
      | Some raw \<Rightarrow> (case dec raw of Some a \<Rightarrow> Inr a | None \<Rightarrow> Inl ''invalid archive''))"

section \<open>Archiving loses nothing that was read\<close>

lemma table_rows_clear:
  "table_rows (db\<lparr>db_sessions := ss, db_rows := clear_rows tables sid (db_rows db), db_archives := as\<rparr>) k t
     = (if k = sid \<and> t \<in> set tables then [] else table_rows db k t)"
  by (auto simp: table_rows_def clear_rows_def filter_empty_conv intro!: arg_cong [where f = "map dr_content"] filter_cong)


definition demo_db :: session_db where
  "demo_db =
     \<lparr>db_sessions = [\<lparr>se_id = ''a'', se_parent = [], se_status = ''pass'', se_updated = 5, se_archived = None\<rparr>],
      db_rows = [\<lparr>dr_table = ''events'', dr_session = ''a'', dr_seq = 1, dr_content = ''e1''\<rparr>, \<lparr>dr_table = ''messages'', dr_session = ''a'', dr_seq = 0, dr_content = ''m1''\<rparr>],
      db_archives = []\<rparr>"

text \<open>A stand-in for the compressed encoding: rows separated by newlines, tables by semicolons, each character escaped.\<close>

fun demo_enc :: "string list list \<Rightarrow> string" where
  "demo_enc [] = ''.''"
| "demo_enc ([] # ts) = '';'' @ demo_enc ts"
| "demo_enc (([] # rs) # ts) = '','' @ demo_enc (rs # ts)"
| "demo_enc (((c # cs) # rs) # ts) = [CHR ''x'', c] @ demo_enc ((cs # rs) # ts)"

fun demo_dec :: "string \<Rightarrow> string list list option" where
  "demo_dec (c # d # s) =
     (if c = CHR ''x'' then (case demo_dec s of Some ((cs # rs) # ts) \<Rightarrow> Some (((d # cs) # rs) # ts) | _ \<Rightarrow> None)
      else if c = CHR '';'' then map_option ((#) []) (demo_dec (d # s))
      else if c = CHR '','' then (case demo_dec (d # s) of Some (rs # ts) \<Rightarrow> Some (([] # rs) # ts) | _ \<Rightarrow> None)
      else None)"
| "demo_dec s = (if s = ''.'' then Some [] else None)"

lemma demo_dec_enc: "demo_dec (demo_enc a) = Some a"
proof (induction a rule: demo_enc.induct)
  case (2 ts)
  then show ?case by (cases "demo_enc ts") auto
next
  case (3 rs ts)
  then show ?case by (cases "demo_enc (rs # ts)") auto
qed auto


text \<open>
  The check for writes in between only counts events: a message stored after the rows were read is
  deleted without being in the archive.
\<close>

lemma archive_loses_late_message:
  "let db = demo_db\<lparr>db_rows := db_rows demo_db @ [\<lparr>dr_table = ''messages'', dr_session = ''a'', dr_seq = 0, dr_content = ''late''\<rparr>]\<rparr>;
       db' = snd (ArchiveSession demo_enc 9 None ''a'' demo_db db)
   in table_rows db ''a'' ''messages'' = [''m1'', ''late''] \<and> table_rows db' ''a'' ''messages'' = []
      \<and> ReadArchive demo_dec ''a'' db' = Inr [[''e1''], [''m1''], [], [], [], [], []]"
  by code_simp

end
