(* ===== verification/Retention.thy ===== *)
theory Retention
  imports Session_Store Go_Float
begin

text \<open>
  One retention pass, \<^verbatim>\<open>Engine.MaintainStorage\<close> of \<^verbatim>\<open>internal/core/retention.go\<close>, with the windows
  of \<^verbatim>\<open>RetentionConfig\<close>. The store is reached through a record of its operations; the pass reads
  the engine's table of active turns, which is the argument \<open>e\<close>, once and for all. Times and
  durations are in nanoseconds. The scratch directories the pass removes are recorded in the pass
  state.
\<close>

section \<open>Interface of the store\<close>

record event =
  ev_type :: string
  ev_data :: string

record 's store_ops =
  so_archiver :: bool
  so_sessions :: "'s \<Rightarrow> string + session list"
  so_children :: "'s \<Rightarrow> string + session list"
  so_session :: "string \<Rightarrow> 's \<Rightarrow> string + session"
  so_delete :: "string \<Rightarrow> 's \<Rightarrow> string option \<times> 's"
  so_archive :: "string \<Rightarrow> 's \<Rightarrow> string option \<times> 's"
  so_usage :: "'s \<Rightarrow> string + int"
  so_watermark :: "string \<Rightarrow> 's \<Rightarrow> string + int"
  so_events :: "string \<Rightarrow> int \<Rightarrow> 's \<Rightarrow> string + event list"

record engine_turns =
  en_active :: "string list"
  en_running :: "string \<Rightarrow> nat"

record retention_config =
  rn_workerAfter :: int
  rn_archiveAfter :: int
  rn_deleteAfter :: int
  rn_maxBytes :: int
  rn_highWater :: float64

abbreviation hour :: int where
  "hour \<equiv> 3600 * 10 ^ 9"

definition WorkerWindow :: "retention_config \<Rightarrow> int" where
  "WorkerWindow r = (if rn_workerAfter r \<le> 0 then 24 * hour else rn_workerAfter r)"

definition ArchiveWindow :: "retention_config \<Rightarrow> int" where
  "ArchiveWindow r = (if rn_archiveAfter r \<le> 0 then 30 * 24 * hour else rn_archiveAfter r)"

definition HighWater :: "retention_config \<Rightarrow> float64" where
  "HighWater r = (if rn_highWater r \<le> 0 then fl (8 / 10) else rn_highWater r)"

section \<open>Which sessions may be touched\<close>

definition sessionIdle :: "engine_turns \<Rightarrow> string \<Rightarrow> bool" where
  "sessionIdle e sid \<longleftrightarrow> sid \<notin> set (en_active e)"

definition sessionFinished :: "engine_turns \<Rightarrow> session \<Rightarrow> bool" where
  "sessionFinished e s =
     (if se_status s = ''running'' \<or> se_status s = ''input_required'' \<or> \<not> sessionIdle e (se_id s) then False
      else en_running e (se_id s) = 0)"

text \<open>\<open>status\<close> decodes the terminal event's \<^verbatim>\<open>status\<close> field, if its data decodes.\<close>

definition memoryPending :: "'s store_ops \<Rightarrow> (string \<Rightarrow> string option) \<Rightarrow> string \<Rightarrow> 's \<Rightarrow> string + bool" where
  "memoryPending ops status sid st =
     (case so_watermark ops sid st of
        Inl err \<Rightarrow> Inl err
      | Inr watermark \<Rightarrow>
          (case so_events ops sid watermark st of
             Inl err \<Rightarrow> Inl err
           | Inr evs \<Rightarrow> Inr (list_ex (\<lambda>ev. ev_type ev = ''session.terminal'' \<and> status (ev_data ev) = Some ''pass'') evs)))"

definition archived_now :: "'s store_ops \<Rightarrow> string \<Rightarrow> 's \<Rightarrow> bool" where
  "archived_now ops sid st = (case so_session ops sid st of Inr s \<Rightarrow> se_archived s \<noteq> None | Inl _ \<Rightarrow> False)"

section \<open>The pass\<close>

record 's pass =
  ps_store :: 's
  ps_archived :: "string list"
  ps_deleted :: "string list"
  ps_scratch :: "string list"
  ps_errs :: "string list"

definition pass_err :: "string \<Rightarrow> 's pass \<Rightarrow> 's pass" where
  "pass_err msg p = p\<lparr>ps_errs := ps_errs p @ [msg]\<rparr>"

definition delete_one :: "'s store_ops \<Rightarrow> string \<Rightarrow> 's pass \<Rightarrow> bool \<times> 's pass" where
  "delete_one ops sid p =
     (case so_delete ops sid (ps_store p) of
        (Some err, st) \<Rightarrow> (False, pass_err (''delete session '' @ sid @ '': '' @ err) (p\<lparr>ps_store := st\<rparr>))
      | (None, st) \<Rightarrow> (True, p\<lparr>ps_store := st, ps_deleted := ps_deleted p @ [sid]\<rparr>))"

fun remove_children :: "'s store_ops \<Rightarrow> session list \<Rightarrow> 's pass \<Rightarrow> bool \<times> 's pass" where
  "remove_children ops [] p = (True, p)"
| "remove_children ops (c # cs) p =
     (case delete_one ops (se_id c) p of (ok, p') \<Rightarrow> if ok then remove_children ops cs p' else (False, p'))"

definition remove :: "'s store_ops \<Rightarrow> session \<Rightarrow> session list \<Rightarrow> 's pass \<Rightarrow> 's pass" where
  "remove ops s children p =
     (case remove_children ops children p of
        (False, p') \<Rightarrow> p'
      | (True, p') \<Rightarrow>
          (case delete_one ops (se_id s) p' of
             (False, p'') \<Rightarrow> p''
           | (True, p'') \<Rightarrow> if se_parent s = [] then p''\<lparr>ps_scratch := ps_scratch p'' @ [se_id s]\<rparr> else p''))"

definition archive :: "'s store_ops \<Rightarrow> session \<Rightarrow> 's pass \<Rightarrow> bool \<times> 's pass" where
  "archive ops s p =
     (case so_archive ops (se_id s) (ps_store p) of
        (Some err, st) \<Rightarrow> (False, pass_err (''archive session '' @ se_id s @ '': '' @ err) (p\<lparr>ps_store := st\<rparr>))
      | (None, st) \<Rightarrow> (True, p\<lparr>ps_store := st, ps_archived := ps_archived p @ [se_id s]\<rparr>))"

definition expire_workers :: "'s store_ops \<Rightarrow> engine_turns \<Rightarrow> retention_config \<Rightarrow> int \<Rightarrow> session list \<Rightarrow> 's pass \<Rightarrow> 's pass" where
  "expire_workers ops e rc now children p =
     fold (\<lambda>c p. if sessionFinished e c \<and> now - se_updated c > WorkerWindow rc then remove ops c [] p else p) children p"

record retention_candidate =
  ca_session :: session
  ca_children :: "session list"
  ca_ok :: bool

definition candidate_of ::
  "'s store_ops \<Rightarrow> engine_turns \<Rightarrow> (string \<Rightarrow> string option) \<Rightarrow> 's \<Rightarrow> session list \<Rightarrow> session \<Rightarrow> retention_candidate \<times> string list" where
  "candidate_of ops e status st kids s =
     (let own = filter (\<lambda>k. se_parent k = se_id s) kids;
          ok = (sessionFinished e s \<and> list_all (sessionFinished e) own)
      in if ok \<and> se_archived s = None
         then (case memoryPending ops status (se_id s) st of
                 Inl err \<Rightarrow> (\<lparr>ca_session = s, ca_children = own, ca_ok = False\<rparr>, [''check memory for '' @ se_id s @ '': '' @ err])
               | Inr pending \<Rightarrow> (\<lparr>ca_session = s, ca_children = own, ca_ok = (\<not> pending)\<rparr>, []))
         else (\<lparr>ca_session = s, ca_children = own, ca_ok = ok\<rparr>, []))"

definition candidates ::
  "'s store_ops \<Rightarrow> engine_turns \<Rightarrow> (string \<Rightarrow> string option) \<Rightarrow> 's pass \<Rightarrow> (string + retention_candidate list) \<times> 's pass" where
  "candidates ops e status p =
     (case so_sessions ops (ps_store p) of
        Inl err \<Rightarrow> (Inl err, p)
      | Inr tops \<Rightarrow>
          (case so_children ops (ps_store p) of
             Inl err \<Rightarrow> (Inl err, p)
           | Inr kids \<Rightarrow>
               let cs = map (candidate_of ops e status (ps_store p) kids) tops in
               (Inr (sort_key (\<lambda>c. se_updated (ca_session c)) (map fst cs)), p\<lparr>ps_errs := ps_errs p @ concat (map snd cs)\<rparr>)))"

definition age_step :: "'s store_ops \<Rightarrow> retention_config \<Rightarrow> int \<Rightarrow> retention_candidate \<Rightarrow> 's pass \<Rightarrow> 's pass" where
  "age_step ops rc now c p =
     (if \<not> ca_ok c then p
      else case se_archived (ca_session c) of
        None \<Rightarrow> if now - se_updated (ca_session c) > ArchiveWindow rc then snd (archive ops (ca_session c) p) else p
      | Some t \<Rightarrow> if rn_deleteAfter rc > 0 \<and> now - t > rn_deleteAfter rc then remove ops (ca_session c) (ca_children c) p else p)"

definition measure_usage :: "'s store_ops \<Rightarrow> 's pass \<Rightarrow> int \<times> 's pass" where
  "measure_usage ops p =
     (case so_usage ops (ps_store p) of
        Inl err \<Rightarrow> (0, pass_err (''measure store: '' @ err) p)
      | Inr n \<Rightarrow> (n, p))"

fun budget_archive :: "'s store_ops \<Rightarrow> int \<Rightarrow> retention_candidate list \<Rightarrow> int \<Rightarrow> 's pass \<Rightarrow> int \<times> 's pass" where
  "budget_archive ops goal [] n p = (n, p)"
| "budget_archive ops goal (c # cs) n p =
     (if n \<le> goal then (n, p)
      else if ca_ok c \<and> se_archived (ca_session c) = None
      then (case archive ops (ca_session c) p of
              (False, p') \<Rightarrow> budget_archive ops goal cs n p'
            | (True, p') \<Rightarrow> (case measure_usage ops p' of (n', p'') \<Rightarrow> budget_archive ops goal cs n' p''))
      else budget_archive ops goal cs n p)"

fun budget_delete :: "'s store_ops \<Rightarrow> int \<Rightarrow> retention_candidate list \<Rightarrow> int \<Rightarrow> 's pass \<Rightarrow> int \<times> 's pass" where
  "budget_delete ops goal [] n p = (n, p)"
| "budget_delete ops goal (c # cs) n p =
     (if n \<le> goal then (n, p)
      else if \<not> ca_ok c \<or> \<not> archived_now ops (se_id (ca_session c)) (ps_store p) then budget_delete ops goal cs n p
      else (case measure_usage ops (remove ops (ca_session c) (ca_children c) p) of
              (n', p') \<Rightarrow> budget_delete ops goal cs n' p'))"

record retention_report =
  rr_archived :: "string list"
  rr_deleted :: "string list"
  rr_before :: int
  rr_after :: int
  rr_overBudget :: bool

definition report_of :: "'s pass \<Rightarrow> int \<Rightarrow> int \<Rightarrow> bool \<Rightarrow> retention_report" where
  "report_of p before after over =
     \<lparr>rr_archived = ps_archived p, rr_deleted = ps_deleted p, rr_before = before, rr_after = after, rr_overBudget = over\<rparr>"

definition budget_target :: "retention_config \<Rightarrow> int" where
  "budget_target rc = ftrunc (fmul (ffloat (rn_maxBytes rc)) (HighWater rc))"

definition budget_pass ::
  "'s store_ops \<Rightarrow> engine_turns \<Rightarrow> (string \<Rightarrow> string option) \<Rightarrow> retention_config \<Rightarrow> int \<Rightarrow> 's pass \<Rightarrow> retention_report \<times> 's pass" where
  "budget_pass ops e status rc before p =
     (case measure_usage ops p of (n, p1) \<Rightarrow>
      let finish = (\<lambda>p. case measure_usage ops p of (after, q) \<Rightarrow> (report_of q before after (after > rn_maxBytes rc), q)) in
      if n > rn_maxBytes rc
      then (case candidates ops e status p1 of
              (Inl err, p2) \<Rightarrow> (let q = pass_err (''list sessions: '' @ err) p2 in (report_of q before 0 False, q))
            | (Inr cs, p2) \<Rightarrow>
                (case budget_archive ops (budget_target rc) cs n p2 of (n', p3) \<Rightarrow>
                 (case budget_delete ops (budget_target rc) cs n' p3 of (_, p4) \<Rightarrow> finish p4)))
      else finish p1)"

definition start_pass :: "'s \<Rightarrow> 's pass" where
  "start_pass st = \<lparr>ps_store = st, ps_archived = [], ps_deleted = [], ps_scratch = [], ps_errs = []\<rparr>"

definition age_pass ::
  "'s store_ops \<Rightarrow> engine_turns \<Rightarrow> (string \<Rightarrow> string option) \<Rightarrow> retention_config \<Rightarrow> int \<Rightarrow> 's pass \<Rightarrow> bool \<times> 's pass" where
  "age_pass ops e status rc now p =
     (case candidates ops e status p of
        (Inl err, q) \<Rightarrow> (False, pass_err (''list sessions: '' @ err) q)
      | (Inr cs, q) \<Rightarrow> (True, fold (age_step ops rc now) cs q))"

definition MaintainStorage ::
  "'s store_ops \<Rightarrow> engine_turns \<Rightarrow> (string \<Rightarrow> string option) \<Rightarrow> retention_config \<Rightarrow> int \<Rightarrow> 's \<Rightarrow> retention_report \<times> 's pass" where
  "MaintainStorage ops e status rc now st =
     (let (canArchive, before, p0) =
            (if so_archiver ops
             then (case so_usage ops st of
                     Inl err \<Rightarrow> (False, 0, pass_err (''measure store: '' @ err) (start_pass st))
                   | Inr n \<Rightarrow> (True, n, start_pass st))
             else (False, 0, start_pass st))
      in case so_children ops st of
           Inl err \<Rightarrow> (report_of p0 before 0 False, p0\<lparr>ps_errs := [''list child sessions: '' @ err]\<rparr>)
         | Inr children \<Rightarrow>
             let p1 = expire_workers ops e rc now children p0 in
             if \<not> canArchive then (report_of p1 before 0 False, p1)
             else case age_pass ops e status rc now p1 of
                 (False, p2) \<Rightarrow> (report_of p2 before 0 False, p2)
               | (True, p2) \<Rightarrow>
                   if rn_maxBytes rc > 0 then budget_pass ops e status rc before p2
                   else (report_of p2 before (case so_usage ops (ps_store p2) of Inr n \<Rightarrow> n | Inl _ \<Rightarrow> 0) False, p2))"

end
