(* ===== verification/Retention_Props.thy ===== *)
theory Retention_Props
  imports Retention
begin

text \<open>
  What a retention pass may do to the sessions. The locale states what the pass relies on of the
  store: listings reflect the sessions table, a deletion removes one row and an archiving marks one,
  and neither disturbs the events of other sessions. The lemmas proved from it hold for the
  SQLite store's model, on which the locale is interpreted.
\<close>

section \<open>The store's contract\<close>

definition mark_archived :: "string \<Rightarrow> int \<Rightarrow> session \<Rightarrow> session" where
  "mark_archived sid t x = (if se_id x = sid \<and> se_archived x = None then x\<lparr>se_archived := Some t\<rparr> else x)"

lemma mark_archived_simps [simp]:
  "se_id (mark_archived sid t x) = se_id x" "se_parent (mark_archived sid t x) = se_parent x"
  "se_id x \<noteq> sid \<Longrightarrow> mark_archived sid t x = x"
  by (auto simp: mark_archived_def)

locale session_store =
  fixes ops :: "'s store_ops" and rows :: "'s \<Rightarrow> session list" and ok :: "'s \<Rightarrow> bool"
  assumes ids: "ok s \<Longrightarrow> distinct (map se_id (rows s)) \<and> (\<forall>x \<in> set (rows s). se_id x \<noteq> [])"
    and sessions_listed: "so_sessions ops s = Inr l \<Longrightarrow> set l = {x \<in> set (rows s). se_parent x = []}"
    and children_listed: "so_children ops s = Inr l \<Longrightarrow> set l = {x \<in> set (rows s). se_parent x \<noteq> []}"
    and delete_done: "so_delete ops sid s = (None, s') \<Longrightarrow> ok s \<Longrightarrow> ok s' \<and> sid \<in> se_id ` set (rows s)
      \<and> rows s' = filter (\<lambda>x. se_id x \<noteq> sid) (rows s)"
    and delete_failed: "so_delete ops sid s = (Some e, s') \<Longrightarrow> s' = s"
    and archive_done: "so_archive ops sid s = (None, s') \<Longrightarrow> ok s \<Longrightarrow> ok s' \<and> (\<exists>t. rows s' = map (mark_archived sid t) (rows s))"
    and archive_failed: "so_archive ops sid s = (Some e, s') \<Longrightarrow> s' = s"
    and delete_others: "so_delete ops sid s = (None, s') \<Longrightarrow> k \<noteq> sid
      \<Longrightarrow> so_watermark ops k s' = so_watermark ops k s \<and> so_events ops k n s' = so_events ops k n s"
    and archive_others: "so_archive ops sid s = (None, s') \<Longrightarrow> k \<noteq> sid
      \<Longrightarrow> so_watermark ops k s' = so_watermark ops k s \<and> so_events ops k n s' = so_events ops k n s"
begin

lemma same_row: "ok s \<Longrightarrow> x \<in> set (rows s) \<Longrightarrow> y \<in> set (rows s) \<Longrightarrow> se_id x = se_id y \<Longrightarrow> x = y"
  using ids [of s] by (auto simp: distinct_map dest: inj_onD)

text \<open>\<open>kept Y x s0 s\<close>: the rows \<open>Y\<close> are still there and the memory state of \<open>x\<close> is that of \<open>s0\<close>.\<close>

definition kept :: "session set \<Rightarrow> session \<Rightarrow> 's \<Rightarrow> 's \<Rightarrow> bool" where
  "kept Y x s0 s \<longleftrightarrow> ok s \<and> Y \<subseteq> set (rows s) \<and> x \<in> Y
     \<and> so_watermark ops (se_id x) s = so_watermark ops (se_id x) s0
     \<and> (\<forall>n. so_events ops (se_id x) n s = so_events ops (se_id x) n s0)"

lemma kept_pending: "kept Y x s0 s \<Longrightarrow> memoryPending ops status (se_id x) s = memoryPending ops status (se_id x) s0"
  by (simp add: kept_def memoryPending_def split: sum.splits)

lemma kept_delete:
  assumes "kept Y x s0 s" and "sid \<notin> se_id ` Y" and "so_delete ops sid s = (r, s')"
  shows "kept Y x s0 s'"
proof (cases r)
  case None
  with assms(3) have del: "so_delete ops sid s = (None, s')" by simp
  have "se_id x \<noteq> sid" using assms(1,2) by (auto simp: kept_def)
  with delete_done [OF del] delete_others [OF del, of "se_id x"] assms(1,2) show ?thesis
    unfolding kept_def by (auto simp: image_iff)
next
  case (Some e)
  with assms delete_failed show ?thesis by blast
qed

lemma kept_archive:
  assumes "kept Y x s0 s" and "sid \<notin> se_id ` Y" and "so_archive ops sid s = (r, s')"
  shows "kept Y x s0 s'"
proof (cases r)
  case None
  with assms(3) have arch: "so_archive ops sid s = (None, s')" by simp
  have "se_id x \<noteq> sid" using assms(1,2) by (auto simp: kept_def)
  moreover obtain t where "rows s' = map (mark_archived sid t) (rows s)" "ok s'"
    using archive_done [OF arch] assms(1) by (auto simp: kept_def)
  moreover have "y \<in> mark_archived sid t ` set (rows s)" if "y \<in> Y" for y t
  proof (rule image_eqI)
    show "y = mark_archived sid t y" using that assms(2) by (auto simp: image_iff)
  qed (use that assms(1) in \<open>auto simp: kept_def\<close>)
  ultimately show ?thesis
    using archive_others [OF arch, of "se_id x"] assms(1) unfolding kept_def by auto
next
  case (Some e)
  with assms archive_failed show ?thesis by blast
qed

lemma kept_delete_one:
  "kept Y x s0 (ps_store p) \<Longrightarrow> sid \<notin> se_id ` Y \<Longrightarrow> kept Y x s0 (ps_store (snd (delete_one ops sid p)))"
  using kept_delete [of Y x s0 "ps_store p" sid]
  by (auto simp: delete_one_def pass_err_def split: prod.splits option.splits)

lemma kept_remove_children:
  "kept Y x s0 (ps_store p) \<Longrightarrow> se_id ` set cs \<inter> se_id ` Y = {} \<Longrightarrow> kept Y x s0 (ps_store (snd (remove_children ops cs p)))"
proof (induction cs arbitrary: p)
  case (Cons c cs)
  have "kept Y x s0 (ps_store (snd (delete_one ops (se_id c) p)))" using Cons.prems by (intro kept_delete_one) auto
  with Cons show ?case by (auto split: prod.splits)
qed simp

lemma kept_remove:
  assumes "kept Y x s0 (ps_store p)" and "se_id ` set (t # kids) \<inter> se_id ` Y = {}"
  shows "kept Y x s0 (ps_store (remove ops t kids p))"
proof -
  obtain b q where q: "remove_children ops kids p = (b, q)" by force
  have k: "kept Y x s0 (ps_store q)" using kept_remove_children [OF assms(1), of kids] assms(2) q by auto
  obtain b' q' where q': "delete_one ops (se_id t) q = (b', q')" by force
  have "kept Y x s0 (ps_store q')" using kept_delete_one [OF k, of "se_id t"] assms(2) q' by auto
  with k show ?thesis by (cases b; cases b') (simp_all add: remove_def q q')
qed

lemma kept_archive_pass:
  "kept Y x s0 (ps_store p) \<Longrightarrow> se_id t \<notin> se_id ` Y \<Longrightarrow> kept Y x s0 (ps_store (snd (archive ops t p)))"
  using kept_archive [of Y x s0 "ps_store p" "se_id t"]
  by (auto simp: archive_def pass_err_def split: prod.splits option.splits)

text \<open>What a pass must not act on: candidates that are not \<open>ca_ok\<close> or whose rows are disjoint from \<open>Y\<close>.\<close>

definition off_limits :: "session set \<Rightarrow> retention_candidate \<Rightarrow> bool" where
  "off_limits Y c \<longleftrightarrow> (ca_ok c \<longrightarrow> se_id ` set (ca_session c # ca_children c) \<inter> se_id ` Y = {})"

lemma kept_measure: "kept Y x s0 (ps_store p) \<Longrightarrow> kept Y x s0 (ps_store (snd (measure_usage ops p)))"
  by (auto simp: measure_usage_def pass_err_def split: sum.splits)

lemma kept_budget_archive:
  "kept Y x s0 (ps_store p) \<Longrightarrow> \<forall>c \<in> set cs. off_limits Y c \<Longrightarrow> kept Y x s0 (ps_store (snd (budget_archive ops goal cs n p)))"
proof (induction cs arbitrary: n p)
  case (Cons c cs)
  obtain b q where q: "archive ops (ca_session c) p = (b, q)" by force
  have k: "kept Y x s0 (ps_store q)" if "ca_ok c"
    using kept_archive_pass [OF Cons.prems(1), of "ca_session c"] Cons.prems(2) that q by (auto simp: off_limits_def)
  obtain n' q' where m: "measure_usage ops q = (n', q')" by force
  have "kept Y x s0 (ps_store q')" if "ca_ok c" using kept_measure [OF k [OF that]] m by simp
  with k Cons q m show ?case by (cases b) auto
qed simp

lemma kept_budget_delete:
  "kept Y x s0 (ps_store p) \<Longrightarrow> \<forall>c \<in> set cs. off_limits Y c \<Longrightarrow> kept Y x s0 (ps_store (snd (budget_delete ops goal cs n p)))"
proof (induction cs arbitrary: n p)
  case (Cons c cs)
  let ?r = "remove ops (ca_session c) (ca_children c) p"
  obtain n' q where m: "measure_usage ops ?r = (n', q)" by force
  have "kept Y x s0 (ps_store q)" if "ca_ok c"
  proof -
    have "kept Y x s0 (ps_store ?r)" using Cons.prems that by (intro kept_remove) (auto simp: off_limits_def)
    from kept_measure [OF this] show ?thesis by (simp add: m)
  qed
  with Cons m show ?case by auto
qed simp

text \<open>Reasons that protect a session, and the rows that witness them.\<close>

definition witness_rows :: "engine_turns \<Rightarrow> (string \<Rightarrow> string option) \<Rightarrow> 's \<Rightarrow> session \<Rightarrow> session set \<Rightarrow> bool" where
  "witness_rows e status s0 x Y \<longleftrightarrow>
     (\<not> sessionFinished e x \<and> Y = {x})
     \<or> se_parent x = [] \<and> se_id x \<noteq> [] \<and>
        ((\<exists>c. se_parent c = se_id x \<and> \<not> sessionFinished e c \<and> Y = {x, c})
         \<or> se_archived x = None \<and> memoryPending ops status (se_id x) s0 \<noteq> Inr False \<and> Y = {x})"

lemma witness_child:
  assumes "witness_rows e status s0 x Y" and "y \<in> Y" and "sessionFinished e y" and "se_parent y \<noteq> []"
  shows False
  using assms by (auto simp: witness_rows_def)

lemma candidates_rows:
  assumes "candidates ops e status p = (Inr cs, p')" and "c \<in> set cs"
  obtains kids where "so_children ops (ps_store p) = Inr kids" and "ca_session c \<in> set (rows (ps_store p))"
    and "se_parent (ca_session c) = []" and "ca_children c = filter (\<lambda>k. se_parent k = se_id (ca_session c)) kids"
    and "ca_ok c \<longrightarrow> sessionFinished e (ca_session c) \<and> list_all (sessionFinished e) (ca_children c)
        \<and> (se_archived (ca_session c) = None \<longrightarrow> memoryPending ops status (se_id (ca_session c)) (ps_store p) = Inr False)"
    and "ps_store p' = ps_store p"
proof -
  obtain tops kids where l: "so_sessions ops (ps_store p) = Inr tops" "so_children ops (ps_store p) = Inr kids"
    and cs: "set cs = set (map (fst \<circ> candidate_of ops e status (ps_store p) kids) tops)" and "ps_store p' = ps_store p"
    using assms(1) by (auto simp: candidates_def Let_def split: sum.splits)
  from cs assms(2) obtain s where s: "s \<in> set tops" "c = fst (candidate_of ops e status (ps_store p) kids s)" by auto
  have c: "ca_session c = s" "ca_children c = filter (\<lambda>k. se_parent k = se_id s) kids"
    "ca_ok c \<Longrightarrow> sessionFinished e s \<and> list_all (sessionFinished e) (ca_children c)
        \<and> (se_archived s = None \<longrightarrow> memoryPending ops status (se_id s) (ps_store p) = Inr False)"
    by (auto simp: s(2) candidate_of_def Let_def split: sum.splits if_splits)
  show thesis
    using that [OF l(2)] c s(1) sessions_listed [OF l(1)] \<open>ps_store p' = ps_store p\<close> by auto
qed

lemma witness_off_limits:
  assumes w: "witness_rows e status s0 x Y" and k: "kept Y x s0 (ps_store p)"
    and "candidates ops e status p = (Inr cs, p')" and "c \<in> set cs"
  shows "off_limits Y c"
proof -
  obtain kids where c: "so_children ops (ps_store p) = Inr kids" "ca_session c \<in> set (rows (ps_store p))"
      "se_parent (ca_session c) = []" "ca_children c = filter (\<lambda>k. se_parent k = se_id (ca_session c)) kids"
    and okc: "ca_ok c \<longrightarrow> sessionFinished e (ca_session c) \<and> list_all (sessionFinished e) (ca_children c)
        \<and> (se_archived (ca_session c) = None \<longrightarrow> memoryPending ops status (se_id (ca_session c)) (ps_store p) = Inr False)"
    and "ps_store p' = ps_store p"
    by (rule candidates_rows [OF assms(3,4)])
  have kids: "set kids = {y \<in> set (rows (ps_store p)). se_parent y \<noteq> []}" by (rule children_listed [OF c(1)])
  have st: "ok (ps_store p)" "Y \<subseteq> set (rows (ps_store p))" using k by (auto simp: kept_def)
  have "se_id t \<noteq> se_id y" if okt: "ca_ok c" and t: "t \<in> set (ca_session c # ca_children c)" and y: "y \<in> Y" for t y
  proof
    assume eq: "se_id t = se_id y"
    have "t \<in> set (rows (ps_store p))" using t c(2,4) kids by auto
    then have ty: "t = y" using same_row [OF st(1) _ _ eq] st(2) y by blast
    have fin: "sessionFinished e t" using t okc [rule_format, OF okt] by (auto simp: list_all_iff)
    show False
    proof (cases "t = ca_session c")
      case True
      have "\<forall>z \<in> Y. z = x \<or> se_parent z = se_id x \<and> \<not> sessionFinished e z" using w by (auto simp: witness_rows_def)
      with ty y fin have "ca_session c = x" using True by auto
      with w okc [rule_format, OF okt] k True kids c(3,4) st(2) kept_pending [OF k, of status] show False
        by (auto simp: witness_rows_def list_all_iff)
    next
      case False
      then have "se_parent t \<noteq> []" using t c(4) kids by auto
      with witness_child [OF w y] ty fin show False by simp
    qed
  qed
  then show ?thesis unfolding off_limits_def by blast
qed

lemma candidates_store: "ps_store (snd (candidates ops e status p)) = ps_store p"
  by (simp add: candidates_def Let_def split: sum.splits)

lemma kept_expire:
  assumes "kept Y x s0 (ps_store p)" and "\<forall>c \<in> set cs. sessionFinished e c \<longrightarrow> se_id c \<notin> se_id ` Y"
  shows "kept Y x s0 (ps_store (expire_workers ops e rc now cs p))"
  using assms
proof (induction cs arbitrary: p)
  case (Cons c cs)
  have "kept Y x s0 (ps_store (remove ops c [] p))" if "sessionFinished e c"
    using Cons.prems that by (intro kept_remove) auto
  with Cons show ?case by (auto simp: expire_workers_def)
qed (simp add: expire_workers_def)

definition acts :: "retention_config \<Rightarrow> int \<Rightarrow> retention_candidate \<Rightarrow> bool" where
  "acts rc now c \<longleftrightarrow> ca_ok c \<and> (se_archived (ca_session c) = None \<longrightarrow> now - se_updated (ca_session c) > ArchiveWindow rc)"

lemma kept_age_step:
  assumes "kept Y x s0 (ps_store p)" and "acts rc now c \<longrightarrow> se_id ` set (ca_session c # ca_children c) \<inter> se_id ` Y = {}"
  shows "kept Y x s0 (ps_store (age_step ops rc now c p))"
  using assms kept_archive_pass [OF assms(1), of "ca_session c"] kept_remove [OF assms(1), of "ca_session c" "ca_children c"]
  by (auto simp: age_step_def acts_def split: option.splits)

lemma kept_age_pass:
  assumes "kept Y x s0 (ps_store p)"
    and "\<And>cs p' c. candidates ops e status p = (Inr cs, p') \<Longrightarrow> c \<in> set cs \<Longrightarrow> acts rc now c
      \<Longrightarrow> se_id ` set (ca_session c # ca_children c) \<inter> se_id ` Y = {}"
  shows "kept Y x s0 (ps_store (snd (age_pass ops e status rc now p)))"
proof -
  obtain r p' where c: "candidates ops e status p = (r, p')" by force
  have k: "kept Y x s0 (ps_store p')" using candidates_store [of e status p] assms(1) c by simp
  show ?thesis
  proof (cases r)
    case (Inl err)
    then show ?thesis using k by (simp add: age_pass_def c pass_err_def)
  next
    case (Inr cs)
    have "kept Y x s0 (ps_store (fold (age_step ops rc now) ds q))" if "set ds \<subseteq> set cs" "kept Y x s0 (ps_store q)" for ds q
      using that
    proof (induction ds arbitrary: q)
      case (Cons d ds)
      then have "kept Y x s0 (ps_store (age_step ops rc now d q))"
        using assms(2) [of cs p' d] c Inr by (intro kept_age_step) auto
      with Cons show ?case by simp
    qed simp
    then show ?thesis using k by (simp add: age_pass_def c Inr)
  qed
qed

lemma kept_budget_pass:
  assumes "witness_rows e status s0 x Y" and "kept Y x s0 (ps_store p)"
  shows "kept Y x s0 (ps_store (snd (budget_pass ops e status rc before p)))"
proof -
  have fin: "kept Y x s0 (ps_store r)" if "kept Y x s0 (ps_store q)" "measure_usage ops q = (a, r)" for q a r
    using kept_measure [OF that(1)] that(2) by simp
  obtain n p1 where m: "measure_usage ops p = (n, p1)" by force
  have k1: "kept Y x s0 (ps_store p1)" using kept_measure [OF assms(2)] m by simp
  obtain r p2 where c: "candidates ops e status p1 = (r, p2)" by force
  have k2: "kept Y x s0 (ps_store p2)" using candidates_store [of e status p1] k1 c by simp
  show ?thesis
  proof (cases r)
    case (Inl err)
    then show ?thesis using k2 fin [OF k1] by (auto simp: budget_pass_def m c Let_def pass_err_def split: prod.splits)
  next
    case (Inr cs)
    have off: "\<forall>d \<in> set cs. off_limits Y d" using witness_off_limits [OF assms(1) k1] c Inr by blast
    obtain n3 p3 where a: "budget_archive ops (budget_target rc) cs n p2 = (n3, p3)" by force
    have k3: "kept Y x s0 (ps_store p3)" using kept_budget_archive [OF k2 off, of "budget_target rc" n] a by simp
    obtain n4 p4 where d: "budget_delete ops (budget_target rc) cs n3 p3 = (n4, p4)" by force
    have k4: "kept Y x s0 (ps_store p4)" using kept_budget_delete [OF k3 off, of "budget_target rc" n3] d by simp
    show ?thesis using fin [OF k1] fin [OF k4] by (auto simp: budget_pass_def m c Inr a d Let_def split: prod.splits)
  qed
qed

lemma kept_MaintainStorage:
  assumes "kept Y x s0 s0" and expire: "\<forall>c \<in> set (rows s0). se_parent c \<noteq> [] \<longrightarrow> sessionFinished e c \<longrightarrow> se_id c \<notin> se_id ` Y"
    and age: "\<And>p cs p' c. kept Y x s0 (ps_store p) \<Longrightarrow> candidates ops e status p = (Inr cs, p') \<Longrightarrow> c \<in> set cs \<Longrightarrow> acts rc now c
      \<Longrightarrow> se_id ` set (ca_session c # ca_children c) \<inter> se_id ` Y = {}"
    and budget: "rn_maxBytes rc > 0 \<Longrightarrow> witness_rows e status s0 x Y"
  shows "kept Y x s0 (ps_store (snd (MaintainStorage ops e status rc now s0)))"
proof -
  obtain can before p0 where p0: "(if so_archiver ops
             then (case so_usage ops s0 of
                     Inl err \<Rightarrow> (False, 0, pass_err (''measure store: '' @ err) (start_pass s0))
                   | Inr n \<Rightarrow> (True, n, start_pass s0))
             else (False, 0, start_pass s0)) = (can, before, p0)" by (metis prod.collapse)
  have st: "ps_store p0 = s0" using p0 by (auto simp: start_pass_def pass_err_def split: if_splits sum.splits)
  show ?thesis
  proof (cases "so_children ops s0")
    case (Inl err)
    then show ?thesis using assms(1) st by (simp add: MaintainStorage_def p0)
  next
    case (Inr children)
    let ?p1 = "expire_workers ops e rc now children p0"
    have "\<forall>c \<in> set children. sessionFinished e c \<longrightarrow> se_id c \<notin> se_id ` Y"
      using expire children_listed [OF Inr] by simp
    with assms(1) st have k1: "kept Y x s0 (ps_store ?p1)" by (intro kept_expire) simp_all
    obtain b p2 where a: "age_pass ops e status rc now ?p1 = (b, p2)" by force
    have "kept Y x s0 (ps_store (snd (age_pass ops e status rc now ?p1)))" by (rule kept_age_pass [OF k1 age [OF k1]])
    then have k2: "kept Y x s0 (ps_store p2)" by (simp add: a)
    then have "kept Y x s0 (ps_store (snd (budget_pass ops e status rc before p2)))" if "rn_maxBytes rc > 0"
      using kept_budget_pass [OF budget [OF that]] by blast
    with k1 k2 show ?thesis by (cases b) (simp_all add: MaintainStorage_def p0 Inr a Let_def)
  qed
qed

lemma witnessed_kept:
  assumes "ok s0" and "witness_rows e status s0 x Y" and "Y \<subseteq> set (rows s0)" and "x \<in> Y"
  shows "x \<in> set (rows (ps_store (snd (MaintainStorage ops e status rc now s0))))"
proof -
  have k0: "kept Y x s0 s0" using assms by (simp add: kept_def)
  have "se_id c \<notin> se_id ` Y" if "c \<in> set (rows s0)" "se_parent c \<noteq> []" "sessionFinished e c" for c
    using witness_child [OF assms(2) _ that(3,2)] same_row [OF assms(1) that(1)] assms(3) by (auto simp: image_iff)
  moreover have "se_id ` set (ca_session c # ca_children c) \<inter> se_id ` Y = {}"
    if "kept Y x s0 (ps_store p)" "candidates ops e status p = (Inr cs, p')" "c \<in> set cs" "acts rc now c" for p cs p' c
    using witness_off_limits [OF assms(2) that(1-3)] that(4) by (simp add: off_limits_def acts_def)
  ultimately have "kept Y x s0 (ps_store (snd (MaintainStorage ops e status rc now s0)))"
    by (intro kept_MaintainStorage [OF k0]) (use assms(2) in auto)
  then show ?thesis by (auto simp: kept_def)
qed

lemma recent_kept:
  assumes "ok s0" and "x \<in> set (rows s0)" and "se_parent x = []" and "se_archived x = None"
    and "now - se_updated x \<le> ArchiveWindow rc" and "rn_maxBytes rc \<le> 0"
  shows "x \<in> set (rows (ps_store (snd (MaintainStorage ops e status rc now s0))))"
proof -
  have k0: "kept {x} x s0 s0" using assms by (simp add: kept_def)
  have "se_id c \<notin> se_id ` {x}" if "c \<in> set (rows s0)" "se_parent c \<noteq> []" for c
    using same_row [OF assms(1) that(1) assms(2)] that(2) assms(3) by auto
  moreover have "se_id ` set (ca_session c # ca_children c) \<inter> se_id ` {x} = {}"
    if k: "kept {x} x s0 (ps_store p)" and c: "candidates ops e status p = (Inr cs, p')" "c \<in> set cs" and a: "acts rc now c" for p cs p' c
  proof -
    obtain kids where r: "so_children ops (ps_store p) = Inr kids" "ca_session c \<in> set (rows (ps_store p))"
      "ca_children c = filter (\<lambda>k. se_parent k = se_id (ca_session c)) kids"
      by (rule candidates_rows [OF c]) blast
    have x: "ok (ps_store p)" "x \<in> set (rows (ps_store p))" using k by (auto simp: kept_def)
    have "ca_session c \<noteq> x" using a assms(4,5) by (auto simp: acts_def)
    then have "se_id (ca_session c) \<noteq> se_id x" using same_row [OF x(1) r(2) x(2)] by blast
    moreover have "se_id k \<noteq> se_id x" if "k \<in> set (ca_children c)" for k
      using same_row [OF x(1) _ x(2), of k] that r(3) children_listed [OF r(1)] assms(3) by auto
    ultimately show ?thesis by force
  qed
  ultimately have "kept {x} x s0 (ps_store (snd (MaintainStorage ops e status rc now s0)))"
    by (intro kept_MaintainStorage [OF k0]) (use assms(6) in auto)
  then show ?thesis by (auto simp: kept_def)
qed

end

end
