(* ===== verification/Retention_Books.thy ===== *)
theory Retention_Books
  imports Retention_Props
begin

text \<open>
  The accounting of a retention pass, proved from the store's contract, then the SQLite store's
  model behind the contract and the two properties of the pass on it.
\<close>

section \<open>Accounting\<close>

context session_store
begin

text \<open>
  Accounting: the rows left are the rows there were without the deleted ones, each unchanged or
  archived by the pass.
\<close>

definition acct :: "'s \<Rightarrow> 's pass \<Rightarrow> bool" where
  "acct s0 p \<longleftrightarrow> ok (ps_store p)
     \<and> map se_id (rows (ps_store p)) = filter (\<lambda>i. i \<notin> set (ps_deleted p)) (map se_id (rows s0))
     \<and> distinct (ps_deleted p) \<and> set (ps_deleted p) \<subseteq> se_id ` set (rows s0) \<and> set (ps_scratch p) \<subseteq> set (ps_deleted p)
     \<and> (\<forall>x \<in> set (rows (ps_store p)). x \<in> set (rows s0)
          \<or> se_id x \<in> set (ps_archived p) \<and> (\<exists>x0 \<in> set (rows s0). \<exists>t. se_archived x0 = None \<and> x = x0\<lparr>se_archived := Some t\<rparr>))"

definition no_orphan :: "'s \<Rightarrow> 's \<Rightarrow> bool" where
  "no_orphan s0 s \<longleftrightarrow> (\<forall>y \<in> set (rows s0). \<forall>x \<in> set (rows s). se_parent y = [] \<longrightarrow> se_parent x = se_id y \<longrightarrow> (\<exists>z \<in> set (rows s). se_id z = se_id y))"

definition shrinks :: "'s \<Rightarrow> 's \<Rightarrow> bool" where
  "shrinks s s' \<longleftrightarrow> (\<forall>x' \<in> set (rows s'). \<exists>x \<in> set (rows s). se_id x = se_id x' \<and> se_parent x = se_parent x')"

definition cover :: "retention_candidate list \<Rightarrow> 's \<Rightarrow> bool" where
  "cover cs s \<longleftrightarrow> (\<forall>c \<in> set cs. \<forall>x \<in> set (rows s). se_parent x = se_id (ca_session c) \<longrightarrow> se_id x \<in> se_id ` set (ca_children c))"

definition books :: "'s \<Rightarrow> retention_candidate list \<Rightarrow> 's pass \<Rightarrow> bool" where
  "books s0 cs p \<longleftrightarrow> acct s0 p \<and> no_orphan s0 (ps_store p) \<and> cover cs (ps_store p)"

lemma shrinks_refl [simp]: "shrinks s s"
  unfolding shrinks_def by blast

lemma shrinks_trans: "shrinks a b \<Longrightarrow> shrinks b c \<Longrightarrow> shrinks a c"
  unfolding shrinks_def by metis

lemma shrinks_cover: "shrinks s s' \<Longrightarrow> cover cs s \<Longrightarrow> cover cs s'"
  unfolding shrinks_def cover_def by metis

lemma acct_err: "acct s0 (pass_err m p) = acct s0 p" "ps_store (pass_err m p) = ps_store p"
  by (simp_all add: acct_def pass_err_def)

lemma acct_delete:
  assumes "acct s0 p" and "so_delete ops sid (ps_store p) = (None, s')"
  shows "acct s0 (p\<lparr>ps_store := s', ps_deleted := ps_deleted p @ [sid]\<rparr>)"
proof -
  have d: "ok s'" "rows s' = filter (\<lambda>x. se_id x \<noteq> sid) (rows (ps_store p))" "sid \<in> se_id ` set (rows (ps_store p))"
    using delete_done [OF assms(2)] assms(1) by (auto simp: acct_def)
  have "map se_id (rows s') = filter (\<lambda>i. i \<noteq> sid) (map se_id (rows (ps_store p)))" by (simp add: d(2) filter_map comp_def)
  moreover have "sid \<in> set (map se_id (rows (ps_store p)))" using d(3) by simp
  ultimately show ?thesis using assms(1) d(1,2) unfolding acct_def by (auto simp: conj_commute)
qed

lemma delete_one_cases:
  assumes "delete_one ops sid p = (b, p')"
  obtains (deleted) s' where "b" "so_delete ops sid (ps_store p) = (None, s')" "p' = p\<lparr>ps_store := s', ps_deleted := ps_deleted p @ [sid]\<rparr>"
  | (failed) m where "\<not> b" "p' = pass_err m p"
proof (cases "so_delete ops sid (ps_store p)")
  case (Pair r s')
  then show thesis
  proof (cases r)
    case (Some err)
    then have "s' = ps_store p" using Pair delete_failed by blast
    then show thesis using assms Pair Some failed by (auto simp: delete_one_def)
  qed (use assms Pair deleted in \<open>auto simp: delete_one_def\<close>)
qed

lemma acct_delete_one:
  assumes "acct s0 p" and "delete_one ops sid p = (b, p')"
  shows "acct s0 p' \<and> shrinks (ps_store p) (ps_store p') \<and> set (ps_deleted p') = (if b then {sid} else {}) \<union> set (ps_deleted p)
    \<and> rows (ps_store p') = (if b then filter (\<lambda>x. se_id x \<noteq> sid) (rows (ps_store p)) else rows (ps_store p))"
  using assms(2)
proof (cases rule: delete_one_cases)
  case (deleted s')
  with acct_delete [OF assms(1) deleted(2)] delete_done [OF deleted(2)] assms(1) show ?thesis
    by (auto simp: acct_def shrinks_def)
next
  case (failed m)
  with assms(1) show ?thesis by (simp add: acct_err) (simp add: pass_err_def)
qed

lemma acct_remove_children:
  assumes "acct s0 p" and "remove_children ops cs p = (b, p')"
  shows "acct s0 p' \<and> shrinks (ps_store p) (ps_store p') \<and> (b \<longrightarrow> (\<forall>x \<in> set (rows (ps_store p')). se_id x \<notin> se_id ` set cs))
    \<and> (\<forall>x \<in> set (rows (ps_store p)). x \<in> set (rows (ps_store p')) \<or> se_id x \<in> se_id ` set cs)"
  using assms
proof (induction cs arbitrary: p)
  case Nil
  then show ?case by simp
next
  case (Cons c cs)
  obtain b1 p1 where d: "delete_one ops (se_id c) p = (b1, p1)" by force
  note one = acct_delete_one [OF Cons.prems(1) d]
  show ?case
  proof (cases b1)
    case False
    with Cons.prems(2) d have "b = False" "p' = p1" by auto
    with one False show ?thesis by simp
  next
    case True
    with Cons.prems(2) d have r: "remove_children ops cs p1 = (b, p')" by simp
    note rest = Cons.IH [OF conjunct1 [OF one] r]
    have gone: "\<forall>x \<in> set (rows (ps_store p')). se_id x \<noteq> se_id c"
      proof
      fix x assume "x \<in> set (rows (ps_store p'))"
      then obtain z where "z \<in> set (rows (ps_store p1))" "se_id z = se_id x" using rest unfolding shrinks_def by blast
      then show "se_id x \<noteq> se_id c" using one True by auto
    qed
    have "\<forall>x \<in> set (rows (ps_store p)). x \<in> set (rows (ps_store p')) \<or> se_id x \<in> se_id ` set (c # cs)"
      using one rest True by auto
    moreover have "shrinks (ps_store p) (ps_store p')" using rest one shrinks_trans by blast
    ultimately show ?thesis using rest gone by simp
  qed
qed

lemma no_orphan_children:
  assumes "no_orphan s0 s" and "shrinks s s'" and "\<forall>x \<in> set (rows s). se_parent x = [] \<longrightarrow> x \<in> set (rows s')"
    and "\<forall>x \<in> set (rows s). \<forall>y \<in> set (rows s0). se_id x = se_id y \<longrightarrow> se_parent x = se_parent y"
  shows "no_orphan s0 s'"
  unfolding no_orphan_def
proof (intro ballI impI)
  fix y x assume y: "y \<in> set (rows s0)" "se_parent y = []" and x: "x \<in> set (rows s')" "se_parent x = se_id y"
  obtain u where "u \<in> set (rows s)" "se_parent u = se_id y" using x assms(2) unfolding shrinks_def by metis
  then obtain z where z: "z \<in> set (rows s)" "se_id z = se_id y" using assms(1) y unfolding no_orphan_def by blast
  then have "se_parent z = []" using assms(4) y by simp
  with z assms(3) show "\<exists>z \<in> set (rows s'). se_id z = se_id y" by blast
qed

lemma acct_parents:
  assumes "acct s0 p" and "ok s0" and "x \<in> set (rows (ps_store p))" and "y \<in> set (rows s0)" and "se_id x = se_id y"
  shows "se_parent x = se_parent y"
proof -
  obtain z where "z \<in> set (rows s0)" "se_id z = se_id x" "se_parent z = se_parent x"
    using assms(1,3) unfolding acct_def by auto
  with same_row [OF assms(2) _ assms(4)] assms(5) show ?thesis by metis
qed

lemma books_delete_child:
  assumes "books s0 cs p" and "ok s0" and "\<forall>c \<in> set kids. se_parent c \<noteq> [] \<and> c \<in> set (rows s1)"
    and "\<forall>x \<in> set (rows (ps_store p)). \<exists>y \<in> set (rows s1). se_id y = se_id x \<and> se_parent y = se_parent x" and "ok s1"
    and "remove_children ops kids p = (b, p')"
  shows "books s0 cs p' \<and> shrinks (ps_store p) (ps_store p') \<and> (b \<longrightarrow> (\<forall>x \<in> set (rows (ps_store p')). se_id x \<notin> se_id ` set kids))"
proof -
  have a: "acct s0 p" "no_orphan s0 (ps_store p)" "cover cs (ps_store p)" using assms(1) by (auto simp: books_def)
  note r = acct_remove_children [OF a(1) assms(6)]
  have "x \<in> set (rows (ps_store p'))" if x: "x \<in> set (rows (ps_store p))" "se_parent x = []" for x
  proof (rule ccontr)
    assume "x \<notin> set (rows (ps_store p'))"
    with r x obtain c where c: "c \<in> set kids" "se_id x = se_id c" by auto
    from assms(4) x obtain y where "y \<in> set (rows s1)" "se_id y = se_id x" "se_parent y = []" by metis
    with same_row [OF assms(5), of y c] c assms(3) show False by auto
  qed
  then have "no_orphan s0 (ps_store p')"
    by (intro no_orphan_children [OF a(2)]) (use r acct_parents [OF a(1) assms(2)] in auto)
  with r a(3) shrinks_cover show ?thesis unfolding books_def by blast
qed

lemma no_orphan_delete_top:
  assumes "no_orphan s0 s" and "\<forall>x \<in> set (rows s). se_parent x \<noteq> sid" and "rows s' = filter (\<lambda>x. se_id x \<noteq> sid) (rows s)"
  shows "no_orphan s0 s'"
  unfolding no_orphan_def
proof (intro ballI impI)
  fix y x assume y: "y \<in> set (rows s0)" "se_parent y = []" and x: "x \<in> set (rows s')" "se_parent x = se_id y"
  then have xs: "x \<in> set (rows s)" using assms(3) by simp
  then obtain z where "z \<in> set (rows s)" "se_id z = se_id y" using assms(1) x y unfolding no_orphan_def by blast
  moreover have "se_id y \<noteq> sid" using assms(2) xs x(2) by auto
  ultimately show "\<exists>z \<in> set (rows s'). se_id z = se_id y" using assms(3) by auto
qed

lemma acct_scratch: "acct s0 p \<Longrightarrow> sid \<in> set (ps_deleted p) \<Longrightarrow> acct s0 (p\<lparr>ps_scratch := ps_scratch p @ [sid]\<rparr>)"
  by (simp add: acct_def)

text \<open>Removing a session with its children, when the list of children is complete.\<close>

lemma books_remove:
  assumes "books s0 cs p" and "ok s0" and "ok s1" and "\<forall>c \<in> set kids. se_parent c \<noteq> [] \<and> c \<in> set (rows s1)"
    and "\<forall>x \<in> set (rows (ps_store p)). \<exists>y \<in> set (rows s1). se_id y = se_id x \<and> se_parent y = se_parent x"
    and "se_parent t \<noteq> [] \<and> t \<in> set (rows s1)
      \<or> (\<forall>x \<in> set (rows (ps_store p)). se_parent x = se_id t \<longrightarrow> se_id x \<in> se_id ` set kids)"
  shows "books s0 cs (remove ops t kids p) \<and> shrinks (ps_store p) (ps_store (remove ops t kids p))"
proof -
  obtain b p1 where r: "remove_children ops kids p = (b, p1)" by force
  note c = books_delete_child [OF assms(1,2,4,5,3) r]
  obtain b2 p2 where d: "delete_one ops (se_id t) p1 = (b2, p2)" by force
  have a1: "acct s0 p1" using c by (simp add: books_def)
  note one = acct_delete_one [OF a1 d]
  have sh: "shrinks (ps_store p) (ps_store p2)" using c one shrinks_trans by blast
  have "no_orphan s0 (ps_store p2)" if b
  proof (cases "\<forall>x \<in> set (rows (ps_store p1)). se_parent x \<noteq> se_id t")
    case True
    have "no_orphan s0 (ps_store p1)" using c by (simp add: books_def)
    show ?thesis
    proof (cases b2)
      case b2: True
      show ?thesis by (rule no_orphan_delete_top [OF \<open>no_orphan s0 (ps_store p1)\<close> True]) (use one b2 in simp)
    next
      case False
      then have "rows (ps_store p2) = rows (ps_store p1)" using one by simp
      with \<open>no_orphan s0 (ps_store p1)\<close> show ?thesis by (simp add: no_orphan_def)
    qed
  next
    case False
    then obtain x where x: "x \<in> set (rows (ps_store p1))" "se_parent x = se_id t" by blast
    from c obtain z where z: "z \<in> set (rows (ps_store p))" "se_id z = se_id x" "se_parent z = se_parent x"
      unfolding shrinks_def using x(1) by metis
    from that c x(1) z have "\<not> (\<forall>x \<in> set (rows (ps_store p)). se_parent x = se_id t \<longrightarrow> se_id x \<in> se_id ` set kids)"
      using x(2) by metis
    with assms(6) have t: "se_parent t \<noteq> []" "t \<in> set (rows s1)" by auto
    have "\<forall>y \<in> set (rows (ps_store p1)). se_parent y = [] \<longrightarrow> y \<in> set (rows (ps_store p2))"
    proof (intro ballI impI)
      fix y assume y: "y \<in> set (rows (ps_store p1))" "se_parent y = []"
      obtain u where u: "u \<in> set (rows s1)" "se_id u = se_id y" "se_parent u = []"
        using c y assms(5) unfolding shrinks_def by metis
      have "se_id y \<noteq> se_id t" using same_row [OF assms(3) u(1) t(2)] u t(1) by auto
      then show "y \<in> set (rows (ps_store p2))" using one y(1) by auto
    qed
    moreover have "no_orphan s0 (ps_store p1)" "shrinks (ps_store p1) (ps_store p2)" using c one by (simp_all add: books_def)
    ultimately show ?thesis using acct_parents [OF a1 assms(2)] no_orphan_children by blast
  qed
  then have fin: "books s0 cs p2" if b using that one c shrinks_cover [of "ps_store p1" "ps_store p2"] by (auto simp: books_def)
  show ?thesis
  proof (cases "b \<and> b2 \<and> se_parent t = []")
    case True
    with one fin sh show ?thesis by (simp add: remove_def r d books_def acct_scratch)
  next
    case False
    then show ?thesis using c fin sh by (cases b; cases b2) (simp_all add: remove_def r d)
  qed
qed

lemma books_archive:
  assumes "books s0 cs p" and "ok s0" and "archive ops t p = (b, p')"
  shows "books s0 cs p' \<and> shrinks (ps_store p) (ps_store p')"
proof (cases b)
  case False
  then obtain m where "p' = pass_err m p"
    using assms(3) archive_failed [of "se_id t" "ps_store p"]
    by (auto simp: archive_def pass_err_def split: prod.splits option.splits)
  then show ?thesis using assms(1) by (simp add: books_def acct_err)
next
  case True
  then obtain s' where s': "so_archive ops (se_id t) (ps_store p) = (None, s')"
    and p': "p' = p\<lparr>ps_store := s', ps_archived := ps_archived p @ [se_id t]\<rparr>"
    using assms(3) by (auto simp: archive_def split: prod.splits option.splits)
  have a: "acct s0 p" "no_orphan s0 (ps_store p)" "cover cs (ps_store p)" using assms(1) by (auto simp: books_def)
  then obtain w where w: "ok s'" "rows s' = map (mark_archived (se_id t) w) (rows (ps_store p))"
    using archive_done [OF s'] by (auto simp: acct_def)
  have sh: "shrinks (ps_store p) s'" unfolding shrinks_def by (auto simp: w(2))
  have "no_orphan s0 s'" using a(2) unfolding no_orphan_def by (auto simp: w(2))
  moreover have "acct s0 p'"
  proof -
    have "x \<in> set (rows s0) \<or> se_id x \<in> set (ps_archived p') \<and> (\<exists>x0 \<in> set (rows s0). \<exists>t. se_archived x0 = None \<and> x = x0\<lparr>se_archived := Some t\<rparr>)"
      if x: "x \<in> set (rows s')" for x
    proof -
      obtain u where u: "u \<in> set (rows (ps_store p))" "x = mark_archived (se_id t) w u" using x by (auto simp: w(2))
      have "u \<in> set (rows s0) \<or> se_archived u \<noteq> None" using a(1) u(1) unfolding acct_def by auto
      moreover have "u \<in> set (rows s0) \<or> se_id u \<in> set (ps_archived p')
          \<and> (\<exists>x0 \<in> set (rows s0). \<exists>t. se_archived x0 = None \<and> u = x0\<lparr>se_archived := Some t\<rparr>)"
        using a(1) u(1) unfolding acct_def p' by auto
      ultimately show ?thesis unfolding u(2) mark_archived_def p' by (cases "se_archived u") auto
    qed
    moreover have "map se_id (rows s') = map se_id (rows (ps_store p))" by (simp add: w(2))
    ultimately show ?thesis using a(1) w(1) unfolding acct_def by (simp add: p')
  qed
  ultimately show ?thesis using shrinks_cover [OF sh a(3)] sh by (simp add: books_def p')
qed

lemma measure_store: "measure_usage ops p = (n, p') \<Longrightarrow> ps_store p' = ps_store p \<and> (books s0 cs p \<longrightarrow> books s0 cs p')"
  by (auto simp: measure_usage_def pass_err_def books_def acct_def split: sum.splits)

text \<open>Candidates listed at store \<open>s1\<close> know all their children there, and at every later store.\<close>

definition listed :: "'s \<Rightarrow> retention_candidate list \<Rightarrow> bool" where
  "listed s1 cs \<longleftrightarrow> ok s1 \<and> (\<forall>c \<in> set cs. \<forall>k \<in> set (ca_children c). se_parent k \<noteq> [] \<and> k \<in> set (rows s1))"

lemma candidates_listed:
  assumes "candidates ops e status p = (Inr cs, p')" and "books s0 [] p"
  shows "listed (ps_store p) cs \<and> books s0 cs p' \<and> ps_store p' = ps_store p"
proof -
  have st: "ps_store p' = ps_store p" using candidates_store [of e status p] assms(1) by simp
  obtain es where "p' = p\<lparr>ps_errs := es\<rparr>" using assms(1) by (auto simp: candidates_def Let_def split: sum.splits)
  then have b: "books s0 [] p'" using assms(2) by (simp add: books_def acct_def)
  have "cover cs (ps_store p)" unfolding cover_def
  proof (intro ballI impI)
    fix c x assume c: "c \<in> set cs" and x: "x \<in> set (rows (ps_store p))" "se_parent x = se_id (ca_session c)"
    obtain kids where k: "so_children ops (ps_store p) = Inr kids" "ca_session c \<in> set (rows (ps_store p))"
      "ca_children c = filter (\<lambda>k. se_parent k = se_id (ca_session c)) kids"
      by (rule candidates_rows [OF assms(1) c]) blast
    have "se_id (ca_session c) \<noteq> []" using ids [of "ps_store p"] assms(2) k(2) by (auto simp: books_def acct_def)
    with x k(3) children_listed [OF k(1)] have "x \<in> set (ca_children c)" by simp
    then show "se_id x \<in> se_id ` set (ca_children c)" by (rule imageI)
  qed
  moreover have "\<forall>c \<in> set cs. \<forall>k \<in> set (ca_children c). se_parent k \<noteq> [] \<and> k \<in> set (rows (ps_store p))"
  proof (intro ballI)
    fix c k assume c: "c \<in> set cs" "k \<in> set (ca_children c)"
    obtain kids where kids: "so_children ops (ps_store p) = Inr kids"
      "ca_children c = filter (\<lambda>k. se_parent k = se_id (ca_session c)) kids"
      by (rule candidates_rows [OF assms(1) c(1)]) blast
    from c(2) have "k \<in> set kids" by (simp add: kids(2))
    then show "se_parent k \<noteq> [] \<and> k \<in> set (rows (ps_store p))" using children_listed [OF kids(1)] by simp
  qed
  ultimately show ?thesis using b st by (simp add: books_def listed_def acct_def)
qed

lemma books_remove_candidate:
  assumes "books s0 cs p" and "ok s0" and "listed s1 cs" and "shrinks s1 (ps_store p)" and "c \<in> set cs"
  shows "books s0 cs (remove ops (ca_session c) (ca_children c) p)
    \<and> shrinks s1 (ps_store (remove ops (ca_session c) (ca_children c) p))"
proof -
  have "books s0 cs (remove ops (ca_session c) (ca_children c) p)
      \<and> shrinks (ps_store p) (ps_store (remove ops (ca_session c) (ca_children c) p))"
    by (rule books_remove [OF assms(1,2), of s1])
      (use assms in \<open>auto simp: listed_def shrinks_def books_def cover_def\<close>)
  with shrinks_trans [OF assms(4)] show ?thesis by blast
qed

lemma books_age_step:
  assumes "books s0 cs p" and "ok s0" and "listed s1 cs" and "shrinks s1 (ps_store p)" and "c \<in> set cs"
  shows "books s0 cs (age_step ops rc now c p) \<and> shrinks s1 (ps_store (age_step ops rc now c p))"
proof -
  have "books s0 cs (snd (archive ops (ca_session c) p)) \<and> shrinks s1 (ps_store (snd (archive ops (ca_session c) p)))"
    using books_archive [OF assms(1,2) prod.collapse [symmetric], of "ca_session c"] shrinks_trans [OF assms(4)] by blast
  with books_remove_candidate [OF assms] assms(1,4) show ?thesis by (simp add: age_step_def split: option.split)
qed

lemma books_age:
  assumes "books s0 cs p" and "ok s0" and "listed s1 cs" and "shrinks s1 (ps_store p)" and "set ds \<subseteq> set cs"
  shows "books s0 cs (fold (age_step ops rc now) ds p)"
  using assms(1,4,5)
proof (induction ds arbitrary: p)
  case (Cons d ds)
  have "books s0 cs (age_step ops rc now d p) \<and> shrinks s1 (ps_store (age_step ops rc now d p))"
    by (rule books_age_step [OF Cons.prems(1) assms(2,3) Cons.prems(2)]) (use Cons.prems(3) in simp)
  with Cons.IH Cons.prems(3) show ?case by simp
qed simp

lemma books_budget_archive:
  assumes "books s0 cs p" and "ok s0" and "shrinks s1 (ps_store p)" and "budget_archive ops goal ds n p = (n', p')"
  shows "books s0 cs p' \<and> shrinks s1 (ps_store p')"
  using assms(1,3,4)
proof (induction ds arbitrary: n p)
  case (Cons d ds)
  obtain b q where q: "archive ops (ca_session d) p = (b, q)" by force
  have k: "books s0 cs q" "shrinks s1 (ps_store q)"
    using books_archive [OF Cons.prems(1) assms(2) q] shrinks_trans [OF Cons.prems(2)] by blast+
  obtain m r where m: "measure_usage ops q = (m, r)" by force
  have k': "books s0 cs r" "shrinks s1 (ps_store r)" using measure_store [OF m, of s0 cs] k by simp_all
  show ?case
  proof (cases "n \<le> goal \<or> \<not> (ca_ok d \<and> se_archived (ca_session d) = None)")
    case True
    then show ?thesis using Cons by (auto split: if_splits)
  next
    case False
    then show ?thesis using Cons.prems(3) Cons.IH [OF k] Cons.IH [OF k'] by (cases b) (simp_all add: q m)
  qed
qed simp

lemma books_budget_delete:
  assumes "books s0 cs p" and "ok s0" and "listed s1 cs" and "shrinks s1 (ps_store p)" and "set ds \<subseteq> set cs"
    and "budget_delete ops goal ds n p = (n', p')"
  shows "books s0 cs p'"
  using assms(1,4,5,6)
proof (induction ds arbitrary: n p)
  case (Cons d ds)
  let ?r = "remove ops (ca_session d) (ca_children d) p"
  have k: "books s0 cs ?r" "shrinks s1 (ps_store ?r)"
    using books_remove_candidate [OF Cons.prems(1) assms(2,3) Cons.prems(2), of d] Cons.prems(3) by simp_all
  obtain m r where m: "measure_usage ops ?r = (m, r)" by force
  have k': "books s0 cs r" "shrinks s1 (ps_store r)" using measure_store [OF m, of s0 cs] k by simp_all
  show ?case
  proof (cases "n \<le> goal \<or> \<not> ca_ok d \<or> \<not> archived_now ops (se_id (ca_session d)) (ps_store p)")
    case True
    then show ?thesis using Cons by (auto split: if_splits)
  next
    case False
    then show ?thesis using Cons.prems(3,4) Cons.IH [OF k'] by (simp add: m)
  qed
qed simp

lemma books_weaken: "books s0 cs p \<Longrightarrow> books s0 [] p"
  by (simp add: books_def cover_def)

lemma books_expire:
  assumes "books s0 [] p" and "ok s0" and "shrinks s0 (ps_store p)" and "\<forall>c \<in> set cs. se_parent c \<noteq> [] \<and> c \<in> set (rows s0)"
  shows "books s0 [] (expire_workers ops e rc now cs p)"
  using assms(1,3,4)
proof (induction cs arbitrary: p)
  case (Cons c cs)
  have r: "books s0 [] (remove ops c [] p) \<and> shrinks (ps_store p) (ps_store (remove ops c [] p))"
    by (rule books_remove [OF Cons.prems(1) assms(2,2)]) (use Cons.prems(2,3) in \<open>auto simp: shrinks_def\<close>)
  with shrinks_trans [OF Cons.prems(2)] have "shrinks s0 (ps_store (remove ops c [] p))" by blast
  with r Cons show ?case by (simp add: expire_workers_def)
qed (simp add: expire_workers_def)

lemma books_candidates:
  assumes "books s0 [] p" and "candidates ops e status p = (Inl err, p')"
  shows "p' = p"
  using assms(2) by (auto simp: candidates_def Let_def split: sum.splits)

lemma books_age_pass:
  assumes "books s0 [] p" and "ok s0" and "age_pass ops e status rc now p = (b, p')"
  shows "books s0 [] p'"
proof -
  obtain r q where c: "candidates ops e status p = (r, q)" by force
  show ?thesis
  proof (cases r)
    case (Inl err)
    then have "q = p" using books_candidates [OF assms(1)] c by blast
    with assms c Inl show ?thesis by (auto simp: age_pass_def books_def acct_err)
  next
    case (Inr cs)
    with c have l: "listed (ps_store p) cs" "books s0 cs q" "ps_store q = ps_store p" using candidates_listed [OF _ assms(1)] by blast+
    have "books s0 cs (fold (age_step ops rc now) cs q)" by (rule books_age [OF l(2) assms(2) l(1)]) (simp_all add: l(3))
    with books_weaken assms(3) c Inr show ?thesis by (auto simp: age_pass_def)
  qed
qed

definition reported :: "'s \<Rightarrow> retention_report \<times> 's pass \<Rightarrow> bool" where
  "reported s0 r \<longleftrightarrow> books s0 [] (snd r) \<and> rr_archived (fst r) = ps_archived (snd r) \<and> rr_deleted (fst r) = ps_deleted (snd r)"

lemma reported_report_of: "books s0 cs p \<Longrightarrow> reported s0 (report_of p before after over, p)"
  by (simp add: reported_def report_of_def books_weaken)

lemma reported_budget_pass:
  assumes "books s0 [] p" and "ok s0"
  shows "reported s0 (budget_pass ops e status rc before p)"
proof -
  have fin: "reported s0 (case measure_usage ops q of (after, q') \<Rightarrow> (report_of q' before after (after > rn_maxBytes rc), q'))"
    if "books s0 cs q" for cs q
    using measure_store [of q _ _ s0 cs] that by (auto intro: reported_report_of split: prod.split)
  obtain n p1 where m: "measure_usage ops p = (n, p1)" by force
  have b1: "books s0 [] p1" using measure_store [OF m] assms(1) by blast
  obtain r p2 where c: "candidates ops e status p1 = (r, p2)" by force
  show ?thesis
  proof (cases r)
    case (Inl err)
    then have "p2 = p1" using books_candidates [OF b1] c by blast
    then have "books s0 [] (pass_err (''list sessions: '' @ err) p2)" using b1 by (simp add: books_def acct_err)
    then show ?thesis using fin [OF b1] by (simp add: budget_pass_def m c Inl Let_def reported_report_of)
  next
    case (Inr cs)
    with c have l: "listed (ps_store p1) cs" "books s0 cs p2" "ps_store p2 = ps_store p1" using candidates_listed [OF _ b1] by blast+
    obtain n3 p3 where a: "budget_archive ops (budget_target rc) cs n p2 = (n3, p3)" by force
    have b3: "books s0 cs p3 \<and> shrinks (ps_store p1) (ps_store p3)"
      by (rule books_budget_archive [OF l(2) assms(2) _ a]) (simp add: l(3))
    obtain n4 p4 where d: "budget_delete ops (budget_target rc) cs n3 p3 = (n4, p4)" by force
    have "books s0 cs p4" by (rule books_budget_delete [OF _ assms(2) l(1) _ _ d]) (use b3 in simp_all)
    then show ?thesis using fin [OF b1] fin [of cs p4] by (simp add: budget_pass_def m c Inr a d Let_def)
  qed
qed

lemma reported_MaintainStorage:
  assumes "ok s0"
  shows "reported s0 (MaintainStorage ops e status rc now s0)"
proof -
  obtain can before p0 where p0: "(if so_archiver ops
             then (case so_usage ops s0 of
                     Inl err \<Rightarrow> (False, 0, pass_err (''measure store: '' @ err) (start_pass s0))
                   | Inr n \<Rightarrow> (True, n, start_pass s0))
             else (False, 0, start_pass s0)) = (can, before, p0)" by (metis prod.collapse)
  have "books s0 [] (start_pass s0)"
    using assms by (auto simp: books_def acct_def start_pass_def no_orphan_def cover_def filter_id_conv)
  then have b0: "books s0 [] p0" and st: "ps_store p0 = s0"
    using p0 by (auto simp: books_def acct_err start_pass_def split: if_splits sum.splits)
  show ?thesis
  proof (cases "so_children ops s0")
    case (Inl err)
    have "books s0 [] (p0\<lparr>ps_errs := [''list child sessions: '' @ err]\<rparr>)" using b0 by (simp add: books_def acct_def)
    then show ?thesis by (simp add: MaintainStorage_def p0 Inl reported_def report_of_def)
  next
    case (Inr children)
    let ?p1 = "expire_workers ops e rc now children p0"
    have b1: "books s0 [] ?p1"
      by (rule books_expire [OF b0 assms]) (use st children_listed [OF Inr] in auto)
    obtain b p2 where a: "age_pass ops e status rc now ?p1 = (b, p2)" by force
    have b2: "books s0 [] p2" by (rule books_age_pass [OF b1 assms a])
    show ?thesis
      using reported_report_of [OF b1] reported_report_of [OF b2] reported_budget_pass [OF b2 assms]
      by (cases b) (simp_all add: MaintainStorage_def p0 Inr a Let_def)
  qed
qed

end

section \<open>The SQLite store behind the interface\<close>

definition MemoryWatermark :: "string \<Rightarrow> session_db \<Rightarrow> int" where
  "MemoryWatermark sid db =
     (case List.find (\<lambda>r. dr_table r = ''memory_watermarks'' \<and> dr_session r = sid) (db_rows db) of Some r \<Rightarrow> dr_seq r | None \<Rightarrow> 0)"

definition EventsAfter :: "(string \<Rightarrow> event) \<Rightarrow> string \<Rightarrow> int \<Rightarrow> session_db \<Rightarrow> event list" where
  "EventsAfter decode sid after db =
     map (decode \<circ> dr_content)
       (sort_key dr_seq (filter (\<lambda>r. dr_table r = ''events'' \<and> dr_session r = sid \<and> dr_seq r > after) (db_rows db)))"

text \<open>
  Any query may fail with an error of the database: \<open>wfail\<close> decides it for the transactions, from
  the operation, the session and the database at that moment, \<open>rfail\<close> for the reads.
\<close>

definition or_fail :: "string option \<Rightarrow> 'a \<Rightarrow> string + 'a" where
  "or_fail io x = (case io of Some err \<Rightarrow> Inl err | None \<Rightarrow> Inr x)"

definition db_ops ::
  "(string \<Rightarrow> string \<Rightarrow> session_db \<Rightarrow> string option) \<Rightarrow> (string \<Rightarrow> string \<Rightarrow> string option) \<Rightarrow> (string list list \<Rightarrow> string)
    \<Rightarrow> (string \<Rightarrow> event) \<Rightarrow> (session_db \<Rightarrow> string + int) \<Rightarrow> int \<Rightarrow> session_db store_ops" where
  "db_ops wfail rfail enc decode usage now =
     \<lparr>so_archiver = True,
      so_sessions = (\<lambda>db. or_fail (rfail ''Sessions'' []) (Sessions db)),
      so_children = (\<lambda>db. or_fail (rfail ''ChildSessions'' []) (ChildSessions db)),
      so_session = Session,
      so_delete = (\<lambda>sid db. DeleteSession (wfail ''DeleteSession'' sid db) sid db),
      so_archive = (\<lambda>sid db. ArchiveSession enc now (wfail ''ArchiveSession'' sid db) sid db db),
      so_usage = usage,
      so_watermark = (\<lambda>sid db. or_fail (rfail ''MemoryWatermark'' sid) (MemoryWatermark sid db)),
      so_events = (\<lambda>sid n db. or_fail (rfail ''EventsAfter'' sid) (EventsAfter decode sid n db))\<rparr>"

definition db_ok :: "session_db \<Rightarrow> bool" where
  "db_ok db \<longleftrightarrow> distinct (map se_id (db_sessions db)) \<and> list_all (\<lambda>x. se_id x \<noteq> []) (db_sessions db)"

lemma db_reads_clear:
  assumes "k \<noteq> sid"
  shows "MemoryWatermark k (db\<lparr>db_sessions := ss, db_rows := clear_rows tables sid (db_rows db), db_archives := as\<rparr>) = MemoryWatermark k db"
    and "EventsAfter decode k n (db\<lparr>db_sessions := ss, db_rows := clear_rows tables sid (db_rows db), db_archives := as\<rparr>)
      = EventsAfter decode k n db"
proof -
  have "List.find (\<lambda>r. P r \<and> dr_session r = k) (clear_rows tables sid rows) = List.find (\<lambda>r. P r \<and> dr_session r = k) rows" for rows P
    using assms by (induction rows) (auto simp: clear_rows_def)
  then show "MemoryWatermark k (db\<lparr>db_sessions := ss, db_rows := clear_rows tables sid (db_rows db), db_archives := as\<rparr>) = MemoryWatermark k db"
    by (simp add: MemoryWatermark_def)
  have "filter (\<lambda>r. dr_table r = ''events'' \<and> dr_session r = k \<and> dr_seq r > n) (clear_rows tables sid rows)
      = filter (\<lambda>r. dr_table r = ''events'' \<and> dr_session r = k \<and> dr_seq r > n) rows" for rows
    using assms by (auto simp: clear_rows_def intro!: filter_cong)
  then show "EventsAfter decode k n (db\<lparr>db_sessions := ss, db_rows := clear_rows tables sid (db_rows db), db_archives := as\<rparr>)
      = EventsAfter decode k n db"
    by (simp add: EventsAfter_def)
qed

lemma Session_row: "Session sid db = Inr x \<Longrightarrow> x \<in> set (db_sessions db) \<and> se_id x = sid"
  by (auto simp: Session_def find_Some_iff split: option.splits)

lemma ArchiveSession_rows:
  assumes "ArchiveSession enc now io sid db db = (None, db')" and "db_ok db"
  shows "db_ok db' \<and> db_sessions db' = map (mark_archived sid now) (db_sessions db)"
proof -
  obtain x where x: "Session sid db = Inr x" using assms(1) by (auto simp: ArchiveSession_def split: sum.splits)
  have only: "y = x" if "y \<in> set (db_sessions db)" "se_id y = sid" for y
    using Session_row [OF x] that assms(2) by (auto simp: db_ok_def distinct_map dest: inj_onD)
  show ?thesis
  proof (cases "se_archived x")
    case None
    then have "db_sessions db' = map (\<lambda>z. if se_id z = sid then z\<lparr>se_archived := Some now\<rparr> else z) (db_sessions db)"
      using assms(1) x by (auto simp: ArchiveSession_def split: option.splits)
    moreover have "\<dots> = map (mark_archived sid now) (db_sessions db)"
      using only None by (auto simp: mark_archived_def)
    ultimately show ?thesis using assms(2) by (simp add: db_ok_def list_all_iff comp_def)
  next
    case (Some t)
    then have "db' = db" using assms(1) x by (simp add: ArchiveSession_def)
    moreover have "map (mark_archived sid now) (db_sessions db) = db_sessions db"
      using only Some by (intro map_idI) (auto simp: mark_archived_def)
    ultimately show ?thesis using assms(2) by simp
  qed
qed

lemma ArchiveSession_cases:
  "ArchiveSession enc now io sid db db = (r, db')
   \<Longrightarrow> db' = db \<or> r = None \<and> db' = db\<lparr>db_sessions := map (\<lambda>z. if se_id z = sid then z\<lparr>se_archived := Some now\<rparr> else z) (db_sessions db),
        db_rows := clear_rows cleared_tables sid (db_rows db), db_archives := (sid, enc (session_archive db sid)) # db_archives db\<rparr>"
  by (auto simp: ArchiveSession_def split: sum.splits option.splits if_splits)

lemma DeleteSession_cases:
  "DeleteSession io sid db = (r, db')
   \<Longrightarrow> r \<noteq> None \<and> db' = db \<or> r = None \<and> sid \<in> se_id ` set (db_sessions db) \<and> db' = db\<lparr>db_sessions := filter (\<lambda>x. se_id x \<noteq> sid) (db_sessions db),
        db_rows := clear_rows deleted_tables sid (db_rows db), db_archives := filter (\<lambda>(k, _). k \<noteq> sid) (db_archives db)\<rparr>"
  by (auto simp: DeleteSession_def list_ex_iff split: option.splits if_splits)

interpretation sqlite: session_store "db_ops wfail rfail enc decode usage now" db_sessions db_ok
  for wfail rfail enc decode usage now
proof (unfold_locales, goal_cases)
  case (1 s)
  then show ?case by (simp add: db_ok_def list_all_iff)
next
  case (2 s l)
  then show ?case by (auto simp: db_ops_def or_fail_def Sessions_def sessionsWhere_def split: option.splits)
next
  case (3 s l)
  then show ?case by (auto simp: db_ops_def or_fail_def ChildSessions_def sessionsWhere_def split: option.splits)
next
  case (4 sid s s')
  then have "DeleteSession (wfail ''DeleteSession'' sid s) sid s = (None, s')" by (simp add: db_ops_def)
  from DeleteSession_cases [OF this] 4(2) show ?case
    by (auto simp: db_ok_def list_all_iff intro!: distinct_map_filter)
next
  case (5 sid s e s')
  then have "DeleteSession (wfail ''DeleteSession'' sid s) sid s = (Some e, s')" by (simp add: db_ops_def)
  from DeleteSession_cases [OF this] show ?case by auto
next
  case (6 sid s s')
  then have "ArchiveSession enc now (wfail ''ArchiveSession'' sid s) sid s s = (None, s')" by (simp add: db_ops_def)
  from ArchiveSession_rows [OF this 6(2)] show ?case by blast
next
  case (7 sid s e s')
  then have "ArchiveSession enc now (wfail ''ArchiveSession'' sid s) sid s s = (Some e, s')" by (simp add: db_ops_def)
  from ArchiveSession_cases [OF this] show ?case by auto
next
  case (8 sid s s' k n)
  then have "DeleteSession (wfail ''DeleteSession'' sid s) sid s = (None, s')" by (simp add: db_ops_def)
  from DeleteSession_cases [OF this] 8(2) show ?case by (auto simp: db_ops_def db_reads_clear)
next
  case (9 sid s s' k n)
  then have "ArchiveSession enc now (wfail ''ArchiveSession'' sid s) sid s s = (None, s')" by (simp add: db_ops_def)
  from ArchiveSession_cases [OF this] 9(2) show ?case by (auto simp: db_ops_def db_reads_clear)
qed

section \<open>What a pass never touches\<close>

text \<open>A session that is running, waiting for a person, active in this engine or has a running turn; the reasons that protect a session in the database \<open>db\<close>.\<close>

definition busy :: "engine_turns \<Rightarrow> session \<Rightarrow> bool" where
  "busy e x \<longleftrightarrow>
     se_status x = ''running'' \<or> se_status x = ''input_required'' \<or> se_id x \<in> set (en_active e) \<or> en_running e (se_id x) > 0"

lemma busy_iff: "busy e x \<longleftrightarrow> \<not> sessionFinished e x"
  by (auto simp: busy_def sessionFinished_def sessionIdle_def)

definition protected ::
  "session_db store_ops \<Rightarrow> engine_turns \<Rightarrow> (string \<Rightarrow> string option) \<Rightarrow> retention_config \<Rightarrow> int \<Rightarrow> session_db \<Rightarrow> session \<Rightarrow> bool" where
  "protected ops e status rc now db x \<longleftrightarrow>
     busy e x
     \<or> se_parent x = [] \<and>
        (list_ex (\<lambda>c. se_parent c = se_id x \<and> busy e c) (db_sessions db)
         \<or> se_archived x = None \<and> memoryPending ops status (se_id x) db \<noteq> Inr False
         \<or> se_archived x = None \<and> now - se_updated x \<le> ArchiveWindow rc \<and> rn_maxBytes rc \<le> 0)"

text \<open>
  Claim C9. Whatever the retention settings and whichever database operations fail, a pass leaves in the store,
  unchanged, every session that is running, active in the engine or waiting for input, every top-level
  session with such a child, every unarchived top-level session whose memory extraction is pending
  or cannot be checked, and, when there is no size budget, every unarchived top-level session
  updated within the archive window.
\<close>

theorem retention_protects:
  assumes "db_ok db" and "x \<in> set (db_sessions db)" and "protected (db_ops wfail rfail enc decode usage stamp) e status rc now db x"
  shows "x \<in> set (db_sessions (ps_store (snd (MaintainStorage (db_ops wfail rfail enc decode usage stamp) e status rc now db))))"
proof (cases "se_parent x = [] \<and> se_archived x = None \<and> now - se_updated x \<le> ArchiveWindow rc \<and> rn_maxBytes rc \<le> 0")
  case True
  then show ?thesis using sqlite.recent_kept [OF assms(1,2)] by blast
next
  case False
  have nonempty: "se_id x \<noteq> []" using assms(1,2) by (simp add: db_ok_def list_all_iff)
  obtain Y where Y: "sqlite.witness_rows wfail rfail enc decode usage stamp e status db x Y" "Y \<subseteq> set (db_sessions db)" "x \<in> Y"
  proof (cases "se_parent x = [] \<and> list_ex (\<lambda>c. se_parent c = se_id x \<and> \<not> sessionFinished e c) (db_sessions db)")
    case True
    then obtain c where c: "c \<in> set (db_sessions db)" "se_parent c = se_id x" "\<not> sessionFinished e c" by (auto simp: list_ex_iff)
    show thesis by (rule that [of "{x, c}"]) (use True c nonempty assms(2) in \<open>auto simp: sqlite.witness_rows_def\<close>)
  next
    case 2: False
    show thesis by (rule that [of "{x}"]) (use False 2 assms(2,3) nonempty in \<open>auto simp: sqlite.witness_rows_def protected_def busy_iff\<close>)
  qed
  show ?thesis by (rule sqlite.witnessed_kept [OF assms(1) Y])
qed

definition demo_sessions :: "session list" where
  "demo_sessions =
     [\<lparr>se_id = ''a'', se_parent = [], se_status = ''pass'', se_updated = 5, se_archived = None\<rparr>,
      \<lparr>se_id = ''b'', se_parent = ''a'', se_status = ''input_required'', se_updated = 5, se_archived = None\<rparr>,
      \<lparr>se_id = ''c'', se_parent = ''a'', se_status = ''pass'', se_updated = 5, se_archived = None\<rparr>,
      \<lparr>se_id = ''d'', se_parent = [], se_status = ''fail'', se_updated = 5, se_archived = Some 7\<rparr>]"

definition demo_pass :: "retention_report \<times> session_db pass" where
  "demo_pass =
     MaintainStorage (db_ops (\<lambda>_ _ _. None) (\<lambda>_ _. None) demo_enc (\<lambda>_. \<lparr>ev_type = [], ev_data = []\<rparr>) (\<lambda>_. Inr 0) 9)
       \<lparr>en_active = [], en_running = (\<lambda>_. 0)\<rparr> (\<lambda>_. None)
       \<lparr>rn_workerAfter = 10, rn_archiveAfter = 10, rn_deleteAfter = 10, rn_maxBytes = 0, rn_highWater = 0\<rparr> 1000
       \<lparr>db_sessions = demo_sessions, db_rows = [], db_archives = []\<rparr>"

theorem retention_protects_witness:
  "hd demo_sessions \<in> set (db_sessions (ps_store (snd demo_pass)))"
  unfolding demo_pass_def
proof (rule retention_protects)
  show "db_ok \<lparr>db_sessions = demo_sessions, db_rows = [], db_archives = []\<rparr>" by code_simp
qed (simp_all add: demo_sessions_def protected_def busy_def)

text \<open>
  Claim C18. The report of a pass accounts for everything it did to the sessions: each deleted session was there and is listed once, the sessions
  left are exactly those not listed as deleted, in their order, each of them is unchanged or was
  listed as archived and only marked as archived, scratch directories are removed only of deleted
  sessions, and no session is left whose top-level parent the pass deleted.
\<close>

theorem retention_report_accounts:
  assumes "db_ok db" and "MaintainStorage (db_ops wfail rfail enc decode usage stamp) e status rc now db = (rep, p)"
  shows "distinct (rr_deleted rep) \<and> set (rr_deleted rep) \<subseteq> se_id ` set (db_sessions db)
    \<and> map se_id (db_sessions (ps_store p)) = filter (\<lambda>i. i \<notin> set (rr_deleted rep)) (map se_id (db_sessions db))
    \<and> (\<forall>x \<in> set (db_sessions (ps_store p)). x \<in> set (db_sessions db)
         \<or> se_id x \<in> set (rr_archived rep) \<and> (\<exists>x0 \<in> set (db_sessions db). \<exists>t. se_archived x0 = None \<and> x = x0\<lparr>se_archived := Some t\<rparr>))
    \<and> set (ps_scratch p) \<subseteq> set (rr_deleted rep)
    \<and> (\<forall>y \<in> set (db_sessions db). \<forall>x \<in> set (db_sessions (ps_store p)).
         se_parent y = [] \<and> se_parent x = se_id y \<longrightarrow> se_id y \<notin> set (rr_deleted rep))"
proof -
  have r: "sqlite.acct db p" "sqlite.no_orphan db (ps_store p)" "rr_deleted rep = ps_deleted p" "rr_archived rep = ps_archived p"
    using sqlite.reported_MaintainStorage [OF assms(1), of wfail rfail enc decode usage stamp e status rc now] assms(2)
    by (simp_all add: sqlite.reported_def sqlite.books_def)
  have "se_id y \<notin> set (ps_deleted p)"
    if xy: "y \<in> set (db_sessions db)" "x \<in> set (db_sessions (ps_store p))" "se_parent y = []" "se_parent x = se_id y" for x y
  proof -
    obtain z where "z \<in> set (db_sessions (ps_store p))" "se_id z = se_id y" using r(2) xy unfolding sqlite.no_orphan_def by blast
    then have "se_id y \<in> set (map se_id (db_sessions (ps_store p)))" by (metis image_eqI set_map)
    then show ?thesis using r(1) unfolding sqlite.acct_def by simp
  qed
  with r show ?thesis unfolding sqlite.acct_def by auto
qed

theorem retention_report_accounts_witness:
  "rr_deleted (fst demo_pass) = [''c'', ''d''] \<and> map se_id (db_sessions (ps_store (snd demo_pass))) = [''a'', ''b'']"
proof -
  have ok: "db_ok \<lparr>db_sessions = demo_sessions, db_rows = [], db_archives = []\<rparr>" by code_simp
  have "rr_deleted (fst demo_pass) = [''c'', ''d'']" by code_simp
  then show ?thesis
    using retention_report_accounts [OF ok prod.collapse [symmetric], of "\<lambda>_ _ _. None" "\<lambda>_ _. None" demo_enc "\<lambda>_. \<lparr>ev_type = [], ev_data = []\<rparr>"
      "\<lambda>_. Inr 0" 9 "\<lparr>en_active = [], en_running = (\<lambda>_. 0)\<rparr>" "\<lambda>_. None"
      "\<lparr>rn_workerAfter = 10, rn_archiveAfter = 10, rn_deleteAfter = 10, rn_maxBytes = 0, rn_highWater = 0\<rparr>" 1000, folded demo_pass_def]
    by (simp add: demo_sessions_def)
qed

end
