(* ===== verification/Conversation_Store.thy ===== *)
theory Conversation_Store
  imports Work_Items Go_Float
begin

text \<open>
  The conversation tables of the SQLite store, \<^verbatim>\<open>internal/store/store.go\<close>: sessions, events,
  messages, request receipts, queued messages, todos, work items, continuations, pending inputs,
  checkpoints and the cache ledger. A table is the list of its rows in the order of their row
  numbers. The store has one connection, so an operation runs as one step; a transaction commits or,
  on any error, leaves the tables as they were. The constraints of the schema (primary keys, unique
  indexes, references to sessions) are errors of the operations that would break them.

  What an operation takes from outside is the record \<open>E\<close>: the time, whether the database fails, the
  process, which processes live, the JSON encoding of a string, the title derived from a task, and
  the identifiers \<^verbatim>\<open>uuid.NewString\<close> returns. JSON columns that the store reads back (a checkpoint's
  snapshots, choices) are kept decoded; an undecodable text is \<open>None\<close>. Times are instants.
\<close>

section \<open>Tables\<close>

record session_row =
  sr_id :: string
  sr_spec :: string
  sr_title :: string
  sr_summary :: string
  sr_phase :: string
  sr_model :: string
  sr_status :: string
  sr_integration :: string
  sr_externalID :: string
  sr_incarnation :: string
  sr_workspace :: string
  sr_ownership :: string
  sr_parent :: string
  sr_context :: string
  sr_request :: string
  sr_turn :: int
  sr_spent :: float64
  sr_budget :: float64
  sr_created :: int
  sr_updated :: int
  sr_archived :: go_time
  sr_latest :: string
  sr_owner :: int

record event_row =
  er_session :: string
  er_seq :: nat
  er_turn :: string
  er_type :: string
  er_data :: string
  er_created :: int

record message_row =
  ms_session :: string
  ms_role :: string
  ms_content :: string
  ms_created :: int

record receipt =
  rp_session :: string
  rp_request :: string
  rp_kind :: string
  rp_turn :: string
  rp_hash :: string
  rp_accepted :: int
  rp_duplicate :: bool

record queued_message =
  qm_session :: string
  qm_request :: string
  qm_content :: string
  qm_attachments :: string
  qm_source :: string
  qm_hash :: string
  qm_created :: int

record continuation =
  ct_session :: string
  ct_active :: string
  ct_report :: bool
  ct_resolved :: "string list"
  ct_updated :: int

record pending_input =
  pi_id :: string
  pi_session :: string
  pi_question :: string
  pi_choices :: "string list"
  pi_freeform :: bool
  pi_status :: string
  pi_answer :: string
  pi_created :: int
  pi_answered :: go_time

record checkpoint =
  cp_id :: string
  cp_session :: string
  cp_label :: string
  cp_reason :: string
  cp_snap :: "session_row option"
  cp_messages :: "message_row list option"
  cp_todos :: "todo list option"
  cp_pending :: "pending_input list"
  cp_items :: "work_item list option option"
  cp_cont :: "continuation option"
  cp_created :: int

record cache_row =
  ch_session :: string
  ch_model :: string
  ch_tokens :: int
  ch_hit :: go_time
  ch_ttl :: int

record store_db =
  t_sessions :: "session_row list"
  t_events :: "event_row list"
  t_messages :: "message_row list"
  t_receipts :: "receipt list"
  t_queued :: "queued_message list"
  t_todos :: "(string \<times> todo) list"
  t_items :: "work_item list"
  t_conts :: "continuation list"
  t_pending :: "pending_input list"
  t_checkpoints :: "checkpoint list"
  t_cache :: "cache_row list"

record store_env =
  sv_now :: int
  sv_io :: "string option"
  sv_pid :: int
  sv_alive :: "int \<Rightarrow> bool"
  sv_quote :: "string \<Rightarrow> string"
  sv_title :: "string \<Rightarrow> string"
  sv_uni :: "string \<Rightarrow> string"
  sv_fresh :: "nat \<Rightarrow> string"

type_synonym 'a store_op = "store_db \<Rightarrow> (string + 'a) \<times> store_db"

text \<open>A message as callers pass it: its JSON text, and its \<^verbatim>\<open>content\<close> and \<^verbatim>\<open>harness\<close> fields.\<close>

record message_content =
  mc_json :: string
  mc_text :: string
  mc_harness :: bool

section \<open>Helpers\<close>

definition sql_no_rows :: string where
  "sql_no_rows = ''sql: no rows in result set''"

definition fk_failed :: string where
  "fk_failed = ''FOREIGN KEY constraint failed''"

definition unique_failed :: string where
  "unique_failed = ''UNIQUE constraint failed''"

definition known :: "store_db \<Rightarrow> string \<Rightarrow> bool" where
  "known db sid = list_ex (\<lambda>x. sr_id x = sid) (t_sessions db)"

definition tx :: "store_env \<Rightarrow> ('s \<Rightarrow> (string + 'a) \<times> 's) \<Rightarrow> 's \<Rightarrow> (string + 'a) \<times> 's" where
  "tx E body db =
     (case sv_io E of
        Some err \<Rightarrow> (Inl err, db)
      | None \<Rightarrow> (case body db of (Inl err, _) \<Rightarrow> (Inl err, db) | (Inr x, db') \<Rightarrow> (Inr x, db')))"

definition json_object :: "store_env \<Rightarrow> (string \<times> string) list \<Rightarrow> string" where
  "json_object E kvs = ''{'' @ join_str '','' (map (\<lambda>(k, v). sv_quote E k @ '':'' @ v) kvs) @ ''}''"

definition json_list :: "string list \<Rightarrow> string" where
  "json_list xs = ''['' @ join_str '','' xs @ '']''"

definition json_bool :: "bool \<Rightarrow> string" where
  "json_bool b = (if b then ''true'' else ''false'')"

definition update_session :: "string \<Rightarrow> (session_row \<Rightarrow> session_row) \<Rightarrow> store_db \<Rightarrow> store_db" where
  "update_session sid f db = db\<lparr>t_sessions := map (\<lambda>x. if sr_id x = sid then f x else x) (t_sessions db)\<rparr>"

definition next_seq :: "store_db \<Rightarrow> string \<Rightarrow> nat" where
  "next_seq db sid = Suc (fold max (map er_seq (filter (\<lambda>e. er_session e = sid) (t_events db))) 0)"

definition append_event :: "store_env \<Rightarrow> string \<Rightarrow> string \<Rightarrow> string \<Rightarrow> string \<Rightarrow> store_db \<Rightarrow> store_db" where
  "append_event E sid turnID typ data db =
     db\<lparr>t_events := t_events db @ [\<lparr>er_session = sid, er_seq = next_seq db sid, er_turn = turnID, er_type = typ, er_data = data, er_created = sv_now E\<rparr>]\<rparr>"

definition append_message :: "string \<Rightarrow> string \<Rightarrow> string \<Rightarrow> int \<Rightarrow> store_db \<Rightarrow> store_db" where
  "append_message sid role content created db =
     db\<lparr>t_messages := t_messages db @ [\<lparr>ms_session = sid, ms_role = role, ms_content = content, ms_created = created\<rparr>]\<rparr>"

section \<open>Sessions\<close>

definition SessionRow :: "string \<Rightarrow> store_db \<Rightarrow> string + session_row" where
  "SessionRow sid db = (case List.find (\<lambda>x. sr_id x = sid) (t_sessions db) of Some x \<Rightarrow> Inr x | None \<Rightarrow> Inl sql_no_rows)"

definition ownerPID :: "store_env \<Rightarrow> string \<Rightarrow> int" where
  "ownerPID E status = (if status = ''running'' then sv_pid E else 0)"

definition or_default :: "string \<Rightarrow> string \<Rightarrow> string" where
  "or_default s d = (if s = [] then d else s)"

text \<open>The columns an insert sets; the others get the schema's defaults.\<close>

definition insert_row :: "store_env \<Rightarrow> session_row \<Rightarrow> session_row" where
  "insert_row E x =
     x\<lparr>sr_created := sv_now E, sr_updated := sv_now E, sr_archived := None, sr_latest := [], sr_owner := ownerPID E (sr_status x)\<rparr>"

definition session_defaults :: "store_env \<Rightarrow> string \<Rightarrow> session_row \<Rightarrow> session_row" where
  "session_defaults E ownership x =
     x\<lparr>sr_phase := or_default (sr_phase x) ''plan'', sr_status := or_default (sr_status x) ''running'',
       sr_ownership := or_default (sr_ownership x) ownership, sr_context := or_default (sr_context x) ''{}'',
       sr_request := or_default (sr_request x) ''{}'', sr_title := or_default (sr_title x) (sv_title E (sr_spec x))\<rparr>"

definition external_key :: "session_row \<Rightarrow> string \<times> string \<times> string" where
  "external_key x = (sr_integration x, sr_externalID x, sr_incarnation x)"

definition insert_session :: "session_row \<Rightarrow> unit store_op" where
  "insert_session x db =
     (if known db (sr_id x)
         \<or> sr_externalID x \<noteq> [] \<and> list_ex (\<lambda>y. external_key y = external_key x) (t_sessions db)
      then (Inl unique_failed, db)
      else (Inr (), db\<lparr>t_sessions := t_sessions db @ [x]\<rparr>))"

definition CreateSession :: "store_env \<Rightarrow> session_row \<Rightarrow> unit store_op" where
  "CreateSession E x = tx E (insert_session (insert_row E (session_defaults E ''orrery'' x)))"

definition SessionByExternalID :: "string \<Rightarrow> string \<Rightarrow> string \<Rightarrow> store_db \<Rightarrow> string + session_row" where
  "SessionByExternalID integration externalID incarnation db =
     (case List.find (\<lambda>y. external_key y = (integration, externalID, incarnation)) (t_sessions db) of
        None \<Rightarrow> Inl sql_no_rows | Some y \<Rightarrow> SessionRow (sr_id y) db)"

definition insert_accepted ::
  "store_env \<Rightarrow> session_row \<Rightarrow> string \<Rightarrow> string \<Rightarrow> string \<Rightarrow> (session_row \<times> bool) store_op" where
  "insert_accepted E x requestID turnID payloadHash db =
     (case insert_session (insert_row E x) db of
        (Inl err, _) \<Rightarrow> (Inl err, db)
      | (Inr _, db1) \<Rightarrow>
          if list_ex (\<lambda>r. rp_session r = sr_id x \<and> rp_request r = requestID) (t_receipts db1)
             \<or> list_ex (\<lambda>ev. er_session ev = sr_id x) (t_events db1)
          then (Inl unique_failed, db)
          else let db2 = db1\<lparr>t_receipts := t_receipts db1 @ [\<lparr>rp_session = sr_id x, rp_request = requestID, rp_kind = ''integration'',
                               rp_turn = turnID, rp_hash = payloadHash, rp_accepted = sv_now E, rp_duplicate = False\<rparr>]\<rparr>;
                   created = json_object E [(''external_id'', sv_quote E (sr_externalID x)), (''integration'', sv_quote E (sr_integration x)),
                               (''workspace_ownership'', sv_quote E (sr_ownership x))];
                   accepted = json_object E [(''request_id'', sv_quote E requestID), (''source'', sv_quote E (sr_integration x))]
               in (Inr (x\<lparr>sr_created := sv_now E, sr_updated := sv_now E\<rparr>, True),
                   append_event E (sr_id x) turnID ''turn.accepted'' accepted
                     (append_event E (sr_id x) turnID ''session.created'' created db2)))"

definition CreateSessionAccepted ::
  "store_env \<Rightarrow> session_row \<Rightarrow> string \<Rightarrow> string \<Rightarrow> string \<Rightarrow> (session_row \<times> bool) store_op" where
  "CreateSessionAccepted E x requestID turnID payloadHash db =
     (if requestID = [] then (Inl ''request_id required'', db)
      else if sr_externalID x = [] \<or> sr_integration x = [] then (Inl ''integration and external_id required'', db)
      else tx E (\<lambda>db.
        case SessionByExternalID (sr_integration x) (sr_externalID x) (sr_incarnation x) db of
          Inr y \<Rightarrow> (Inr (y, False), db)
        | Inl _ \<Rightarrow> insert_accepted E (session_defaults E ''external'' x) requestID turnID payloadHash db) db)"

definition UpdateSession :: "store_env \<Rightarrow> session_row \<Rightarrow> unit store_op" where
  "UpdateSession E x = tx E (\<lambda>db. (Inr (), update_session (sr_id x)
     (\<lambda>y. y\<lparr>sr_summary := sr_summary x, sr_phase := sr_phase x, sr_model := sr_model x, sr_turn := sr_turn x, sr_status := sr_status x,
            sr_owner := (if sr_status x = ''running'' then sv_pid E else sr_owner y), sr_updated := sv_now E\<rparr>) db))"

definition UpdateSessionTitle :: "store_env \<Rightarrow> string \<Rightarrow> string \<Rightarrow> unit store_op" where
  "UpdateSessionTitle E sid title =
     tx E (\<lambda>db. (Inr (), update_session sid (\<lambda>y. y\<lparr>sr_title := title, sr_updated := sv_now E\<rparr>) db))"

definition SetSessionStatus :: "store_env \<Rightarrow> string \<Rightarrow> string \<Rightarrow> unit store_op" where
  "SetSessionStatus E sid status = tx E (\<lambda>db. (Inr (), update_session sid
     (\<lambda>y. y\<lparr>sr_status := status, sr_owner := (if status = ''running'' then sv_pid E else sr_owner y), sr_updated := sv_now E\<rparr>) db))"

definition AddSpend :: "store_env \<Rightarrow> string \<Rightarrow> float64 \<Rightarrow> unit store_op" where
  "AddSpend E sid usd = tx E (\<lambda>db. (Inr (), update_session sid
     (\<lambda>y. y\<lparr>sr_spent := fadd (sr_spent y) usd, sr_updated := sv_now E\<rparr>) db))"

definition AddBudget :: "store_env \<Rightarrow> string \<Rightarrow> float64 \<Rightarrow> unit store_op" where
  "AddBudget E sid usd = tx E (\<lambda>db.
     if known db sid
     then (Inr (), update_session sid (\<lambda>y. y\<lparr>sr_budget := fadd (sr_budget y) usd, sr_updated := sv_now E\<rparr>) db)
     else (Inl sql_no_rows, db))"

definition unownedSessionIdle :: int where
  "unownedSessionIdle = 15 * 60 * 10 ^ 9"

definition last_activity :: "store_db \<Rightarrow> session_row \<Rightarrow> int" where
  "last_activity db x =
     fold max (map er_created (filter (\<lambda>e. er_session e = sr_id x
         \<or> list_ex (\<lambda>c. sr_id c = er_session e \<and> sr_parent c = sr_id x) (t_sessions db)) (t_events db))) (sr_updated x)"

definition orphaned :: "store_env \<Rightarrow> store_db \<Rightarrow> session_row \<Rightarrow> bool" where
  "orphaned E db x \<longleftrightarrow>
     sr_status x = ''running''
     \<and> (if sr_owner x = 0 then sv_now E - last_activity db x > unownedSessionIdle
        else sr_owner x = sv_pid E \<or> \<not> sv_alive E (sr_owner x))"

definition MarkRunningInterrupted :: "store_env \<Rightarrow> unit store_op" where
  "MarkRunningInterrupted E = tx E (\<lambda>db.
     (Inr (), db\<lparr>t_sessions := map (\<lambda>x. if orphaned E db x then x\<lparr>sr_status := ''interrupted'', sr_owner := 0, sr_updated := sv_now E\<rparr> else x)
                               (t_sessions db)\<rparr>))"

definition drop_session_rows :: "string \<Rightarrow> store_db \<Rightarrow> store_db" where
  "drop_session_rows sid db =
     db\<lparr>t_receipts := filter (\<lambda>r. rp_session r \<noteq> sid) (t_receipts db), t_events := filter (\<lambda>e. er_session e \<noteq> sid) (t_events db),
        t_messages := filter (\<lambda>x. ms_session x \<noteq> sid) (t_messages db), t_todos := filter (\<lambda>t. fst t \<noteq> sid) (t_todos db),
        t_items := filter (\<lambda>w. wi_session w \<noteq> sid) (t_items db), t_conts := filter (\<lambda>c. ct_session c \<noteq> sid) (t_conts db),
        t_cache := filter (\<lambda>c. ch_session c \<noteq> sid) (t_cache db), t_checkpoints := filter (\<lambda>c. cp_session c \<noteq> sid) (t_checkpoints db),
        t_pending := filter (\<lambda>p. pi_session p \<noteq> sid) (t_pending db), t_queued := filter (\<lambda>q. qm_session q \<noteq> sid) (t_queued db)\<rparr>"

definition DeleteConversation :: "store_env \<Rightarrow> string \<Rightarrow> unit store_op" where
  "DeleteConversation E sid = tx E (\<lambda>db.
     if \<not> known db sid then (Inl sql_no_rows, db)
     else (Inr (), (drop_session_rows sid db)\<lparr>t_sessions := filter (\<lambda>x. sr_id x \<noteq> sid) (t_sessions db)\<rparr>))"

section \<open>Messages and events\<close>

definition Messages :: "string \<Rightarrow> store_db \<Rightarrow> message_row list" where
  "Messages sid db = filter (\<lambda>x. ms_session x = sid) (t_messages db)"

definition AddMessage :: "store_env \<Rightarrow> string \<Rightarrow> string \<Rightarrow> string \<Rightarrow> unit store_op" where
  "AddMessage E sid role content = tx E (\<lambda>db.
     if known db sid then (Inr (), append_message sid role content (sv_now E) db) else (Inl fk_failed, db))"

definition set_messages :: "string \<Rightarrow> message_row list \<Rightarrow> store_db \<Rightarrow> store_db" where
  "set_messages sid msgs db =
     db\<lparr>t_messages := filter (\<lambda>x. ms_session x \<noteq> sid) (t_messages db) @ map (\<lambda>x. x\<lparr>ms_session := sid\<rparr>) msgs\<rparr>"

definition ReplaceMessages :: "store_env \<Rightarrow> string \<Rightarrow> message_row list \<Rightarrow> unit store_op" where
  "ReplaceMessages E sid msgs = tx E (\<lambda>db.
     if known db sid \<or> msgs = [] then (Inr (), set_messages sid msgs db) else (Inl fk_failed, db))"

text \<open>SQLite counts the characters of a text: the bytes that do not continue a character.\<close>

definition sql_length :: "string \<Rightarrow> nat" where
  "sql_length s = length (filter (\<lambda>c. \<not> (128 \<le> (of_char c :: nat) \<and> (of_char c :: nat) < 192)) s)"

definition ShrinkMessages :: "store_env \<Rightarrow> string \<Rightarrow> string \<Rightarrow> nat \<Rightarrow> (string \<Rightarrow> string) \<Rightarrow> nat store_op" where
  "ShrinkMessages E sid role maxChars shrink = tx E (\<lambda>db.
     let big = (\<lambda>x. ms_session x = sid \<and> ms_role x = role \<and> sql_length (ms_content x) > maxChars) in
     (Inr (length (filter (\<lambda>x. big x \<and> shrink (ms_content x) \<noteq> ms_content x) (t_messages db))),
      db\<lparr>t_messages := map (\<lambda>x. if big x then x\<lparr>ms_content := shrink (ms_content x)\<rparr> else x) (t_messages db)\<rparr>))"

definition AddEventForTurn :: "store_env \<Rightarrow> string \<Rightarrow> string \<Rightarrow> string \<Rightarrow> string \<Rightarrow> nat store_op" where
  "AddEventForTurn E sid turnID typ data = tx E (\<lambda>db.
     if known db sid then (Inr (next_seq db sid), append_event E sid turnID typ data db) else (Inl fk_failed, db))"

definition LatestRequest :: "string \<Rightarrow> store_db \<Rightarrow> string + string" where
  "LatestRequest sid db = (case SessionRow sid db of Inl err \<Rightarrow> Inl err | Inr x \<Rightarrow> Inr (sr_latest x))"

section \<open>Accepting messages\<close>

definition RequestText :: "message_content \<Rightarrow> string \<times> bool" where
  "RequestText c = (mc_text c, \<not> mc_harness c)"

definition find_receipt :: "string \<Rightarrow> string \<Rightarrow> store_db \<Rightarrow> receipt option" where
  "find_receipt sid requestID db = List.find (\<lambda>r. rp_session r = sid \<and> rp_request r = requestID) (t_receipts db)"

definition reused :: "store_env \<Rightarrow> string \<Rightarrow> string" where
  "reused E requestID = ''request_id '' @ sv_quote E requestID @ '' was already used with a different payload''"

definition accept_tx ::
  "store_env \<Rightarrow> string \<Rightarrow> string \<Rightarrow> string \<Rightarrow> string \<Rightarrow> string \<Rightarrow> message_content \<Rightarrow> string option \<Rightarrow> receipt store_op" where
  "accept_tx E sid requestID turnID kind payloadHash content request db =
     (case find_receipt sid requestID db of
        Some r \<Rightarrow> if rp_hash r \<noteq> payloadHash then (Inl (reused E requestID), db) else (Inr (r\<lparr>rp_duplicate := True\<rparr>), db)
      | None \<Rightarrow>
          if \<not> known db sid then (Inl fk_failed, db)
          else let r = \<lparr>rp_session = sid, rp_request = requestID, rp_kind = kind, rp_turn = turnID, rp_hash = payloadHash,
                        rp_accepted = sv_now E, rp_duplicate = False\<rparr>;
                   db1 = append_message sid ''user'' (mc_json content) (sv_now E) (db\<lparr>t_receipts := t_receipts db @ [r]\<rparr>);
                   db2 = (case RequestText content of (t, isRequest) \<Rightarrow>
                            if isRequest then update_session sid (\<lambda>y. y\<lparr>sr_latest := t\<rparr>) db1 else db1);
                   db3 = (case request of Some j \<Rightarrow> update_session sid (\<lambda>y. y\<lparr>sr_request := j, sr_updated := sv_now E\<rparr>) db2 | None \<Rightarrow> db2);
                   data = json_object E [(''request_id'', sv_quote E requestID), (''source'', sv_quote E kind)];
                   userData = json_object E [(''content'', mc_json content), (''request_id'', sv_quote E requestID)]
               in (Inr r, append_event E sid turnID ''user.message'' userData (append_event E sid turnID ''turn.accepted'' data db3)))"

definition AcceptMessage ::
  "store_env \<Rightarrow> string \<Rightarrow> string \<Rightarrow> string \<Rightarrow> string \<Rightarrow> string \<Rightarrow> message_content \<Rightarrow> string option \<Rightarrow> receipt store_op" where
  "AcceptMessage E sid requestID turnID kind payloadHash content request db =
     (if requestID = [] then (Inl ''request_id required'', db)
      else tx E (accept_tx E sid requestID turnID kind payloadHash content request) db)"

definition DeliverQueuedMessage ::
  "store_env \<Rightarrow> string \<Rightarrow> string \<Rightarrow> string \<Rightarrow> string \<Rightarrow> string \<Rightarrow> message_content \<Rightarrow> string option \<Rightarrow> receipt store_op" where
  "DeliverQueuedMessage E sid requestID turnID kind payloadHash content request db =
     (if requestID = [] then (Inl ''request_id required'', db)
      else tx E (accept_tx E sid requestID turnID kind payloadHash content request) db)"

definition RequestReceipt :: "string \<Rightarrow> string \<Rightarrow> store_db \<Rightarrow> string + receipt" where
  "RequestReceipt sid requestID db = (case find_receipt sid requestID db of Some r \<Rightarrow> Inr r | None \<Rightarrow> Inl sql_no_rows)"

definition EnqueueMessage ::
  "store_env \<Rightarrow> string \<Rightarrow> string \<Rightarrow> string \<Rightarrow> string \<Rightarrow> string \<Rightarrow> string \<Rightarrow> bool store_op" where
  "EnqueueMessage E sid requestID content src payloadHash attachments db =
     (if requestID = [] then (Inl ''request_id required'', db)
      else if TrimSpace content = [] then (Inl ''content required'', db)
      else tx E (\<lambda>db.
        case List.find (\<lambda>q. qm_session q = sid \<and> qm_request q = requestID) (t_queued db) of
          Some q \<Rightarrow> if qm_hash q \<noteq> payloadHash then (Inl (reused E requestID), db) else (Inr True, db)
        | None \<Rightarrow>
            if \<not> known db sid then (Inl fk_failed, db)
            else (Inr False, db\<lparr>t_queued := t_queued db @ [\<lparr>qm_session = sid, qm_request = requestID, qm_content = content,
                    qm_attachments = attachments, qm_source = src, qm_hash = payloadHash, qm_created = sv_now E\<rparr>]\<rparr>)) db)"

definition DequeueMessage :: "store_env \<Rightarrow> string \<Rightarrow> queued_message option store_op" where
  "DequeueMessage E sid = tx E (\<lambda>db.
     case List.find (\<lambda>q. qm_session q = sid) (t_queued db) of
       None \<Rightarrow> (Inr None, db)
     | Some q \<Rightarrow> (Inr (Some q), db\<lparr>t_queued := remove1 q (t_queued db)\<rparr>))"

end
