(* ===== verification/Conversation_Rewind.thy ===== *)
theory Conversation_Rewind
  imports Conversation_Store
begin

text \<open>
  The rest of the conversation store: the todo plan with its work-item ledger and continuation,
  pending inputs, compaction, the cache ledger, and the operations that rewind or branch a
  conversation, \<^verbatim>\<open>CreateCheckpoint\<close>, \<^verbatim>\<open>RestoreCheckpoint\<close> and \<^verbatim>\<open>ForkSession\<close>.
\<close>

section \<open>Plan and ledger\<close>

definition Todos :: "string \<Rightarrow> store_db \<Rightarrow> todo list" where
  "Todos sid db = sort_key td_position (map snd (filter (\<lambda>t. fst t = sid) (t_todos db)))"

definition unowned :: "work_item \<Rightarrow> work_item" where
  "unowned w = w\<lparr>wi_session := []\<rparr>"

definition ledger_rows :: "string \<Rightarrow> store_db \<Rightarrow> work_item list" where
  "ledger_rows sid db = map unowned (filter (\<lambda>w. wi_session w = sid) (t_items db))"

definition WorkItems :: "string \<Rightarrow> store_db \<Rightarrow> work_item list" where
  "WorkItems sid db = sort_key wi_position (ledger_rows sid db)"

definition no_continuation :: continuation where
  "no_continuation = \<lparr>ct_session = [], ct_active = [], ct_report = False, ct_resolved = [], ct_updated = 0\<rparr>"

definition Continuation :: "string \<Rightarrow> store_db \<Rightarrow> continuation" where
  "Continuation sid db = (case List.find (\<lambda>c. ct_session c = sid) (t_conts db) of Some c \<Rightarrow> c | None \<Rightarrow> no_continuation)"

definition set_todos :: "string \<Rightarrow> todo list \<Rightarrow> store_db \<Rightarrow> store_db" where
  "set_todos sid todos db =
     db\<lparr>t_todos := filter (\<lambda>t. fst t \<noteq> sid) (t_todos db) @ map (\<lambda>(i, t). (sid, t\<lparr>td_position := int i\<rparr>)) (enumerate 0 todos)\<rparr>"

definition upsert_continuation :: "continuation \<Rightarrow> continuation list \<Rightarrow> continuation list" where
  "upsert_continuation c cs =
     (if list_ex (\<lambda>d. ct_session d = ct_session c) cs
      then map (\<lambda>d. if ct_session d = ct_session c then d\<lparr>ct_active := ct_active c, ct_report := ct_report c, ct_updated := ct_updated c\<rparr> else d) cs
      else cs @ [c])"

text \<open>\<open>items\<close> get rows of their own in the session; an identifier that is taken is an error.\<close>

definition insert_items :: "string \<Rightarrow> work_item list \<Rightarrow> unit store_op" where
  "insert_items sid items db =
     (if \<not> distinct (map wi_id items) \<or> list_ex (\<lambda>w. wi_id w \<in> wi_id ` set (t_items db)) items then (Inl unique_failed, db)
      else (Inr (), db\<lparr>t_items := t_items db @ map (\<lambda>w. w\<lparr>wi_session := sid\<rparr>) items\<rparr>))"

definition update_item :: "work_item list \<Rightarrow> work_item \<Rightarrow> work_item list" where
  "update_item items w =
     (case List.find (\<lambda>s. wi_id s = wi_id w) items of
        Some s \<Rightarrow> [w\<lparr>wi_status := wi_status s, wi_phase := wi_phase s, wi_position := wi_position s, wi_completed := wi_completed s\<rparr>]
      | None \<Rightarrow> [])"

definition syncWorkItemsTx :: "store_env \<Rightarrow> string \<Rightarrow> todo list \<Rightarrow> unit store_op" where
  "syncWorkItemsTx E sid todos db =
     (let existing = ledger_rows sid db;
          sync = SyncWorkItems (sv_uni E) (sv_fresh E) sid todos existing (ct_report (Continuation sid db)) (sv_now E);
          kept = concat (map (\<lambda>w. if wi_session w = sid then update_item (ws_items sync) w else [w]) (t_items db));
          new = filter (\<lambda>s. wi_id s \<notin> wi_id ` set existing) (ws_items sync)
      in if \<not> known db sid then (Inl fk_failed, db)
         else if \<not> distinct (map wi_id new) \<or> list_ex (\<lambda>w. wi_id w \<in> wi_id ` set (t_items db)) new then (Inl unique_failed, db)
         else (Inr (), db\<lparr>t_items := kept @ map (\<lambda>w. w\<lparr>wi_session := sid\<rparr>) new,
                          t_conts := upsert_continuation \<lparr>ct_session = sid, ct_active = ws_active sync, ct_report = ws_report sync,
                                        ct_resolved = [], ct_updated = sv_now E\<rparr> (t_conts db)\<rparr>))"

definition SetTodos :: "store_env \<Rightarrow> string \<Rightarrow> todo list \<Rightarrow> unit store_op" where
  "SetTodos E sid todos = tx E (\<lambda>db. syncWorkItemsTx E sid todos (set_todos sid todos db))"

definition AcknowledgeReport :: "store_env \<Rightarrow> string \<Rightarrow> string \<Rightarrow> unit store_op" where
  "AcknowledgeReport E sid durableSummary = tx E (\<lambda>db.
     (Inr (), update_session sid (\<lambda>y. y\<lparr>sr_summary := durableSummary, sr_updated := sv_now E\<rparr>)
        (db\<lparr>t_conts := map (\<lambda>c. if ct_session c = sid then c\<lparr>ct_active := [], ct_report := False, ct_updated := sv_now E\<rparr> else c) (t_conts db)\<rparr>)))"

section \<open>Pending inputs\<close>

definition CreatePendingInput :: "store_env \<Rightarrow> pending_input \<Rightarrow> unit store_op" where
  "CreatePendingInput E p db =
     (if pi_id p = [] \<or> pi_session p = [] \<or> TrimSpace (pi_question p) = []
      then (Inl ''input id, session, and question are required'', db)
      else tx E (\<lambda>db.
        if pi_id p \<in> pi_id ` set (t_pending db) then (Inl unique_failed, db)
        else if \<not> known db (pi_session p) then (Inl fk_failed, db)
        else (Inr (), db\<lparr>t_pending := t_pending db @ [p\<lparr>pi_status := ''pending'', pi_answer := [], pi_created := sv_now E, pi_answered := None\<rparr>]\<rparr>)) db)"

definition PendingInputs :: "string \<Rightarrow> store_db \<Rightarrow> pending_input list" where
  "PendingInputs sid db = sort_key pi_created (filter (\<lambda>p. pi_session p = sid) (t_pending db))"

text \<open>The newest pending question.\<close>

definition PendingInput :: "string \<Rightarrow> store_db \<Rightarrow> string + pending_input" where
  "PendingInput sid db =
     (case rev (filter (\<lambda>p. pi_status p = ''pending'') (PendingInputs sid db)) of [] \<Rightarrow> Inl sql_no_rows | p # _ \<Rightarrow> Inr p)"

definition ResolvePendingInput :: "store_env \<Rightarrow> string \<Rightarrow> string \<Rightarrow> pending_input store_op" where
  "ResolvePendingInput E sid answer = tx E (\<lambda>db.
     case PendingInput sid db of
       Inl err \<Rightarrow> (Inl err, db)
     | Inr p \<Rightarrow>
         if \<not> pi_freeform p \<and> pi_choices p \<noteq> [] \<and> answer \<notin> set (pi_choices p)
         then (Inl ''answer must be one of the supplied choices'', db)
         else let done_p = (\<lambda>q. q\<lparr>pi_status := ''answered'', pi_answer := answer, pi_answered := Some (sv_now E)\<rparr>) in
           (Inr (done_p p), db\<lparr>t_pending := map (\<lambda>q. if pi_id q = pi_id p \<and> pi_status q = ''pending'' then done_p q else q) (t_pending db)\<rparr>))"

section \<open>Cache ledger and compaction\<close>

definition WarmCache :: "store_env \<Rightarrow> string \<Rightarrow> string \<Rightarrow> int \<Rightarrow> int \<Rightarrow> unit store_op" where
  "WarmCache E sid model tokens ttl = tx E (\<lambda>db.
     let c = \<lparr>ch_session = sid, ch_model = model, ch_tokens = tokens, ch_hit = Some (sv_now E), ch_ttl = ttl\<rparr> in
     (Inr (), db\<lparr>t_cache := (if list_ex (\<lambda>d. ch_session d = sid \<and> ch_model d = model) (t_cache db)
                             then map (\<lambda>d. if ch_session d = sid \<and> ch_model d = model then c else d) (t_cache db)
                             else t_cache db @ [c])\<rparr>))"

definition Cache :: "string \<Rightarrow> string \<Rightarrow> store_db \<Rightarrow> cache_row" where
  "Cache sid model db =
     (case List.find (\<lambda>d. ch_session d = sid \<and> ch_model d = model) (t_cache db) of
        Some d \<Rightarrow> d | None \<Rightarrow> \<lparr>ch_session = sid, ch_model = model, ch_tokens = 0, ch_hit = None, ch_ttl = 0\<rparr>)"

definition cool_cache :: "string \<Rightarrow> store_db \<Rightarrow> store_db" where
  "cool_cache sid db =
     db\<lparr>t_cache := map (\<lambda>d. if ch_session d = sid then d\<lparr>ch_tokens := 0, ch_hit := None\<rparr> else d) (t_cache db)\<rparr>"

text \<open>Deletes the session's first \<open>n\<close> messages.\<close>

fun drop_messages :: "nat \<Rightarrow> string \<Rightarrow> message_row list \<Rightarrow> message_row list" where
  "drop_messages n sid [] = []"
| "drop_messages n sid (x # xs) =
     (if n = 0 then x # xs
      else if ms_session x = sid then drop_messages (n - 1) sid xs
      else x # drop_messages n sid xs)"

text \<open>A negative \<open>LIMIT\<close> of SQLite is no limit.\<close>

definition ApplyCompaction :: "store_env \<Rightarrow> session_row \<Rightarrow> int \<Rightarrow> unit store_op" where
  "ApplyCompaction E x keep = tx E (\<lambda>db.
     let sid = sr_id x;
         db1 = update_session sid (\<lambda>y. y\<lparr>sr_summary := sr_summary x, sr_phase := sr_phase x, sr_model := sr_model x, sr_turn := sr_turn x,
                 sr_status := sr_status x, sr_owner := (if sr_status x = ''running'' then sv_pid E else sr_owner y), sr_updated := sv_now E\<rparr>) db;
         n = (if keep < 0 then 0 else length (Messages sid db) - nat keep)
     in (Inr (), cool_cache sid (db1\<lparr>t_messages := drop_messages n sid (t_messages db1)\<rparr>)))"

section \<open>Checkpoints\<close>

definition CreateCheckpoint :: "store_env \<Rightarrow> string \<Rightarrow> string \<Rightarrow> string \<Rightarrow> string \<Rightarrow> checkpoint store_op" where
  "CreateCheckpoint E cid sid label reason = tx E (\<lambda>db.
     case SessionRow sid db of
       Inl err \<Rightarrow> (Inl err, db)
     | Inr x \<Rightarrow>
         let cp = \<lparr>cp_id = cid, cp_session = sid, cp_label = label, cp_reason = reason, cp_snap = Some x,
                   cp_messages = Some (Messages sid db), cp_todos = Some (Todos sid db), cp_pending = PendingInputs sid db,
                   cp_items = Some (Some (WorkItems sid db)), cp_cont = Some (Continuation sid db), cp_created = sv_now E\<rparr>
         in if cid \<in> cp_id ` set (t_checkpoints db) then (Inl unique_failed, db)
            else (Inr cp, db\<lparr>t_checkpoints := t_checkpoints db @ [cp]\<rparr>))"

definition Checkpoints :: "string \<Rightarrow> store_db \<Rightarrow> checkpoint list" where
  "Checkpoints sid db = rev (sort_key cp_created (filter (\<lambda>c. cp_session c = sid) (t_checkpoints db)))"

definition Checkpoint :: "string \<Rightarrow> store_db \<Rightarrow> string + checkpoint" where
  "Checkpoint cid db = (case List.find (\<lambda>c. cp_id c = cid) (t_checkpoints db) of Some c \<Rightarrow> Inr c | None \<Rightarrow> Inl sql_no_rows)"

definition insert_pending :: "pending_input list \<Rightarrow> unit store_op" where
  "insert_pending ps db =
     (if \<not> distinct (map pi_id ps) \<or> list_ex (\<lambda>p. pi_id p \<in> pi_id ` set (t_pending db)) ps then (Inl unique_failed, db)
      else if list_ex (\<lambda>p. \<not> known db (pi_session p)) ps then (Inl fk_failed, db)
      else (Inr (), db\<lparr>t_pending := t_pending db @ ps\<rparr>))"

definition restore_ledger :: "store_env \<Rightarrow> string \<Rightarrow> checkpoint \<Rightarrow> todo list \<Rightarrow> unit store_op" where
  "restore_ledger E sid cp todos db =
     (case cp_items cp of
        None \<Rightarrow> syncWorkItemsTx E sid todos db
      | Some items \<Rightarrow>
          (case (items, cp_cont cp) of
             (Some ws, Some c) \<Rightarrow>
               (case insert_items sid ws db of
                  (Inl err, _) \<Rightarrow> (Inl err, db)
                | (Inr _, db1) \<Rightarrow>
                    (Inr (), if ct_session c \<noteq> []
                       then db1\<lparr>t_conts := t_conts db1 @ [c\<lparr>ct_session := sid, ct_updated := sv_now E\<rparr>]\<rparr> else db1))
           | _ \<Rightarrow> (Inl ''invalid checkpoint ledger snapshot'', db)))"

definition RestoreCheckpoint :: "store_env \<Rightarrow> string \<Rightarrow> string \<Rightarrow> unit store_op" where
  "RestoreCheckpoint E sid checkpointID = tx E (\<lambda>db.
     case Checkpoint checkpointID db of
       Inl err \<Rightarrow> (Inl err, db)
     | Inr cp \<Rightarrow>
         if cp_session cp \<noteq> sid then (Inl ''checkpoint does not belong to session'', db)
         else case (cp_snap cp, cp_messages cp, cp_todos cp) of
           (Some snap, Some messages, Some todos) \<Rightarrow>
             if \<not> known db sid \<and> (messages \<noteq> [] \<or> todos \<noteq> []) then (Inl fk_failed, db)
             else
             (let db1 = update_session sid (\<lambda>y. y\<lparr>sr_summary := sr_summary snap, sr_phase := sr_phase snap, sr_model := sr_model snap,
                          sr_turn := sr_turn snap, sr_status := ''interrupted'', sr_request := sr_request snap, sr_updated := sv_now E\<rparr>) db;
                  db2 = set_messages sid messages db1;
                  db3 = db2\<lparr>t_pending := filter (\<lambda>p. pi_session p \<noteq> sid) (t_pending db2)\<rparr>
              in case insert_pending (cp_pending cp) db3 of
                   (Inl err, _) \<Rightarrow> (Inl err, db)
                 | (Inr _, db4) \<Rightarrow>
                     (let db5 = set_todos sid todos db4;
                          db6 = db5\<lparr>t_items := filter (\<lambda>w. wi_session w \<noteq> sid) (t_items db5),
                                    t_conts := filter (\<lambda>c. ct_session c \<noteq> sid) (t_conts db5)\<rparr>
                      in case restore_ledger E sid cp todos db6 of
                           (Inl err, _) \<Rightarrow> (Inl err, db)
                         | (Inr _, db7) \<Rightarrow> (Inr (), cool_cache sid db7)))
         | _ \<Rightarrow> (Inl ''invalid checkpoint snapshot'', db))"

section \<open>Forks\<close>

definition fork_row :: "store_env \<Rightarrow> string \<Rightarrow> string \<Rightarrow> session_row \<Rightarrow> session_row" where
  "fork_row E sourceID newID source =
     (let fork = source\<lparr>sr_id := newID, sr_integration := [], sr_externalID := [], sr_incarnation := [], sr_status := ''interrupted'',
            sr_turn := 0, sr_spent := 0, sr_created := sv_now E, sr_updated := sv_now E, sr_parent := sourceID\<rparr>
      in fork\<lparr>sr_title := or_default (sr_title fork) (sv_title E (sr_spec fork))\<rparr>)"

definition fork_items :: "store_env \<Rightarrow> work_item list \<Rightarrow> work_item list" where
  "fork_items E ws = map (\<lambda>(i, w). w\<lparr>wi_id := sv_fresh E i\<rparr>) (enumerate 0 ws)"

text \<open>The identifier a work item got in the fork; the map is filled in order, so the last entry of an identifier counts.\<close>

definition fork_id :: "store_env \<Rightarrow> work_item list \<Rightarrow> string \<Rightarrow> string" where
  "fork_id E ws old =
     (case List.find (\<lambda>(i, w). wi_id w = old) (rev (enumerate 0 ws)) of Some (i, _) \<Rightarrow> sv_fresh E i | None \<Rightarrow> [])"

definition ForkSession :: "store_env \<Rightarrow> string \<Rightarrow> string \<Rightarrow> session_row store_op" where
  "ForkSession E sourceID newID = tx E (\<lambda>db.
     case SessionRow sourceID db of
       Inl err \<Rightarrow> (Inl err, db)
     | Inr source \<Rightarrow>
         let fork = fork_row E sourceID newID source; items = WorkItems sourceID db; cont = Continuation sourceID db in
         case insert_session (insert_row E fork) db of
           (Inl err, _) \<Rightarrow> (Inl err, db)
         | (Inr _, db1) \<Rightarrow>
             (let db2 = db1\<lparr>t_messages := t_messages db1 @ map (\<lambda>x. x\<lparr>ms_session := newID\<rparr>) (Messages sourceID db)\<rparr>;
                  db3 = db2\<lparr>t_todos := t_todos db2 @ map (\<lambda>(i, t). (newID, t\<lparr>td_position := int i\<rparr>)) (enumerate 0 (Todos sourceID db))\<rparr>
              in case insert_items newID (fork_items E items) db3 of
                   (Inl err, _) \<Rightarrow> (Inl err, db)
                 | (Inr _, db4) \<Rightarrow>
                     (let db5 = (if ct_session cont \<noteq> []
                            then db4\<lparr>t_conts := t_conts db4 @ [cont\<lparr>ct_session := newID,
                                   ct_active := (if ct_active cont \<noteq> [] then fork_id E items (ct_active cont) else []), ct_updated := sv_now E\<rparr>]\<rparr>
                            else db4)
                      in if list_ex (\<lambda>e. er_session e = newID \<and> er_seq e = 1) (t_events db5) then (Inl unique_failed, db)
                         else (Inr fork, db5\<lparr>t_events := t_events db5 @ [\<lparr>er_session = newID, er_seq = 1, er_turn = [], er_type = ''session.forked'',
                           er_data = json_object E [(''source_session_id'', sv_quote E sourceID)], er_created = sv_now E\<rparr>]\<rparr>))))"

end
