(* ===== verification/Conversation_Inv.thy ===== *)
theory Conversation_Inv
  imports Conversation_Rewind
begin

text \<open>
  The operations of the conversation store as the steps of a transition system, the invariant of
  its tables, and the theorem that a message is accepted exactly once.
\<close>

section \<open>Steps\<close>

text \<open>The label is the session a step deletes, if any.\<close>

inductive store_step :: "string option \<Rightarrow> store_db \<Rightarrow> store_db \<Rightarrow> bool" where
  create: "store_step None db (snd (CreateSession E x db))"
| create_accepted: "store_step None db (snd (CreateSessionAccepted E x requestID turnID payloadHash db))"
| update: "store_step None db (snd (UpdateSession E x db))"
| title: "store_step None db (snd (UpdateSessionTitle E sid t db))"
| status: "store_step None db (snd (SetSessionStatus E sid st db))"
| spend: "store_step None db (snd (AddSpend E sid usd db))"
| budget: "store_step None db (snd (AddBudget E sid usd db))"
| interrupted: "store_step None db (snd (MarkRunningInterrupted E db))"
| message: "store_step None db (snd (AddMessage E sid role content db))"
| replace_messages: "store_step None db (snd (ReplaceMessages E sid msgs db))"
| shrink: "store_step None db (snd (ShrinkMessages E sid role n f db))"
| event: "store_step None db (snd (AddEventForTurn E sid turnID typ data db))"
| accept: "store_step None db (snd (AcceptMessage E sid requestID turnID kind hash content request db))"
| deliver: "store_step None db (snd (DeliverQueuedMessage E sid requestID turnID kind hash content request db))"
| enqueue: "store_step None db (snd (EnqueueMessage E sid requestID txt_content src hash attachments db))"
| dequeue: "store_step None db (snd (DequeueMessage E sid db))"
| todos: "store_step None db (snd (SetTodos E sid ts db))"
| acknowledge: "store_step None db (snd (AcknowledgeReport E sid summary db))"
| ask: "store_step None db (snd (CreatePendingInput E p db))"
| answer: "store_step None db (snd (ResolvePendingInput E sid ans db))"
| warm: "store_step None db (snd (WarmCache E sid model tokens ttl db))"
| compact: "store_step None db (snd (ApplyCompaction E x keep db))"
| snapshot: "store_step None db (snd (CreateCheckpoint E cid sid label reason db))"
| restore: "store_step None db (snd (RestoreCheckpoint E sid cid db))"
| fork: "store_step None db (snd (ForkSession E sid new db))"
| delete: "store_step (Some sid) db (snd (DeleteConversation E sid db))"

definition empty_db :: store_db where
  "empty_db = \<lparr>t_sessions = [], t_events = [], t_messages = [], t_receipts = [], t_queued = [], t_todos = [], t_items = [], t_conts = [],
     t_pending = [], t_checkpoints = [], t_cache = []\<rparr>"

lemma tx_cases:
  obtains (failed) err where "tx E body db = (Inl err, db)"
  | (done_tx) x db' where "tx E body db = (Inr x, db')" "body db = (Inr x, db')" "sv_io E = None"
  by (cases "sv_io E"; cases "body db"; cases "fst (body db)") (auto simp: tx_def)

text \<open>A transaction keeps what its body keeps.\<close>

lemma tx_keeps: "P db \<Longrightarrow> (\<And>x db'. body db = (Inr x, db') \<Longrightarrow> P db') \<Longrightarrow> P (snd (tx E body db))"
  by (rule tx_cases [of E body db]) auto

section \<open>The tables\<close>

definition session_ids :: "store_db \<Rightarrow> string set" where
  "session_ids db = sr_id ` set (t_sessions db)"

definition owned :: "store_db \<Rightarrow> bool" where
  "owned db \<longleftrightarrow> (\<forall>e \<in> set (t_events db). er_session e \<in> session_ids db) \<and> (\<forall>x \<in> set (t_messages db). ms_session x \<in> session_ids db)
     \<and> (\<forall>r \<in> set (t_receipts db). rp_session r \<in> session_ids db) \<and> (\<forall>q \<in> set (t_queued db). qm_session q \<in> session_ids db)
     \<and> (\<forall>t \<in> set (t_todos db). fst t \<in> session_ids db) \<and> (\<forall>w \<in> set (t_items db). wi_session w \<in> session_ids db)
     \<and> (\<forall>c \<in> set (t_conts db). ct_session c \<in> session_ids db) \<and> (\<forall>p \<in> set (t_pending db). pi_session p \<in> session_ids db)
     \<and> (\<forall>c \<in> set (t_checkpoints db). cp_session c \<in> session_ids db)"

definition gapless :: "event_row list \<Rightarrow> bool" where
  "gapless evs \<longleftrightarrow> (\<forall>sid. let l = filter (\<lambda>e. er_session e = sid) evs in map er_seq l = [1..<Suc (length l)])"

definition numbered :: "(string \<times> todo) list \<Rightarrow> bool" where
  "numbered ts \<longleftrightarrow> (\<forall>sid. let l = filter (\<lambda>t. fst t = sid) ts in map (td_position \<circ> snd) l = map int [0..<length l])"

definition keys_ok :: "store_db \<Rightarrow> bool" where
  "keys_ok db \<longleftrightarrow> distinct (map sr_id (t_sessions db)) \<and> distinct (map (\<lambda>r. (rp_session r, rp_request r)) (t_receipts db))
     \<and> distinct (map (\<lambda>q. (qm_session q, qm_request q)) (t_queued db)) \<and> distinct (map wi_id (t_items db))
     \<and> distinct (map ct_session (t_conts db)) \<and> distinct (map pi_id (t_pending db)) \<and> distinct (map cp_id (t_checkpoints db))"

definition store_ok :: "store_db \<Rightarrow> bool" where
  "store_ok db \<longleftrightarrow> keys_ok db \<and> owned db \<and> gapless (t_events db) \<and> numbered (t_todos db)"

lemma known_ids: "known db sid \<longleftrightarrow> sid \<in> session_ids db"
  by (auto simp: known_def session_ids_def list_ex_iff)

lemma SessionRow_known: "SessionRow sid db = Inr x \<Longrightarrow> sid \<in> session_ids db \<and> x \<in> set (t_sessions db) \<and> sr_id x = sid"
  by (auto simp: SessionRow_def session_ids_def find_Some_iff split: option.splits)

lemma fold_max_upt: "fold max [1..<Suc n] 0 = (n::nat)"
  by (induction n) (auto simp: upt_Suc_append simp del: upt_Suc)

lemma gapless_next: "gapless (t_events db) \<Longrightarrow> next_seq db sid = Suc (length (filter (\<lambda>e. er_session e = sid) (t_events db)))"
  unfolding gapless_def next_seq_def Let_def using fold_max_upt by metis

lemma gapless_append: "gapless (t_events db) \<Longrightarrow> gapless (t_events (append_event E sid turn typ data db))"
  using gapless_next [of db sid] by (auto simp: gapless_def append_event_def Let_def)

lemma gapless_filter: "gapless evs \<Longrightarrow> gapless (filter (\<lambda>e. er_session e \<noteq> sid) evs)"
proof -
  assume g: "gapless evs"
  have "filter (\<lambda>e. er_session e = k) (filter (\<lambda>e. er_session e \<noteq> sid) evs) = (if k = sid then [] else filter (\<lambda>e. er_session e = k) evs)" for k
    by (auto simp: filter_empty_conv intro!: filter_cong)
  with g show ?thesis by (simp add: gapless_def Let_def del: upt_Suc filter_filter)
qed

lemma numbered_filter: "numbered ts \<Longrightarrow> numbered (filter (\<lambda>t. fst t \<noteq> sid) ts)"
proof -
  assume g: "numbered ts"
  have "filter (\<lambda>t. fst t = k) (filter (\<lambda>t. fst t \<noteq> sid) ts) = (if k = sid then [] else filter (\<lambda>t. fst t = k) ts)" for k
    by (auto simp: filter_empty_conv intro!: filter_cong)
  with g show ?thesis by (auto simp: numbered_def Let_def)
qed

lemma numbered_new:
  assumes "numbered ts" and "sid \<notin> fst ` set ts"
  shows "numbered (ts @ map (\<lambda>(i, t). (sid, t\<lparr>td_position := int i\<rparr>)) (enumerate 0 todos))"
proof -
  let ?new = "map (\<lambda>(i, t). (sid, t\<lparr>td_position := int i\<rparr>)) (enumerate 0 todos)"
  have "filter (\<lambda>t. fst t = k) ?new = (if k = sid then ?new else [])" for k
    by (auto simp: filter_empty_conv filter_id_conv)
  moreover have "map (td_position \<circ> snd) ?new = map int [0..<length ?new]"
    by (rule nth_equalityI) (auto simp: nth_enumerate_eq)
  moreover have "filter (\<lambda>t. fst t = sid) ts = []" using assms(2) by (auto simp: filter_empty_conv image_iff)
  ultimately show ?thesis using assms(1) by (auto simp: numbered_def Let_def)
qed

lemma numbered_set_todos: "numbered (t_todos db) \<Longrightarrow> numbered (t_todos (set_todos sid todos db))"
  unfolding set_todos_def by (simp, rule numbered_new [OF numbered_filter]) auto


lemmas ok_defs = store_ok_def keys_ok_def owned_def

lemma update_session_frame [simp]:
  "t_events (update_session sid f db) = t_events db" "t_messages (update_session sid f db) = t_messages db"
  "t_receipts (update_session sid f db) = t_receipts db" "t_queued (update_session sid f db) = t_queued db"
  "t_todos (update_session sid f db) = t_todos db" "t_items (update_session sid f db) = t_items db"
  "t_conts (update_session sid f db) = t_conts db" "t_pending (update_session sid f db) = t_pending db"
  "t_checkpoints (update_session sid f db) = t_checkpoints db" "t_cache (update_session sid f db) = t_cache db"
  by (simp_all add: update_session_def)

lemma update_session_ids: "(\<And>x. sr_id (f x) = sr_id x) \<Longrightarrow> map sr_id (t_sessions (update_session sid f db)) = map sr_id (t_sessions db)"
  by (simp add: update_session_def)

text \<open>The invariant reads of the sessions only their identifiers and of the cache nothing.\<close>

lemma store_ok_cong:
  assumes "map sr_id (t_sessions db') = map sr_id (t_sessions db)" and "t_events db' = t_events db" and "t_messages db' = t_messages db"
    and "t_receipts db' = t_receipts db" and "t_queued db' = t_queued db" and "t_todos db' = t_todos db" and "t_items db' = t_items db"
    and "t_conts db' = t_conts db" and "t_pending db' = t_pending db" and "t_checkpoints db' = t_checkpoints db"
  shows "store_ok db' = store_ok db"
proof -
  have "session_ids db' = session_ids db" unfolding session_ids_def by (metis assms(1) set_map)
  moreover from this have "owned db' = owned db" by (simp add: owned_def assms)
  moreover have "keys_ok db' = keys_ok db" by (simp add: keys_ok_def assms)
  ultimately show ?thesis by (simp add: store_ok_def assms)
qed

lemma store_ok_update: "store_ok db \<Longrightarrow> (\<And>x. sr_id (f x) = sr_id x) \<Longrightarrow> store_ok (update_session sid f db)"
  using store_ok_cong [of "update_session sid f db" db] by (simp add: update_session_ids)

lemma store_ok_cache: "store_ok (db\<lparr>t_cache := c\<rparr>) = store_ok db" "store_ok (cool_cache sid db) = store_ok db"
  by (rule store_ok_cong; simp add: cool_cache_def)+

text \<open>Replacing one table by rows with unique keys, of existing sessions.\<close>

lemma table_ids [simp]:
  "session_ids (db\<lparr>t_events := evs\<rparr>) = session_ids db" "session_ids (db\<lparr>t_messages := ms\<rparr>) = session_ids db"
  "session_ids (db\<lparr>t_receipts := rs\<rparr>) = session_ids db" "session_ids (db\<lparr>t_queued := qs\<rparr>) = session_ids db"
  "session_ids (db\<lparr>t_todos := ts\<rparr>) = session_ids db" "session_ids (db\<lparr>t_items := ws\<rparr>) = session_ids db"
  "session_ids (db\<lparr>t_conts := cs\<rparr>) = session_ids db" "session_ids (db\<lparr>t_pending := ps\<rparr>) = session_ids db"
  "session_ids (db\<lparr>t_checkpoints := cps\<rparr>) = session_ids db" "session_ids (db\<lparr>t_cache := cc\<rparr>) = session_ids db"
  by (simp_all add: session_ids_def)

lemma store_ok_messages:
  "store_ok db \<Longrightarrow> \<forall>x \<in> set ms. ms_session x \<in> session_ids db \<Longrightarrow> store_ok (db\<lparr>t_messages := ms\<rparr>)"
  by (simp add: ok_defs)

lemma store_ok_receipts:
  "store_ok db \<Longrightarrow> distinct (map (\<lambda>r. (rp_session r, rp_request r)) rs) \<Longrightarrow> \<forall>x \<in> set rs. rp_session x \<in> session_ids db
    \<Longrightarrow> store_ok (db\<lparr>t_receipts := rs\<rparr>)"
  by (simp add: ok_defs)

lemma store_ok_queued:
  "store_ok db \<Longrightarrow> distinct (map (\<lambda>q. (qm_session q, qm_request q)) qs) \<Longrightarrow> \<forall>x \<in> set qs. qm_session x \<in> session_ids db
    \<Longrightarrow> store_ok (db\<lparr>t_queued := qs\<rparr>)"
  by (simp add: ok_defs)

lemma store_ok_todos:
  "store_ok db \<Longrightarrow> numbered ts \<Longrightarrow> \<forall>x \<in> set ts. fst x \<in> session_ids db \<Longrightarrow> store_ok (db\<lparr>t_todos := ts\<rparr>)"
  by (simp add: ok_defs)

lemma store_ok_items:
  "store_ok db \<Longrightarrow> distinct (map wi_id ws) \<Longrightarrow> \<forall>x \<in> set ws. wi_session x \<in> session_ids db \<Longrightarrow> store_ok (db\<lparr>t_items := ws\<rparr>)"
  by (simp add: ok_defs)

lemma store_ok_conts:
  "store_ok db \<Longrightarrow> distinct (map ct_session cs) \<Longrightarrow> \<forall>x \<in> set cs. ct_session x \<in> session_ids db \<Longrightarrow> store_ok (db\<lparr>t_conts := cs\<rparr>)"
  by (simp add: ok_defs)

lemma store_ok_pending:
  "store_ok db \<Longrightarrow> distinct (map pi_id ps) \<Longrightarrow> \<forall>x \<in> set ps. pi_session x \<in> session_ids db \<Longrightarrow> store_ok (db\<lparr>t_pending := ps\<rparr>)"
  by (simp add: ok_defs)

lemma store_ok_checkpoints:
  "store_ok db \<Longrightarrow> distinct (map cp_id cps) \<Longrightarrow> \<forall>x \<in> set cps. cp_session x \<in> session_ids db \<Longrightarrow> store_ok (db\<lparr>t_checkpoints := cps\<rparr>)"
  by (simp add: ok_defs)

lemma store_ok_events:
  "store_ok db \<Longrightarrow> gapless evs \<Longrightarrow> \<forall>x \<in> set evs. er_session x \<in> session_ids db \<Longrightarrow> store_ok (db\<lparr>t_events := evs\<rparr>)"
  by (simp add: ok_defs)

lemma store_okD:
  assumes "store_ok db"
  shows "\<forall>e \<in> set (t_events db). er_session e \<in> session_ids db" "\<forall>x \<in> set (t_messages db). ms_session x \<in> session_ids db"
    "\<forall>r \<in> set (t_receipts db). rp_session r \<in> session_ids db" "\<forall>q \<in> set (t_queued db). qm_session q \<in> session_ids db"
    "\<forall>t \<in> set (t_todos db). fst t \<in> session_ids db" "\<forall>w \<in> set (t_items db). wi_session w \<in> session_ids db"
    "\<forall>c \<in> set (t_conts db). ct_session c \<in> session_ids db" "\<forall>p \<in> set (t_pending db). pi_session p \<in> session_ids db"
    "\<forall>c \<in> set (t_checkpoints db). cp_session c \<in> session_ids db"
    "distinct (map (\<lambda>r. (rp_session r, rp_request r)) (t_receipts db))" "distinct (map (\<lambda>q. (qm_session q, qm_request q)) (t_queued db))"
    "distinct (map wi_id (t_items db))" "distinct (map ct_session (t_conts db))" "distinct (map pi_id (t_pending db))"
    "distinct (map cp_id (t_checkpoints db))" "gapless (t_events db)" "numbered (t_todos db)" "distinct (map sr_id (t_sessions db))"
  using assms by (simp_all add: ok_defs)

lemma store_ok_event:
  assumes "store_ok db" and "sid \<in> session_ids db"
  shows "store_ok (append_event E sid turn typ data db)"
proof -
  have "gapless (t_events (append_event E sid turn typ data db))" by (rule gapless_append [OF store_okD(16) [OF assms(1)]])
  then show ?thesis unfolding append_event_def
    by (intro store_ok_events [OF assms(1)]) (use assms(2) store_okD(1) [OF assms(1)] in simp_all)
qed

lemma append_event_ids [simp]: "session_ids (append_event E sid turn typ data db) = session_ids db"
  by (simp add: session_ids_def append_event_def)

lemma append_message_ids [simp]: "session_ids (append_message sid role c t db) = session_ids db"
  by (simp add: session_ids_def append_message_def)

lemma update_session_ids' [simp]: "(\<And>x. sr_id (f x) = sr_id x) \<Longrightarrow> session_ids (update_session sid f db) = session_ids db"
  using update_session_ids [of f sid db] unfolding session_ids_def by (metis set_map)

lemma insert_session_ok:
  assumes "insert_session x db = (Inr u, db')" and "store_ok db"
  shows "store_ok db' \<and> sr_id x \<notin> session_ids db \<and> db' = db\<lparr>t_sessions := t_sessions db @ [x]\<rparr>"
proof -
  have x: "sr_id x \<notin> session_ids db" and db': "db' = db\<lparr>t_sessions := t_sessions db @ [x]\<rparr>"
    using assms(1) by (auto simp: insert_session_def known_ids split: if_splits)
  have "session_ids db' = insert (sr_id x) (session_ids db)" by (simp add: db' session_ids_def)
  with assms(2) x show ?thesis unfolding ok_defs by (simp add: db' session_ids_def)
qed

lemma set_messages_ok:
  assumes "store_ok db" and "sid \<in> session_ids db \<or> msgs = []"
  shows "store_ok (set_messages sid msgs db)"
  unfolding set_messages_def by (rule store_ok_messages [OF assms(1)]) (use assms(2) store_okD(2) [OF assms(1)] in auto)

section \<open>Every operation keeps the invariant\<close>

lemma create_ok: "store_ok db \<Longrightarrow> store_ok (snd (CreateSession E x db))"
  unfolding CreateSession_def by (rule tx_keeps) (auto dest: insert_session_ok)

lemma updates_ok:
  "store_ok db \<Longrightarrow> store_ok (snd (UpdateSession E x db))" "store_ok db \<Longrightarrow> store_ok (snd (UpdateSessionTitle E sid t db))"
  "store_ok db \<Longrightarrow> store_ok (snd (SetSessionStatus E sid st db))" "store_ok db \<Longrightarrow> store_ok (snd (AddSpend E sid usd db))"
  "store_ok db \<Longrightarrow> store_ok (snd (AddBudget E sid usd db))"
  unfolding UpdateSession_def UpdateSessionTitle_def SetSessionStatus_def AddSpend_def AddBudget_def
  by (rule tx_keeps; auto intro: store_ok_update split: if_splits)+

lemma interrupted_ok: "store_ok db \<Longrightarrow> store_ok (snd (MarkRunningInterrupted E db))"
  unfolding MarkRunningInterrupted_def
proof (rule tx_keeps)
  fix u db' assume ok: "store_ok db" and "(Inr (), db\<lparr>t_sessions := map (\<lambda>x. if orphaned E db x
      then x\<lparr>sr_status := ''interrupted'', sr_owner := 0, sr_updated := sv_now E\<rparr> else x) (t_sessions db)\<rparr>) = (Inr u, db')"
  then have "store_ok db' = store_ok db" by (intro store_ok_cong) auto
  with ok show "store_ok db'" by simp
qed

lemma messages_ok:
  "store_ok db \<Longrightarrow> store_ok (snd (AddMessage E sid role content db))" "store_ok db \<Longrightarrow> store_ok (snd (ReplaceMessages E sid msgs db))"
  "store_ok db \<Longrightarrow> store_ok (snd (ShrinkMessages E sid role n f db))"
proof -
  assume ok: "store_ok db"
  note ms = store_okD(2) [OF ok]
  show "store_ok (snd (AddMessage E sid role content db))" unfolding AddMessage_def
    by (rule tx_keeps) (use ok ms in \<open>auto simp: append_message_def known_ids split: if_splits intro!: store_ok_messages\<close>)
  show "store_ok (snd (ReplaceMessages E sid msgs db))" unfolding ReplaceMessages_def
    by (rule tx_keeps) (use ok in \<open>auto simp: known_ids split: if_splits intro!: set_messages_ok\<close>)
  show "store_ok (snd (ShrinkMessages E sid role n f db))" unfolding ShrinkMessages_def Let_def
    by (rule tx_keeps) (use ok ms in \<open>auto intro!: store_ok_messages\<close>)
qed

lemma event_ok: "store_ok db \<Longrightarrow> store_ok (snd (AddEventForTurn E sid turnID typ data db))"
  unfolding AddEventForTurn_def by (rule tx_keeps) (auto simp: known_ids split: if_splits intro: store_ok_event)


lemma store_ok_receipt:
  assumes "store_ok db" and "sid \<in> session_ids db" and "find_receipt sid (rp_request r) db = None" and "rp_session r = sid"
  shows "store_ok (db\<lparr>t_receipts := t_receipts db @ [r]\<rparr>)"
proof -
  have "(sid, rp_request r) \<notin> (\<lambda>r. (rp_session r, rp_request r)) ` set (t_receipts db)"
    using assms(3) by (auto simp: find_receipt_def find_None_iff)
  with store_okD(3,10) [OF assms(1)] assms(2,4) show ?thesis by (intro store_ok_receipts [OF assms(1)]) auto
qed

lemma store_ok_add_message:
  "store_ok db \<Longrightarrow> sid \<in> session_ids db \<Longrightarrow> store_ok (append_message sid role c t db)"
  unfolding append_message_def by (rule store_ok_messages) (auto dest: store_okD(2))

text \<open>The invariant together with the existence of a session, along the writes of an acceptance.\<close>

definition ok_with :: "string \<Rightarrow> store_db \<Rightarrow> bool" where
  "ok_with sid db \<longleftrightarrow> store_ok db \<and> sid \<in> session_ids db"

lemma ok_with_steps:
  "ok_with sid db \<Longrightarrow> ok_with sid (append_event E sid turn typ data db)"
  "ok_with sid db \<Longrightarrow> ok_with sid (append_message sid role c t db)"
  "ok_with sid db \<Longrightarrow> (\<And>x. sr_id (f x) = sr_id x) \<Longrightarrow> ok_with sid (update_session sid f db)"
  by (simp_all add: ok_with_def store_ok_event store_ok_add_message store_ok_update)

lemma accept_tx_ok:
  assumes "store_ok db" and "accept_tx E sid requestID turnID kind hash content request db = (Inr r, db')"
  shows "store_ok db'"
proof (cases "find_receipt sid requestID db")
  case None
  then have k: "sid \<in> session_ids db" using assms(2) by (auto simp: accept_tx_def known_ids split: if_splits)
  define db0 where "db0 = db\<lparr>t_receipts := t_receipts db @
    [\<lparr>rp_session = sid, rp_request = requestID, rp_kind = kind, rp_turn = turnID, rp_hash = hash, rp_accepted = sv_now E, rp_duplicate = False\<rparr>]\<rparr>"
  define db1 where "db1 = append_message sid ''user'' (mc_json content) (sv_now E) db0"
  define db2 where "db2 = (if snd (RequestText content) then update_session sid (\<lambda>y. y\<lparr>sr_latest := fst (RequestText content)\<rparr>) db1 else db1)"
  define db3 where "db3 = (case request of Some j \<Rightarrow> update_session sid (\<lambda>y. y\<lparr>sr_request := j, sr_updated := sv_now E\<rparr>) db2 | None \<Rightarrow> db2)"
  have "store_ok db0" unfolding db0_def by (rule store_ok_receipt [OF assms(1) k]) (simp_all add: None)
  then have "ok_with sid db0" using k by (simp add: ok_with_def db0_def)
  then have "ok_with sid db1" unfolding db1_def by (rule ok_with_steps(2))
  then have "ok_with sid db2" unfolding db2_def by (simp add: ok_with_steps(3))
  then have 3: "ok_with sid db3" unfolding db3_def by (simp add: ok_with_steps(3) split: option.split)
  have "db' = append_event E sid turnID ''user.message''
        (json_object E [(''content'', mc_json content), (''request_id'', sv_quote E requestID)])
        (append_event E sid turnID ''turn.accepted'' (json_object E [(''request_id'', sv_quote E requestID), (''source'', sv_quote E kind)]) db3)"
    using assms(2) None k unfolding db3_def db2_def db1_def db0_def by (simp add: accept_tx_def known_ids Let_def case_prod_unfold)
  then show ?thesis using ok_with_steps(1) [OF ok_with_steps(1) [OF 3]] by (simp add: ok_with_def)
next
  case (Some q)
  then show ?thesis using assms by (auto simp: accept_tx_def split: if_splits)
qed

lemma accepts_ok:
  assumes "store_ok db"
  shows "store_ok (snd (AcceptMessage E sid requestID turnID kind hash content request db))"
    and "store_ok (snd (DeliverQueuedMessage E sid requestID turnID kind hash content request db))"
proof -
  have "store_ok (snd (tx E (accept_tx E sid requestID turnID kind hash content request) db))"
    by (rule tx_keeps, rule assms, rule accept_tx_ok [OF assms])
  with assms show "store_ok (snd (AcceptMessage E sid requestID turnID kind hash content request db))"
    "store_ok (snd (DeliverQueuedMessage E sid requestID turnID kind hash content request db))"
    by (simp_all add: AcceptMessage_def DeliverQueuedMessage_def)
qed

lemma enqueue_ok:
  assumes ok: "store_ok db"
  shows "store_ok (snd (EnqueueMessage E sid requestID content src hash attachments db))"
proof (cases "List.find (\<lambda>q. qm_session q = sid \<and> qm_request q = requestID) (t_queued db)")
  case None
  then have new: "(sid, requestID) \<notin> (\<lambda>q. (qm_session q, qm_request q)) ` set (t_queued db)" by (auto simp: find_None_iff)
  let ?q = "\<lparr>qm_session = sid, qm_request = requestID, qm_content = content, qm_attachments = attachments, qm_source = src,
      qm_hash = hash, qm_created = sv_now E\<rparr>"
  have "store_ok (db\<lparr>t_queued := t_queued db @ [?q]\<rparr>)" if "sid \<in> session_ids db"
    by (rule store_ok_queued [OF ok]) (use store_okD(4,11) [OF ok] new that in simp_all)
  then show ?thesis using ok None by (simp add: EnqueueMessage_def tx_def known_ids split: option.split)
next
  case (Some q)
  then show ?thesis using ok by (simp add: EnqueueMessage_def tx_def split: option.split)
qed

lemma dequeue_ok: "store_ok db \<Longrightarrow> store_ok (snd (DequeueMessage E sid db))"
  unfolding DequeueMessage_def
proof (rule tx_keeps)
  fix u db' assume ok: "store_ok db" and b: "(case List.find (\<lambda>q. qm_session q = sid) (t_queued db) of
       None \<Rightarrow> (Inr None, db) | Some q \<Rightarrow> (Inr (Some q), db\<lparr>t_queued := remove1 q (t_queued db)\<rparr>)) = (Inr u, db')"
  have sub: "x \<in> set (remove1 q (t_queued db)) \<Longrightarrow> x \<in> set (t_queued db)" for x q using set_remove1_subset by fast
  have dist: "distinct (map f (remove1 q qs))" if "distinct (map f qs)" for f :: "queued_message \<Rightarrow> string \<times> string" and q qs
    using that
  proof (induction qs)
    case (Cons a qs)
    have "f ` set (remove1 q qs) \<subseteq> f ` set qs" using set_remove1_subset by fast
    with Cons show ?case by auto
  qed simp
  show "store_ok db'"
  proof (cases "List.find (\<lambda>q. qm_session q = sid) (t_queued db)")
    case (Some q)
    then have "db' = db\<lparr>t_queued := remove1 q (t_queued db)\<rparr>" using b by simp
    then show ?thesis using dist [OF store_okD(11) [OF ok]] sub store_okD(4) [OF ok] by (auto intro!: store_ok_queued [OF ok])
  qed (use ok b in simp)
qed

lemma insert_accepted_ok:
  assumes ok: "store_ok db" and "insert_accepted E x requestID turnID hash db = (Inr u, db')"
  shows "store_ok db'"
proof -
  obtain r db1 where i: "insert_session (insert_row E x) db = (r, db1)" by force
  then obtain v where v: "r = Inr v" using assms(2) by (cases r) (auto simp: insert_accepted_def)
  have 1: "store_ok db1" "db1 = db\<lparr>t_sessions := t_sessions db @ [insert_row E x]\<rparr>" using insert_session_ok [OF i [unfolded v] ok] by auto
  have k: "sr_id x \<in> session_ids db1" by (simp add: 1(2) session_ids_def insert_row_def)
  define rc where "rc = \<lparr>rp_session = sr_id x, rp_request = requestID, rp_kind = ''integration'', rp_turn = turnID, rp_hash = hash,
    rp_accepted = sv_now E, rp_duplicate = False\<rparr>"
  have n: "\<not> list_ex (\<lambda>r. rp_session r = sr_id x \<and> rp_request r = requestID) (t_receipts db1)"
    using assms(2) i v by (auto simp: insert_accepted_def split: if_splits)
  then have "find_receipt (sr_id x) (rp_request rc) db1 = None" by (auto simp: find_receipt_def find_None_iff list_ex_iff rc_def)
  with store_ok_receipt [OF 1(1) k, of rc] k have "ok_with (sr_id x) (db1\<lparr>t_receipts := t_receipts db1 @ [rc]\<rparr>)"
    by (simp add: ok_with_def rc_def)
  note e = ok_with_steps(1) [OF ok_with_steps(1) [OF this]]
  have "\<exists>t1 d1 t2 d2. db' = append_event E (sr_id x) turnID t2 d2 (append_event E (sr_id x) turnID t1 d1 (db1\<lparr>t_receipts := t_receipts db1 @ [rc]\<rparr>))"
    using assms(2) i v n by (auto simp: insert_accepted_def Let_def rc_def split: if_splits)
  then show ?thesis using e by (auto simp: ok_with_def)
qed

lemma create_accepted_ok:
  assumes ok: "store_ok db"
  shows "store_ok (snd (CreateSessionAccepted E x requestID turnID hash db))"
proof -
  have "store_ok db'" if "insert_accepted E y requestID turnID hash db = (Inr u, db')" for y u db' using insert_accepted_ok [OF ok that] .
  then have "store_ok (snd (tx E (\<lambda>db. case SessionByExternalID (sr_integration x) (sr_externalID x) (sr_incarnation x) db of
          Inr y \<Rightarrow> (Inr (y, False), db)
        | Inl _ \<Rightarrow> insert_accepted E (session_defaults E ''external'' x) requestID turnID hash db) db))"
    by (intro tx_keeps [where P = store_ok]; cases "SessionByExternalID (sr_integration x) (sr_externalID x) (sr_incarnation x) db")
      (simp_all add: ok)
  then show ?thesis using ok by (simp add: CreateSessionAccepted_def)
qed

lemma set_todos_ok: "store_ok db \<Longrightarrow> sid \<in> session_ids db \<or> todos = [] \<Longrightarrow> store_ok (set_todos sid todos db)"
proof -
  assume ok: "store_ok db" and k: "sid \<in> session_ids db \<or> todos = []"
  have n: "numbered (t_todos (set_todos sid todos db))" by (rule numbered_set_todos [OF store_okD(17) [OF ok]])
  show ?thesis unfolding set_todos_def
    by (rule store_ok_todos [OF ok]) (use n k store_okD(5) [OF ok] in \<open>auto simp: set_todos_def dest: in_set_enumerate_eq [THEN iffD1]\<close>)
qed

lemma upsert_sessions:
  "distinct (map ct_session cs) \<Longrightarrow> distinct (map ct_session (upsert_continuation c cs))
    \<and> ct_session ` set (upsert_continuation c cs) = insert (ct_session c) (ct_session ` set cs)"
proof -
  assume d: "distinct (map ct_session cs)"
  have m: "map ct_session (map (\<lambda>d. if ct_session d = ct_session c
      then d\<lparr>ct_active := ct_active c, ct_report := ct_report c, ct_updated := ct_updated c\<rparr> else d) cs) = map ct_session cs" by simp
  show ?thesis
  proof (cases "list_ex (\<lambda>d. ct_session d = ct_session c) cs")
    case True
    then obtain d where "d \<in> set cs" "ct_session d = ct_session c" by (auto simp: list_ex_iff)
    from imageI [OF this(1), of ct_session] this(2) have "ct_session c \<in> ct_session ` set cs" by simp
    moreover have ids: "map ct_session (upsert_continuation c cs) = map ct_session cs" using True m by (simp add: upsert_continuation_def)
    have "ct_session ` set (upsert_continuation c cs) = ct_session ` set cs" unfolding set_map [symmetric] by (simp only: ids)
    ultimately show ?thesis using d ids by (simp add: insert_absorb)
  next
    case False
    then have "ct_session c \<notin> ct_session ` set cs" by (auto simp: list_ex_iff)
    then show ?thesis using d False by (simp add: upsert_continuation_def)
  qed
qed

lemma update_item_ids: "map wi_id (update_item items w) = (if wi_id w \<in> wi_id ` set items then [wi_id w] else [])"
proof (cases "List.find (\<lambda>s. wi_id s = wi_id w) items")
  case (Some s)
  then have "s \<in> set items" "wi_id s = wi_id w" by (auto simp: find_Some_iff)
  then have "wi_id w \<in> wi_id ` set items" by (metis imageI)
  then show ?thesis by (simp add: update_item_def Some)
next
  case None
  then have "wi_id w \<notin> wi_id ` set items" by (auto simp: find_None_iff)
  then show ?thesis by (simp add: update_item_def None)
qed

lemma kept_items:
  "map wi_id (concat (map (\<lambda>w. if wi_session w = sid then update_item items w else [w]) ws))
     = map wi_id (filter (\<lambda>w. wi_session w \<noteq> sid \<or> wi_id w \<in> wi_id ` set items) ws)"
  by (induction ws) (auto simp: update_item_ids)

lemma update_item_session: "w' \<in> set (update_item items w) \<Longrightarrow> wi_session w' = wi_session w"
  by (auto simp: update_item_def split: option.splits)

lemma sync_tx_ok:
  assumes ok: "store_ok db" and "syncWorkItemsTx E sid todos db = (Inr u, db')"
  shows "store_ok db'"
proof -
  define sync where "sync = SyncWorkItems (sv_uni E) (sv_fresh E) sid todos (ledger_rows sid db) (ct_report (Continuation sid db)) (sv_now E)"
  define kept where "kept = concat (map (\<lambda>w. if wi_session w = sid then update_item (ws_items sync) w else [w]) (t_items db))"
  define new where "new = filter (\<lambda>s. wi_id s \<notin> wi_id ` set (ledger_rows sid db)) (ws_items sync)"
  define c where "c = \<lparr>ct_session = sid, ct_active = ws_active sync, ct_report = ws_report sync, ct_resolved = [], ct_updated = sv_now E\<rparr>"
  have k: "sid \<in> session_ids db" "distinct (map wi_id new)" "\<forall>w \<in> set new. wi_id w \<notin> wi_id ` set (t_items db)"
    and db': "db' = db\<lparr>t_items := kept @ map (\<lambda>w. w\<lparr>wi_session := sid\<rparr>) new, t_conts := upsert_continuation c (t_conts db)\<rparr>"
    using assms(2) unfolding sync_def kept_def new_def c_def
    by (auto simp: syncWorkItemsTx_def Let_def known_ids list_ex_iff split: if_splits)
  have ids: "map wi_id kept = map wi_id (filter (\<lambda>w. wi_session w \<noteq> sid \<or> wi_id w \<in> wi_id ` set (ws_items sync)) (t_items db))"
    unfolding kept_def by (rule kept_items)
  have "distinct (map wi_id kept)" unfolding ids by (rule distinct_map_filter [OF store_okD(12) [OF ok]])
  moreover have "wi_id ` set kept \<subseteq> wi_id ` set (t_items db)" using ids by (metis (no_types, lifting) filter_is_subset image_mono list.set_map)
  ultimately have "distinct (map wi_id (kept @ map (\<lambda>w. w\<lparr>wi_session := sid\<rparr>) new))" using k(2,3) by (auto simp: comp_def) (metis imageI subsetD)
  moreover have "\<forall>w \<in> set (kept @ map (\<lambda>w. w\<lparr>wi_session := sid\<rparr>) new). wi_session w \<in> session_ids db"
    using k(1) store_okD(6) [OF ok] update_item_session unfolding kept_def by (auto split: if_splits)
  ultimately have i: "store_ok (db\<lparr>t_items := kept @ map (\<lambda>w. w\<lparr>wi_session := sid\<rparr>) new\<rparr>)" by (intro store_ok_items [OF ok])
  have u: "distinct (map ct_session (upsert_continuation c (t_conts db)))"
    "ct_session ` set (upsert_continuation c (t_conts db)) = insert sid (ct_session ` set (t_conts db))"
    using upsert_sessions [OF store_okD(13) [OF ok], of c] by (simp_all add: c_def)
  have "store_ok ((db\<lparr>t_items := kept @ map (\<lambda>w. w\<lparr>wi_session := sid\<rparr>) new\<rparr>)\<lparr>t_conts := upsert_continuation c (t_conts db)\<rparr>)"
  proof (rule store_ok_conts [OF i u(1)], rule ballI)
    fix x assume "x \<in> set (upsert_continuation c (t_conts db))"
    then have "ct_session x \<in> insert sid (ct_session ` set (t_conts db))" using u(2) by (metis imageI)
    then show "ct_session x \<in> session_ids (db\<lparr>t_items := kept @ map (\<lambda>w. w\<lparr>wi_session := sid\<rparr>) new\<rparr>)"
      using k(1) store_okD(7) [OF ok] by auto
  qed
  then show ?thesis by (simp add: db')
qed

lemma todos_ok: "store_ok db \<Longrightarrow> store_ok (snd (SetTodos E sid ts db))"
  unfolding SetTodos_def
proof (rule tx_keeps)
  fix u db' assume ok: "store_ok db" and b: "syncWorkItemsTx E sid ts (set_todos sid ts db) = (Inr u, db')"
  then have "sid \<in> session_ids db" by (auto simp: syncWorkItemsTx_def Let_def known_ids set_todos_def split: if_splits)
  then show "store_ok db'" using sync_tx_ok [OF set_todos_ok [OF ok] b] by blast
qed

lemma acknowledge_ok: "store_ok db \<Longrightarrow> store_ok (snd (AcknowledgeReport E sid summary db))"
  unfolding AcknowledgeReport_def
proof (rule tx_keeps)
  let ?f = "\<lambda>c. if ct_session c = sid then c\<lparr>ct_active := [], ct_report := False, ct_updated := sv_now E\<rparr> else c"
  fix u db' assume ok: "store_ok db" and "(Inr (), update_session sid (\<lambda>y. y\<lparr>sr_summary := summary, sr_updated := sv_now E\<rparr>)
        (db\<lparr>t_conts := map ?f (t_conts db)\<rparr>)) = (Inr u, db')"
  then have db': "db' = update_session sid (\<lambda>y. y\<lparr>sr_summary := summary, sr_updated := sv_now E\<rparr>) (db\<lparr>t_conts := map ?f (t_conts db)\<rparr>)" by simp
  have "map ct_session (map ?f (t_conts db)) = map ct_session (t_conts db)" by simp
  then have "store_ok (db\<lparr>t_conts := map ?f (t_conts db)\<rparr>)"
    by (intro store_ok_conts [OF ok]) (use store_okD(7,13) [OF ok] in \<open>auto simp del: map_map\<close>)
  then show "store_ok db'" unfolding db' by (rule store_ok_update) simp
qed

lemma ask_ok:
  assumes ok: "store_ok db"
  shows "store_ok (snd (CreatePendingInput E p db))"
proof -
  let ?p = "p\<lparr>pi_status := ''pending'', pi_answer := [], pi_created := sv_now E, pi_answered := None\<rparr>"
  have "store_ok (db\<lparr>t_pending := t_pending db @ [?p]\<rparr>)" if "pi_id p \<notin> pi_id ` set (t_pending db)" "pi_session p \<in> session_ids db"
    by (rule store_ok_pending [OF ok]) (use store_okD(8,14) [OF ok] that in simp_all)
  then show ?thesis using ok by (simp add: CreatePendingInput_def tx_def known_ids split: option.split)
qed

lemma answer_ok: "store_ok db \<Longrightarrow> store_ok (snd (ResolvePendingInput E sid ans db))"
  unfolding ResolvePendingInput_def
proof (rule tx_keeps)
  fix u db' assume ok: "store_ok db" and b: "(case PendingInput sid db of
       Inl err \<Rightarrow> (Inl err, db)
     | Inr p \<Rightarrow>
         if \<not> pi_freeform p \<and> pi_choices p \<noteq> [] \<and> ans \<notin> set (pi_choices p)
         then (Inl ''answer must be one of the supplied choices'', db)
         else let done_p = (\<lambda>q. q\<lparr>pi_status := ''answered'', pi_answer := ans, pi_answered := Some (sv_now E)\<rparr>) in
           (Inr (done_p p), db\<lparr>t_pending := map (\<lambda>q. if pi_id q = pi_id p \<and> pi_status q = ''pending'' then done_p q else q) (t_pending db)\<rparr>))
    = (Inr u, db')"
  let ?f = "\<lambda>p q. if pi_id q = pi_id p \<and> pi_status q = ''pending''
    then q\<lparr>pi_status := ''answered'', pi_answer := ans, pi_answered := Some (sv_now E)\<rparr> else q"
  obtain p where p: "PendingInput sid db = Inr p" using b by (cases "PendingInput sid db") auto
  have db': "db' = db\<lparr>t_pending := map (?f p) (t_pending db)\<rparr>" using b by (simp add: p Let_def split: if_splits)
  have "map pi_id (map (?f p) (t_pending db)) = map pi_id (t_pending db)" by simp
  then show "store_ok db'" unfolding db'
    by (intro store_ok_pending [OF ok]) (use store_okD(8,14) [OF ok] in \<open>auto simp del: map_map\<close>)
qed

lemma warm_ok: "store_ok db \<Longrightarrow> store_ok (snd (WarmCache E sid model tokens ttl db))"
  unfolding WarmCache_def by (rule tx_keeps) (auto simp: store_ok_cache Let_def)

lemma drop_messages_subset: "set (drop_messages n sid xs) \<subseteq> set xs"
  by (induction n sid xs rule: drop_messages.induct) auto

lemma compact_ok: "store_ok db \<Longrightarrow> store_ok (snd (ApplyCompaction E x keep db))"
  unfolding ApplyCompaction_def Let_def
proof (rule tx_keeps, assumption)
  let ?f = "\<lambda>y. y\<lparr>sr_summary := sr_summary x, sr_phase := sr_phase x, sr_model := sr_model x, sr_turn := sr_turn x,
                 sr_status := sr_status x, sr_owner := (if sr_status x = ''running'' then sv_pid E else sr_owner y), sr_updated := sv_now E\<rparr>"
  let ?db1 = "update_session (sr_id x) ?f db"
  fix u db' assume ok: "store_ok db" and b: "(Inr (), cool_cache (sr_id x) (?db1\<lparr>t_messages :=
      drop_messages (if keep < 0 then 0 else length (Messages (sr_id x) db) - nat keep) (sr_id x) (t_messages ?db1)\<rparr>)) = (Inr u, db')"
  have 1: "store_ok ?db1" by (rule store_ok_update [OF ok]) simp
  have "store_ok (?db1\<lparr>t_messages := drop_messages n (sr_id x) (t_messages ?db1)\<rparr>)" for n
    by (rule store_ok_messages [OF 1]) (use drop_messages_subset store_okD(2) [OF 1] in blast)
  with b show "store_ok db'" by (auto simp: store_ok_cache)
qed

lemma snapshot_ok:
  assumes ok: "store_ok db"
  shows "store_ok (snd (CreateCheckpoint E cid sid label reason db))"
proof -
  have "store_ok (db\<lparr>t_checkpoints := t_checkpoints db @ [cp]\<rparr>)"
    if "cp_id cp \<notin> cp_id ` set (t_checkpoints db)" "cp_session cp \<in> session_ids db" for cp
    by (rule store_ok_checkpoints [OF ok]) (use store_okD(9,15) [OF ok] that in simp_all)
  then show ?thesis using ok SessionRow_known [of sid db]
    by (simp add: CreateCheckpoint_def tx_def Let_def split: option.split sum.split)
qed

lemma insert_items_ok:
  assumes "insert_items sid ws db = (Inr u, db')" and ok: "store_ok db" and "sid \<in> session_ids db \<or> ws = []"
  shows "store_ok db' \<and> session_ids db' = session_ids db"
proof -
  have d: "distinct (map wi_id ws)" "\<forall>w \<in> set ws. wi_id w \<notin> wi_id ` set (t_items db)"
    and db': "db' = db\<lparr>t_items := t_items db @ map (\<lambda>w. w\<lparr>wi_session := sid\<rparr>) ws\<rparr>"
    using assms(1) by (auto simp: insert_items_def list_ex_iff split: if_splits)
  have "distinct (map wi_id (t_items db @ map (\<lambda>w. w\<lparr>wi_session := sid\<rparr>) ws))"
    using d store_okD(12) [OF ok] by (auto simp: comp_def) (metis imageI)
  then have "store_ok db'" unfolding db'
    by (rule store_ok_items [OF ok]) (use assms(3) store_okD(6) [OF ok] in auto)
  then show ?thesis by (simp add: db')
qed

lemma insert_pending_ok:
  assumes "insert_pending ps db = (Inr u, db')" and ok: "store_ok db"
  shows "store_ok db' \<and> session_ids db' = session_ids db"
proof -
  have d: "distinct (map pi_id ps)" "\<forall>p \<in> set ps. pi_id p \<notin> pi_id ` set (t_pending db)" "\<forall>p \<in> set ps. pi_session p \<in> session_ids db"
    and db': "db' = db\<lparr>t_pending := t_pending db @ ps\<rparr>"
    using assms(1) by (auto simp: insert_pending_def list_ex_iff known_ids split: if_splits)
  have "distinct (map pi_id (t_pending db @ ps))" using d store_okD(14) [OF ok] by auto (metis imageI)
  then have "store_ok db'" unfolding db' by (rule store_ok_pending [OF ok]) (use d(3) store_okD(8) [OF ok] in auto)
  then show ?thesis by (simp add: db')
qed

lemma restore_ledger_ok:
  assumes "restore_ledger E sid cp todos db = (Inr u, db')" and ok: "store_ok db" and k: "sid \<in> session_ids db"
    and "sid \<notin> ct_session ` set (t_conts db)"
  shows "store_ok db'"
proof (cases "cp_items cp")
  case None
  then show ?thesis using assms(1) sync_tx_ok [OF ok] by (simp add: restore_ledger_def)
next
  case (Some items)
  then obtain ws c where wc: "items = Some ws" "cp_cont cp = Some c" using assms(1) by (auto simp: restore_ledger_def split: option.splits)
  obtain r db1 where i: "insert_items sid ws db = (r, db1)" by force
  then obtain v where v: "r = Inr v" using assms(1) Some wc by (cases r) (auto simp: restore_ledger_def)
  have 1: "store_ok db1" "session_ids db1 = session_ids db" using insert_items_ok [OF i [unfolded v] ok] k by auto
  have "t_conts db1 = t_conts db" using i v by (auto simp: insert_items_def split: if_splits)
  then have "store_ok (db1\<lparr>t_conts := t_conts db1 @ [c\<lparr>ct_session := sid, ct_updated := sv_now E\<rparr>]\<rparr>)"
    by (intro store_ok_conts [OF 1(1)]) (use assms(4) k 1 store_okD(7,13) [OF 1(1)] in auto)
  then show ?thesis using assms(1) Some wc i v 1(1) by (auto simp: restore_ledger_def split: if_splits)
qed

text \<open>The tables a restore starts from, before the ledger is put back.\<close>

definition rewound :: "store_env \<Rightarrow> string \<Rightarrow> session_row \<Rightarrow> message_row list \<Rightarrow> store_db \<Rightarrow> store_db" where
  "rewound E sid snap messages db =
     (let db2 = set_messages sid messages (update_session sid (\<lambda>y. y\<lparr>sr_summary := sr_summary snap, sr_phase := sr_phase snap, sr_model := sr_model snap,
                  sr_turn := sr_turn snap, sr_status := ''interrupted'', sr_request := sr_request snap, sr_updated := sv_now E\<rparr>) db)
      in db2\<lparr>t_pending := filter (\<lambda>p. pi_session p \<noteq> sid) (t_pending db2)\<rparr>)"

definition without_ledger :: "string \<Rightarrow> store_db \<Rightarrow> store_db" where
  "without_ledger sid db =
     db\<lparr>t_items := filter (\<lambda>w. wi_session w \<noteq> sid) (t_items db), t_conts := filter (\<lambda>c. ct_session c \<noteq> sid) (t_conts db)\<rparr>"

lemma RestoreCheckpoint_cases:
  assumes "RestoreCheckpoint E sid cid db = (Inr u, db')"
  obtains cp snap messages todos v4 db4 v7 db7 where "Checkpoint cid db = Inr cp" "cp_session cp = sid" "cp_snap cp = Some snap"
    "cp_messages cp = Some messages" "cp_todos cp = Some todos" "insert_pending (cp_pending cp) (rewound E sid snap messages db) = (Inr v4, db4)"
    "restore_ledger E sid cp todos (without_ledger sid (set_todos sid todos db4)) = (Inr v7, db7)" "db' = cool_cache sid db7"
    "known db sid \<or> messages = [] \<and> todos = []"
proof -
  obtain cp where cp: "Checkpoint cid db = Inr cp"
    using assms by (cases "Checkpoint cid db") (auto simp: RestoreCheckpoint_def tx_def split: option.splits)
  obtain snap messages todos where d: "cp_snap cp = Some snap" "cp_messages cp = Some messages" "cp_todos cp = Some todos" "cp_session cp = sid"
    "known db sid \<or> messages = [] \<and> todos = []"
    using assms cp by (cases "cp_snap cp"; cases "cp_messages cp"; cases "cp_todos cp")
      (auto simp: RestoreCheckpoint_def tx_def split: option.splits if_splits)
  obtain r4 db4 where p: "insert_pending (cp_pending cp) (rewound E sid snap messages db) = (r4, db4)" by force
  obtain r7 db7 where l: "restore_ledger E sid cp todos (without_ledger sid (set_todos sid todos db4)) = (r7, db7)" by force
  have "(case sv_io E of Some err \<Rightarrow> (Inl err, db) | None \<Rightarrow> (case (case r4 of Inl err \<Rightarrow> (Inl err, db)
      | Inr _ \<Rightarrow> (case r7 of Inl err \<Rightarrow> (Inl err, db) | Inr _ \<Rightarrow> (Inr (), cool_cache sid db7))) of
        (Inl err, _) \<Rightarrow> (Inl err, db) | (Inr x, db') \<Rightarrow> (Inr x, db'))) = (Inr u, db')"
    using assms cp d p l
    by (auto simp: RestoreCheckpoint_def tx_def rewound_def without_ledger_def Let_def split: option.splits sum.splits)
  then obtain v4 v7 where "r4 = Inr v4" "r7 = Inr v7" "db' = cool_cache sid db7"
    by (cases r4; cases r7) (auto split: option.splits)
  then show thesis using that [OF cp d(4,1,2,3)] p l d(5) by auto
qed

lemma restore_ok:
  assumes ok: "store_ok db"
  shows "store_ok (snd (RestoreCheckpoint E sid cid db))"
proof -
  obtain r db' where rdb: "RestoreCheckpoint E sid cid db = (r, db')" by force
  show ?thesis
  proof (cases r)
    case (Inl e)
    then have "db' = db" using rdb unfolding RestoreCheckpoint_def by (auto simp: tx_def split: option.splits prod.splits sum.splits)
    then show ?thesis using ok rdb by simp
  next
    case (Inr u)
    with rdb have "RestoreCheckpoint E sid cid db = (Inr u, db')" by simp
    then show ?thesis
    proof (rule RestoreCheckpoint_cases)
      fix cp snap messages todos v4 db4 v7 db7
      assume cp: "Checkpoint cid db = Inr cp" "cp_session cp = sid"
        and p: "insert_pending (cp_pending cp) (rewound E sid snap messages db) = (Inr v4, db4)"
        and l: "restore_ledger E sid cp todos (without_ledger sid (set_todos sid todos db4)) = (Inr v7, db7)" and db': "db' = cool_cache sid db7"
      have k: "sid \<in> session_ids db"
        using cp store_okD(9) [OF ok] by (auto simp: Checkpoint_def find_Some_iff split: option.splits)
      define f :: "session_row \<Rightarrow> session_row" where "f = (\<lambda>y. y\<lparr>sr_summary := sr_summary snap, sr_phase := sr_phase snap, sr_model := sr_model snap,
                  sr_turn := sr_turn snap, sr_status := ''interrupted'', sr_request := sr_request snap, sr_updated := sv_now E\<rparr>)"
      have f: "sr_id (f y) = sr_id y" for y by (simp add: f_def)
      have m: "store_ok (set_messages sid messages (update_session sid f db))"
        by (rule set_messages_ok [OF store_ok_update [OF ok f]]) (use k f in simp)
      have rw: "store_ok (rewound E sid snap messages db)" unfolding rewound_def Let_def f_def [symmetric]
        by (rule store_ok_pending [OF m]) (use store_okD(8,14) [OF m] in \<open>auto intro: distinct_map_filter\<close>)
      have ids: "session_ids (rewound E sid snap messages db) = session_ids db"
        using f unfolding rewound_def Let_def f_def [symmetric] by (simp add: set_messages_def)
      have 4: "store_ok db4" "session_ids db4 = session_ids db" using insert_pending_ok [OF p rw] ids by auto
      have 5: "store_ok (set_todos sid todos db4)" by (rule set_todos_ok [OF 4(1)]) (use k 4(2) in simp)
      let ?d5 = "set_todos sid todos db4"
      have 6: "store_ok (?d5\<lparr>t_items := filter (\<lambda>w. wi_session w \<noteq> sid) (t_items ?d5)\<rparr>)"
        by (rule store_ok_items [OF 5]) (use store_okD(6,12) [OF 5] in \<open>auto intro: distinct_map_filter\<close>)
      have "store_ok (without_ledger sid ?d5)" unfolding without_ledger_def
        using store_ok_conts [OF 6, of "filter (\<lambda>c. ct_session c \<noteq> sid) (t_conts ?d5)"] store_okD(7,13) [OF 5]
        by (auto intro: distinct_map_filter)
      then have "store_ok db7" by (rule restore_ledger_ok [OF l]) (use k 4(2) in \<open>auto simp: without_ledger_def set_todos_def\<close>)
      then show ?thesis using rdb db' by (simp add: store_ok_cache)
    qed
  qed
qed

definition fork_tables :: "store_env \<Rightarrow> string \<Rightarrow> string \<Rightarrow> store_db \<Rightarrow> store_db \<Rightarrow> store_db" where
  "fork_tables E sourceID newID db db1 =
     db1\<lparr>t_messages := t_messages db1 @ map (\<lambda>x. x\<lparr>ms_session := newID\<rparr>) (Messages sourceID db),
         t_todos := t_todos db1 @ map (\<lambda>(i, t). (newID, t\<lparr>td_position := int i\<rparr>)) (enumerate 0 (Todos sourceID db))\<rparr>"

definition fork_cont :: "store_env \<Rightarrow> string \<Rightarrow> string \<Rightarrow> store_db \<Rightarrow> continuation" where
  "fork_cont E sourceID newID db =
     (let cont = Continuation sourceID db in
      cont\<lparr>ct_session := newID, ct_active := (if ct_active cont \<noteq> [] then fork_id E (WorkItems sourceID db) (ct_active cont) else []),
           ct_updated := sv_now E\<rparr>)"

definition fork_event :: "store_env \<Rightarrow> string \<Rightarrow> string \<Rightarrow> event_row" where
  "fork_event E sourceID newID = \<lparr>er_session = newID, er_seq = 1, er_turn = [], er_type = ''session.forked'',
     er_data = json_object E [(''source_session_id'', sv_quote E sourceID)], er_created = sv_now E\<rparr>"

lemma ForkSession_cases:
  assumes "ForkSession E sourceID newID db = (Inr row, db')"
  obtains source v1 db1 v4 db4 where "SessionRow sourceID db = Inr source" "row = fork_row E sourceID newID source"
    "insert_session (insert_row E row) db = (Inr v1, db1)"
    "insert_items newID (fork_items E (WorkItems sourceID db)) (fork_tables E sourceID newID db db1) = (Inr v4, db4)"
    "db' = (let db5 = (if ct_session (Continuation sourceID db) \<noteq> [] then db4\<lparr>t_conts := t_conts db4 @ [fork_cont E sourceID newID db]\<rparr> else db4)
            in db5\<lparr>t_events := t_events db5 @ [fork_event E sourceID newID]\<rparr>)"
    "\<not> list_ex (\<lambda>e. er_session e = newID \<and> er_seq e = 1) (t_events db4)"
proof -
  obtain source where s: "SessionRow sourceID db = Inr source"
    using assms by (cases "SessionRow sourceID db") (auto simp: ForkSession_def tx_def split: option.splits)
  let ?row = "fork_row E sourceID newID source"
  obtain r1 db1 where i: "insert_session (insert_row E ?row) db = (r1, db1)" by force
  obtain r4 db4 where w: "insert_items newID (fork_items E (WorkItems sourceID db)) (fork_tables E sourceID newID db db1) = (r4, db4)" by force
  have io: "sv_io E = None" using assms by (auto simp: ForkSession_def tx_def split: option.splits)
  obtain v1 where v1: "r1 = Inr v1" using assms s i io by (cases r1) (auto simp: ForkSession_def tx_def Let_def)
  obtain v4 where v4: "r4 = Inr v4"
    using assms s i io v1 w by (cases r4) (auto simp: ForkSession_def tx_def Let_def fork_tables_def)
  have "row = ?row" "db' = (let db5 = (if ct_session (Continuation sourceID db) \<noteq> [] then db4\<lparr>t_conts := t_conts db4 @ [fork_cont E sourceID newID db]\<rparr> else db4)
            in db5\<lparr>t_events := t_events db5 @ [fork_event E sourceID newID]\<rparr>)"
    "\<not> list_ex (\<lambda>e. er_session e = newID \<and> er_seq e = 1) (t_events db4)"
    using assms s i io v1 w v4
    by (auto simp: ForkSession_def tx_def Let_def fork_tables_def fork_cont_def fork_event_def split: if_splits)
  then show thesis using that s i v1 w v4 by auto
qed

lemma gapless_first: "gapless evs \<Longrightarrow> \<forall>e \<in> set evs. er_session e \<noteq> er_session x \<Longrightarrow> er_seq x = 1 \<Longrightarrow> gapless (evs @ [x])"
  by (auto simp: gapless_def Let_def filter_empty_conv)

lemma fork_ok:
  assumes ok: "store_ok db"
  shows "store_ok (snd (ForkSession E sid new db))"
proof -
  obtain r db' where rdb: "ForkSession E sid new db = (r, db')" by force
  show ?thesis
  proof (cases r)
    case (Inl e)
    then have "db' = db" using rdb unfolding ForkSession_def by (auto simp: tx_def split: option.splits prod.splits sum.splits)
    then show ?thesis using ok rdb by simp
  next
    case (Inr row)
    with rdb have "ForkSession E sid new db = (Inr row, db')" by simp
    then show ?thesis
    proof (rule ForkSession_cases)
      fix source v1 db1 v4 db4
      assume row: "row = fork_row E sid new source" and i: "insert_session (insert_row E row) db = (Inr v1, db1)"
        and w: "insert_items new (fork_items E (WorkItems sid db)) (fork_tables E sid new db db1) = (Inr v4, db4)"
        and db': "db' = (let db5 = (if ct_session (Continuation sid db) \<noteq> [] then db4\<lparr>t_conts := t_conts db4 @ [fork_cont E sid new db]\<rparr> else db4)
            in db5\<lparr>t_events := t_events db5 @ [fork_event E sid new]\<rparr>)"
      have new: "sr_id (insert_row E row) = new" by (simp add: row insert_row_def fork_row_def Let_def)
      have 1: "store_ok db1" "new \<notin> session_ids db" "db1 = db\<lparr>t_sessions := t_sessions db @ [insert_row E row]\<rparr>"
        using insert_session_ok [OF i ok] new by auto
      have k: "new \<in> session_ids db1" by (simp add: 1(3) session_ids_def new)
      let ?m = "db1\<lparr>t_messages := t_messages db1 @ map (\<lambda>x. x\<lparr>ms_session := new\<rparr>) (Messages sid db)\<rparr>"
      have 2: "store_ok ?m" by (rule store_ok_messages [OF 1(1)]) (use k store_okD(2) [OF 1(1)] in auto)
      have "new \<notin> fst ` set (t_todos db1)" using 1(2,3) store_okD(5) [OF ok] by auto
      then have n: "numbered (t_todos db1 @ map (\<lambda>(i, t). (new, t\<lparr>td_position := int i\<rparr>)) (enumerate 0 (Todos sid db)))"
        by (rule numbered_new [OF store_okD(17) [OF 1(1)]])
      have "\<forall>x \<in> set (t_todos db1 @ map (\<lambda>(i, t). (new, t\<lparr>td_position := int i\<rparr>)) (enumerate 0 (Todos sid db))). fst x \<in> session_ids ?m"
        using k store_okD(5) [OF 1(1)] by auto
      from store_ok_todos [OF 2 n this] have 3: "store_ok (fork_tables E sid new db db1)" by (simp add: fork_tables_def)
      have 4: "store_ok db4" "session_ids db4 = session_ids db1"
        using insert_items_ok [OF w 3] k by (auto simp: fork_tables_def)
      have tabs: "t_conts db4 = t_conts db" "t_events db4 = t_events db"
        using w 1(3) by (auto simp: insert_items_def fork_tables_def split: if_splits)
      define db5 where "db5 = (if ct_session (Continuation sid db) \<noteq> [] then db4\<lparr>t_conts := t_conts db4 @ [fork_cont E sid new db]\<rparr> else db4)"
      have fc: "ct_session (fork_cont E sid new db) = new" by (simp add: fork_cont_def Let_def)
      have "new \<notin> ct_session ` set (t_conts db4)" using 1(2) store_okD(7) [OF ok] by (auto simp: tabs)
      then have "store_ok (db4\<lparr>t_conts := t_conts db4 @ [fork_cont E sid new db]\<rparr>)"
        by (intro store_ok_conts [OF 4(1)]) (use k 4(2) fc store_okD(7,13) [OF 4(1)] in auto)
      then have 5: "store_ok db5" "t_events db5 = t_events db" "session_ids db5 = session_ids db1" using 4 tabs by (auto simp: db5_def)
      have "gapless (t_events db5 @ [fork_event E sid new])"
        by (rule gapless_first) (use 1(2) store_okD(1,16) [OF ok] 5(2) in \<open>auto simp: fork_event_def\<close>)
      then have "store_ok (db5\<lparr>t_events := t_events db5 @ [fork_event E sid new]\<rparr>)"
        by (intro store_ok_events [OF 5(1)]) (use k 5(3) store_okD(1) [OF 5(1)] in \<open>auto simp: fork_event_def\<close>)
      then show ?thesis using rdb db' by (simp add: db5_def Let_def)
    qed
  qed
qed

lemma delete_ok:
  assumes ok: "store_ok db"
  shows "store_ok (snd (DeleteConversation E sid db))"
proof -
  let ?db = "(drop_session_rows sid db)\<lparr>t_sessions := filter (\<lambda>x. sr_id x \<noteq> sid) (t_sessions db)\<rparr>"
  have "session_ids ?db = session_ids db - {sid}" by (auto simp: session_ids_def drop_session_rows_def)
  then have "owned ?db" using ok unfolding ok_defs by (simp add: drop_session_rows_def)
  moreover have "keys_ok ?db" using ok unfolding ok_defs by (simp add: drop_session_rows_def distinct_map_filter)
  moreover have "gapless (t_events ?db)" "numbered (t_todos ?db)"
    using gapless_filter [OF store_okD(16) [OF ok]] numbered_filter [OF store_okD(17) [OF ok]] by (simp_all add: drop_session_rows_def)
  ultimately have "store_ok ?db" by (simp add: store_ok_def)
  then show ?thesis using ok by (simp add: DeleteConversation_def tx_def split: option.split)
qed

lemmas op_ok = create_ok create_accepted_ok updates_ok interrupted_ok messages_ok event_ok accepts_ok enqueue_ok dequeue_ok todos_ok
  acknowledge_ok ask_ok answer_ok warm_ok compact_ok snapshot_ok restore_ok fork_ok delete_ok

lemma store_step_ok: "store_step l db db' \<Longrightarrow> store_ok db \<Longrightarrow> store_ok db'"
  by (induction rule: store_step.induct) (simp_all add: op_ok)

end
