(* ===== verification/Conversation_Props.thy ===== *)
theory Conversation_Props
  imports Conversation_Inv
begin

text \<open>
  The properties of the conversation store: the invariant of every reachable database, that a
  message is accepted exactly once, and that restoring a checkpoint brings back the conversation.
\<close>

section \<open>Reachable databases\<close>

lemma reachable_ok: "(\<lambda>a b. \<exists>l. store_step l a b)\<^sup>*\<^sup>* empty_db db \<Longrightarrow> store_ok db"
proof -
  assume "(\<lambda>a b. \<exists>l. store_step l a b)\<^sup>*\<^sup>* empty_db db"
  moreover have "store_ok empty_db" by (simp add: store_ok_def keys_ok_def owned_def gapless_def numbered_def empty_db_def)
  ultimately show ?thesis by (induction rule: rtranclp_induct) (auto intro: store_step_ok)
qed


definition demo_store_env :: store_env where
  "demo_store_env = \<lparr>sv_now = 7, sv_io = None, sv_pid = 1, sv_alive = (\<lambda>_. True), sv_quote = (\<lambda>s. s), sv_title = (\<lambda>s. s), sv_uni = (\<lambda>s. s), sv_fresh = (\<lambda>_. [])\<rparr>"

definition demo_row :: session_row where
  "demo_row = \<lparr>sr_id = ''s'', sr_spec = ''task'', sr_title = [], sr_summary = [], sr_phase = [], sr_model = [], sr_status = [], sr_integration = [],
     sr_externalID = [], sr_incarnation = [], sr_workspace = [], sr_ownership = [], sr_parent = [], sr_context = [], sr_request = [], sr_turn = 0,
     sr_spent = 0, sr_budget = 1, sr_created = 0, sr_updated = 0, sr_archived = None, sr_latest = [], sr_owner = 0\<rparr>"

definition demo_content :: message_content where
  "demo_content = \<lparr>mc_json = ''hi'', mc_text = ''hi'', mc_harness = False\<rparr>"

definition demo_conversation :: store_db where
  "demo_conversation = snd (AcceptMessage demo_store_env ''s'' ''r1'' ''t1'' ''web'' ''h'' demo_content None
     (snd (CreateSession demo_store_env demo_row empty_db)))"

lemma demo_store_reachable: "(\<lambda>a b. \<exists>l. store_step l a b)\<^sup>*\<^sup>* empty_db demo_conversation"
proof -
  let ?db = "snd (CreateSession demo_store_env demo_row empty_db)"
  have "\<exists>l. store_step l empty_db ?db" "\<exists>l. store_step l ?db demo_conversation"
    unfolding demo_conversation_def by (blast intro: create accept)+
  then show "(\<lambda>a b. \<exists>l. store_step l a b)\<^sup>*\<^sup>* empty_db demo_conversation"
    by (rule converse_rtranclp_into_rtranclp [OF _ r_into_rtranclp])
qed


section \<open>Messages are accepted exactly once\<close>

text \<open>Receipts and checkpoints are only ever added, until the session is deleted.\<close>

definition grows :: "store_db \<Rightarrow> store_db \<Rightarrow> bool" where
  "grows a b \<longleftrightarrow> prefix (t_receipts a) (t_receipts b) \<and> prefix (t_checkpoints a) (t_checkpoints b)"

lemma grows_refl [simp]: "grows a a"
  by (simp add: grows_def)

lemma grows_same: "t_receipts b = t_receipts a \<Longrightarrow> t_checkpoints b = t_checkpoints a \<Longrightarrow> grows a b"
  by (simp add: grows_def)

lemma frame_defs:
  "t_receipts (append_event E sid turn typ data db) = t_receipts db" "t_checkpoints (append_event E sid turn typ data db) = t_checkpoints db"
  "t_receipts (append_message sid role c t db) = t_receipts db" "t_checkpoints (append_message sid role c t db) = t_checkpoints db"
  "t_receipts (cool_cache sid db) = t_receipts db" "t_checkpoints (cool_cache sid db) = t_checkpoints db"
  "t_receipts (set_messages sid ms db) = t_receipts db" "t_checkpoints (set_messages sid ms db) = t_checkpoints db"
  "t_receipts (set_todos sid ts db) = t_receipts db" "t_checkpoints (set_todos sid ts db) = t_checkpoints db"
  by (simp_all add: append_event_def append_message_def cool_cache_def set_messages_def set_todos_def)

lemma tx_grows: "(\<And>x db'. body db = (Inr x, db') \<Longrightarrow> grows db db') \<Longrightarrow> grows db (snd (tx E body db))"
  by (rule tx_keeps [where P = "grows db"]) simp_all

lemma insert_items_frame:
  "insert_items sid ws db = (r, db') \<Longrightarrow> t_receipts db' = t_receipts db \<and> t_checkpoints db' = t_checkpoints db"
  by (auto simp: insert_items_def split: if_splits)

lemma insert_pending_frame:
  "insert_pending ps db = (r, db') \<Longrightarrow> t_receipts db' = t_receipts db \<and> t_checkpoints db' = t_checkpoints db"
  by (auto simp: insert_pending_def split: if_splits)

lemma sync_tx_frame: "syncWorkItemsTx E sid ts db = (r, db') \<Longrightarrow> t_receipts db' = t_receipts db \<and> t_checkpoints db' = t_checkpoints db"
  by (auto simp: syncWorkItemsTx_def Let_def split: if_splits)

lemma restore_ledger_frame:
  "restore_ledger E sid cp ts db = (r, db') \<Longrightarrow> t_receipts db' = t_receipts db \<and> t_checkpoints db' = t_checkpoints db"
  by (auto simp: restore_ledger_def dest: sync_tx_frame insert_items_frame split: option.splits prod.splits sum.splits if_splits)

lemma restore_grows: "grows db (snd (RestoreCheckpoint E sid cid db))"
proof -
  obtain r db' where rdb: "RestoreCheckpoint E sid cid db = (r, db')" by force
  show ?thesis
  proof (cases r)
    case (Inl e)
    then have "db' = db" using rdb unfolding RestoreCheckpoint_def by (auto simp: tx_def split: option.splits prod.splits sum.splits)
    then show ?thesis by (simp add: rdb)
  next
    case (Inr u)
    with rdb have "RestoreCheckpoint E sid cid db = (Inr u, db')" by simp
    then show ?thesis
      by (rule RestoreCheckpoint_cases, intro grows_same)
        (auto simp: rdb frame_defs rewound_def without_ledger_def Let_def dest!: insert_pending_frame restore_ledger_frame)
  qed
qed

lemma fork_grows: "grows db (snd (ForkSession E sid new db))"
proof -
  obtain r db' where rdb: "ForkSession E sid new db = (r, db')" by force
  show ?thesis
  proof (cases r)
    case (Inl e)
    then have "db' = db" using rdb unfolding ForkSession_def by (auto simp: tx_def split: option.splits prod.splits sum.splits)
    then show ?thesis by (simp add: rdb)
  next
    case (Inr row)
    with rdb have "ForkSession E sid new db = (Inr row, db')" by simp
    then show ?thesis
      by (rule ForkSession_cases, intro grows_same)
        (auto simp: rdb frame_defs fork_tables_def insert_session_def Let_def dest!: insert_items_frame split: if_splits)
  qed
qed

lemma accept_tx_grows:
  assumes "accept_tx E sid requestID turnID kind hash content request db = (Inr r, db')"
  shows "grows db db'"
proof (cases "find_receipt sid requestID db")
  case None
  then show ?thesis
    using assms by (auto simp: accept_tx_def grows_def frame_defs Let_def split: if_splits prod.splits option.splits)
next
  case (Some q)
  then show ?thesis using assms by (auto simp: accept_tx_def split: if_splits)
qed

lemma insert_session_frame:
  "insert_session x db = (r, db') \<Longrightarrow> t_receipts db' = t_receipts db \<and> t_checkpoints db' = t_checkpoints db"
  by (auto simp: insert_session_def split: if_splits)

lemma insert_accepted_grows: "insert_accepted E x requestID turnID hash db = (Inr u, db') \<Longrightarrow> grows db db'"
  by (auto simp: insert_accepted_def grows_def frame_defs Let_def dest!: insert_session_frame split: prod.splits sum.splits if_splits)

lemma create_accepted_grows: "grows db (snd (CreateSessionAccepted E x requestID turnID hash db))"
proof -
  have "grows db (snd (tx E (\<lambda>db. case SessionByExternalID (sr_integration x) (sr_externalID x) (sr_incarnation x) db of
          Inr y \<Rightarrow> (Inr (y, False), db)
        | Inl _ \<Rightarrow> insert_accepted E (session_defaults E ''external'' x) requestID turnID hash db) db))"
    by (rule tx_grows; cases "SessionByExternalID (sr_integration x) (sr_externalID x) (sr_incarnation x) db")
      (simp_all add: insert_accepted_grows)
  then show ?thesis by (simp add: CreateSessionAccepted_def)
qed

lemma accepts_grow:
  "grows db (snd (AcceptMessage E sid requestID turnID kind hash content request db))"
  "grows db (snd (DeliverQueuedMessage E sid requestID turnID kind hash content request db))"
proof -
  have "grows db (snd (tx E (accept_tx E sid requestID turnID kind hash content request) db))"
    by (rule tx_grows) (rule accept_tx_grows)
  then show "grows db (snd (AcceptMessage E sid requestID turnID kind hash content request db))"
    "grows db (snd (DeliverQueuedMessage E sid requestID turnID kind hash content request db))"
    by (simp_all add: AcceptMessage_def DeliverQueuedMessage_def)
qed

lemma snapshot_grows: "grows db (snd (CreateCheckpoint E cid sid label reason db))"
  by (auto simp: CreateCheckpoint_def tx_def grows_def Let_def split: option.split sum.split)

lemma others_grow:
  "grows db (snd (CreateSession E x db))" "grows db (snd (UpdateSession E x db))" "grows db (snd (UpdateSessionTitle E sid t db))"
  "grows db (snd (SetSessionStatus E sid st db))" "grows db (snd (AddSpend E sid usd db))" "grows db (snd (AddBudget E sid usd db))"
  "grows db (snd (MarkRunningInterrupted E db))" "grows db (snd (AddMessage E sid role c db))" "grows db (snd (ReplaceMessages E sid msgs db))"
  "grows db (snd (ShrinkMessages E sid role n f db))" "grows db (snd (AddEventForTurn E sid turn typ data db))"
  "grows db (snd (AcknowledgeReport E sid summary db))" "grows db (snd (WarmCache E sid model tokens ttl db))"
  "grows db (snd (ApplyCompaction E x keep db))"
  unfolding CreateSession_def UpdateSession_def UpdateSessionTitle_def SetSessionStatus_def AddSpend_def AddBudget_def MarkRunningInterrupted_def
    AddMessage_def ReplaceMessages_def ShrinkMessages_def AddEventForTurn_def AcknowledgeReport_def WarmCache_def ApplyCompaction_def Let_def
  by (rule tx_grows, rule grows_same; auto simp: frame_defs dest!: insert_session_frame split: if_splits; fail)+

lemma queue_grows:
  "grows db (snd (EnqueueMessage E sid requestID content src hash attachments db))" "grows db (snd (DequeueMessage E sid db))"
  by (auto simp: EnqueueMessage_def DequeueMessage_def tx_def split: option.split intro: grows_same)

lemma pending_grows: "grows db (snd (CreatePendingInput E p db))" "grows db (snd (ResolvePendingInput E sid ans db))"
  by (auto simp: CreatePendingInput_def ResolvePendingInput_def tx_def Let_def split: option.split sum.split intro: grows_same)

lemma todos_grow: "grows db (snd (SetTodos E sid ts db))"
  unfolding SetTodos_def by (rule tx_grows, rule grows_same) (auto simp: frame_defs dest: sync_tx_frame)

lemmas op_grows = create_accepted_grows accepts_grow snapshot_grows others_grow queue_grows pending_grows todos_grow restore_grows fork_grows

lemma step_grows: "store_step l a b \<Longrightarrow> l = None \<Longrightarrow> grows a b"
  by (induction rule: store_step.induct) (simp_all add: op_grows)

text \<open>Runs in which the session is not deleted.\<close>

definition while_kept :: "string \<Rightarrow> store_db \<Rightarrow> store_db \<Rightarrow> bool" where
  "while_kept sid = (\<lambda>a b. \<exists>l. store_step l a b \<and> l \<noteq> Some sid)\<^sup>*\<^sup>*"

lemma find_prefix: "prefix xs ys \<Longrightarrow> List.find P xs = Some x \<Longrightarrow> List.find P ys = Some x"
proof -
  assume "prefix xs ys" "List.find P xs = Some x"
  then obtain zs where "ys = xs @ zs" by (auto simp: prefix_def)
  with \<open>List.find P xs = Some x\<close> show ?thesis by (induction xs arbitrary: ys) (auto split: if_splits)
qed

lemma find_filter: "(\<And>x. P x \<Longrightarrow> Q x) \<Longrightarrow> List.find P (filter Q xs) = List.find P xs"
  by (induction xs) auto

lemma step_keeps:
  assumes "store_step l a b" and "l \<noteq> Some sid"
  shows "find_receipt sid rid a = Some r \<Longrightarrow> find_receipt sid rid b = Some r"
    and "Checkpoint cid a = Inr cp \<Longrightarrow> cp_session cp = sid \<Longrightarrow> Checkpoint cid b = Inr cp"
proof -
  have gen: "(find_receipt sid rid a = Some r \<longrightarrow> find_receipt sid rid b = Some r)
      \<and> (Checkpoint cid a = Inr cp \<and> cp_session cp = sid \<longrightarrow> Checkpoint cid b = Inr cp)"
  proof (cases l)
    case None
    then have "grows a b" by (rule step_grows [OF assms(1)])
    then have "find_receipt sid rid a = Some r \<Longrightarrow> find_receipt sid rid b = Some r"
      "List.find (\<lambda>c. cp_id c = cid) (t_checkpoints a) = Some cp \<Longrightarrow> List.find (\<lambda>c. cp_id c = cid) (t_checkpoints b) = Some cp"
      unfolding grows_def find_receipt_def by (blast intro: find_prefix)+
    then show ?thesis by (auto simp: Checkpoint_def split: option.splits)
  next
    case (Some k)
    then obtain E where b: "b = snd (DeleteConversation E k a)" using assms(1) by (auto elim: store_step.cases)
    have "k \<noteq> sid" using Some assms(2) by simp
    then have "find_receipt sid rid (drop_session_rows k a) = find_receipt sid rid a"
      unfolding find_receipt_def drop_session_rows_def by simp (rule find_filter, auto)
    moreover have "List.find P (filter Q xs) = Some x" if "List.find P xs = Some x" "Q x" for P Q and x :: checkpoint and xs
      using that by (induction xs) (auto split: if_splits)
    then have "Checkpoint cid a = Inr cp \<and> cp_session cp = sid \<longrightarrow> Checkpoint cid (drop_session_rows k a) = Inr cp"
      using \<open>k \<noteq> sid\<close> by (auto simp: Checkpoint_def drop_session_rows_def split: option.splits)
    ultimately show ?thesis
      by (auto simp: b DeleteConversation_def tx_def find_receipt_def Checkpoint_def split: option.splits)
  qed
  then show "find_receipt sid rid a = Some r \<Longrightarrow> find_receipt sid rid b = Some r"
    "Checkpoint cid a = Inr cp \<Longrightarrow> cp_session cp = sid \<Longrightarrow> Checkpoint cid b = Inr cp" by blast+
qed

lemma run_keeps:
  assumes "while_kept sid a b"
  shows "find_receipt sid rid a = Some r \<Longrightarrow> find_receipt sid rid b = Some r"
    and "Checkpoint cid a = Inr cp \<Longrightarrow> cp_session cp = sid \<Longrightarrow> Checkpoint cid b = Inr cp" and "store_ok a \<Longrightarrow> store_ok b"
  using assms unfolding while_kept_def by (induction rule: rtranclp_induct) (auto intro: step_keeps store_step_ok)

lemma accepted_receipt:
  assumes "accept_tx E sid rid turnID kind hash content request db = (Inr r, db')" and "\<not> rp_duplicate r"
  shows "find_receipt sid rid db' = Some r \<and> rp_hash r = hash \<and> find_receipt sid rid db = None"
proof (cases "find_receipt sid rid db")
  case None
  let ?P = "\<lambda>r. rp_session r = sid \<and> rp_request r = rid"
  have app: "List.find ?P (xs @ [x]) = Some x" if "List.find ?P xs = None" "?P x" for xs x using that by (induction xs) (auto split: if_splits)
  have r: "t_receipts db' = t_receipts db @ [r]" "?P r" "rp_hash r = hash"
    using assms None by (auto simp: accept_tx_def frame_defs Let_def split: if_splits prod.splits option.splits)
  with app [OF _ r(2), of "t_receipts db"] None show ?thesis by (simp add: find_receipt_def)
next
  case (Some q)
  then show ?thesis using assms by (auto simp: accept_tx_def split: if_splits)
qed

text \<open>What a later call with the same request identifier answers.\<close>

definition retry_answer :: "store_env \<Rightarrow> receipt \<Rightarrow> string \<Rightarrow> string + receipt" where
  "retry_answer E r hash =
     (case sv_io E of
        Some err \<Rightarrow> Inl err
      | None \<Rightarrow> if hash = rp_hash r then Inr (r\<lparr>rp_duplicate := True\<rparr>) else Inl (reused E (rp_request r)))"

lemma retry_same:
  assumes "find_receipt sid rid db = Some r" and "rid \<noteq> []"
  shows "AcceptMessage E sid rid turnID kind hash content request db = (retry_answer E r hash, db)"
    and "DeliverQueuedMessage E sid rid turnID kind hash content request db = (retry_answer E r hash, db)"
proof -
  have "rp_request r = rid" using assms(1) by (auto simp: find_receipt_def find_Some_iff)
  then have "tx E (accept_tx E sid rid turnID kind hash content request) db = (retry_answer E r hash, db)"
    using assms(1) by (auto simp: tx_def accept_tx_def retry_answer_def split: option.split)
  then show "AcceptMessage E sid rid turnID kind hash content request db = (retry_answer E r hash, db)"
    "DeliverQueuedMessage E sid rid turnID kind hash content request db = (retry_answer E r hash, db)"
    using assms(2) by (simp_all add: AcceptMessage_def DeliverQueuedMessage_def)
qed



end
