(* ===== verification/Conversation_Checkpoint.thy ===== *)
theory Conversation_Checkpoint
  imports Conversation_Props
begin

text \<open>
  Restoring a checkpoint brings back the conversation as it was, whatever happened in between, and
  touches nothing else; a fork starts with a copy of its source's conversation.
\<close>

section \<open>Reading back what was written\<close>

lemma sort_key_idem [simp]: "sort_key f (sort_key f xs) = sort_key f xs"
  by (rule sort_key_id_if_sorted) simp

lemma todos_of_numbered:
  assumes "numbered (t_todos db)"
  shows "Todos sid db = map snd (filter (\<lambda>t. fst t = sid) (t_todos db))"
    and "map td_position (Todos sid db) = map int [0..<length (Todos sid db)]"
proof -
  let ?l = "map snd (filter (\<lambda>t. fst t = sid) (t_todos db))"
  have p: "map td_position ?l = map int [0..<length ?l]" using assms by (simp add: numbered_def Let_def comp_def)
  have "sorted (map td_position ?l)" unfolding p by (simp add: sorted_iff_nth_mono)
  then show "Todos sid db = ?l" unfolding Todos_def by (rule sort_key_id_if_sorted)
  with p show "map td_position (Todos sid db) = map int [0..<length (Todos sid db)]" by simp
qed

lemma renumber_id:
  assumes "map td_position ts = map int [0..<length ts]"
  shows "map (\<lambda>(i, t). t\<lparr>td_position := int i\<rparr>) (enumerate 0 ts) = ts"
proof (rule nth_equalityI)
  fix i assume "i < length (map (\<lambda>(i, t). t\<lparr>td_position := int i\<rparr>) (enumerate 0 ts))"
  then have i: "i < length ts" by simp
  have "td_position (ts ! i) = int i" using arg_cong [OF assms, of "\<lambda>l. l ! i"] i by simp
  then show "map (\<lambda>(i, t). t\<lparr>td_position := int i\<rparr>) (enumerate 0 ts) ! i = ts ! i" using i by (simp add: nth_enumerate_eq)
qed simp

lemma Todos_set:
  assumes "map td_position ts = map int [0..<length ts]"
  shows "Todos k (set_todos sid ts db) = (if k = sid then ts else Todos k db)"
proof -
  let ?new = "map (\<lambda>(i, t). (sid, t\<lparr>td_position := int i\<rparr>)) (enumerate 0 ts)"
  have "filter (\<lambda>t. fst t = k) ?new = (if k = sid then ?new else [])" by (auto simp: filter_empty_conv filter_id_conv)
  moreover have "map snd ?new = ts" using renumber_id [OF assms] by (simp add: comp_def case_prod_unfold)
  moreover have "filter (\<lambda>t. fst t = k) (filter (\<lambda>t. fst t \<noteq> sid) xs) = (if k = sid then [] else filter (\<lambda>t. fst t = k) xs)" for xs :: "(string \<times> todo) list"
    by (auto simp: filter_empty_conv intro!: filter_cong)
  moreover have "sort_key td_position ts = ts" by (rule sort_key_id_if_sorted) (simp add: assms sorted_iff_nth_mono)
  ultimately show ?thesis by (simp add: Todos_def set_todos_def del: filter_filter)
qed

lemma Messages_set: "Messages k (set_messages sid ms db) = (if k = sid then map (\<lambda>x. x\<lparr>ms_session := sid\<rparr>) ms else Messages k db)"
  by (auto simp: Messages_def set_messages_def filter_empty_conv filter_id_conv comp_def intro!: filter_cong)

lemma Messages_owner: "map (\<lambda>x. x\<lparr>ms_session := sid\<rparr>) (Messages sid db) = Messages sid db"
  by (rule map_idI) (simp add: Messages_def)

lemma unowned_items: "map (unowned \<circ> (\<lambda>w. w\<lparr>wi_session := sid\<rparr>)) (WorkItems k db) = WorkItems k db"
  by (rule map_idI) (auto simp: WorkItems_def ledger_rows_def unowned_def)

lemma distinct_key_sort: "distinct (map f (sort_key g xs)) = distinct (map f xs)"
  by (simp add: distinct_map)

lemma filter_owner: "filter (\<lambda>x. f x = k) (filter (\<lambda>x. f x \<noteq> sid) xs @ ys)
    = (if k = sid then filter (\<lambda>x. f x = k) ys else filter (\<lambda>x. f x = k) xs @ filter (\<lambda>x. f x = k) ys)"
  by (auto simp: filter_empty_conv intro!: filter_cong)

lemma find_owner: "List.find (\<lambda>x. f x = k) (filter (\<lambda>x. f x \<noteq> sid) xs @ ys)
    = (if k = sid then List.find (\<lambda>x. f x = k) ys
       else case List.find (\<lambda>x. f x = k) xs of Some x \<Rightarrow> Some x | None \<Rightarrow> List.find (\<lambda>x. f x = k) ys)"
  by (induction xs) auto

section \<open>The parts of a restore\<close>

lemma insert_pending_free:
  assumes "distinct (map pi_id ps)" and "\<forall>p \<in> set (t_pending db). pi_id p \<notin> pi_id ` set ps" and "\<forall>p \<in> set ps. known db (pi_session p)"
  shows "insert_pending ps db = (Inr (), db\<lparr>t_pending := t_pending db @ ps\<rparr>)"
proof -
  have "\<not> list_ex (\<lambda>p. pi_id p \<in> pi_id ` set (t_pending db)) ps" using assms(2) by (auto simp: list_ex_iff) (metis image_eqI)
  with assms(1,3) show ?thesis by (simp add: insert_pending_def list_ex_iff)
qed

lemma insert_items_free:
  assumes "distinct (map wi_id ws)" and "\<forall>w \<in> set (t_items db). wi_id w \<notin> wi_id ` set ws"
  shows "insert_items sid ws db = (Inr (), db\<lparr>t_items := t_items db @ map (\<lambda>w. w\<lparr>wi_session := sid\<rparr>) ws\<rparr>)"
proof -
  have "\<not> list_ex (\<lambda>w. wi_id w \<in> wi_id ` set (t_items db)) ws" using assms(2) by (auto simp: list_ex_iff) (metis image_eqI)
  with assms(1) show ?thesis by (simp add: insert_items_def)
qed

lemma unowned_id [simp]: "wi_id (unowned w) = wi_id w" "wi_position (unowned w) = wi_position w"
  by (simp_all add: unowned_def)

lemma snapshot_keys:
  assumes "store_ok db"
  shows "distinct (map pi_id (PendingInputs sid db))" and "distinct (map wi_id (WorkItems sid db))"
    and "wi_id ` set (WorkItems sid db) = wi_id ` {w \<in> set (t_items db). wi_session w = sid}"
proof -
  show "distinct (map pi_id (PendingInputs sid db))"
    using store_okD(14) [OF assms] by (simp add: PendingInputs_def distinct_key_sort distinct_map_filter)
  have "distinct (map wi_id (filter (\<lambda>w. wi_session w = sid) (t_items db)))"
    using store_okD(12) [OF assms] by (rule distinct_map_filter)
  then show "distinct (map wi_id (WorkItems sid db))" by (simp add: WorkItems_def ledger_rows_def distinct_key_sort comp_def)
  show "wi_id ` set (WorkItems sid db) = wi_id ` {w \<in> set (t_items db). wi_session w = sid}"
    by (simp add: WorkItems_def ledger_rows_def image_image)
qed

text \<open>The tables after a restore of \<open>cp\<close>, in one expression.\<close>

definition restored :: "store_env \<Rightarrow> string \<Rightarrow> session_row \<Rightarrow> message_row list \<Rightarrow> pending_input list \<Rightarrow> todo list \<Rightarrow> work_item list \<Rightarrow> continuation
    \<Rightarrow> store_db \<Rightarrow> store_db" where
  "restored E sid snap ms ps ts ws c db =
     (let db4 = (rewound E sid snap ms db)\<lparr>t_pending := filter (\<lambda>p. pi_session p \<noteq> sid) (t_pending db) @ ps\<rparr>;
          db6 = set_todos sid ts db4
      in cool_cache sid (db6\<lparr>t_items := filter (\<lambda>w. wi_session w \<noteq> sid) (t_items db) @ map (\<lambda>w. w\<lparr>wi_session := sid\<rparr>) ws,
           t_conts := filter (\<lambda>d. ct_session d \<noteq> sid) (t_conts db) @ (if ct_session c \<noteq> [] then [c\<lparr>ct_session := sid, ct_updated := sv_now E\<rparr>] else [])\<rparr>))"

lemma rewound_frame [simp]:
  "t_pending (rewound E sid snap ms db) = filter (\<lambda>p. pi_session p \<noteq> sid) (t_pending db)" "t_items (rewound E sid snap ms db) = t_items db"
  "t_conts (rewound E sid snap ms db) = t_conts db" "t_todos (rewound E sid snap ms db) = t_todos db" "t_events (rewound E sid snap ms db) = t_events db"
  "t_receipts (rewound E sid snap ms db) = t_receipts db" "t_queued (rewound E sid snap ms db) = t_queued db"
  "t_checkpoints (rewound E sid snap ms db) = t_checkpoints db"
  by (simp_all add: rewound_def set_messages_def Let_def)

lemma rewound_known [simp]: "known (rewound E sid snap ms db) k = known db k"
proof -
  have "map sr_id (t_sessions (rewound E sid snap ms db)) = map sr_id (t_sessions db)"
    by (simp add: rewound_def set_messages_def Let_def update_session_ids)
  then show ?thesis unfolding known_ids session_ids_def by (metis set_map)
qed

lemma set_todos_frame [simp]:
  "t_items (set_todos sid ts db) = t_items db" "t_conts (set_todos sid ts db) = t_conts db" "t_pending (set_todos sid ts db) = t_pending db"
  "t_events (set_todos sid ts db) = t_events db" "t_receipts (set_todos sid ts db) = t_receipts db" "t_queued (set_todos sid ts db) = t_queued db"
  "t_checkpoints (set_todos sid ts db) = t_checkpoints db" "t_messages (set_todos sid ts db) = t_messages db"
  "t_sessions (set_todos sid ts db) = t_sessions db"
  by (simp_all add: set_todos_def)

lemma restore_ledger_free:
  assumes "cp_items cp = Some (Some ws)" and "cp_cont cp = Some c" and "distinct (map wi_id ws)"
    and "\<forall>w \<in> set (t_items db). wi_session w \<noteq> sid \<longrightarrow> wi_id w \<notin> wi_id ` set ws"
  shows "restore_ledger E sid cp ts (without_ledger sid db)
    = (Inr (), db\<lparr>t_items := filter (\<lambda>w. wi_session w \<noteq> sid) (t_items db) @ map (\<lambda>w. w\<lparr>wi_session := sid\<rparr>) ws,
         t_conts := filter (\<lambda>d. ct_session d \<noteq> sid) (t_conts db) @ (if ct_session c \<noteq> [] then [c\<lparr>ct_session := sid, ct_updated := sv_now E\<rparr>] else [])\<rparr>)"
proof -
  have "insert_items sid ws (without_ledger sid db) = (Inr (), (without_ledger sid db)
      \<lparr>t_items := t_items (without_ledger sid db) @ map (\<lambda>w. w\<lparr>wi_session := sid\<rparr>) ws\<rparr>)"
    by (rule insert_items_free [OF assms(3)]) (use assms(4) in \<open>simp add: without_ledger_def\<close>)
  then show ?thesis using assms(1,2) by (simp add: restore_ledger_def) (simp add: without_ledger_def)
qed

lemma restore_eq:
  assumes "sv_io E = None" and "Checkpoint cid db = Inr cp" and "cp_session cp = sid" and "known db sid"
    and cp: "cp_snap cp = Some snap" "cp_messages cp = Some ms" "cp_todos cp = Some ts" "cp_items cp = Some (Some ws)" "cp_cont cp = Some c"
    and ps: "distinct (map pi_id (cp_pending cp))" "\<forall>p \<in> set (cp_pending cp). pi_session p = sid"
      "\<forall>p \<in> set (t_pending db). pi_session p \<noteq> sid \<longrightarrow> pi_id p \<notin> pi_id ` set (cp_pending cp)"
    and ws: "distinct (map wi_id ws)" "\<forall>w \<in> set (t_items db). wi_session w \<noteq> sid \<longrightarrow> wi_id w \<notin> wi_id ` set ws"
  shows "RestoreCheckpoint E sid cid db = (Inr (), restored E sid snap ms (cp_pending cp) ts ws c db)"
proof -
  define r where "r = rewound E sid snap ms db"
  have r: "t_pending r = filter (\<lambda>p. pi_session p \<noteq> sid) (t_pending db)" "t_items r = t_items db" "t_conts r = t_conts db"
    by (simp_all add: r_def)
  have "insert_pending (cp_pending cp) r = (Inr (), r\<lparr>t_pending := t_pending r @ cp_pending cp\<rparr>)"
    by (rule insert_pending_free [OF ps(1)]) (use ps(2,3) assms(4) in \<open>simp_all add: r_def\<close>)
  moreover
  define d where "d = set_todos sid ts (r\<lparr>t_pending := t_pending r @ cp_pending cp\<rparr>)"
  have d: "t_items d = t_items db" "t_conts d = t_conts db" by (simp_all add: d_def r)
  have "restore_ledger E sid cp ts (without_ledger sid d)
    = (Inr (), d\<lparr>t_items := filter (\<lambda>w. wi_session w \<noteq> sid) (t_items d) @ map (\<lambda>w. w\<lparr>wi_session := sid\<rparr>) ws,
         t_conts := filter (\<lambda>d. ct_session d \<noteq> sid) (t_conts d) @ (if ct_session c \<noteq> [] then [c\<lparr>ct_session := sid, ct_updated := sv_now E\<rparr>] else [])\<rparr>)"
    by (rule restore_ledger_free [OF cp(4,5) ws(1)]) (use ws(2) d in simp)
  ultimately show ?thesis
    using assms(1-4) cp(1-3)
    by (simp add: RestoreCheckpoint_def tx_def Let_def d r flip: rewound_def [unfolded Let_def] without_ledger_def r_def d_def)
       (simp add: restored_def Let_def d_def r_def)
qed

section \<open>Reading a restored conversation\<close>

lemma restored_parts:
  "Messages k (restored E sid snap ms ps ts ws c db) = (if k = sid then map (\<lambda>x. x\<lparr>ms_session := sid\<rparr>) ms else Messages k db)"
  "t_events (restored E sid snap ms ps ts ws c db) = t_events db" "t_receipts (restored E sid snap ms ps ts ws c db) = t_receipts db"
  "t_queued (restored E sid snap ms ps ts ws c db) = t_queued db" "t_checkpoints (restored E sid snap ms ps ts ws c db) = t_checkpoints db"
proof -
  have "Messages k (restored E sid snap ms ps ts ws c db) = Messages k (set_messages sid ms db)"
    by (simp add: restored_def Let_def cool_cache_def rewound_def Messages_def set_messages_def)
  then show "Messages k (restored E sid snap ms ps ts ws c db) = (if k = sid then map (\<lambda>x. x\<lparr>ms_session := sid\<rparr>) ms else Messages k db)"
    by (simp add: Messages_set)
qed (simp_all add: restored_def Let_def cool_cache_def)

lemma restored_todos:
  assumes "map td_position ts = map int [0..<length ts]"
  shows "Todos k (restored E sid snap ms ps ts ws c db) = (if k = sid then ts else Todos k db)"
proof -
  have "Todos k (restored E sid snap ms ps ts ws c db) = Todos k (set_todos sid ts db)"
    by (simp add: restored_def Let_def cool_cache_def Todos_def set_todos_def)
  then show ?thesis by (simp add: Todos_set [OF assms])
qed

lemma restored_pending:
  assumes "\<forall>p \<in> set ps. pi_session p = sid"
  shows "PendingInputs k (restored E sid snap ms ps ts ws c db) = (if k = sid then sort_key pi_created ps else PendingInputs k db)"
proof -
  have "filter (\<lambda>p. pi_session p = k) ps = (if k = sid then ps else [])" using assms by (auto simp: filter_id_conv filter_empty_conv)
  then show ?thesis
    by (cases "k = sid") (simp_all add: PendingInputs_def restored_def Let_def cool_cache_def filter_owner del: filter_append filter_filter)
qed

lemma restored_items:
  "WorkItems k (restored E sid snap ms ps ts ws c db) = (if k = sid then sort_key wi_position (map unowned ws) else WorkItems k db)"
proof -
  have u: "unowned (w\<lparr>wi_session := s\<rparr>) = unowned w" for w s by (simp add: unowned_def)
  have "filter (\<lambda>w. wi_session w = k) (map (\<lambda>w. w\<lparr>wi_session := sid\<rparr>) ws) = (if k = sid then map (\<lambda>w. w\<lparr>wi_session := sid\<rparr>) ws else [])"
    by (auto simp: filter_id_conv filter_empty_conv)
  then show ?thesis
    by (simp add: WorkItems_def ledger_rows_def restored_def Let_def cool_cache_def filter_owner comp_def u del: filter_append filter_filter)
qed

lemma restored_cont:
  assumes "ct_session c \<in> {sid, []}" and "sid \<noteq> []" and "k \<noteq> [] "
  shows "Continuation k (restored E sid snap ms ps ts ws c db)
    = (if k = sid then (if ct_session c = [] then no_continuation else c\<lparr>ct_updated := sv_now E\<rparr>) else Continuation k db)"
proof -
  have "ct_session c = sid \<Longrightarrow> c\<lparr>ct_session := sid\<rparr> = c" by simp
  with assms show ?thesis
    by (auto simp: Continuation_def restored_def Let_def cool_cache_def find_owner split: option.split)
qed

lemma restored_row:
  assumes "SessionRow sid db = Inr row"
  shows "SessionRow sid (restored E sid snap ms ps ts ws c db) = Inr (row\<lparr>sr_summary := sr_summary snap, sr_phase := sr_phase snap,
      sr_model := sr_model snap, sr_turn := sr_turn snap, sr_status := ''interrupted'', sr_request := sr_request snap, sr_updated := sv_now E\<rparr>)"
    and "k \<noteq> sid \<Longrightarrow> SessionRow k (restored E sid snap ms ps ts ws c db) = SessionRow k db"
proof -
  have f: "List.find (\<lambda>x. sr_id x = k) (map (\<lambda>x. if sr_id x = sid then f x else x) xs)
      = (if k = sid then map_option f (List.find (\<lambda>x. sr_id x = k) xs) else List.find (\<lambda>x. sr_id x = k) xs)"
    if "\<And>x. sr_id (f x) = sr_id x" for f k and xs :: "session_row list" using that by (induction xs) auto
  show "SessionRow sid (restored E sid snap ms ps ts ws c db) = Inr (row\<lparr>sr_summary := sr_summary snap, sr_phase := sr_phase snap,
      sr_model := sr_model snap, sr_turn := sr_turn snap, sr_status := ''interrupted'', sr_request := sr_request snap, sr_updated := sv_now E\<rparr>)"
    using assms by (auto simp: SessionRow_def restored_def Let_def cool_cache_def rewound_def set_messages_def update_session_def f split: option.splits)
  show "SessionRow k (restored E sid snap ms ps ts ws c db) = SessionRow k db" if "k \<noteq> sid"
    using that by (simp add: SessionRow_def restored_def Let_def cool_cache_def rewound_def set_messages_def update_session_def f)
qed

section \<open>Checkpoints\<close>

lemma CreateCheckpoint_cases:
  assumes "CreateCheckpoint E cid sid label reason db = (Inr cp, db1)"
  obtains snap where "SessionRow sid db = Inr snap" "cp_snap cp = Some snap" "cp_messages cp = Some (Messages sid db)"
    "cp_todos cp = Some (Todos sid db)" "cp_pending cp = PendingInputs sid db" "cp_items cp = Some (Some (WorkItems sid db))"
    "cp_cont cp = Some (Continuation sid db)" "cp_session cp = sid" "Checkpoint cid db1 = Inr cp" "db1 = db\<lparr>t_checkpoints := t_checkpoints db @ [cp]\<rparr>"
proof -
  obtain snap where s: "SessionRow sid db = Inr snap"
    using assms by (cases "SessionRow sid db") (auto simp: CreateCheckpoint_def tx_def split: option.splits)
  have new: "cid \<notin> cp_id ` set (t_checkpoints db)"
    using assms s by (auto simp: CreateCheckpoint_def tx_def Let_def split: option.splits if_splits)
  have app: "cid \<notin> cp_id ` set cps \<Longrightarrow> cp_id x = cid \<Longrightarrow> List.find (\<lambda>c. cp_id c = cid) (cps @ [x]) = Some x" for x cps
    by (induction cps) auto
  have cp: "cp = \<lparr>cp_id = cid, cp_session = sid, cp_label = label, cp_reason = reason, cp_snap = Some snap,
      cp_messages = Some (Messages sid db), cp_todos = Some (Todos sid db), cp_pending = PendingInputs sid db,
      cp_items = Some (Some (WorkItems sid db)), cp_cont = Some (Continuation sid db), cp_created = sv_now E\<rparr>"
    and db1: "db1 = db\<lparr>t_checkpoints := t_checkpoints db @ [cp]\<rparr>"
    using assms s new by (auto simp: CreateCheckpoint_def tx_def Let_def split: option.splits)
  have "Checkpoint cid db1 = Inr cp" using app [OF new, of cp] by (simp add: Checkpoint_def db1) (simp add: cp)
  with s cp db1 that show thesis by simp
qed

lemma Continuation_owner:
  shows "ct_session (Continuation sid db) \<in> {sid, []}"
    and "ct_session (Continuation sid db) = [] \<Longrightarrow> sid \<noteq> [] \<Longrightarrow> Continuation sid db = no_continuation"
proof -
  consider "Continuation sid db = no_continuation" | "ct_session (Continuation sid db) = sid"
  proof (cases "List.find (\<lambda>c. ct_session c = sid) (t_conts db)")
    case None
    then show ?thesis using that(1) by (simp add: Continuation_def)
  next
    case (Some c)
    then have "ct_session c = sid" unfolding find_Some_iff by blast
    with Some show ?thesis using that(2) by (simp add: Continuation_def)
  qed
  then show "ct_session (Continuation sid db) \<in> {sid, []}"
    "ct_session (Continuation sid db) = [] \<Longrightarrow> sid \<noteq> [] \<Longrightarrow> Continuation sid db = no_continuation"
    by (cases; simp add: no_continuation_def)+
qed

lemma checkpoint_restores:
  assumes "store_ok db" and "sid \<noteq> []" and "CreateCheckpoint E cid sid label reason db = (Inr cp, db1)"
    and "Checkpoint cid db2 = Inr cp" and "known db2 sid" and "sv_io E' = None"
    and "\<forall>p \<in> set (t_pending db2). pi_session p \<noteq> sid \<longrightarrow> pi_id p \<notin> pi_id ` set (PendingInputs sid db)"
    and "\<forall>w \<in> set (t_items db2). wi_session w \<noteq> sid \<longrightarrow> wi_id w \<notin> wi_id ` set (WorkItems sid db)"
  shows "\<exists>db3 snap row. RestoreCheckpoint E' sid cid db2 = (Inr (), db3)
    \<and> Messages sid db3 = Messages sid db \<and> Todos sid db3 = Todos sid db \<and> WorkItems sid db3 = WorkItems sid db
    \<and> PendingInputs sid db3 = PendingInputs sid db
    \<and> (Continuation sid db3)\<lparr>ct_updated := 0\<rparr> = (Continuation sid db)\<lparr>ct_updated := 0\<rparr>
    \<and> SessionRow sid db = Inr snap \<and> SessionRow sid db2 = Inr row
    \<and> SessionRow sid db3 = Inr (row\<lparr>sr_summary := sr_summary snap, sr_phase := sr_phase snap, sr_model := sr_model snap,
        sr_turn := sr_turn snap, sr_status := ''interrupted'', sr_request := sr_request snap, sr_updated := sv_now E'\<rparr>)
    \<and> t_events db3 = t_events db2 \<and> t_receipts db3 = t_receipts db2 \<and> t_queued db3 = t_queued db2 \<and> t_checkpoints db3 = t_checkpoints db2
    \<and> (\<forall>k. k \<noteq> sid \<longrightarrow> SessionRow k db3 = SessionRow k db2 \<and> Messages k db3 = Messages k db2 \<and> Todos k db3 = Todos k db2
        \<and> WorkItems k db3 = WorkItems k db2 \<and> PendingInputs k db3 = PendingInputs k db2)"
proof -
  note ok = assms(1) and cp2 = assms(4) and k = assms(5)
  from assms(3) obtain snap where c: "SessionRow sid db = Inr snap" "cp_snap cp = Some snap" "cp_messages cp = Some (Messages sid db)"
    "cp_todos cp = Some (Todos sid db)" "cp_pending cp = PendingInputs sid db" "cp_items cp = Some (Some (WorkItems sid db))"
    "cp_cont cp = Some (Continuation sid db)" "cp_session cp = sid" "Checkpoint cid db1 = Inr cp"
    by (rule CreateCheckpoint_cases) blast
  from k obtain row where row: "SessionRow sid db2 = Inr row"
    by (cases "List.find (\<lambda>x. sr_id x = sid) (t_sessions db2)") (auto simp: SessionRow_def known_def find_None_iff list_ex_iff)
  define db3 where "db3 = restored E' sid snap (Messages sid db) (PendingInputs sid db) (Todos sid db) (WorkItems sid db) (Continuation sid db) db2"
  have ps: "\<forall>p \<in> set (PendingInputs sid db). pi_session p = sid" by (simp add: PendingInputs_def)
  have r: "RestoreCheckpoint E' sid cid db2 = (Inr (), db3)"
    unfolding db3_def c(5) [symmetric]
    by (rule restore_eq [OF assms(6) cp2 c(8) k c(2-4,6,7)]) (use c(5) ps snapshot_keys [OF ok] assms(7,8) in simp_all)
  have pos: "map td_position (Todos sid db) = map int [0..<length (Todos sid db)]" by (rule todos_of_numbered(2) [OF store_okD(17) [OF ok]])
  have u: "map unowned (WorkItems sid db) = WorkItems sid db" by (rule map_idI) (auto simp: WorkItems_def ledger_rows_def unowned_def)
  have "Continuation sid db3 = (if ct_session (Continuation sid db) = [] then no_continuation else (Continuation sid db)\<lparr>ct_updated := sv_now E'\<rparr>)"
    unfolding db3_def using restored_cont [OF Continuation_owner(1) assms(2,2)] by simp
  then have "(Continuation sid db3)\<lparr>ct_updated := 0\<rparr> = (Continuation sid db)\<lparr>ct_updated := 0\<rparr>"
    using Continuation_owner(2) [OF _ assms(2), of db] by (simp split: if_splits)
  moreover have "WorkItems sid db3 = WorkItems sid db" "PendingInputs sid db3 = PendingInputs sid db" "Todos sid db3 = Todos sid db"
    "Messages sid db3 = Messages sid db"
    unfolding db3_def restored_items restored_pending [OF ps] restored_todos [OF pos] restored_parts u
    by (simp_all add: WorkItems_def PendingInputs_def Messages_owner)
  moreover have "\<forall>k. k \<noteq> sid \<longrightarrow> SessionRow k db3 = SessionRow k db2 \<and> Messages k db3 = Messages k db2 \<and> Todos k db3 = Todos k db2
        \<and> WorkItems k db3 = WorkItems k db2 \<and> PendingInputs k db3 = PendingInputs k db2"
    unfolding db3_def by (simp add: restored_items restored_pending [OF ps] restored_todos [OF pos] restored_parts restored_row(2) [OF row])
  moreover have "t_events db3 = t_events db2" "t_receipts db3 = t_receipts db2" "t_queued db3 = t_queued db2" "t_checkpoints db3 = t_checkpoints db2"
    unfolding db3_def by (simp_all add: restored_parts)
  ultimately show ?thesis using r c(1) row restored_row(1) [OF row] unfolding db3_def by blast
qed


definition demo_checkpoint :: store_db where
  "demo_checkpoint = snd (CreateCheckpoint demo_store_env ''c'' ''s'' ''before'' ''manual'' demo_conversation)"

definition demo_rewritten :: store_db where
  "demo_rewritten = snd (ReplaceMessages demo_store_env ''s'' [] demo_checkpoint)"


section \<open>Forks\<close>

lemma fork_id_nth:
  assumes "distinct (map wi_id ws)" and "i < length ws"
  shows "fork_id E ws (wi_id (ws ! i)) = sv_fresh E i"
proof -
  have "List.find (\<lambda>(j, w). wi_id w = wi_id (ws ! i)) (rev (enumerate 0 ws)) = Some (i, ws ! i)"
  proof -
    let ?l = "rev (enumerate 0 ws)"
    have "(i, ws ! i) \<in> set ?l" using assms(2) by (simp add: in_set_enumerate_eq)
    then have "List.find (\<lambda>(j, w). wi_id w = wi_id (ws ! i)) ?l \<noteq> None" unfolding find_None_iff by blast
    then obtain j w where f: "List.find (\<lambda>(j, w). wi_id w = wi_id (ws ! i)) ?l = Some (j, w)" by force
    then have "(j, w) \<in> set ?l" "wi_id w = wi_id (ws ! i)" by (auto simp: find_Some_iff) (metis nth_mem length_rev length_enumerate set_rev)
    then have "j < length ws" "w = ws ! j" "wi_id (ws ! j) = wi_id (ws ! i)" by (auto simp: in_set_enumerate_eq)
    then have "j = i" using assms by (simp add: distinct_conv_nth) (metis nth_map length_map)
    with f \<open>w = ws ! j\<close> show ?thesis by simp
  qed
  then show ?thesis by (simp add: fork_id_def)
qed

lemma fork_items_ids: "map wi_id (fork_items E ws) = map (sv_fresh E) [0..<length ws]"
  by (rule nth_equalityI) (simp_all add: fork_items_def nth_enumerate_eq)

lemma fork_items_same: "map (\<lambda>w. w\<lparr>wi_id := x\<rparr>) (fork_items E ws) = map (\<lambda>w. w\<lparr>wi_id := x\<rparr>) ws"
  by (rule nth_equalityI) (simp_all add: fork_items_def nth_enumerate_eq)

lemma fork_items_unowned: "map (unowned \<circ> (\<lambda>w. w\<lparr>wi_session := k\<rparr>)) (fork_items E (WorkItems src db)) = fork_items E (WorkItems src db)"
proof (rule map_idI)
  fix w assume "w \<in> set (fork_items E (WorkItems src db))"
  then obtain i v where w: "w = v\<lparr>wi_id := sv_fresh E i\<rparr>" and "(i, v) \<in> set (enumerate 0 (WorkItems src db))" by (auto simp: fork_items_def)
  then have "v \<in> set (WorkItems src db)" by (auto simp: in_set_enumerate_eq)
  then have "wi_session v = []" by (auto simp: WorkItems_def ledger_rows_def unowned_def)
  then show "(unowned \<circ> (\<lambda>w. w\<lparr>wi_session := k\<rparr>)) w = w" by (cases v) (simp add: w unowned_def)
qed

text \<open>The tables after a fork, in one expression.\<close>

definition forked :: "store_env \<Rightarrow> string \<Rightarrow> string \<Rightarrow> session_row \<Rightarrow> store_db \<Rightarrow> store_db" where
  "forked E src new source db =
     db\<lparr>t_sessions := t_sessions db @ [insert_row E (fork_row E src new source)],
        t_messages := t_messages db @ map (\<lambda>x. x\<lparr>ms_session := new\<rparr>) (Messages src db),
        t_todos := t_todos db @ map (\<lambda>(i, t). (new, t\<lparr>td_position := int i\<rparr>)) (enumerate 0 (Todos src db)),
        t_items := t_items db @ map (\<lambda>w. w\<lparr>wi_session := new\<rparr>) (fork_items E (WorkItems src db)),
        t_conts := t_conts db @ (if ct_session (Continuation src db) \<noteq> [] then [fork_cont E src new db] else []),
        t_events := t_events db @ [fork_event E src new]\<rparr>"

lemma fork_eq:
  assumes "sv_io E = None" and "SessionRow src db = Inr source" and "\<not> known db new" and "\<forall>e \<in> set (t_events db). er_session e \<noteq> new"
    and "distinct (map (sv_fresh E) [0..<length (WorkItems src db)])"
    and "\<forall>w \<in> set (t_items db). wi_id w \<notin> sv_fresh E ` {0..<length (WorkItems src db)}"
  shows "ForkSession E src new db = (Inr (fork_row E src new source), forked E src new source db)"
proof -
  define row where "row = fork_row E src new source"
  have "sr_id (insert_row E row) = new" "sr_externalID (insert_row E row) = []"
    by (simp_all add: row_def insert_row_def fork_row_def Let_def)
  then have i: "insert_session (insert_row E row) db = (Inr (), db\<lparr>t_sessions := t_sessions db @ [insert_row E row]\<rparr>)"
    using assms(3) by (simp add: insert_session_def)
  define d where "d = fork_tables E src new db (db\<lparr>t_sessions := t_sessions db @ [insert_row E row]\<rparr>)"
  have d: "t_items d = t_items db" "t_conts d = t_conts db" "t_events d = t_events db" by (simp_all add: d_def fork_tables_def)
  have ids: "wi_id ` set (fork_items E (WorkItems src db)) = sv_fresh E ` {0..<length (WorkItems src db)}"
    unfolding set_map [symmetric] fork_items_ids by simp
  have "insert_items new (fork_items E (WorkItems src db)) d
      = (Inr (), d\<lparr>t_items := t_items d @ map (\<lambda>w. w\<lparr>wi_session := new\<rparr>) (fork_items E (WorkItems src db))\<rparr>)"
    by (rule insert_items_free) (use assms(5,6) in \<open>simp_all add: fork_items_ids ids d\<close>)
  moreover have "\<not> list_ex (\<lambda>e. er_session e = new \<and> er_seq e = 1) (t_events db)" using assms(4) by (auto simp: list_ex_iff)
  ultimately show ?thesis
    using assms(1,2) i
    by (simp add: ForkSession_def tx_def Let_def d forked_def fork_cont_def fork_event_def row_def)
      (simp add: d_def fork_tables_def row_def)
qed

lemma find_new: "List.find P (xs @ ys) = (case List.find P xs of Some x \<Rightarrow> Some x | None \<Rightarrow> List.find P ys)"
  by (induction xs) auto

lemma forked_rows:
  "filter (\<lambda>x. ms_session x = k) (t_messages (forked E src new source db))
     = filter (\<lambda>x. ms_session x = k) (t_messages db) @ (if k = new then map (\<lambda>x. x\<lparr>ms_session := new\<rparr>) (Messages src db) else [])"
  "filter (\<lambda>x. fst x = k) (t_todos (forked E src new source db))
     = filter (\<lambda>x. fst x = k) (t_todos db) @ (if k = new then map (\<lambda>(i, t). (new, t\<lparr>td_position := int i\<rparr>)) (enumerate 0 (Todos src db)) else [])"
  "filter (\<lambda>x. wi_session x = k) (t_items (forked E src new source db))
     = filter (\<lambda>x. wi_session x = k) (t_items db) @ (if k = new then map (\<lambda>w. w\<lparr>wi_session := new\<rparr>) (fork_items E (WorkItems src db)) else [])"
  "filter (\<lambda>x. er_session x = k) (t_events (forked E src new source db))
     = filter (\<lambda>x. er_session x = k) (t_events db) @ (if k = new then [fork_event E src new] else [])"
  by (auto simp: forked_def fork_event_def filter_id_conv filter_empty_conv)

lemma forked_cont:
  "List.find (\<lambda>c. ct_session c = k) (t_conts (forked E src new source db))
     = (case List.find (\<lambda>c. ct_session c = k) (t_conts db) of Some c \<Rightarrow> Some c
        | None \<Rightarrow> if k = new \<and> ct_session (Continuation src db) \<noteq> [] then Some (fork_cont E src new db) else None)"
  by (simp add: forked_def find_new fork_cont_def Let_def split: option.split)

lemma forked_session:
  "SessionRow k (forked E src new source db)
     = (case SessionRow k db of Inr x \<Rightarrow> Inr x | Inl err \<Rightarrow> if k = new then Inr (insert_row E (fork_row E src new source)) else Inl err)"
  by (simp add: forked_def SessionRow_def find_new insert_row_def fork_row_def Let_def split: option.split)

lemma forked_other:
  assumes "k \<noteq> new"
  shows "Messages k (forked E src new source db) = Messages k db" "Todos k (forked E src new source db) = Todos k db"
    "WorkItems k (forked E src new source db) = WorkItems k db" "Continuation k (forked E src new source db) = Continuation k db"
    "filter (\<lambda>e. er_session e = k) (t_events (forked E src new source db)) = filter (\<lambda>e. er_session e = k) (t_events db)"
    "SessionRow k (forked E src new source db) = SessionRow k db"
  using assms by (simp_all add: Messages_def Todos_def WorkItems_def ledger_rows_def Continuation_def forked_rows forked_cont forked_session
      split: option.split sum.split)

lemma absent_rows:
  assumes "store_ok db" and "\<not> known db new"
  shows "filter (\<lambda>x. ms_session x = new) (t_messages db) = []" "filter (\<lambda>x. fst x = new) (t_todos db) = []"
    "filter (\<lambda>x. wi_session x = new) (t_items db) = []" "filter (\<lambda>x. er_session x = new) (t_events db) = []"
    "List.find (\<lambda>c. ct_session c = new) (t_conts db) = None"
  using store_okD(1,2,5-7) [OF assms(1)] assms(2) unfolding known_ids by (auto simp: filter_empty_conv find_None_iff)

text \<open>
  Claim C23. Forking an existing session of a reachable store under a new identifier succeeds when the database works and the
  generated work-item identifiers are fresh: the fork starts with its source's messages and todo
  plan, a copy of the ledger that differs only in the identifiers, the copy of the active item as its
  own active item, one event, no cost and an interrupted status; the source and every other session
  stay as they were.
\<close>

theorem fork_copies:
  assumes "(\<lambda>a b. \<exists>l. store_step l a b)\<^sup>*\<^sup>* empty_db db" and "sv_io E = None" and "SessionRow src db = Inr source" and "src \<noteq> []" and "\<not> known db new"
    and "distinct (map (sv_fresh E) [0..<length (WorkItems src db)])"
    and "\<forall>w \<in> set (t_items db). wi_id w \<notin> sv_fresh E ` {0..<length (WorkItems src db)}"
  shows "\<exists>row db'. ForkSession E src new db = (Inr row, db')
    \<and> Messages new db' = map (\<lambda>x. x\<lparr>ms_session := new\<rparr>) (Messages src db) \<and> Todos new db' = Todos src db
    \<and> map (\<lambda>w. w\<lparr>wi_id := []\<rparr>) (WorkItems new db') = map (\<lambda>w. w\<lparr>wi_id := []\<rparr>) (WorkItems src db)
    \<and> map wi_id (WorkItems new db') = map (sv_fresh E) [0..<length (WorkItems src db)]
    \<and> ct_report (Continuation new db') = ct_report (Continuation src db)
    \<and> (\<forall>i < length (WorkItems src db). ct_active (Continuation src db) = wi_id (WorkItems src db ! i) \<and> ct_active (Continuation src db) \<noteq> []
          \<longrightarrow> ct_active (Continuation new db') = wi_id (WorkItems new db' ! i))
    \<and> SessionRow new db' = Inr (insert_row E row) \<and> sr_spec row = sr_spec source \<and> sr_summary row = sr_summary source
    \<and> sr_status row = ''interrupted'' \<and> sr_turn row = 0 \<and> sr_spent row = 0 \<and> sr_parent row = src
    \<and> map er_type (filter (\<lambda>e. er_session e = new) (t_events db')) = [''session.forked'']
    \<and> (\<forall>k. k \<noteq> new \<longrightarrow> SessionRow k db' = SessionRow k db \<and> Messages k db' = Messages k db \<and> Todos k db' = Todos k db
        \<and> WorkItems k db' = WorkItems k db \<and> Continuation k db' = Continuation k db
        \<and> filter (\<lambda>e. er_session e = k) (t_events db') = filter (\<lambda>e. er_session e = k) (t_events db))"
proof -
  have ok: "store_ok db" using assms(1) by (rule reachable_ok)
  note no = absent_rows [OF ok assms(5)]
  define db' where "db' = forked E src new source db"
  define row where "row = fork_row E src new source"
  let ?ws = "WorkItems src db"
  have f: "ForkSession E src new db = (Inr row, db')"
    unfolding db'_def row_def by (rule fork_eq [OF assms(2,3,5) _ assms(6,7)]) (use no(4) in \<open>auto simp: filter_empty_conv\<close>)
  have pos: "map td_position (Todos src db) = map int [0..<length (Todos src db)]" by (rule todos_of_numbered(2) [OF store_okD(17) [OF ok]])
  have "Todos new db' = Todos src db"
    using renumber_id [OF pos] by (simp add: Todos_def [of new] db'_def forked_rows no case_prod_unfold comp_def) (simp add: Todos_def)
  moreover have ws: "WorkItems new db' = fork_items E ?ws"
  proof -
    have "map unowned (map (\<lambda>w. w\<lparr>wi_session := new\<rparr>) (fork_items E ?ws)) = fork_items E ?ws"
      by (simp add: fork_items_unowned)
    moreover
    have "map wi_position (fork_items E ?ws) = map wi_position ?ws"
      by (rule nth_equalityI) (simp_all add: fork_items_def nth_enumerate_eq)
    then have "sort_key wi_position (fork_items E ?ws) = fork_items E ?ws"
      by (intro sort_key_id_if_sorted) (simp add: WorkItems_def)
    ultimately show ?thesis by (simp add: WorkItems_def [of new] ledger_rows_def db'_def forked_rows no del: map_map)
  qed
  moreover have cont: "Continuation new db' = (if ct_session (Continuation src db) \<noteq> [] then fork_cont E src new db else no_continuation)"
    by (simp add: Continuation_def [of new] db'_def forked_cont no)
  have "\<forall>i < length ?ws. ct_active (Continuation src db) = wi_id (?ws ! i) \<and> ct_active (Continuation src db) \<noteq> []
      \<longrightarrow> ct_active (Continuation new db') = wi_id (WorkItems new db' ! i)"
  proof (intro allI impI, elim conjE)
    fix i assume i: "i < length ?ws" "ct_active (Continuation src db) = wi_id (?ws ! i)" "ct_active (Continuation src db) \<noteq> []"
    have "ct_session (Continuation src db) \<noteq> []" using Continuation_owner(2) [OF _ assms(4), of db] i(3) by (auto simp: no_continuation_def)
    then show "ct_active (Continuation new db') = wi_id (WorkItems new db' ! i)" using fork_id_nth [OF snapshot_keys(2) [OF ok] i(1), of E] i ws
      by (simp add: cont fork_cont_def Let_def fork_items_def nth_enumerate_eq)
  qed
  moreover have "ct_report (Continuation new db') = ct_report (Continuation src db)"
    using Continuation_owner(2) [OF _ assms(4), of db]
    by (cases "ct_session (Continuation src db) = []") (simp_all add: cont fork_cont_def Let_def)
  moreover have "Messages new db' = map (\<lambda>x. x\<lparr>ms_session := new\<rparr>) (Messages src db)"
    "map er_type (filter (\<lambda>e. er_session e = new) (t_events db')) = [''session.forked'']"
    by (simp_all add: Messages_def [of new] db'_def forked_rows no fork_event_def)
  moreover have "SessionRow new db' = Inr (insert_row E row)"
    using assms(5) by (auto simp: row_def db'_def forked_session known_ids dest: SessionRow_known split: sum.split)
  moreover have "map (\<lambda>w. w\<lparr>wi_id := []\<rparr>) (WorkItems new db') = map (\<lambda>w. w\<lparr>wi_id := []\<rparr>) ?ws"
    "map wi_id (WorkItems new db') = map (sv_fresh E) [0..<length ?ws]"
    unfolding ws by (rule fork_items_same, rule fork_items_ids)
  moreover have "sr_spec row = sr_spec source" "sr_summary row = sr_summary source" "sr_status row = ''interrupted''" "sr_turn row = 0"
    "sr_spent row = 0" "sr_parent row = src"
    by (simp_all add: row_def fork_row_def Let_def)
  moreover have "\<forall>k. k \<noteq> new \<longrightarrow> SessionRow k db' = SessionRow k db \<and> Messages k db' = Messages k db \<and> Todos k db' = Todos k db
        \<and> WorkItems k db' = WorkItems k db \<and> Continuation k db' = Continuation k db
        \<and> filter (\<lambda>e. er_session e = k) (t_events db') = filter (\<lambda>e. er_session e = k) (t_events db)"
    by (simp add: db'_def forked_other)
  ultimately show ?thesis using f by (intro exI [of _ row] exI [of _ db'] conjI) assumption+
qed

definition demo_plan :: store_db where
  "demo_plan = snd (SetTodos (demo_store_env\<lparr>sv_fresh := (\<lambda>_. ''w1'')\<rparr>) ''s''
     [\<lparr>td_position = 0, td_text = ''fix it'', td_phase = ''build'', td_status = ''in_progress''\<rparr>] demo_conversation)"

theorem fork_copies_witness:
  "\<exists>row db'. ForkSession (demo_store_env\<lparr>sv_fresh := (\<lambda>_. ''w2'')\<rparr>) ''s'' ''f'' demo_plan = (Inr row, db')
     \<and> map wi_id (WorkItems ''f'' db') = [''w2''] \<and> ct_active (Continuation ''f'' db') = ''w2''"
proof -
  let ?E = "demo_store_env\<lparr>sv_fresh := (\<lambda>_. ''w2'')\<rparr>"
  have "\<exists>l. store_step l demo_conversation demo_plan" unfolding demo_plan_def by (blast intro: todos)
  then have reach: "(\<lambda>a b. \<exists>l. store_step l a b)\<^sup>*\<^sup>* empty_db demo_plan" by (rule rtranclp.rtrancl_into_rtrancl [OF demo_store_reachable])
  have io: "sv_io ?E = None" by (simp add: demo_store_env_def)
  have "\<not> isl (SessionRow ''s'' demo_plan)" by code_simp
  then obtain source where src: "SessionRow ''s'' demo_plan = Inr source" by (cases "SessionRow ''s'' demo_plan") simp_all
  have new: "\<not> known demo_plan ''f''" by code_simp
  have ws: "map wi_id (WorkItems ''s'' demo_plan) = [''w1'']" "ct_active (Continuation ''s'' demo_plan) = ''w1''"
    "map wi_id (t_items demo_plan) = [''w1'']" by code_simp+
  from ws(1) have len: "length (WorkItems ''s'' demo_plan) = 1" and first: "wi_id (WorkItems ''s'' demo_plan ! 0) = ''w1''"
    by (metis length_map length_Cons list.size(3) One_nat_def) (metis ws(1) length_map length_Cons nth_map nth_Cons_0 zero_less_Suc)
  have "set (map wi_id (t_items demo_plan)) = {''w1''}" unfolding ws(3) by simp
  then have "wi_id w = ''w1''" if "w \<in> set (t_items demo_plan)" for w using that by (metis imageI set_map singletonD)
  moreover have "''w1'' \<notin> sv_fresh ?E ` {0..<length (WorkItems ''s'' demo_plan)}" unfolding len by simp
  ultimately have fresh: "\<forall>w \<in> set (t_items demo_plan). wi_id w \<notin> sv_fresh ?E ` {0..<length (WorkItems ''s'' demo_plan)}" by metis
  have s: "''s'' \<noteq> []" and d: "distinct (map (sv_fresh ?E) [0..<length (WorkItems ''s'' demo_plan)])" by (simp_all add: len)
  from fork_copies [OF reach io src s new d fresh] obtain row db' where f: "ForkSession ?E ''s'' ''f'' demo_plan = (Inr row, db')"
    and ids: "map wi_id (WorkItems ''f'' db') = map (sv_fresh ?E) [0..<length (WorkItems ''s'' demo_plan)]"
    and act: "\<forall>i < length (WorkItems ''s'' demo_plan). ct_active (Continuation ''s'' demo_plan) = wi_id (WorkItems ''s'' demo_plan ! i)
        \<and> ct_active (Continuation ''s'' demo_plan) \<noteq> [] \<longrightarrow> ct_active (Continuation ''f'' db') = wi_id (WorkItems ''f'' db' ! i)"
    by (elim exE conjE) (rule that; assumption)
  from ids have ids': "map wi_id (WorkItems ''f'' db') = [''w2'']" by (simp add: len)
  then have "wi_id (WorkItems ''f'' db' ! 0) = ''w2''" by (metis length_map length_Cons nth_map nth_Cons_0 zero_less_Suc)
  with act len first ws(2) have "ct_active (Continuation ''f'' db') = ''w2''" by auto
  with f ids' show ?thesis by (intro exI [of _ row] exI [of _ db'] conjI)
qed

end
