(* ===== verification/Recall_Records.thy ===== *)
theory Recall_Records
  imports Conversation_Store "HOL-Library.Product_Lexorder"
begin

text \<open>
  Durable memory: the rules of \<^verbatim>\<open>storage/rules.go\<close> for memory records and the memory tables of the
  SQLite store (\<^verbatim>\<open>internal/store/memory.go\<close>, \<^verbatim>\<open>memory_extraction.go\<close>). A row holds a record with
  the scope's earlier name; reading translates it back. An empty text stands for a NULL column, a
  missing time for a NULL time. The checks before a write and the write are one step, a failure of the database
  hits before it, and times are instants that compare exactly.
\<close>

section \<open>Records\<close>

record memory_record =
  mm_id :: string
  mm_workspace :: string
  mm_scope :: string
  mm_kind :: string
  mm_text :: string
  mm_provenance :: string
  mm_confidence :: float64
  mm_status :: string
  mm_evidence :: string
  mm_created :: int
  mm_updated :: int
  mm_expires :: go_time
  mm_superseded :: string
  mm_session :: string
  mm_origin :: string
  mm_shadows :: string

record memory_filter =
  mf_workspace :: string
  mf_scope :: string
  mf_scopes :: "string list"
  mf_status :: string
  mf_expired :: bool
  mf_deleted :: bool

record memory_mutation =
  mu_operation :: string
  mu_record :: memory_record
  mu_workspace :: string
  mu_old :: string
  mu_id :: string

record workspace_row =
  wr_id :: string
  wr_key :: string
  wr_created :: int
  wr_updated :: int

record recall_db =
  rd_store :: store_db
  rd_workspaces :: "workspace_row list"
  rd_records :: "memory_record list"
  rd_sightings :: "((string \<times> string) \<times> int) list"
  rd_watermarks :: "(string \<times> int) list"

type_synonym 'a recall_op = "recall_db \<Rightarrow> (string + 'a) \<times> recall_db"

definition MemoryKinds :: "string list" where
  "MemoryKinds = [''fact'', ''command'', ''decision'', ''preference'', ''lesson'']"

definition MemoryProvenances :: "string list" where
  "MemoryProvenances = [''user'', ''instruction'', ''observed'', ''extracted'']"

definition memory_not_found :: string where
  "memory_not_found = ''memory record not found''"

definition not_supersedable :: string where
  "not_supersedable = ''memory record cannot be superseded''"

section \<open>JSON arrays\<close>

text \<open>
  Which texts \<^verbatim>\<open>json.Unmarshal\<close> reads as an array. The depth it allows (10000) and the range of its
  numbers are not limits here. Every call consumes a character or fails, so a text's length is enough fuel.
\<close>

definition json_space :: "char \<Rightarrow> bool" where
  "json_space c \<longleftrightarrow> (of_char c :: nat) \<in> {32, 9, 10, 13}"

definition json_digit :: "char \<Rightarrow> bool" where
  "json_digit c \<longleftrightarrow> 48 \<le> (of_char c :: nat) \<and> (of_char c :: nat) \<le> 57"

definition json_hex :: "char \<Rightarrow> bool" where
  "json_hex c \<longleftrightarrow> json_digit c \<or> 97 \<le> (of_char c :: nat) \<and> (of_char c :: nat) \<le> 102 \<or> 65 \<le> (of_char c :: nat) \<and> (of_char c :: nat) \<le> 70"

text \<open>The rest of a text after the string whose opening quote has been read.\<close>

fun json_string :: "string \<Rightarrow> string option" where
  "json_string [] = None"
| "json_string (c # s) =
     (if c = CHR 0x22 then Some s
      else if (of_char c :: nat) < 32 then None
      else if c \<noteq> CHR 0x5C then json_string s
      else (case s of
              [] \<Rightarrow> None
            | CHR 0x75 # a # b # d # e # t \<Rightarrow> if list_all json_hex [a, b, d, e] then json_string t else None
            | x # t \<Rightarrow> if x \<in> set [CHR 0x22, CHR 0x5C, CHR 0x2F, CHR 0x62, CHR 0x66, CHR 0x6E, CHR 0x72, CHR 0x74] then json_string t else None))"

definition json_digits :: "string \<Rightarrow> string option" where
  "json_digits s = (if takeWhile json_digit s = [] then None else Some (dropWhile json_digit s))"

definition json_fraction :: "string \<Rightarrow> string option" where
  "json_fraction s = (case s of c # t \<Rightarrow> if c = CHR 0x2E then json_digits t else Some s | [] \<Rightarrow> Some s)"

definition json_exponent :: "string \<Rightarrow> string option" where
  "json_exponent s =
     (case s of
        c # t \<Rightarrow> if c = CHR 0x65 \<or> c = CHR 0x45
          then (case t of d # u \<Rightarrow> if d = CHR 0x2B \<or> d = CHR 0x2D then json_digits u else json_digits t | [] \<Rightarrow> None) else Some s
      | [] \<Rightarrow> Some s)"

definition json_number :: "string \<Rightarrow> string option" where
  "json_number s =
     (let s' = (case s of c # t \<Rightarrow> if c = CHR 0x2D then t else s | [] \<Rightarrow> s);
          whole = (case s' of c # t \<Rightarrow> if c = CHR 0x30 then Some t else json_digits s' | [] \<Rightarrow> None)
      in case whole of None \<Rightarrow> None | Some t \<Rightarrow> (case json_fraction t of None \<Rightarrow> None | Some u \<Rightarrow> json_exponent u))"

fun json_value :: "nat \<Rightarrow> string \<Rightarrow> string option"
  and json_elements :: "nat \<Rightarrow> string \<Rightarrow> string option"
  and json_members :: "nat \<Rightarrow> string \<Rightarrow> string option" where
  "json_value 0 s = None"
| "json_value (Suc n) s =
     (case dropWhile json_space s of
        [] \<Rightarrow> None
      | c # t \<Rightarrow>
          if c = CHR 0x22 then json_string t
          else if c = CHR 0x5B then (case dropWhile json_space t of d # u \<Rightarrow> if d = CHR 0x5D then Some u else json_elements n t | [] \<Rightarrow> None)
          else if c = CHR 0x7B then (case dropWhile json_space t of d # u \<Rightarrow> if d = CHR 0x7D then Some u else json_members n t | [] \<Rightarrow> None)
          else if prefix ''true'' (c # t) then Some (drop 4 (c # t))
          else if prefix ''false'' (c # t) then Some (drop 5 (c # t))
          else if prefix ''null'' (c # t) then Some (drop 4 (c # t))
          else json_number (c # t))"
| "json_elements 0 s = None"
| "json_elements (Suc n) s =
     (case json_value n s of
        None \<Rightarrow> None
      | Some t \<Rightarrow> (case dropWhile json_space t of
                    d # u \<Rightarrow> if d = CHR 0x2C then json_elements n u else if d = CHR 0x5D then Some u else None
                  | [] \<Rightarrow> None))"
| "json_members 0 s = None"
| "json_members (Suc n) s =
     (case dropWhile json_space s of
        CHR 0x22 # t \<Rightarrow>
          (case json_string t of
             None \<Rightarrow> None
           | Some u \<Rightarrow> (case dropWhile json_space u of
                CHR 0x3A # v \<Rightarrow>
                  (case json_value n v of
                     None \<Rightarrow> None
                   | Some x \<Rightarrow> (case dropWhile json_space x of
                        d # y \<Rightarrow> if d = CHR 0x2C then json_members n y else if d = CHR 0x7D then Some y else None
                      | [] \<Rightarrow> None))
              | _ \<Rightarrow> None))
      | _ \<Rightarrow> None)"

definition json_array :: "string \<Rightarrow> bool" where
  "json_array s \<longleftrightarrow>
     prefix [CHR 0x5B] (dropWhile json_space s)
     \<and> (case json_value (Suc (length s)) s of Some t \<Rightarrow> dropWhile json_space t = [] | None \<Rightarrow> False)"

section \<open>Rules of a record\<close>

definition NormalizeMemoryScope :: "string \<Rightarrow> string" where
  "NormalizeMemoryScope scope =
     (if scope = ''workspace'' then ''agent'' else if scope = ''project'' then ''group'' else if scope = ''user'' then ''global'' else scope)"

definition ApplyMemoryDefaults :: "memory_record \<Rightarrow> memory_record" where
  "ApplyMemoryDefaults x =
     x\<lparr>mm_scope := or_default (NormalizeMemoryScope (mm_scope x)) ''agent'', mm_status := or_default (mm_status x) ''active'',
       mm_evidence := or_default (mm_evidence x) ''[]''\<rparr>"

definition ValidateMemoryRecord :: "memory_record \<Rightarrow> string option" where
  "ValidateMemoryRecord x =
     (if mm_workspace x = [] then Some ''workspace id is required''
      else if mm_scope x \<notin> {''agent'', ''group'', ''global''} then Some ''memory scope must be agent, group or global''
      else if mm_shadows x \<noteq> [] \<and> mm_scope x \<noteq> ''agent'' then Some ''only agent-scope memory may shadow another record''
      else if mm_shadows x \<noteq> [] \<and> mm_shadows x = mm_id x then Some ''a memory record cannot shadow itself''
      else if mm_status x \<notin> {''pending'', ''active'', ''superseded'', ''expired''} then Some ''invalid memory status''
      else if mm_kind x = [] then Some ''memory kind is required''
      else if mm_text x = [] then Some ''memory text is required''
      else if mm_provenance x = [] then Some ''memory provenance is required''
      else if mm_kind x \<notin> set MemoryKinds then Some (''memory kind must be one of '' @ join_str '', '' MemoryKinds)
      else if mm_provenance x \<notin> set MemoryProvenances then Some (''memory provenance must be one of '' @ join_str '', '' MemoryProvenances)
      else if mm_confidence x < 0 \<or> mm_confidence x > 1 then Some ''memory confidence must be between 0 and 1''
      else if \<not> json_array (mm_evidence x) then Some ''memory evidence refs must be a JSON array''
      else if mm_status x = ''superseded'' \<and> mm_superseded x = [] then Some ''superseded memory requires a replacement''
      else if mm_status x \<noteq> ''superseded'' \<and> mm_superseded x \<noteq> [] then Some ''only superseded memory may name a replacement''
      else None)"

definition MemoryFilterScopes :: "memory_filter \<Rightarrow> string list" where
  "MemoryFilterScopes f =
     fold (\<lambda>s out. let n = NormalizeMemoryScope s in if n \<noteq> [] \<and> n \<notin> set out then out @ [n] else out) (mf_scope f # mf_scopes f) []"

definition MemoryExpired :: "memory_record \<Rightarrow> int \<Rightarrow> bool" where
  "MemoryExpired x now \<longleftrightarrow>
     (mm_status x = ''active'' \<or> mm_status x = ''pending'') \<and> (case mm_expires x of Some t \<Rightarrow> t \<le> now | None \<Rightarrow> False)"

section \<open>Tables\<close>

definition storedMemoryScope :: "string \<Rightarrow> string" where
  "storedMemoryScope scope =
     (if scope = ''agent'' then ''workspace'' else if scope = ''group'' then ''project'' else if scope = ''global'' then ''user'' else scope)"

definition to_row :: "memory_record \<Rightarrow> memory_record" where
  "to_row x = x\<lparr>mm_scope := storedMemoryScope (mm_scope x)\<rparr>"

definition from_row :: "memory_record \<Rightarrow> memory_record" where
  "from_row x = x\<lparr>mm_scope := NormalizeMemoryScope (mm_scope x)\<rparr>"

definition find_record :: "string \<Rightarrow> recall_db \<Rightarrow> memory_record option" where
  "find_record i db = List.find (\<lambda>x. mm_id x = i) (rd_records db)"

definition update_records :: "(memory_record \<Rightarrow> bool) \<Rightarrow> (memory_record \<Rightarrow> memory_record) \<Rightarrow> recall_db \<Rightarrow> recall_db" where
  "update_records P f db = db\<lparr>rd_records := map (\<lambda>x. if P x then f x else x) (rd_records db)\<rparr>"

definition EnsureWorkspace :: "store_env \<Rightarrow> string \<Rightarrow> workspace_row recall_op" where
  "EnsureWorkspace E identityKey db =
     (if identityKey = [] then (Inl ''workspace identity key is required'', db)
      else tx E (\<lambda>db.
        case List.find (\<lambda>w. wr_key w = identityKey) (rd_workspaces db) of
          Some w \<Rightarrow> (Inr w, db)
        | None \<Rightarrow>
            let w = \<lparr>wr_id = sv_fresh E 0, wr_key = identityKey, wr_created = sv_now E, wr_updated = sv_now E\<rparr> in
            if list_ex (\<lambda>v. wr_id v = wr_id w) (rd_workspaces db) then (Inl unique_failed, db)
            else (Inr w, db\<lparr>rd_workspaces := rd_workspaces db @ [w]\<rparr>)) db)"

definition not_found_id :: "string \<Rightarrow> string" where
  "not_found_id i = memory_not_found @ '': '' @ i"

definition not_supersedable_by :: "string \<Rightarrow> string" where
  "not_supersedable_by detail = not_supersedable @ '': '' @ detail"

definition check_shadows :: "memory_record \<Rightarrow> recall_db \<Rightarrow> string option" where
  "check_shadows x db =
     (if mm_shadows x = [] then None
      else case find_record (mm_shadows x) db of
        None \<Rightarrow> Some (not_found_id (mm_shadows x))
      | Some y \<Rightarrow>
          if mm_workspace y \<noteq> mm_workspace x then Some ''a shadowed memory record must be in the same workspace''
          else if NormalizeMemoryScope (mm_scope y) = ''agent'' then Some ''a memory record may only shadow a group or global record''
          else None)"

definition validateMemoryReferences :: "memory_record \<Rightarrow> recall_db \<Rightarrow> string option" where
  "validateMemoryReferences x db =
     (if \<not> list_ex (\<lambda>w. wr_id w = mm_workspace x) (rd_workspaces db) then Some ''workspace does not exist''
      else case check_shadows x db of
        Some err \<Rightarrow> Some err
      | None \<Rightarrow>
          if mm_superseded x = [] then None
          else case find_record (mm_superseded x) db of
            None \<Rightarrow> Some (not_found_id (mm_superseded x))
          | Some y \<Rightarrow>
              if mm_workspace y \<noteq> mm_workspace x then Some ''memory supersession must stay within one workspace''
              else if mm_status y \<noteq> ''active'' then Some (not_supersedable_by (''replacement status is '' @ mm_status y))
              else None)"

definition insert_record :: "memory_record \<Rightarrow> unit recall_op" where
  "insert_record x db =
     (if list_ex (\<lambda>y. mm_id y = mm_id x) (rd_records db) then (Inl unique_failed, db)
      else (Inr (), db\<lparr>rd_records := rd_records db @ [to_row x]\<rparr>))"

text \<open>The record after the defaults, with an identifier, or why it is refused.\<close>

definition prepare :: "store_env \<Rightarrow> memory_record \<Rightarrow> recall_db \<Rightarrow> string + memory_record" where
  "prepare E x0 db =
     (let x1 = ApplyMemoryDefaults x0; x = x1\<lparr>mm_id := or_default (mm_id x1) (sv_fresh E 0)\<rparr> in
      case ValidateMemoryRecord x of
        Some err \<Rightarrow> Inl err
      | None \<Rightarrow> (case validateMemoryReferences x db of Some err \<Rightarrow> Inl err | None \<Rightarrow> Inr x))"

definition prepare_update :: "memory_record \<Rightarrow> recall_db \<Rightarrow> string + memory_record" where
  "prepare_update x0 db =
     (let x = ApplyMemoryDefaults x0 in
      if mm_id x = [] then Inl ''memory id is required''
      else case ValidateMemoryRecord x of
        Some err \<Rightarrow> Inl err
      | None \<Rightarrow> (case validateMemoryReferences x db of Some err \<Rightarrow> Inl err | None \<Rightarrow> Inr x))"

definition stamped :: "store_env \<Rightarrow> memory_record \<Rightarrow> memory_record" where
  "stamped E x = x\<lparr>mm_created := sv_now E, mm_updated := sv_now E\<rparr>"

definition CommitMemory :: "store_env \<Rightarrow> memory_record \<Rightarrow> memory_record recall_op" where
  "CommitMemory E x0 = tx E (\<lambda>db.
     case prepare E x0 db of
       Inl err \<Rightarrow> (Inl err, db)
     | Inr x \<Rightarrow> (case insert_record (stamped E x) db of (Inl err, _) \<Rightarrow> (Inl err, db) | (Inr _, db1) \<Rightarrow> (Inr (stamped E x), db1)))"

text \<open>A write by identifier that must change a row.\<close>

definition update_one :: "string \<Rightarrow> (memory_record \<Rightarrow> bool) \<Rightarrow> (memory_record \<Rightarrow> memory_record) \<Rightarrow> unit recall_op" where
  "update_one err P f db = (if list_ex P (rd_records db) then (Inr (), update_records P f db) else (Inl err, db))"

definition open_record :: "string \<Rightarrow> string \<Rightarrow> memory_record \<Rightarrow> bool" where
  "open_record i workspaceID y \<longleftrightarrow>
     mm_id y = i \<and> mm_workspace y = workspaceID \<and> mm_status y \<noteq> ''deleted'' \<and> mm_status y \<noteq> ''superseded''"

definition rewrite :: "store_env \<Rightarrow> memory_record \<Rightarrow> memory_record \<Rightarrow> memory_record" where
  "rewrite E x y =
     y\<lparr>mm_scope := storedMemoryScope (mm_scope x), mm_kind := mm_kind x, mm_text := mm_text x, mm_provenance := mm_provenance x,
       mm_confidence := mm_confidence x, mm_status := mm_status x, mm_evidence := mm_evidence x, mm_updated := sv_now E,
       mm_expires := mm_expires x, mm_superseded := mm_superseded x, mm_shadows := mm_shadows x\<rparr>"

definition UpdateMemory :: "store_env \<Rightarrow> memory_record \<Rightarrow> unit recall_op" where
  "UpdateMemory E x0 = tx E (\<lambda>db.
     case prepare_update x0 db of
       Inl err \<Rightarrow> (Inl err, db)
     | Inr x \<Rightarrow> update_one sql_no_rows (open_record (mm_id x) (mm_workspace x)) (rewrite E x) db)"

definition supersede :: "store_env \<Rightarrow> string \<Rightarrow> memory_record \<Rightarrow> memory_record" where
  "supersede E newID y = y\<lparr>mm_status := ''superseded'', mm_superseded := newID, mm_updated := sv_now E\<rparr>"

definition SupersedeMemory :: "store_env \<Rightarrow> string \<Rightarrow> string \<Rightarrow> string \<Rightarrow> unit recall_op" where
  "SupersedeMemory E workspaceID oldID newID db0 =
     (if oldID = newID then (Inl ''a memory record cannot supersede itself'', db0)
      else tx E (\<lambda>db.
        case (find_record oldID db, find_record newID db) of
          (None, _) \<Rightarrow> (Inl (not_found_id oldID), db)
        | (_, None) \<Rightarrow> (Inl (not_found_id newID), db)
        | (Some old, Some new) \<Rightarrow>
            if mm_workspace old \<noteq> workspaceID \<or> mm_workspace new \<noteq> workspaceID
            then (Inl ''memory supersession must stay within one workspace'', db)
            else if mm_status old = ''deleted'' \<or> mm_status old = ''superseded''
            then (Inl (not_supersedable_by (''source status is '' @ mm_status old)), db)
            else if mm_status new \<noteq> ''active'' then (Inl (not_supersedable_by (''replacement status is '' @ mm_status new)), db)
            else update_one not_supersedable (open_record oldID workspaceID) (supersede E newID) db) db0)"

definition live_record :: "string \<Rightarrow> string \<Rightarrow> memory_record \<Rightarrow> bool" where
  "live_record i workspaceID y \<longleftrightarrow> mm_id y = i \<and> mm_workspace y = workspaceID \<and> mm_status y \<noteq> ''deleted''"

definition forget :: "store_env \<Rightarrow> memory_record \<Rightarrow> memory_record" where
  "forget E y = y\<lparr>mm_status := ''deleted'', mm_updated := sv_now E\<rparr>"

definition ForgetMemory :: "store_env \<Rightarrow> string \<Rightarrow> string \<Rightarrow> unit recall_op" where
  "ForgetMemory E workspaceID i = tx E (update_one sql_no_rows (live_record i workspaceID) (forget E))"

section \<open>Mutations with their event\<close>

definition inactive_record :: "string \<Rightarrow> string \<Rightarrow> memory_record \<Rightarrow> bool" where
  "inactive_record i workspaceID y \<longleftrightarrow> mm_id y = i \<and> mm_workspace y = workspaceID \<and> mm_status y \<noteq> ''active''"

definition revive :: "store_env \<Rightarrow> go_time \<Rightarrow> memory_record \<Rightarrow> memory_record" where
  "revive E expiry y = y\<lparr>mm_status := ''active'', mm_superseded := [], mm_expires := expiry, mm_updated := sv_now E\<rparr>"

definition prepare_mutation :: "store_env \<Rightarrow> memory_mutation \<Rightarrow> recall_db \<Rightarrow> string + memory_record" where
  "prepare_mutation E m db =
     (if mu_operation m = ''commit'' \<or> mu_operation m = ''correct'' then prepare E (mu_record m) db
      else if mu_operation m = ''update'' then prepare_update (mu_record m) db
      else Inr (mu_record m))"

definition mutate_rows :: "store_env \<Rightarrow> memory_mutation \<Rightarrow> memory_record \<Rightarrow> unit recall_op" where
  "mutate_rows E m x db =
     (if mu_operation m = ''commit'' then insert_record (stamped E x) db
      else if mu_operation m = ''update'' then update_one sql_no_rows (open_record (mm_id x) (mm_workspace x)) (rewrite E x) db
      else if mu_operation m = ''correct'' then
        (case insert_record ((stamped E x)\<lparr>mm_superseded := []\<rparr>) db of
           (Inl err, _) \<Rightarrow> (Inl err, db)
         | (Inr _, db1) \<Rightarrow> update_one not_supersedable (open_record (mu_old m) (mu_workspace m)) (supersede E (mm_id x)) db1)
      else if mu_operation m = ''forget'' then update_one sql_no_rows (live_record (mu_id m) (mu_workspace m)) (forget E) db
      else if mu_operation m = ''restore''
      then update_one sql_no_rows (inactive_record (mu_id m) (mu_workspace m)) (revive E (mm_expires x)) db
      else (Inl ''unknown memory mutation'', db))"

text \<open>The event's data is a JSON object with its keys in order; a commit and a correction add the new identifier.\<close>

definition event_fields :: "store_env \<Rightarrow> memory_mutation \<Rightarrow> memory_record \<Rightarrow> (string \<times> string) list \<Rightarrow> (string \<times> string) list" where
  "event_fields E m x fs =
     (let put = (\<lambda>k v. filter (\<lambda>kv. fst kv \<noteq> k) fs @ [(k, v)]) in
      sort_key fst
        (if mu_operation m = ''commit'' then put ''id'' (sv_quote E (mm_id x))
         else if mu_operation m = ''correct'' then put ''replacement_id'' (sv_quote E (mm_id x)) else fs))"

definition readMemoryTx :: "string \<Rightarrow> recall_db \<Rightarrow> string + memory_record" where
  "readMemoryTx i db = (case find_record i db of Some x \<Rightarrow> Inr (from_row x) | None \<Rightarrow> Inl (not_found_id i))"

definition ApplyMemoryMutationEvent ::
  "store_env \<Rightarrow> string \<Rightarrow> string \<Rightarrow> string \<Rightarrow> (string \<times> string) list \<Rightarrow> memory_mutation \<Rightarrow> memory_record recall_op" where
  "ApplyMemoryMutationEvent E sid turnID eventType eventData m = tx E (\<lambda>db.
     case prepare_mutation E m db of
       Inl err \<Rightarrow> (Inl err, db)
     | Inr x \<Rightarrow>
         (case mutate_rows E m x db of
            (Inl err, _) \<Rightarrow> (Inl err, db)
          | (Inr _, db1) \<Rightarrow>
              if \<not> known (rd_store db1) sid then (Inl fk_failed, db)
              else let db2 = db1\<lparr>rd_store := append_event E sid turnID eventType (json_object E (event_fields E m x eventData)) (rd_store db1)\<rparr>
                   in case readMemoryTx (if mu_operation m = ''forget'' \<or> mu_operation m = ''restore'' then mu_id m else mm_id x) db2 of
                        Inl err \<Rightarrow> (Inl err, db)
                      | Inr y \<Rightarrow> (Inr y, db2)))"

section \<open>Listing\<close>

definition expire_due :: "store_env \<Rightarrow> string \<Rightarrow> recall_db \<Rightarrow> recall_db" where
  "expire_due E workspaceID =
     update_records (\<lambda>x. mm_workspace x = workspaceID \<and> MemoryExpired x (sv_now E)) (\<lambda>x. x\<lparr>mm_status := ''expired'', mm_updated := sv_now E\<rparr>)"

definition selected :: "store_env \<Rightarrow> memory_filter \<Rightarrow> memory_record \<Rightarrow> bool" where
  "selected E f x \<longleftrightarrow>
     mm_workspace x = mf_workspace f
     \<and> (mf_deleted f \<or> mm_status x \<noteq> ''deleted'')
     \<and> (MemoryFilterScopes f = [] \<or> mm_scope x \<in> storedMemoryScope ` set (MemoryFilterScopes f))
     \<and> (if mf_status f \<noteq> [] then mm_status x = mf_status f else mf_expired f \<or> mm_status x \<noteq> ''expired'')
     \<and> \<not> (\<not> mf_expired f \<and> mf_status f \<noteq> ''expired'' \<and> (case mm_expires x of Some t \<Rightarrow> t \<le> sv_now E | None \<Rightarrow> False))"

definition ListMemory :: "store_env \<Rightarrow> memory_filter \<Rightarrow> memory_record list recall_op" where
  "ListMemory E f db0 =
     (if mf_workspace f = [] then (Inl ''workspace id is required'', db0)
      else tx E (\<lambda>db.
        let db1 = expire_due E (mf_workspace f) db in
        (Inr (sort_key (\<lambda>x. (- mm_updated x, mm_id x)) (map from_row (filter (selected E f) (rd_records db1)))), db1)) db0)"

section \<open>Sightings and watermarks\<close>

definition memory_watermark :: "string \<Rightarrow> recall_db \<Rightarrow> int" where
  "memory_watermark sid db = (case map_of (rd_watermarks db) sid of Some n \<Rightarrow> n | None \<Rightarrow> 0)"

definition AdvanceMemoryWatermark :: "store_env \<Rightarrow> string \<Rightarrow> int \<Rightarrow> unit recall_op" where
  "AdvanceMemoryWatermark E sid seq = tx E (\<lambda>db.
     if sid \<in> fst ` set (rd_watermarks db)
     then (Inr (), db\<lparr>rd_watermarks := map (\<lambda>(k, n). (k, if k = sid then max n seq else n)) (rd_watermarks db)\<rparr>)
     else if \<not> known (rd_store db) sid then (Inl fk_failed, db)
     else (Inr (), db\<lparr>rd_watermarks := rd_watermarks db @ [(sid, seq)]\<rparr>))"

definition ObserveMemory :: "store_env \<Rightarrow> string \<Rightarrow> string \<Rightarrow> int recall_op" where
  "ObserveMemory E i sid = tx E (\<lambda>db.
     let seen = (i, sid) \<in> fst ` set (rd_sightings db);
         rows = (if seen then map (\<lambda>(k, n). (k, if k = (i, sid) then n + 1 else n)) (rd_sightings db) else rd_sightings db @ [((i, sid), 1)])
     in if \<not> seen \<and> (find_record i db = None \<or> \<not> known (rd_store db) sid) then (Inl fk_failed, db)
        else (Inr (int (length (filter (\<lambda>r. fst (fst r) = i) rows))), db\<lparr>rd_sightings := rows\<rparr>))"

definition MemoryWorkspaces :: "recall_db \<Rightarrow> (string \<times> string) list" where
  "MemoryWorkspaces db = map (\<lambda>w. (wr_id w, wr_key w)) (filter (\<lambda>w. list_ex (\<lambda>x. mm_workspace x = wr_id w) (rd_records db)) (rd_workspaces db))"

end
