(* ===== verification/Recall_Control.thy ===== *)
theory Recall_Control
  imports Recall_Select
begin

text \<open>
  Who changes memory: the memory tool of a session (\<^verbatim>\<open>controlMemory\<close> of \<^verbatim>\<open>internal/core/memory.go\<close>), a
  host's operator (\<^verbatim>\<open>AdminMemory\<close>, \<^verbatim>\<open>memory_admin.go\<close>), and the extraction of memory from finished
  work (\<^verbatim>\<open>memory_extraction.go\<close>), whose classifier is a parameter.
\<close>

section \<open>Arguments\<close>

datatype tool_arg = AStr string | ABool bool | AList "tool_arg list" | AOther

type_synonym tool_args = "string \<rightharpoonup> tool_arg"

definition memoryStringArg :: "tool_args \<Rightarrow> string \<Rightarrow> string + string" where
  "memoryStringArg args name =
     (case args name of
        None \<Rightarrow> Inl (name @ '' is required'')
      | Some (AStr v) \<Rightarrow> if TrimSpace v = [] then Inl (name @ '' is required'') else Inr (TrimSpace v)
      | Some _ \<Rightarrow> Inl (name @ '' must be a string''))"

fun ref_strings :: "tool_arg list \<Rightarrow> string + string list" where
  "ref_strings [] = Inr []"
| "ref_strings (AStr s # xs) =
     (if TrimSpace s = [] then Inl ''evidence_refs must not contain empty values''
      else case ref_strings xs of Inl err \<Rightarrow> Inl err | Inr ss \<Rightarrow> Inr (s # ss))"
| "ref_strings (_ # xs) = Inl ''evidence_refs must be an array of strings''"

definition memoryEvidenceRefs :: "store_env \<Rightarrow> tool_arg option \<Rightarrow> string + string" where
  "memoryEvidenceRefs E raw =
     (case raw of
        Some (AList []) \<Rightarrow> Inl ''evidence_refs are required''
      | Some (AList xs) \<Rightarrow> (case ref_strings xs of Inl err \<Rightarrow> Inl err | Inr ss \<Rightarrow> Inr (json_list (map (sv_quote E) ss)))
      | _ \<Rightarrow> Inl ''evidence_refs must be an array of strings'')"

section \<open>The memory tool\<close>

datatype control_result = Listed "memory_record list" | Changed memory_record | Forgotten string

definition expiry :: "recall_env \<Rightarrow> go_time" where
  "expiry R = (let days = ExpiresAfterDays (re_config R) in
     if days = 0 then None else Some (sv_now (re_store R) + days * 24 * 3600 * 10 ^ 9))"

definition blank_record :: memory_record where
  "blank_record = \<lparr>mm_id = [], mm_workspace = [], mm_scope = [], mm_kind = [], mm_text = [], mm_provenance = [], mm_confidence = 0, mm_status = [],
     mm_evidence = [], mm_created = 0, mm_updated = 0, mm_expires = None, mm_superseded = [], mm_session = [], mm_origin = [], mm_shadows = []\<rparr>"

definition blank_mutation :: memory_mutation where
  "blank_mutation = \<lparr>mu_operation = [], mu_record = blank_record, mu_workspace = [], mu_old = [], mu_id = []\<rparr>"

definition unexpired_list :: "recall_env \<Rightarrow> string \<Rightarrow> memory_record list recall_op" where
  "unexpired_list R workspaceID = ListMemory (re_store R) ((all_of workspaceID)\<lparr>mf_expired := True\<rparr>)"

definition retired :: "recall_env \<Rightarrow> memory_record \<Rightarrow> bool" where
  "retired R x \<longleftrightarrow> mm_status x = ''expired'' \<or> (case mm_expires x of Some t \<Rightarrow> t \<le> sv_now (re_store R) | None \<Rightarrow> False)"

definition findMutable :: "recall_env \<Rightarrow> string \<Rightarrow> string \<Rightarrow> memory_record recall_op" where
  "findMutable R workspaceID i db =
     (case unexpired_list R workspaceID db of
        (Inl err, db1) \<Rightarrow> (Inl err, db1)
      | (Inr rs, db1) \<Rightarrow>
          (case List.find (\<lambda>x. mm_id x = i) rs of
             None \<Rightarrow> (Inl memory_not_found, db1)
           | Some x \<Rightarrow>
               if retired R x then (Inl ''memory record has expired and cannot be modified'', db1)
               else if mm_scope x \<noteq> ''agent'' then (Inl ''only agent-scope memory can be modified here'', db1)
               else (Inr x, db1)))"

definition control_mutate ::
  "recall_env \<Rightarrow> string \<Rightarrow> string \<Rightarrow> string \<Rightarrow> (string \<times> string) list \<Rightarrow> memory_mutation \<Rightarrow> (memory_record \<Rightarrow> control_result)
     \<Rightarrow> recall_state \<Rightarrow> recall_db \<Rightarrow> (string + control_result) \<times> recall_state" where
  "control_mutate R sid workspaceID typ data m answer_of s db =
     (case ApplyMemoryMutationEvent (re_store R) sid (re_turn R) typ (data @ [(''version'', ''1'')]) m db of
        (Inl err, db1) \<Rightarrow> (Inl err, s\<lparr>rs_db := db1\<rparr>)
      | (Inr x, db1) \<Rightarrow> (Inr (answer_of x), invalidateMemoryWorkspace workspaceID (s\<lparr>rs_db := db1\<rparr>)))"

definition propose :: "recall_env \<Rightarrow> string \<Rightarrow> workspace_row \<Rightarrow> tool_args \<Rightarrow> recall_state \<Rightarrow> recall_db \<Rightarrow> (string + control_result) \<times> recall_state" where
  "propose R sid w args s db =
     (let q = sv_quote (re_store R); failed = (\<lambda>err. (Inl err, s\<lparr>rs_db := db\<rparr>)) in
      case (memoryStringArg args ''text'', memoryStringArg args ''kind'') of
        (Inl err, _) \<Rightarrow> failed err
      | (_, Inl err) \<Rightarrow> failed err
      | (Inr t, Inr kind) \<Rightarrow>
          if int (length t) > RecordBytes (re_config R) then failed ''memory text exceeds configured limit''
          else case memoryEvidenceRefs (re_store R) (args ''evidence_refs'') of
            Inl err \<Rightarrow> failed err
          | Inr refs \<Rightarrow>
              control_mutate R sid (wr_id w) ''memory.committed'' [(''status'', q ''active''), (''kind'', q kind), (''scope'', q ''agent'')]
                (blank_mutation\<lparr>mu_operation := ''commit'', mu_record := blank_record\<lparr>mm_workspace := wr_id w, mm_scope := ''agent'', mm_kind := kind,
                   mm_text := t, mm_provenance := ''observed'', mm_confidence := 1, mm_status := ''active'', mm_evidence := refs, mm_expires := expiry R,
                   mm_session := sid, mm_origin := wr_key w\<rparr>\<rparr>)
                Changed s db)"

definition confirm :: "recall_env \<Rightarrow> string \<Rightarrow> workspace_row \<Rightarrow> tool_args \<Rightarrow> recall_state \<Rightarrow> recall_db \<Rightarrow> (string + control_result) \<times> recall_state" where
  "confirm R sid w args s db =
     (let q = sv_quote (re_store R) in
      if args ''user_confirmed'' \<noteq> Some (ABool True) then (Inl ''explicit user confirmation is required'', s\<lparr>rs_db := db\<rparr>)
      else case memoryStringArg args ''id'' of
        Inl err \<Rightarrow> (Inl err, s\<lparr>rs_db := db\<rparr>)
      | Inr i \<Rightarrow>
          (case findMutable R (wr_id w) i db of
             (Inl err, db1) \<Rightarrow> (Inl err, s\<lparr>rs_db := db1\<rparr>)
           | (Inr x, db1) \<Rightarrow>
               if mm_status x \<noteq> ''pending'' then (Inl ''only pending memory can be confirmed'', s\<lparr>rs_db := db1\<rparr>)
               else control_mutate R sid (wr_id w) ''memory.updated''
                      [(''id'', q (mm_id x)), (''from_status'', q ''pending''), (''to_status'', q ''active'')]
                      (blank_mutation\<lparr>mu_operation := ''update'', mu_record := x\<lparr>mm_status := ''active'', mm_expires := expiry R\<rparr>\<rparr>) Changed s db1))"

definition permitted :: "tool_args \<Rightarrow> bool" where
  "permitted args \<longleftrightarrow> args ''user_confirmed'' = Some (ABool True) \<or> args ''contradicted'' = Some (ABool True)"

definition correction :: "recall_env \<Rightarrow> string \<Rightarrow> string \<Rightarrow> string \<Rightarrow> string \<Rightarrow> memory_record \<Rightarrow> memory_mutation" where
  "correction R workspaceID sid origin t old =
     blank_mutation\<lparr>mu_operation := ''correct'', mu_workspace := workspaceID, mu_old := mm_id old,
       mu_record := blank_record\<lparr>mm_workspace := workspaceID, mm_scope := mm_scope old, mm_kind := mm_kind old, mm_text := t, mm_provenance := ''user'',
         mm_confidence := 1, mm_status := ''active'', mm_evidence := mm_evidence old, mm_expires := expiry R, mm_session := sid,
         mm_origin := origin, mm_shadows := mm_shadows old\<rparr>\<rparr>"

definition too_long :: "recall_env \<Rightarrow> string" where
  "too_long R = ''memory text exceeds max_record_bytes ('' @ itoa_nat (nat (RecordBytes (re_config R))) @ '')''"

definition correct_memory :: "recall_env \<Rightarrow> string \<Rightarrow> workspace_row \<Rightarrow> tool_args \<Rightarrow> recall_state \<Rightarrow> recall_db \<Rightarrow> (string + control_result) \<times> recall_state" where
  "correct_memory R sid w args s db =
     (let q = sv_quote (re_store R) in
      if \<not> permitted args then (Inl ''explicit user confirmation is required'', s\<lparr>rs_db := db\<rparr>)
      else case memoryStringArg args ''id'' of
        Inl err \<Rightarrow> (Inl err, s\<lparr>rs_db := db\<rparr>)
      | Inr i \<Rightarrow>
          (case findMutable R (wr_id w) i db of
             (Inl err, db1) \<Rightarrow> (Inl err, s\<lparr>rs_db := db1\<rparr>)
           | (Inr old, db1) \<Rightarrow>
               if mm_status old \<noteq> ''active'' then (Inl ''only active memory can be corrected'', s\<lparr>rs_db := db1\<rparr>)
               else case memoryStringArg args ''text'' of
                 Inl err \<Rightarrow> (Inl err, s\<lparr>rs_db := db1\<rparr>)
               | Inr t \<Rightarrow>
                   if int (length t) > RecordBytes (re_config R) then (Inl (too_long R), s\<lparr>rs_db := db1\<rparr>)
                   else control_mutate R sid (wr_id w) ''memory.updated''
                          [(''id'', q (mm_id old)), (''from_status'', q (mm_status old)), (''to_status'', q ''superseded'')]
                          (correction R (wr_id w) sid (wr_key w) t old) Changed s db1))"

definition forget_memory :: "recall_env \<Rightarrow> string \<Rightarrow> workspace_row \<Rightarrow> tool_args \<Rightarrow> recall_state \<Rightarrow> recall_db \<Rightarrow> (string + control_result) \<times> recall_state" where
  "forget_memory R sid w args s db =
     (let q = sv_quote (re_store R) in
      if \<not> permitted args then (Inl ''explicit user confirmation is required'', s\<lparr>rs_db := db\<rparr>)
      else case memoryStringArg args ''id'' of
        Inl err \<Rightarrow> (Inl err, s\<lparr>rs_db := db\<rparr>)
      | Inr i \<Rightarrow> control_mutate R sid (wr_id w) ''memory.forgotten'' [(''id'', q i), (''to_status'', q ''deleted'')]
                   (blank_mutation\<lparr>mu_operation := ''forget'', mu_workspace := wr_id w, mu_id := i\<rparr>) (\<lambda>_. Forgotten i) s db)"

definition controlMemory :: "recall_env \<Rightarrow> string \<Rightarrow> string \<Rightarrow> string \<Rightarrow> tool_args \<Rightarrow> recall_state \<Rightarrow> (string + control_result) \<times> recall_state" where
  "controlMemory R sid path action args s =
     (case ensureMemoryWorkspace R (if TrimSpace path = [] then re_root R else path) (rs_db s) of
        (None, db) \<Rightarrow> (Inl ''memory store unavailable'', s\<lparr>rs_db := db\<rparr>)
      | (Some w, db) \<Rightarrow>
          if action = ''inspect''
          then (case unexpired_list R (wr_id w) db of (Inl err, db1) \<Rightarrow> (Inl err, s\<lparr>rs_db := db1\<rparr>) | (Inr rs, db1) \<Rightarrow> (Inr (Listed rs), s\<lparr>rs_db := db1\<rparr>))
          else if action = ''propose'' then propose R sid w args s db
          else if action = ''confirm'' then confirm R sid w args s db
          else if action = ''correct'' then correct_memory R sid w args s db
          else if action = ''forget'' then forget_memory R sid w args s db
          else (Inl ''action must be inspect, propose, confirm, correct, or forget'', s\<lparr>rs_db := db\<rparr>))"

section \<open>The operator\<close>

text \<open>The mutation an action asks for, or why it is refused: the event's type, the status it names and the mutation.\<close>

definition admin_action :: "recall_env \<Rightarrow> string \<Rightarrow> string \<Rightarrow> string \<Rightarrow> memory_record \<Rightarrow> string + (string \<times> string \<times> memory_mutation)" where
  "admin_action R workspaceID action t0 x =
     (if action = ''forget'' then
        (if mm_status x = ''deleted'' then Inl ''memory record is already deleted''
         else Inr (''memory.forgotten'', ''deleted'', blank_mutation\<lparr>mu_operation := ''forget'', mu_workspace := workspaceID, mu_id := mm_id x\<rparr>))
      else if action = ''restore'' then
        (if mm_status x = ''active'' then Inl ''memory record is already active''
         else if mm_scope x \<noteq> ''agent'' then Inl ''only agent-scope memory can be modified here''
         else Inr (''memory.updated'', ''active'', blank_mutation\<lparr>mu_operation := ''restore'', mu_workspace := workspaceID, mu_id := mm_id x,
                mu_record := blank_record\<lparr>mm_expires := expiry R\<rparr>\<rparr>))
      else if action = ''correct'' then
        (if mm_status x \<noteq> ''active'' then Inl ''only active memory can be corrected''
         else if mm_scope x \<noteq> ''agent'' then Inl ''only agent-scope memory can be modified here''
         else let t = TrimSpace t0 in
           if t = [] then Inl ''text is required to correct memory''
           else if int (length t) > RecordBytes (re_config R) then Inl (too_long R)
           else Inr (''memory.updated'', ''superseded'', correction R workspaceID (mm_session x) (mm_origin x) t x))
      else Inl ''action must be forget, restore or correct'')"

definition AdminMemory ::
  "recall_env \<Rightarrow> string \<Rightarrow> string \<Rightarrow> string \<Rightarrow> string \<Rightarrow> string \<Rightarrow> string \<Rightarrow> recall_state \<Rightarrow> (string + memory_record) \<times> recall_state" where
  "AdminMemory R path i action t actor reason s =
     (let q = sv_quote (re_store R) in
      if TrimSpace actor = [] \<or> TrimSpace reason = [] then (Inl ''actor and reason are required'', s)
      else case ensureMemoryWorkspace R (if TrimSpace path = [] then re_root R else path) (rs_db s) of
        (None, db) \<Rightarrow> (Inl ''memory store unavailable'', s\<lparr>rs_db := db\<rparr>)
      | (Some w, db) \<Rightarrow>
          (case ListMemory (re_store R) ((all_of (wr_id w))\<lparr>mf_expired := True, mf_deleted := True\<rparr>) db of
             (Inl err, db1) \<Rightarrow> (Inl err, s\<lparr>rs_db := db1\<rparr>)
           | (Inr rs, db1) \<Rightarrow>
               (case List.find (\<lambda>x. mm_id x = i) rs of
                  None \<Rightarrow> (Inl (not_found_id i), s\<lparr>rs_db := db1\<rparr>)
                | Some x \<Rightarrow>
                    if mm_id x = [] then (Inl (not_found_id i), s\<lparr>rs_db := db1\<rparr>)
                    else if mm_session x = [] then (Inl ''memory record has no session to record the change in'', s\<lparr>rs_db := db1\<rparr>)
                    else case admin_action R (wr_id w) action t x of
                      Inl err \<Rightarrow> (Inl err, s\<lparr>rs_db := db1\<rparr>)
                    | Inr (typ, to_status, m) \<Rightarrow>
                        (case ApplyMemoryMutationEvent (re_store R) (mm_session x) [] typ
                                [(''id'', q (mm_id x)), (''from_status'', q (mm_status x)), (''actor'', q actor), (''reason'', q reason),
                                 (''version'', ''1''), (''to_status'', q to_status)] m db1 of
                           (Inl err, db2) \<Rightarrow> (Inl err, s\<lparr>rs_db := db2\<rparr>)
                         | (Inr y, db2) \<Rightarrow> (Inr y, invalidateMemoryWorkspace (wr_id w) (s\<lparr>rs_db := db2\<rparr>))))))"

section \<open>Extraction\<close>

record memory_candidate =
  mc_kind :: string
  mc_words :: string
  mc_refs :: "string list"

text \<open>
  What extraction takes from outside: the classifier's answers (\<open>None\<close> for an error, a score or none
  for an answer), in which order the runtime visits a map, whether a path is temporary, and the strings
  a stored list of references decodes to.
\<close>

record extract_env =
  xe_recall :: recall_env
  xe_classifier :: bool
  xe_durable :: "memory_candidate \<Rightarrow> float64 option option"
  xe_conflict :: "memory_candidate \<Rightarrow> memory_record list \<Rightarrow> (memory_record \<Rightarrow> float64 option) option"
  xe_visit :: "memory_record list \<Rightarrow> memory_record list"
  xe_temp :: "string \<Rightarrow> bool"
  xe_decode :: "string \<Rightarrow> string list"
  xe_score :: "float64 \<Rightarrow> string"

definition memoryActivateScore :: float64 where
  "memoryActivateScore = 3 / 4"

definition memoryDiscardScore :: float64 where
  "memoryDiscardScore = 1 / 2"

definition triageMemory :: "extract_env \<Rightarrow> memory_candidate \<Rightarrow> float64 option" where
  "triageMemory X c =
     (if \<not> xe_classifier X then None
      else case xe_durable X c of Some (Some score) \<Rightarrow> if score < 0 \<or> score > 1 then None else Some score | _ \<Rightarrow> None)"

definition conflictingMemory :: "extract_env \<Rightarrow> memory_candidate \<Rightarrow> memory_record list \<Rightarrow> memory_record option" where
  "conflictingMemory X c records =
     (let cands = take 5 (filter (\<lambda>r. mm_status r = ''active'' \<and> mm_kind r = mc_kind c) records) in
      if \<not> xe_classifier X \<or> cands = [] then None
      else case xe_conflict X c cands of
        None \<Rightarrow> None
      | Some score \<Rightarrow> List.find (\<lambda>r. case score r of Some v \<Rightarrow> v \<ge> memoryActivateScore | None \<Rightarrow> False) (xe_visit X cands))"

definition memoryDuplicate :: "store_env \<Rightarrow> string \<Rightarrow> string \<Rightarrow> bool" where
  "memoryDuplicate E a b =
     (let as = Fields (ToLower (sv_uni E) a); bs = Fields (ToLower (sv_uni E) b);
          sa = remdups (map (trim_cut ''.,:;!?()'') as); sb = remdups (map (trim_cut ''.,:;!?()'') bs)
      in join_str '' '' as = join_str '' '' bs
         \<or> 5 \<le> length as \<and> 5 \<le> length bs
           \<and> fdiv (ffloat (int (length (filter (\<lambda>t. t \<in> set sb) sa)))) (ffloat (int (max (length sa) (length sb)))) \<ge> fl (9 / 10))"

definition later :: "nat \<Rightarrow> recall_env \<Rightarrow> recall_env" where
  "later n R = R\<lparr>re_store := (re_store R)\<lparr>sv_fresh := (\<lambda>i. sv_fresh (re_store R) (n + i))\<rparr>\<rparr>"

definition apply_event ::
  "recall_env \<Rightarrow> string \<Rightarrow> string \<Rightarrow> (string \<times> string) list \<Rightarrow> memory_mutation \<Rightarrow> recall_db \<Rightarrow> (string + memory_record) \<times> recall_db" where
  "apply_event R sid typ data m db = ApplyMemoryMutationEvent (re_store R) sid [] typ data m db"

definition note_change :: "bool \<times> recall_db \<Rightarrow> (string + 'a) \<times> recall_db \<Rightarrow> bool \<times> recall_db" where
  "note_change cs res = (fst cs \<or> \<not> isl (fst res), snd res)"

definition retriage_one :: "extract_env \<Rightarrow> string \<Rightarrow> string \<Rightarrow> bool \<Rightarrow> memory_record \<Rightarrow> bool \<times> recall_db \<Rightarrow> bool \<times> recall_db" where
  "retriage_one X sid workspaceID discardUncertain x cs =
     (let R = xe_recall X; E = re_store R; q = sv_quote E; db = snd cs in
      case triageMemory X \<lparr>mc_kind = mm_kind x, mc_words = mm_text x, mc_refs = []\<rparr> of
        None \<Rightarrow> cs
      | Some score \<Rightarrow>
          if score \<ge> memoryActivateScore \<and> sid = []
          then note_change cs (UpdateMemory E (x\<lparr>mm_status := ''active'', mm_confidence := score\<rparr>) db)
          else if (score < memoryDiscardScore \<or> discardUncertain) \<and> sid = []
          then note_change cs (ForgetMemory E workspaceID (mm_id x) (snd (UpdateMemory E (x\<lparr>mm_confidence := score\<rparr>) db)))
          else if score \<ge> memoryActivateScore
          then note_change cs (apply_event R sid ''memory.updated''
                 [(''id'', q (mm_id x)), (''status'', q ''active''), (''reason'', q ''retriaged''), (''triage_score'', xe_score X score)]
                 (blank_mutation\<lparr>mu_operation := ''update'', mu_record := x\<lparr>mm_status := ''active'', mm_confidence := score\<rparr>\<rparr>) db)
          else if score < memoryDiscardScore
          then note_change cs (apply_event R sid ''memory.forgotten''
                 [(''id'', q (mm_id x)), (''to_status'', q ''deleted''), (''reason'', q ''retriaged''), (''triage_score'', xe_score X score)]
                 (blank_mutation\<lparr>mu_operation := ''forget'', mu_workspace := workspaceID, mu_id := mm_id x\<rparr>) db)
          else cs)"

definition retriagePendingMemory :: "extract_env \<Rightarrow> string \<Rightarrow> string \<Rightarrow> bool \<Rightarrow> recall_state \<Rightarrow> recall_state" where
  "retriagePendingMemory X sid workspaceID discardUncertain s =
     (case ListMemory (re_store (xe_recall X)) ((all_of workspaceID)\<lparr>mf_status := ''pending''\<rparr>) (rs_db s) of
        (Inl _, db) \<Rightarrow> s\<lparr>rs_db := db\<rparr>
      | (Inr pending, db) \<Rightarrow>
          (case fold (retriage_one X sid workspaceID discardUncertain) pending (False, db) of
             (changed, db1) \<Rightarrow> (if changed then invalidateMemoryWorkspace workspaceID else (\<lambda>x. x)) (s\<lparr>rs_db := db1\<rparr>)))"

definition blocks :: "memory_record \<Rightarrow> bool" where
  "blocks x \<longleftrightarrow> mm_scope x \<noteq> ''agent'' \<or> mm_status x = ''deleted'' \<or> mm_status x = ''superseded'' \<or> mm_status x = ''expired''"

definition sorted_refs :: "string list \<Rightarrow> string list" where
  "sorted_refs refs = remdups_adj (sort refs)"

text \<open>What is written for a candidate: the operation, the event, the superseded record and the new one.\<close>

definition candidate_record ::
  "extract_env \<Rightarrow> string \<Rightarrow> workspace_row \<Rightarrow> memory_candidate \<Rightarrow> float64 option \<Rightarrow> memory_record list
     \<Rightarrow> string \<times> string \<times> string \<times> memory_record" where
  "candidate_record X sid w c score records =
     (let R = xe_recall X; q = sv_quote (re_store R); dups = filter (\<lambda>r. memoryDuplicate (re_store R) (mm_text r) (mc_words c)) records in
      case dups of
        old # _ \<Rightarrow> (''update'', ''memory.updated'', [],
          old\<lparr>mm_evidence := json_list (map q (sorted_refs (mc_refs c @ xe_decode X (mm_evidence old))))\<rparr>)
      | [] \<Rightarrow>
          (let x = blank_record\<lparr>mm_workspace := wr_id w, mm_scope := ''agent'', mm_kind := mc_kind c, mm_text := mc_words c, mm_provenance := ''extracted'',
                     mm_confidence := (case score of Some v \<Rightarrow> v | None \<Rightarrow> fl (7 / 10)), mm_status := ''pending'', mm_session := sid,
                     mm_origin := wr_key w, mm_expires := expiry R, mm_evidence := json_list (map q (mc_refs c))\<rparr>
           in case score of
                Some v \<Rightarrow>
                  if v \<ge> memoryActivateScore
                  then (case conflictingMemory X c records of
                          Some old \<Rightarrow> (''correct'', ''memory.updated'', mm_id old, x\<lparr>mm_status := ''active''\<rparr>)
                        | None \<Rightarrow> (''commit'', ''memory.committed'', [], x\<lparr>mm_status := ''active''\<rparr>))
                  else (''commit'', ''memory.committed'', [], x)
              | None \<Rightarrow> (''commit'', ''memory.committed'', [], x)))"

definition persist_one ::
  "extract_env \<Rightarrow> string \<Rightarrow> workspace_row \<Rightarrow> string list \<Rightarrow> memory_candidate \<Rightarrow> recall_state \<Rightarrow> (string + unit) \<times> recall_state" where
  "persist_one X sid w refs c0 s =
     (let R = xe_recall X; E = re_store R; q = sv_quote E;
          c = c0\<lparr>mc_words := TrimSpace (mc_words c0), mc_refs := sorted_refs (mc_refs c0 @ refs @ [''session:'' @ sid])\<rparr> in
      if mc_kind c \<notin> set MemoryKinds \<or> mc_words c = [] \<or> int (length (mc_words c)) > RecordBytes (re_config R) then (Inr (), s)
      else let score = triageMemory X c in
        if (case score of Some v \<Rightarrow> v < memoryDiscardScore | None \<Rightarrow> False) then (Inr (), s)
        else case ListMemory E ((all_of (wr_id w))\<lparr>mf_expired := True, mf_deleted := True\<rparr>) (rs_db s) of
          (Inl err, db) \<Rightarrow> (Inl err, s\<lparr>rs_db := db\<rparr>)
        | (Inr records, db) \<Rightarrow>
            if list_ex (\<lambda>r. memoryDuplicate E (mm_text r) (mc_words c) \<and> blocks r) records then (Inr (), s\<lparr>rs_db := db\<rparr>)
            else (case candidate_record X sid w c score records of
              (operation, typ, oldID, x) \<Rightarrow>
                (case apply_event R sid typ
                        [(''status'', q (mm_status x)), (''provenance'', q ''extracted''),
                         (''triage_score'', xe_score X (case score of Some v \<Rightarrow> v | None \<Rightarrow> fl (7 / 10)))]
                        (blank_mutation\<lparr>mu_operation := operation, mu_workspace := wr_id w, mu_old := oldID, mu_record := x\<rparr>) db of
                   (Inl err, db1) \<Rightarrow> (Inl err, s\<lparr>rs_db := db1\<rparr>)
                 | (Inr y, db1) \<Rightarrow>
                     (case ObserveMemory E (mm_id y) sid db1 of
                        (Inl err, db2) \<Rightarrow> (Inl err, s\<lparr>rs_db := db2\<rparr>)
                      | (Inr _, db2) \<Rightarrow>
                          let s2 = invalidateMemoryWorkspace (wr_id w) (s\<lparr>rs_db := db2\<rparr>) in
                          (Inr (), if oldID \<noteq> [] then emit R sid ''memory.contradicted'' [(''id'', q oldID), (''replaced_by'', q (mm_id y))] s2 else s2)))))"

fun persist_all ::
  "extract_env \<Rightarrow> string \<Rightarrow> workspace_row \<Rightarrow> string list \<Rightarrow> nat \<Rightarrow> memory_candidate list \<Rightarrow> recall_state \<Rightarrow> (string + unit) \<times> recall_state" where
  "persist_all X sid w refs n [] s = (Inr (), s)"
| "persist_all X sid w refs n (c # cs) s =
     (case persist_one (X\<lparr>xe_recall := later n (xe_recall X)\<rparr>) sid w refs c s of
        (Inl err, s1) \<Rightarrow> (Inl err, s1) | (Inr _, s1) \<Rightarrow> persist_all X sid w refs (Suc n) cs s1)"

definition persistMemoryCandidates ::
  "extract_env \<Rightarrow> string \<Rightarrow> string \<Rightarrow> memory_candidate list \<Rightarrow> string list \<Rightarrow> recall_state \<Rightarrow> (string + unit) \<times> recall_state" where
  "persistMemoryCandidates X sid path candidates refs s =
     (case ensureMemoryWorkspace (xe_recall X) path (rs_db s) of
        (None, db) \<Rightarrow> (Inl ''memory workspace unavailable'', s\<lparr>rs_db := db\<rparr>)
      | (Some w, db) \<Rightarrow>
          if xe_temp X path then (Inr (), s\<lparr>rs_db := db\<rparr>)
          else persist_all X sid w refs 1 candidates (retriagePendingMemory X sid (wr_id w) False (s\<lparr>rs_db := db\<rparr>)))"

definition cleanup_one :: "extract_env \<Rightarrow> string \<times> string \<Rightarrow> recall_state \<Rightarrow> recall_state" where
  "cleanup_one X w s =
     (case w of (wid, key) \<Rightarrow>
        let E = re_store (xe_recall X) in
        if prefix ''path:'' key \<and> xe_temp X (drop 5 key)
        then (case ListMemory E ((all_of wid)\<lparr>mf_status := ''pending''\<rparr>) (rs_db s) of
                (Inl _, db) \<Rightarrow> s\<lparr>rs_db := db\<rparr>
              | (Inr pending, db) \<Rightarrow>
                  let s1 = s\<lparr>rs_db := fold (\<lambda>x db. snd (ForgetMemory E wid (mm_id x) db)) pending db\<rparr> in
                  if pending \<noteq> [] then invalidateMemoryWorkspace wid s1 else s1)
        else retriagePendingMemory X [] wid (\<not> mg_keepUncertain (re_config (xe_recall X))) s)"

definition cleanupPendingMemory :: "extract_env \<Rightarrow> recall_state \<Rightarrow> recall_state" where
  "cleanupPendingMemory X s =
     (if sv_io (re_store (xe_recall X)) \<noteq> None then s else fold (cleanup_one X) (MemoryWorkspaces (rs_db s)) s)"

end
