(* ===== verification/Recall_Inv.thy ===== *)
theory Recall_Inv
  imports Recall_Control Conversation_Inv
begin

text \<open>
  The memory tables as a transition system: the steps the store's operations take, the invariant of
  the records they keep, and that what the engine does to memory is made of such steps.
\<close>

section \<open>Steps\<close>

text \<open>
  The label is the record an operator restores, if any. A correction is used as the engine uses it:
  the new record is active and belongs to the workspace of the record it replaces. Generated
  identifiers are not empty.
\<close>

definition well_used :: "memory_mutation \<Rightarrow> recall_db \<Rightarrow> bool" where
  "well_used m db \<longleftrightarrow> (mu_operation m = ''correct'' \<longrightarrow>
     mm_workspace (mu_record m) = mu_workspace m \<and> mm_status (mu_record m) = ''active'' \<and> find_record (mu_old m) db \<noteq> None)"

definition restored_id :: "memory_mutation \<Rightarrow> string option" where
  "restored_id m = (if mu_operation m = ''restore'' then Some (mu_id m) else None)"

inductive memory_step :: "string option \<Rightarrow> recall_db \<Rightarrow> recall_db \<Rightarrow> bool" where
  ensure: "memory_step None db (snd (EnsureWorkspace E key db))"
| commit: "sv_fresh E 0 \<noteq> [] \<Longrightarrow> memory_step None db (snd (CommitMemory E x db))"
| rewritten: "memory_step None db (snd (UpdateMemory E x db))"
| superseded: "memory_step None db (snd (SupersedeMemory E w old new db))"
| forgotten: "memory_step None db (snd (ForgetMemory E w i db))"
| listed: "memory_step None db (snd (ListMemory E f db))"
| mutation: "sv_fresh E 0 \<noteq> [] \<Longrightarrow> well_used m db \<Longrightarrow>
    memory_step (restored_id m) db (snd (ApplyMemoryMutationEvent E sid turnID typ data m db))"
| observed: "memory_step None db (snd (ObserveMemory E i sid db))"
| watermark: "memory_step None db (snd (AdvanceMemoryWatermark E sid seq db))"
| conversation: "store_step l (rd_store db) st \<Longrightarrow> memory_step None db (db\<lparr>rd_store := st,
    rd_sightings := filter (\<lambda>r. l \<noteq> Some (snd (fst r))) (rd_sightings db), rd_watermarks := filter (\<lambda>r. l \<noteq> Some (fst r)) (rd_watermarks db)\<rparr>)"

inductive_cases memory_stepE: "memory_step l db db'"

definition empty_recall :: recall_db where
  "empty_recall = \<lparr>rd_store = empty_db, rd_workspaces = [], rd_records = [], rd_sightings = [], rd_watermarks = []\<rparr>"

section \<open>Invariant\<close>

definition record_ok :: "memory_record \<Rightarrow> bool" where
  "record_ok x \<longleftrightarrow>
     mm_id x \<noteq> [] \<and> mm_scope x \<in> {''workspace'', ''project'', ''user''} \<and> mm_kind x \<in> set MemoryKinds \<and> mm_text x \<noteq> []
     \<and> mm_provenance x \<in> set MemoryProvenances \<and> 0 \<le> mm_confidence x \<and> mm_confidence x \<le> 1 \<and> json_array (mm_evidence x)
     \<and> mm_status x \<in> {''pending'', ''active'', ''superseded'', ''expired'', ''deleted''}
     \<and> (mm_shadows x \<noteq> [] \<longrightarrow> mm_scope x = ''workspace'')
     \<and> (mm_status x = ''superseded'' \<longrightarrow> mm_superseded x \<noteq> [])
     \<and> (mm_status x \<in> {''pending'', ''active'', ''expired''} \<longrightarrow> mm_superseded x = [])"

definition refs_ok :: "workspace_row list \<Rightarrow> memory_record list \<Rightarrow> memory_record \<Rightarrow> bool" where
  "refs_ok ws recs x \<longleftrightarrow>
     mm_workspace x \<in> wr_id ` set ws
     \<and> (mm_superseded x \<noteq> [] \<longrightarrow> (\<exists>y \<in> set recs. mm_id y = mm_superseded x \<and> mm_workspace y = mm_workspace x))"

text \<open>Which record replaced which, but for records that name themselves.\<close>

definition replacements :: "memory_record list \<Rightarrow> (string \<times> string) set" where
  "replacements recs = {(mm_id x, mm_superseded x) | x. x \<in> set recs \<and> mm_superseded x \<noteq> [] \<and> mm_superseded x \<noteq> mm_id x}"

definition recall_ok :: "recall_db \<Rightarrow> bool" where
  "recall_ok db \<longleftrightarrow>
     distinct (map mm_id (rd_records db)) \<and> distinct (map wr_id (rd_workspaces db)) \<and> distinct (map wr_key (rd_workspaces db))
     \<and> (\<forall>x \<in> set (rd_records db). record_ok x \<and> refs_ok (rd_workspaces db) (rd_records db) x)
     \<and> acyclic (replacements (rd_records db))"

lemma acyclic_replace:
  assumes "acyclic r" and "\<And>z. (y, z) \<notin> r" and "x \<noteq> y" and "r' \<subseteq> insert (x, y) r"
  shows "acyclic r'"
proof -
  have "(y, x) \<notin> r\<^sup>*" using assms(2,3) by (metis converse_rtranclE)
  then have "acyclic (insert (x, y) r)" using assms(1) by (simp add: acyclic_insert)
  then show ?thesis using assms(4) by (rule acyclic_subset)
qed

lemma find_record_set: "find_record i db = Some y \<Longrightarrow> y \<in> set (rd_records db) \<and> mm_id y = i"
  by (auto simp: find_record_def find_Some_iff)

lemma active_ends:
  assumes "\<forall>x \<in> set recs. record_ok x" and "distinct (map mm_id recs)" and "y \<in> set recs" and "mm_status y = ''active''"
  shows "(mm_id y, z) \<notin> replacements recs"
proof
  assume "(mm_id y, z) \<in> replacements recs"
  then obtain x where x: "x \<in> set recs" "mm_id x = mm_id y" "mm_superseded x \<noteq> []" by (auto simp: replacements_def)
  then have "x = y" using assms(2,3) by (meson distinct_map inj_onD)
  with x assms(1,4) show False by (auto simp: record_ok_def)
qed

text \<open>Rewriting rows in place, with at most one row that gets a new replacement, which is active.\<close>

lemma ok_update:
  assumes ok: "recall_ok db"
    and rows: "\<And>x. x \<in> set (rd_records db) \<Longrightarrow> P x \<Longrightarrow> record_ok (f x) \<and> mm_id (f x) = mm_id x \<and> mm_workspace (f x) = mm_workspace x
      \<and> (mm_superseded (f x) \<in> {[], mm_superseded x} \<or> mm_id x = i \<and> mm_superseded (f x) = t)"
    and target: "t = [] \<or> (\<exists>y \<in> set (rd_records db). mm_id y = t \<and> mm_status y = ''active'' \<and> (\<forall>x \<in> set (rd_records db). P x \<longrightarrow> mm_workspace y = mm_workspace x))"
  shows "recall_ok (update_records P f db)"
proof -
  let ?g = "\<lambda>x. if P x then f x else x" and ?recs = "rd_records db"
  have ids: "map mm_id (map ?g ?recs) = map mm_id ?recs" using rows by simp
  have keep: "\<exists>y' \<in> set (map ?g ?recs). mm_id y' = mm_id y \<and> mm_workspace y' = mm_workspace y" if "y \<in> set ?recs" for y
    using that rows by (intro bexI [of _ "?g y"]) auto
  have refs: "refs_ok (rd_workspaces db) (map ?g ?recs) (?g x)" if x: "x \<in> set ?recs" for x
  proof -
    from ok x have r: "refs_ok (rd_workspaces db) ?recs x" by (simp add: recall_ok_def)
    have w: "mm_workspace (?g x) = mm_workspace x" using rows x by simp
    have "\<exists>y \<in> set ?recs. mm_id y = mm_superseded (?g x) \<and> mm_workspace y = mm_workspace x" if "mm_superseded (?g x) \<noteq> []"
    proof (cases "P x \<and> mm_superseded (f x) = t")
      case True
      then show ?thesis using target that x by auto
    next
      case False
      then have "mm_superseded (?g x) = mm_superseded x" using rows [OF x] that by (auto split: if_splits)
      then show ?thesis using r that by (simp add: refs_ok_def)
    qed
    then show ?thesis using keep r w unfolding refs_ok_def by (metis (no_types, lifting))
  qed
  have edge: "e \<in> replacements ?recs \<or> e = (i, t) \<and> i \<noteq> t \<and> t \<noteq> []" if e: "e \<in> replacements (map ?g ?recs)" for e
  proof -
    from e obtain x where x: "x \<in> set ?recs" "e = (mm_id (?g x), mm_superseded (?g x))" "mm_superseded (?g x) \<noteq> []" "mm_superseded (?g x) \<noteq> mm_id (?g x)"
      unfolding replacements_def by force
    show ?thesis
    proof (cases "mm_superseded (?g x) = mm_superseded x")
      case True
      then have "e = (mm_id x, mm_superseded x)" using x(1,2) rows by simp
      moreover have "mm_superseded x \<noteq> []" "mm_superseded x \<noteq> mm_id x" using x True rows by (simp_all split: if_splits)
      ultimately show ?thesis using x(1) unfolding replacements_def by blast
    next
      case False
      then have "P x" by (simp split: if_splits)
      with rows [OF x(1) this] x False show ?thesis by auto
    qed
  qed
  then have sub: "replacements (map ?g ?recs) \<subseteq> insert (i, t) (replacements ?recs)"
    and same: "t = [] \<or> i = t \<Longrightarrow> replacements (map ?g ?recs) \<subseteq> replacements ?recs" by blast+
  have "acyclic (replacements (map ?g ?recs))"
  proof (cases "t = [] \<or> i = t")
    case True
    with same ok show ?thesis by (meson acyclic_subset recall_ok_def)
  next
    case False
    then obtain y where y: "y \<in> set ?recs" "mm_id y = t" "mm_status y = ''active''" using target by blast
    have "(t, z) \<notin> replacements ?recs" for z using active_ends [OF _ _ y(1,3)] ok y(2) by (auto simp: recall_ok_def)
    then show ?thesis using acyclic_replace [of "replacements ?recs" t i] False sub ok by (simp add: recall_ok_def)
  qed
  moreover have "\<forall>x \<in> set (map ?g ?recs). record_ok x \<and> refs_ok (rd_workspaces db) (map ?g ?recs) x"
  proof
    fix x' assume "x' \<in> set (map ?g ?recs)"
    then obtain x where x: "x \<in> set ?recs" "x' = ?g x" by force
    have "record_ok (?g x)" using rows [OF x(1)] ok x(1) by (simp add: recall_ok_def)
    with refs [OF x(1)] x(2) show "record_ok x' \<and> refs_ok (rd_workspaces db) (map ?g ?recs) x'" by blast
  qed
  moreover have "distinct (map mm_id (map ?g ?recs))" unfolding ids using ok by (simp add: recall_ok_def)
  moreover have "rd_records (update_records P f db) = map ?g ?recs" "rd_workspaces (update_records P f db) = rd_workspaces db"
    by (simp_all add: update_records_def)
  ultimately show ?thesis using ok by (simp only: recall_ok_def)
qed

text \<open>A new row.\<close>

lemma ok_insert:
  assumes ok: "recall_ok db" and new: "insert_record x db = (Inr u, db')" and row: "record_ok (to_row x)" and ws: "mm_workspace x \<in> wr_id ` set (rd_workspaces db)"
    and sup: "mm_superseded x = [] \<or> (\<exists>y \<in> set (rd_records db). mm_id y = mm_superseded x \<and> mm_status y = ''active'' \<and> mm_workspace y = mm_workspace x)"
  shows "recall_ok db'"
proof -
  let ?x = "to_row x" and ?recs = "rd_records db"
  have f: "mm_id ?x = mm_id x" "mm_superseded ?x = mm_superseded x" "mm_workspace ?x = mm_workspace x" by (simp_all add: to_row_def)
  have db': "db' = db\<lparr>rd_records := ?recs @ [?x]\<rparr>" and fresh: "mm_id x \<notin> mm_id ` set ?recs"
    using new by (auto simp: insert_record_def list_ex_iff split: if_splits)
  have "acyclic (replacements (?recs @ [?x]))"
  proof (cases "mm_superseded x = []")
    case True
    then have "replacements (?recs @ [?x]) = replacements ?recs" by (auto simp: replacements_def f)
    with ok show ?thesis by (simp add: recall_ok_def)
  next
    case False
    with sup obtain y where y: "y \<in> set ?recs" "mm_id y = mm_superseded x" "mm_status y = ''active''" by blast
    have "(mm_superseded x, z) \<notin> replacements ?recs" for z using active_ends [OF _ _ y(1,3)] ok y(2) by (auto simp: recall_ok_def)
    moreover have "mm_id x \<noteq> mm_superseded x" using fresh y by (metis imageI)
    moreover have "replacements (?recs @ [?x]) \<subseteq> insert (mm_id x, mm_superseded x) (replacements ?recs)" by (auto simp: replacements_def f)
    ultimately show ?thesis using acyclic_replace [of "replacements ?recs" "mm_superseded x" "mm_id x"] ok by (simp add: recall_ok_def)
  qed
  moreover have "refs_ok (rd_workspaces db) (?recs @ [?x]) y" if "y \<in> set (?recs @ [?x])" for y
    using that ok ws sup by (auto simp: refs_ok_def recall_ok_def f)
  ultimately show ?thesis using ok row fresh by (auto simp: recall_ok_def db' f)
qed

section \<open>Checked records\<close>

definition checked :: "recall_db \<Rightarrow> memory_record \<Rightarrow> bool" where
  "checked db x \<longleftrightarrow> mm_id x \<noteq> [] \<and> ValidateMemoryRecord x = None \<and> validateMemoryReferences x db = None"

lemma prepare_checked:
  assumes "prepare E x0 db = Inr x" and "sv_fresh E 0 \<noteq> []"
  shows "checked db x" "mm_workspace x = mm_workspace x0" "mm_status x0 \<noteq> [] \<Longrightarrow> mm_status x = mm_status x0"
  using assms by (auto simp: prepare_def checked_def Let_def or_default_def ApplyMemoryDefaults_def split: option.splits if_splits)

lemma prepare_update_checked: "prepare_update x0 db = Inr x \<Longrightarrow> checked db x"
  by (auto simp: prepare_update_def checked_def Let_def split: option.splits if_splits)

lemma stored_scope: "s \<in> {''agent'', ''group'', ''global''} \<Longrightarrow> storedMemoryScope s \<in> {''workspace'', ''project'', ''user''} \<and> (storedMemoryScope s = ''workspace'' \<longleftrightarrow> s = ''agent'')"
  by (elim insertE emptyE) (simp_all add: storedMemoryScope_def)

lemma checked_fields:
  assumes "checked db x"
  shows "mm_scope x \<in> {''agent'', ''group'', ''global''}" "mm_shadows x \<noteq> [] \<longrightarrow> mm_scope x = ''agent''"
    "mm_status x \<in> {''pending'', ''active'', ''superseded'', ''expired''}" "mm_text x \<noteq> []" "mm_kind x \<in> set MemoryKinds" "mm_provenance x \<in> set MemoryProvenances"
    "0 \<le> mm_confidence x \<and> mm_confidence x \<le> 1" "json_array (mm_evidence x)" "mm_status x = ''superseded'' \<longleftrightarrow> mm_superseded x \<noteq> []" "mm_id x \<noteq> []"
  using assms unfolding checked_def ValidateMemoryRecord_def by (auto simp only: option.simps not_less split: if_splits)

lemma checked_refs:
  assumes "checked db x"
  shows "mm_workspace x \<in> wr_id ` set (rd_workspaces db)"
    and "mm_superseded x = [] \<or> (\<exists>y \<in> set (rd_records db). mm_id y = mm_superseded x \<and> mm_status y = ''active'' \<and> mm_workspace y = mm_workspace x)"
  using assms by (auto simp: checked_def validateMemoryReferences_def list_ex_iff dest!: find_record_set split: if_splits option.splits) (metis imageI)+

lemma checked_row:
  assumes "checked db x"
  shows "record_ok (to_row x)" and "mm_id y \<noteq> [] \<Longrightarrow> record_ok (rewrite E x y)" and "mm_status x = ''active'' \<Longrightarrow> record_ok (to_row ((stamped E x)\<lparr>mm_superseded := []\<rparr>))"
    and "record_ok (to_row (stamped E x))"
proof -
  note f = checked_fields [OF assms]
  have s: "storedMemoryScope (mm_scope x) \<in> {''workspace'', ''project'', ''user''}" "mm_shadows x \<noteq> [] \<longrightarrow> storedMemoryScope (mm_scope x) = ''workspace''"
    using stored_scope [OF f(1)] f(2) by blast+
  have st: "mm_status x \<in> {''pending'', ''active'', ''superseded'', ''expired'', ''deleted''}" "mm_status x = ''superseded'' \<longrightarrow> mm_superseded x \<noteq> []"
    "mm_status x \<in> {''pending'', ''active'', ''expired''} \<longrightarrow> mm_superseded x = []" using f(3,9) by auto
  show "record_ok (to_row x)" "record_ok (to_row (stamped E x))" "mm_id y \<noteq> [] \<Longrightarrow> record_ok (rewrite E x y)"
    unfolding record_ok_def to_row_def rewrite_def stamped_def using f(4-8,10) s st by simp_all
  show "record_ok (to_row ((stamped E x)\<lparr>mm_superseded := []\<rparr>))" if "mm_status x = ''active''"
    unfolding record_ok_def to_row_def stamped_def using f(4-8,10) s that by simp
qed

section \<open>Every operation keeps the invariant\<close>

lemma recall_ok_cong: "rd_records db' = rd_records db \<Longrightarrow> rd_workspaces db' = rd_workspaces db \<Longrightarrow> recall_ok db' = recall_ok db"
  by (simp add: recall_ok_def)

lemma update_one_snd: "snd (update_one err P f db) = (if list_ex P (rd_records db) then update_records P f db else db)"
  by (simp add: update_one_def)

lemma recall_okD: "recall_ok db \<Longrightarrow> y \<in> set (rd_records db) \<Longrightarrow> record_ok y"
  by (simp add: recall_ok_def)

lemma rewrite_ok:
  assumes "recall_ok db" and "checked db x"
  shows "recall_ok (snd (update_one err (open_record (mm_id x) (mm_workspace x)) (rewrite E x) db))"
proof -
  have "recall_ok (update_records (open_record (mm_id x) (mm_workspace x)) (rewrite E x) db)"
  proof (rule ok_update [OF assms(1), where i = "mm_id x" and t = "mm_superseded x"])
    fix y assume "y \<in> set (rd_records db)" and o: "open_record (mm_id x) (mm_workspace x) y"
    then have "mm_id y \<noteq> []" using recall_okD [OF assms(1)] by (auto simp: record_ok_def)
    from checked_row(2) [OF assms(2) this] o
    show "record_ok (rewrite E x y) \<and> mm_id (rewrite E x y) = mm_id y \<and> mm_workspace (rewrite E x y) = mm_workspace y
        \<and> (mm_superseded (rewrite E x y) \<in> {[], mm_superseded y} \<or> mm_id y = mm_id x \<and> mm_superseded (rewrite E x y) = mm_superseded x)"
      by (simp add: rewrite_def open_record_def)
  qed (use checked_refs(2) [OF assms(2)] in \<open>auto simp: open_record_def\<close>)
  with assms(1) show ?thesis by (simp add: update_one_snd)
qed

lemma supersede_ok:
  assumes "recall_ok db" and n: "y \<in> set (rd_records db)" "mm_status y = ''active''" "mm_workspace y = w"
  shows "recall_ok (snd (update_one err (open_record old w) (supersede E (mm_id y)) db))"
proof -
  have "mm_id y \<noteq> []" using recall_okD [OF assms(1) n(1)] by (simp add: record_ok_def)
  then have "record_ok (supersede E (mm_id y) x)" if "record_ok x" for x using that by (simp add: record_ok_def supersede_def)
  then have "recall_ok (update_records (open_record old w) (supersede E (mm_id y)) db)"
    by (intro ok_update [OF assms(1), where i = old and t = "mm_id y"])
      (use recall_okD [OF assms(1)] n in \<open>auto simp: supersede_def open_record_def\<close>)
  with assms(1) show ?thesis by (simp add: update_one_snd)
qed

lemma same_refs_ok:
  assumes "recall_ok db" and "\<And>x. record_ok x \<Longrightarrow> P x \<Longrightarrow> record_ok (f x) \<and> mm_id (f x) = mm_id x \<and> mm_workspace (f x) = mm_workspace x
      \<and> mm_superseded (f x) \<in> {[], mm_superseded x}"
  shows "recall_ok (update_records P f db)" "recall_ok (snd (update_one err P f db))"
proof -
  show "recall_ok (update_records P f db)"
    by (rule ok_update [OF assms(1), where i = "[]" and t = "[]"]) (use assms(2) recall_okD [OF assms(1)] in blast)+
  with assms(1) show "recall_ok (snd (update_one err P f db))" by (simp add: update_one_snd)
qed

lemma forget_ok: "recall_ok db \<Longrightarrow> recall_ok (snd (update_one err (live_record i w) (forget E) db))"
  by (erule same_refs_ok) (simp add: record_ok_def forget_def)

lemma revive_ok: "recall_ok db \<Longrightarrow> recall_ok (snd (update_one err (inactive_record i w) (revive E t) db))"
  by (erule same_refs_ok) (simp add: record_ok_def revive_def)

lemma expire_ok: "recall_ok db \<Longrightarrow> recall_ok (expire_due E w db)"
  unfolding expire_due_def by (erule same_refs_ok) (auto simp: record_ok_def MemoryExpired_def)

lemma insert_ok:
  assumes "recall_ok db" and "checked db x" and "insert_record (stamped E x) db = (r, db')"
  shows "recall_ok db'"
proof (cases r)
  case (Inl e)
  then have "db' = db" using assms(3) by (auto simp: insert_record_def split: if_splits)
  then show ?thesis using assms(1) by simp
next
  case (Inr u)
  show ?thesis by (rule ok_insert [OF assms(1) assms(3) [unfolded Inr] checked_row(4) [OF assms(2)]])
      (use checked_refs [OF assms(2)] in \<open>simp_all add: stamped_def\<close>)
qed

lemma insert_record_Inr:
  assumes "insert_record x db = (Inr u, db')"
  shows "db' = db\<lparr>rd_records := rd_records db @ [to_row x]\<rparr>" "\<forall>y \<in> set (rd_records db). mm_id y \<noteq> mm_id x"
  using assms by (auto simp: insert_record_def list_ex_iff split: if_splits)

lemma correct_ok:
  assumes "recall_ok db" and "checked db x" and "mm_status x = ''active''" and "mm_workspace x = w"
    and "insert_record ((stamped E x)\<lparr>mm_superseded := []\<rparr>) db = (Inr u, db1)"
  shows "recall_ok (snd (update_one err (open_record old w) (supersede E (mm_id x)) db1))"
proof -
  let ?y = "to_row ((stamped E x)\<lparr>mm_superseded := []\<rparr>)"
  have "recall_ok db1"
    by (rule ok_insert [OF assms(1,5) checked_row(3) [OF assms(2,3)]]) (use checked_refs(1) [OF assms(2)] in \<open>simp_all add: stamped_def\<close>)
  moreover have "?y \<in> set (rd_records db1)" using insert_record_Inr(1) [OF assms(5)] by simp
  ultimately have "recall_ok (snd (update_one err (open_record old w) (supersede E (mm_id ?y)) db1))"
    by (rule supersede_ok) (use assms(3,4) in \<open>simp_all add: to_row_def stamped_def\<close>)
  then show ?thesis by (simp add: to_row_def stamped_def)
qed

lemma mutate_rows_ok:
  assumes ok: "recall_ok db" and x: "prepare_mutation E m db = Inr x" and "sv_fresh E 0 \<noteq> []" and u: "well_used m db"
    and r: "mutate_rows E m x db = (r, db1)"
  shows "recall_ok db1"
proof -
  consider "mu_operation m = ''commit''" | "mu_operation m = ''update''" | "mu_operation m = ''correct''" | "mu_operation m = ''forget''"
    | "mu_operation m = ''restore''" | "mu_operation m \<notin> {''commit'', ''update'', ''correct'', ''forget'', ''restore''}" by blast
  then show ?thesis
  proof cases
    case 1
    with x have "prepare E (mu_record m) db = Inr x" by (simp add: prepare_mutation_def)
    then have "checked db x" using assms(3) by (rule prepare_checked)
    then show ?thesis using insert_ok [OF ok] r 1 by (auto simp: mutate_rows_def)
  next
    case 2
    with x have "checked db x" by (simp add: prepare_mutation_def prepare_update_checked)
    from rewrite_ok [OF ok this] r 2 show ?thesis by (simp add: mutate_rows_def) (metis snd_conv)
  next
    case 3
    with x have p: "prepare E (mu_record m) db = Inr x" by (simp add: prepare_mutation_def)
    note c = prepare_checked [OF p assms(3)]
    from u 3 c(2,3) have x': "mm_status x = ''active''" "mm_workspace x = mu_workspace m" by (auto simp: well_used_def)
    show ?thesis
    proof (cases "insert_record ((stamped E x)\<lparr>mm_superseded := []\<rparr>) db")
      case (Pair q db2)
      show ?thesis
      proof (cases q)
        case (Inl e)
        then show ?thesis using r 3 Pair ok by (simp add: mutate_rows_def)
      next
        case (Inr v)
        from correct_ok [OF ok c(1) x' Pair [unfolded Inr]] r 3 Pair Inr show ?thesis by (simp add: mutate_rows_def) (metis snd_conv)
      qed
    qed
  next
    case 4
    from forget_ok [OF ok] r 4 show ?thesis by (simp add: mutate_rows_def) (metis snd_conv)
  next
    case 5
    from revive_ok [OF ok] r 5 show ?thesis by (simp add: mutate_rows_def) (metis snd_conv)
  next
    case 6
    with r ok show ?thesis by (simp add: mutate_rows_def)
  qed
qed

lemma mutation_cases:
  obtains (failed) err where "ApplyMemoryMutationEvent E sid turnID typ data m db = (Inl err, db)"
  | (applied) x db1 y st where "prepare_mutation E m db = Inr x" "mutate_rows E m x db = (Inr (), db1)" "known (rd_store db1) sid"
      "readMemoryTx (if mu_operation m = ''forget'' \<or> mu_operation m = ''restore'' then mu_id m else mm_id x) db1 = Inr y"
      "st = append_event E sid turnID typ (json_object E (event_fields E m x data)) (rd_store db1)"
      "ApplyMemoryMutationEvent E sid turnID typ data m db = (Inr y, db1\<lparr>rd_store := st\<rparr>)" "sv_io E = None"
proof (cases "sv_io E")
  case (Some e)
  then show thesis using failed by (simp add: ApplyMemoryMutationEvent_def tx_def)
next
  case None
  show thesis
  proof (cases "prepare_mutation E m db")
    case (Inl e)
    then show thesis using failed None by (simp add: ApplyMemoryMutationEvent_def tx_def)
  next
    case (Inr x)
    obtain r db1 where r: "mutate_rows E m x db = (r, db1)" by force
    show thesis
    proof (cases r)
      case (Inl e)
      then show thesis using failed None \<open>prepare_mutation E m db = Inr x\<close> r by (simp add: ApplyMemoryMutationEvent_def tx_def)
    next
      case inr: (Inr v)
      have read: "readMemoryTx i (db1\<lparr>rd_store := s\<rparr>) = readMemoryTx i db1" for i s by (simp add: readMemoryTx_def find_record_def)
      show thesis
        using failed applied [OF Inr _ _ _ refl] None Inr r inr
        by (cases "known (rd_store db1) sid";
            cases "readMemoryTx (if mu_operation m = ''forget'' \<or> mu_operation m = ''restore'' then mu_id m else mm_id x) db1")
          (simp_all add: ApplyMemoryMutationEvent_def tx_def Let_def read)
    qed
  qed
qed

lemma mutation_ok:
  assumes "recall_ok db" and "sv_fresh E 0 \<noteq> []" and "well_used m db"
  shows "recall_ok (snd (ApplyMemoryMutationEvent E sid turnID typ data m db))"
proof (cases rule: mutation_cases [of E sid turnID "typ" data m db])
  case (failed err)
  with assms(1) show ?thesis by simp
next
  case (applied x db1 y st)
  from mutate_rows_ok [OF assms(1) applied(1) assms(2,3) applied(2)] show ?thesis
    by (simp add: applied(6) recall_ok_cong [of "db1\<lparr>rd_store := st\<rparr>" db1])
qed

lemma commit_ok:
  assumes "recall_ok db" and "sv_fresh E 0 \<noteq> []"
  shows "recall_ok (snd (CommitMemory E x db))"
  unfolding CommitMemory_def
proof (rule tx_keeps [where P = recall_ok, OF assms(1)])
  fix y db'
  assume "(case prepare E x db of Inl err \<Rightarrow> (Inl err, db)
     | Inr x \<Rightarrow> (case insert_record (stamped E x) db of (Inl err, _) \<Rightarrow> (Inl err, db) | (Inr _, db1) \<Rightarrow> (Inr (stamped E x), db1))) = (Inr y, db')"
  then obtain z u where "prepare E x db = Inr z" and "insert_record (stamped E z) db = (Inr u, db')"
    by (auto split: sum.splits prod.splits)
  then show "recall_ok db'" using insert_ok [OF assms(1)] prepare_checked(1) [OF _ assms(2)] by blast
qed

lemma rewritten_ok:
  assumes "recall_ok db"
  shows "recall_ok (snd (UpdateMemory E x db))"
  unfolding UpdateMemory_def
proof (rule tx_keeps [where P = recall_ok, OF assms])
  fix u db'
  assume "(case prepare_update x db of Inl err \<Rightarrow> (Inl err, db)
     | Inr x \<Rightarrow> update_one sql_no_rows (open_record (mm_id x) (mm_workspace x)) (rewrite E x) db) = (Inr u, db')"
  then obtain z where "prepare_update x db = Inr z" "update_one sql_no_rows (open_record (mm_id z) (mm_workspace z)) (rewrite E z) db = (Inr u, db')"
    by (auto split: sum.splits)
  then show "recall_ok db'" using rewrite_ok [OF assms prepare_update_checked] by (metis snd_conv)
qed

lemma superseded_ok: "recall_ok db \<Longrightarrow> recall_ok (snd (SupersedeMemory E w old new db))"
proof -
  assume ok: "recall_ok db"
  have "recall_ok db'" if b: "(case (find_record old db, find_record new db) of
          (None, _) \<Rightarrow> (Inl (not_found_id old), db)
        | (_, None) \<Rightarrow> (Inl (not_found_id new), db)
        | (Some a, Some b) \<Rightarrow>
            if mm_workspace a \<noteq> w \<or> mm_workspace b \<noteq> w then (Inl ''memory supersession must stay within one workspace'', db)
            else if mm_status a = ''deleted'' \<or> mm_status a = ''superseded''
            then (Inl (not_supersedable_by (''source status is '' @ mm_status a)), db)
            else if mm_status b \<noteq> ''active'' then (Inl (not_supersedable_by (''replacement status is '' @ mm_status b)), db)
            else update_one not_supersedable (open_record old w) (supersede E new) db) = (Inr u, db')" for u db'
  proof -
    from b obtain y where y: "find_record new db = Some y" "mm_workspace y = w" "mm_status y = ''active''"
      "update_one not_supersedable (open_record old w) (supersede E new) db = (Inr u, db')"
      by (auto split: option.splits if_splits)
    with find_record_set [OF y(1)] supersede_ok [OF ok _ y(3,2), of not_supersedable old E] show ?thesis by (metis snd_conv)
  qed
  then show ?thesis unfolding SupersedeMemory_def using ok by (auto intro!: tx_keeps [where P = recall_ok])
qed

lemma forgotten_ok: "recall_ok db \<Longrightarrow> recall_ok (snd (ForgetMemory E w i db))"
  unfolding ForgetMemory_def by (rule tx_keeps [where P = recall_ok], assumption) (metis forget_ok snd_conv)

lemma listed_ok: "recall_ok db \<Longrightarrow> recall_ok (snd (ListMemory E f db))"
  by (auto simp: ListMemory_def Let_def intro!: tx_keeps [where P = recall_ok] expire_ok)

lemma ensure_ok: "recall_ok db \<Longrightarrow> recall_ok (snd (EnsureWorkspace E key db))"
proof -
  assume ok: "recall_ok db"
  have "recall_ok (db\<lparr>rd_workspaces := rd_workspaces db @ [w]\<rparr>)"
    if "\<forall>v \<in> set (rd_workspaces db). wr_id v \<noteq> wr_id w" "\<forall>v. v \<in> set (rd_workspaces db) \<longrightarrow> wr_key v \<noteq> wr_key w" for w
    using ok that by (auto simp: recall_ok_def refs_ok_def)
  from this [of "\<lparr>wr_id = sv_fresh E 0, wr_key = key, wr_created = sv_now E, wr_updated = sv_now E\<rparr>"] show ?thesis
    using ok unfolding EnsureWorkspace_def
    by (auto intro!: tx_keeps [where P = recall_ok] simp: Let_def list_ex_iff find_None_iff image_iff split: option.splits if_splits)
qed

lemma side_ok:
  "recall_ok (snd (ObserveMemory E i sid db)) = recall_ok db" "recall_ok (snd (AdvanceMemoryWatermark E sid seq db)) = recall_ok db"
  by (rule recall_ok_cong; auto simp: ObserveMemory_def AdvanceMemoryWatermark_def tx_def Let_def split: option.split)+

lemma memory_step_ok: "memory_step l db db' \<Longrightarrow> recall_ok db \<Longrightarrow> recall_ok db'"
proof (induction rule: memory_step.induct)
  case (conversation l db st)
  then show ?case by (subst recall_ok_cong [of _ db]) simp_all
qed (simp_all add: ensure_ok commit_ok rewritten_ok superseded_ok forgotten_ok listed_ok mutation_ok side_ok)

section \<open>Tombstones\<close>

definition tombstones_kept :: "string option \<Rightarrow> recall_db \<Rightarrow> recall_db \<Rightarrow> bool" where
  "tombstones_kept l db db' \<longleftrightarrow> (\<forall>x \<in> set (rd_records db). mm_status x = ''deleted'' \<and> l \<noteq> Some (mm_id x) \<longrightarrow> x \<in> set (rd_records db'))"

lemma kept_refl [simp]: "tombstones_kept l db db"
  by (simp add: tombstones_kept_def)

lemma kept_same: "rd_records db' = rd_records db \<Longrightarrow> tombstones_kept l db db'"
  by (simp add: tombstones_kept_def)

lemma kept_update:
  assumes "\<And>x. P x \<Longrightarrow> mm_status x = ''deleted'' \<Longrightarrow> l = Some (mm_id x)"
  shows "tombstones_kept l db (update_records P f db)" "tombstones_kept l db (snd (update_one err P f db))"
proof -
  show "tombstones_kept l db (update_records P f db)"
    using assms by (fastforce simp: tombstones_kept_def update_records_def)
  then show "tombstones_kept l db (snd (update_one err P f db))" by (simp add: update_one_snd)
qed

lemma kept_insert: "tombstones_kept l db (snd (insert_record x db))"
  by (simp add: insert_record_def tombstones_kept_def)

lemma tx_kept: "(\<And>x db'. body db = (Inr x, db') \<Longrightarrow> tombstones_kept l db db') \<Longrightarrow> tombstones_kept l db (snd (tx E body db))"
  by (rule tx_keeps [where P = "tombstones_kept l db"]) simp_all

lemma kept_one:
  "update_one err (open_record i w) f db = (r, db') \<Longrightarrow> tombstones_kept l db db'"
  "update_one err (live_record i w) f db = (r, db') \<Longrightarrow> tombstones_kept l db db'"
  "update_one err (inactive_record i w) f db = (r, db') \<Longrightarrow> tombstones_kept (Some i) db db'"
proof -
  have "tombstones_kept l db (snd (update_one err (open_record i w) f db))" "tombstones_kept l db (snd (update_one err (live_record i w) f db))"
    "tombstones_kept (Some i) db (snd (update_one err (inactive_record i w) f db))"
    by (rule kept_update(2); simp add: open_record_def live_record_def inactive_record_def)+
  then show "update_one err (open_record i w) f db = (r, db') \<Longrightarrow> tombstones_kept l db db'"
    "update_one err (live_record i w) f db = (r, db') \<Longrightarrow> tombstones_kept l db db'"
    "update_one err (inactive_record i w) f db = (r, db') \<Longrightarrow> tombstones_kept (Some i) db db'" by simp_all
qed

lemma mutate_rows_kept:
  assumes "mutate_rows E m x db = (r, db1)"
  shows "tombstones_kept (restored_id m) db db1"
proof -
  have ins: "tombstones_kept l db db1" if "insert_record y db = (q, b)" "update_one err (open_record i w) f b = (r, db1)" for l err i w f y q b
    using kept_insert [of l db y] kept_one(1) [OF that(2), of l] that(1) by (simp add: tombstones_kept_def)
  show ?thesis
    using assms kept_insert [of None db "stamped E x"]
    by (auto simp: mutate_rows_def restored_id_def dest: kept_one intro: ins split: prod.splits sum.splits if_splits)
qed

lemma step_keeps_tombstones: "memory_step l db db' \<Longrightarrow> tombstones_kept l db db'"
proof (induction rule: memory_step.induct)
  case (mutation E m db sid turnID evt data)
  show ?case
  proof (cases rule: mutation_cases [of E sid turnID evt data m db])
    case (applied x db1 y st)
    from mutate_rows_kept [OF applied(2)] show ?thesis by (simp add: applied(6) tombstones_kept_def)
  qed simp
next
  case (commit E db x)
  show ?case unfolding CommitMemory_def
    by (rule tx_kept) (auto split: sum.splits prod.splits dest!: insert_record_Inr(1) simp: tombstones_kept_def)
next
  case (rewritten db E x)
  show ?case unfolding UpdateMemory_def by (rule tx_kept) (auto split: sum.splits dest: kept_one)
next
  case (superseded db E w old new)
  show ?case unfolding SupersedeMemory_def by (auto intro!: tx_kept split: option.splits if_splits dest: kept_one)
next
  case (forgotten db E w i)
  show ?case unfolding ForgetMemory_def by (rule tx_kept) (rule kept_one)
next
  case (listed db E f)
  have "tombstones_kept None db (expire_due E w db)" for w unfolding expire_due_def by (rule kept_update) (simp add: MemoryExpired_def)
  then show ?case by (auto simp: ListMemory_def Let_def intro!: tx_kept)
qed (rule kept_same; auto simp: EnsureWorkspace_def ObserveMemory_def AdvanceMemoryWatermark_def tx_def Let_def split: option.split)+

end
