(* ===== verification/Recall_Runs.thy ===== *)
theory Recall_Runs
  imports Recall_Inv
begin

text \<open>
  Everything the engine does to memory is a run of the store's steps: the memory tool, the operator's
  actions, turn boundaries, extraction and the startup sweep. Only an operator restores a record.
\<close>

section \<open>Runs\<close>

text \<open>Runs in which only the given records may be restored.\<close>

definition memory_run :: "string set \<Rightarrow> recall_db \<Rightarrow> recall_db \<Rightarrow> bool" where
  "memory_run S = (\<lambda>a b. \<exists>l. memory_step l a b \<and> (\<forall>i. l = Some i \<longrightarrow> i \<in> S))\<^sup>*\<^sup>*"

named_theorems run_intros

lemma run_refl [simp, run_intros]: "memory_run S db db"
  by (simp add: memory_run_def)

lemma run_step: "memory_step l a b \<Longrightarrow> (\<And>i. l = Some i \<Longrightarrow> i \<in> S) \<Longrightarrow> memory_run S a b"
  unfolding memory_run_def by (rule r_into_rtranclp) blast

lemma run_trans [trans]: "memory_run S a b \<Longrightarrow> memory_run S b c \<Longrightarrow> memory_run S a c"
  unfolding memory_run_def by (rule rtranclp_trans)

lemma run_mono: "memory_run S a b \<Longrightarrow> S \<subseteq> T \<Longrightarrow> memory_run T a b"
  unfolding memory_run_def by (induction rule: rtranclp_induct) (blast intro: rtranclp.rtrancl_into_rtrancl)+

lemma run_ok: "memory_run S a b \<Longrightarrow> recall_ok a \<Longrightarrow> recall_ok b"
  unfolding memory_run_def by (induction rule: rtranclp_induct) (auto intro: memory_step_ok)

lemma run_tombstone:
  assumes "memory_run S a b" and "x \<in> set (rd_records a)" and "mm_status x = ''deleted''" and "mm_id x \<notin> S"
  shows "x \<in> set (rd_records b)"
  using assms(1) unfolding memory_run_def
  by (induction rule: rtranclp_induct) (use assms(2-4) step_keeps_tombstones in \<open>unfold tombstones_kept_def, blast+\<close>)

lemma steps_run [run_intros]:
  "memory_run S db (snd (EnsureWorkspace E key db))" "memory_run S db (snd (UpdateMemory E x db))"
  "memory_run S db (snd (ForgetMemory E w i db))" "memory_run S db (snd (ListMemory E f db))" "memory_run S db (snd (ObserveMemory E i sid db))"
  by (rule run_step, (rule memory_step.intros), simp)+

lemma store_run [run_intros]:
  "memory_run S db (db\<lparr>rd_store := snd (AddEventForTurn E sid turnID evt data (rd_store db))\<rparr>)"
  "memory_run S db (db\<lparr>rd_store := snd (AddMessage E sid role content (rd_store db))\<rparr>)"
proof -
  have "memory_step None db (db\<lparr>rd_store := st\<rparr>)" if "store_step None (rd_store db) st" for st
    using memory_step.conversation [OF that] by simp
  then show "memory_run S db (db\<lparr>rd_store := snd (AddEventForTurn E sid turnID evt data (rd_store db))\<rparr>)"
    "memory_run S db (db\<lparr>rd_store := snd (AddMessage E sid role content (rd_store db))\<rparr>)"
    by (auto intro!: run_step [of None] event message)
qed

lemma mutation_run:
  assumes "sv_fresh E 0 \<noteq> []" and "well_used m db" and "mu_operation m = ''restore'' \<Longrightarrow> mu_id m \<in> S"
  shows "memory_run S db (snd (ApplyMemoryMutationEvent E sid turnID evt data m db))"
  by (rule run_step [OF memory_step.mutation [OF assms(1,2)]]) (use assms(3) in \<open>auto simp: restored_id_def split: if_splits\<close>)

section \<open>Listings\<close>

lemma ListMemory_Inr:
  assumes "ListMemory E f db = (Inr rs, db1)"
  shows "db1 = expire_due E (mf_workspace f) db"
    and "\<And>r. r \<in> set rs \<longleftrightarrow> (\<exists>x \<in> set (rd_records db1). r = from_row x \<and> selected E f x)"
  using assms by (auto simp: ListMemory_def tx_def Let_def split: if_splits option.splits)

lemma from_row_id [simp]: "mm_id (from_row x) = mm_id x" "mm_status (from_row x) = mm_status x" "mm_workspace (from_row x) = mm_workspace x" "mm_text (from_row x) = mm_text x"
  by (simp_all add: from_row_def)

lemma listed_found: "ListMemory E f db = (Inr rs, db1) \<Longrightarrow> r \<in> set rs \<Longrightarrow> find_record (mm_id r) db1 \<noteq> None"
  using ListMemory_Inr(2) [of E f db rs db1 r] by (auto simp: find_record_def find_None_iff)

lemma plain_use [simp]: "mu_operation m \<noteq> ''correct'' \<Longrightarrow> well_used m db"
  by (simp add: well_used_def)

text \<open>What is assumed of the runtime: the visited entries of a map are among its entries, and identifiers are not empty.\<close>

definition extract_env_ok :: "extract_env \<Rightarrow> bool" where
  "extract_env_ok X \<longleftrightarrow> (\<forall>l. set (xe_visit X l) \<subseteq> set l) \<and> (\<forall>n. sv_fresh (re_store (xe_recall X)) n \<noteq> [])"

lemma candidate_use:
  assumes "extract_env_ok X" and "candidate_record X sid w c score records = (operation, evt, oldID, x)"
    and "\<And>r. r \<in> set records \<Longrightarrow> find_record (mm_id r) db \<noteq> None"
  shows "well_used (blank_mutation\<lparr>mu_operation := operation, mu_workspace := wr_id w, mu_old := oldID, mu_record := x\<rparr>) db" and "operation \<noteq> ''restore''"
proof -
  have "find_record oldID db \<noteq> None" if "conflictingMemory X c records = Some old" "oldID = mm_id old" for old
  proof -
    let ?cands = "take 5 (filter (\<lambda>r. mm_status r = ''active'' \<and> mm_kind r = mc_kind c) records)"
    have "\<exists>P. List.find P (xe_visit X ?cands) = Some old"
      using that(1) unfolding conflictingMemory_def Let_def by (auto split: if_splits option.splits)
    then have "old \<in> set (xe_visit X ?cands)" by (auto simp: find_Some_iff)
    then have "old \<in> set ?cands" using assms(1) unfolding extract_env_ok_def by blast
    then have "old \<in> set records" using set_take_subset by fastforce
    then show ?thesis using assms(3) that(2) by simp
  qed
  then show "well_used (blank_mutation\<lparr>mu_operation := operation, mu_workspace := wr_id w, mu_old := oldID, mu_record := x\<rparr>) db" "operation \<noteq> ''restore''"
    using assms(2) by (auto simp: candidate_record_def well_used_def blank_record_def blank_mutation_def Let_def split: list.splits option.splits if_splits)
qed

lemma later_ok: "extract_env_ok X \<Longrightarrow> extract_env_ok (X\<lparr>xe_recall := later n (xe_recall X)\<rparr>)"
  by (simp add: extract_env_ok_def later_def)

lemma epochs_db [simp]: "rs_db (invalidateMemoryWorkspace w s) = rs_db s" "rs_db (storeMemoryEpoch sid ep s) = rs_db s" "rs_db (setCacheBoundary sid s) = rs_db s"
  by (simp_all add: invalidateMemoryWorkspace_def storeMemoryEpoch_def setCacheBoundary_def)

section \<open>What a change of memory keeps\<close>

text \<open>
  A relation between the tables before and after that every change of memory respects: the operations of the store
  that extraction and the memory tool are made of, and the events they write.
\<close>

locale memory_ops =
  fixes rel :: "recall_db \<Rightarrow> recall_db \<Rightarrow> bool"
  assumes refl [simp]: "rel db db"
    and trans: "rel a b \<Longrightarrow> rel b c \<Longrightarrow> rel a c"
    and ensure: "rel db (snd (EnsureWorkspace E key db))"
    and update: "rel db (snd (UpdateMemory E x db))"
    and forget: "rel db (snd (ForgetMemory E w i db))"
    and listing: "rel db (snd (ListMemory E f db))"
    and observe: "rel db (snd (ObserveMemory E i sid db))"
    and event: "rel db (db\<lparr>rd_store := snd (AddEventForTurn E sid turnID evt data (rd_store db))\<rparr>)"
    and mutation: "sv_fresh E 0 \<noteq> [] \<Longrightarrow> well_used m db \<Longrightarrow> mu_operation m \<noteq> ''restore'' \<Longrightarrow>
      rel db (snd (ApplyMemoryMutationEvent E sid turnID evt kvs m db))"
begin

lemma listing_rel: "ListMemory E f db = (r, db1) \<Longrightarrow> rel db db1"
  using listing [of db E f] by simp

lemma ensure_rel: "ensureMemoryWorkspace R path db = (w, db1) \<Longrightarrow> rel db db1"
  using ensure [of db "re_store R" "workspaceIdentityKey R path"]
  by (auto simp: ensureMemoryWorkspace_def split: prod.splits sum.splits)

lemma emit_rel: "rel (rs_db s) (rs_db (emit R sid evt data s))" "rel (rs_db s) (rs_db (emitMemoryRetrieved R sid sel b c d s))"
  by (simp_all add: emit_def emitMemoryRetrieved_def Let_def event)

lemma apply_event_rel:
  "sv_fresh (re_store R) 0 \<noteq> [] \<Longrightarrow> well_used m db \<Longrightarrow> mu_operation m \<noteq> ''restore'' \<Longrightarrow> rel db (snd (apply_event R sid evt data m db))"
  unfolding apply_event_def by (rule mutation) simp_all

lemma retriage_one_rel:
  assumes "extract_env_ok X"
  shows "rel (snd cs) (snd (retriage_one X sid w d x cs))"
proof -
  have f: "sv_fresh (re_store (xe_recall X)) 0 \<noteq> []" using assms by (simp add: extract_env_ok_def)
  have two: "rel db (snd (ForgetMemory E w i (snd (UpdateMemory E y db))))" for db E i y
    using update forget by (blast intro: trans)
  show ?thesis
    by (auto simp: retriage_one_def Let_def note_change_def blank_mutation_def split: option.split intro!: update two apply_event_rel [OF f])
qed

lemma fold_rel:
  assumes step: "\<And>x cs. rel (g cs) (g (f x cs))"
  shows "rel (g cs) (g (fold f xs cs))"
proof (induction xs arbitrary: cs)
  case (Cons x xs)
  show ?case using trans [OF step Cons.IH] by simp
qed simp

lemma retriage_rel:
  assumes "extract_env_ok X"
  shows "rel (rs_db s) (rs_db (retriagePendingMemory X sid w d s))"
proof -
  obtain q db where l: "ListMemory (re_store (xe_recall X)) ((all_of w)\<lparr>mf_status := ''pending''\<rparr>) (rs_db s) = (q, db)" by force
  have "rel db (snd (fold (retriage_one X sid w d) xs (False, db)))" for xs
    using fold_rel [of snd "retriage_one X sid w d" "(False, db)" xs] retriage_one_rel [OF assms] by simp
  with listing_rel [OF l] show ?thesis
    by (auto simp: retriagePendingMemory_def l split: sum.split prod.split) (metis trans snd_conv)+
qed

lemma persist_one_rel:
  assumes "extract_env_ok X"
  shows "rel (rs_db s) (rs_db (snd (persist_one X sid w refs c0 s)))"
proof -
  let ?R = "xe_recall X" and ?E = "re_store (xe_recall X)"
  have f: "sv_fresh ?E 0 \<noteq> []" using assms by (simp add: extract_env_ok_def)
  obtain q db where l: "ListMemory ?E ((all_of (wr_id w))\<lparr>mf_expired := True, mf_deleted := True\<rparr>) (rs_db s) = (q, db)" by force
  note r = listing_rel [OF l]
  have r1: "rel (rs_db s) db1"
    if "q = Inr records" "candidate_record X sid w c score records = (operation, evt, oldID, x)"
      "apply_event ?R sid evt data (blank_mutation\<lparr>mu_operation := operation, mu_workspace := wr_id w, mu_old := oldID, mu_record := x\<rparr>) db = (y, db1)"
    for records c score operation evt oldID x data y db1
  proof -
    have "well_used (blank_mutation\<lparr>mu_operation := operation, mu_workspace := wr_id w, mu_old := oldID, mu_record := x\<rparr>) db" "operation \<noteq> ''restore''"
      by (rule candidate_use [OF assms that(2) listed_found [OF l [unfolded that(1)]]]; assumption)+
    from apply_event_rel [OF f this(1), of sid evt data] this(2) that(3) r show ?thesis by (auto intro: trans)
  qed
  have r2: "rel (rs_db s) db2"
    if "q = Inr records" "candidate_record X sid w c score records = (operation, evt, oldID, x)"
      "apply_event ?R sid evt data (blank_mutation\<lparr>mu_operation := operation, mu_workspace := wr_id w, mu_old := oldID, mu_record := x\<rparr>) db = (y, db1)"
      "ObserveMemory ?E k sid db1 = (z, db2)"
    for records c score operation evt oldID x data y db1 k z db2
    using r1 [OF that(1-3)] observe [of db1 ?E k sid] that(4) by (auto intro: trans)
  have r3: "rel (rs_db s) (rs_db (emit ?R sid evt data (invalidateMemoryWorkspace v (s\<lparr>rs_db := db2\<rparr>))))" if "rel (rs_db s) db2" for evt data v db2
    using that emit_rel(1) [of "invalidateMemoryWorkspace v (s\<lparr>rs_db := db2\<rparr>)"] by (auto intro: trans)
  show ?thesis unfolding persist_one_def Let_def l
    by (auto split: sum.splits prod.splits intro!: r3 intro: r r1 r2)
qed

lemma persist_all_rel: "extract_env_ok X \<Longrightarrow> rel (rs_db s) (rs_db (snd (persist_all X sid w refs n cs s)))"
proof (induction cs arbitrary: n s)
  case (Cons c cs)
  obtain q s1 where p: "persist_one (X\<lparr>xe_recall := later n (xe_recall X)\<rparr>) sid w refs c s = (q, s1)" by force
  with persist_one_rel [OF later_ok [OF Cons.prems], of s n sid w refs c] have "rel (rs_db s) (rs_db s1)" by simp
  with Cons.IH [OF Cons.prems, of s1 "Suc n"] p show ?case by (cases q) (auto intro: trans)
qed simp

lemma persist_rel:
  assumes "extract_env_ok X"
  shows "rel (rs_db s) (rs_db (snd (persistMemoryCandidates X sid path cs refs s)))"
proof -
  obtain w db where w: "ensureMemoryWorkspace (xe_recall X) path (rs_db s) = (w, db)" by force
  note r = ensure_rel [OF w]
  show ?thesis
  proof (cases w)
    case None
    then show ?thesis using r w by (simp add: persistMemoryCandidates_def)
  next
    case (Some v)
    have "rel db (rs_db (snd (persist_all X sid v refs 1 cs (retriagePendingMemory X sid (wr_id v) False (s\<lparr>rs_db := db\<rparr>)))))"
      using retriage_rel [OF assms, of "s\<lparr>rs_db := db\<rparr>" sid "wr_id v" False] persist_all_rel [OF assms] by (auto intro: trans)
    with r have "rel (rs_db s) (rs_db (snd (persist_all X sid v refs 1 cs (retriagePendingMemory X sid (wr_id v) False (s\<lparr>rs_db := db\<rparr>)))))"
      by (rule trans)
    then show ?thesis using r w Some by (simp add: persistMemoryCandidates_def)
  qed
qed

end

interpretation mr: memory_ops "memory_run S" for S
  by unfold_locales (simp, erule (1) run_trans, (rule steps_run store_run)+, rule mutation_run, simp_all)

lemmas ListMemory_run = mr.listing_rel
lemmas ensure_run = mr.ensure_rel
lemmas emit_run = mr.emit_rel
lemmas fold_run = mr.fold_rel
lemmas retriage_run = mr.retriage_rel
lemmas persist_run = mr.persist_rel

section \<open>The engine's operations\<close>

lemma recall_run: "recallMemory E w scopes db = (r, db1) \<Longrightarrow> memory_run S db db1"
  by (auto simp: recallMemory_def split: prod.splits sum.splits intro: ListMemory_run)

lemma select_run: "selectMemory R sid w query phase db = (r, db1) \<Longrightarrow> memory_run S db db1"
  by (auto simp: selectMemory_def Let_def split: option.splits prod.splits sum.splits intro: ListMemory_run recall_run)

lemma updates_run: "memoryUpdates R sid ep db = (r, db1) \<Longrightarrow> memory_run S db db1"
  by (auto simp: memoryUpdates_def Let_def split: prod.splits sum.splits if_splits intro: ListMemory_run)

lemma reuse_run: "memory_run S (rs_db s) (rs_db (reuseMemory R sid ep phase reason s))"
proof -
  define s1 where "s1 = (if ep_phase ep \<noteq> phase
      then emitMemoryRetrieved R sid \<lparr>sl_records = ep_records ep, sl_ranks = ep_ranks ep, sl_source = ep_source ep, sl_fallback = False\<rparr> (ep_boundary ep) ''reused'' reason s
      else s)"
  have s1: "memory_run S (rs_db s) (rs_db s1)" by (simp add: s1_def emit_run)
  obtain msg changes ep3 db1 where u: "memoryUpdates R sid (ep\<lparr>ep_phase := phase, ep_stale := False\<rparr>) (rs_db s1) = ((msg, changes, ep3), db1)"
    by (metis prod.collapse)
  from updates_run [OF u] s1 have db1: "memory_run S (rs_db s) db1" by (blast intro: run_trans)
  obtain r st where m: "AddMessage (re_store R) sid ''user'' (harness_message (re_store R) msg) (rd_store db1) = (r, st)" by force
  with store_run(2) [of S db1 "re_store R" sid "''user''" "harness_message (re_store R) msg"] db1
  have st: "memory_run S (rs_db s) (db1\<lparr>rd_store := st\<rparr>)" by (auto intro: run_trans)
  have "memory_run S (rs_db s) (rs_db (emit R sid evt data (x\<lparr>rs_db := db1\<lparr>rd_store := st\<rparr>\<rparr>)))" for x evt data
    using emit_run(1) [of S "x\<lparr>rs_db := db1\<lparr>rd_store := st\<rparr>\<rparr>" R sid evt data] st by (auto intro: run_trans)
  then show ?thesis using s1 db1 u m unfolding reuseMemory_def s1_def [symmetric] Let_def
    by (cases r) (auto split: if_splits)
qed

lemma refresh_run: "memory_run S (rs_db s) (rs_db (refreshMemory R sid path query phase reason turn s))"
proof -
  have e: "memory_run S (rs_db s) (rs_db (emitMemoryRetrieved R sid sel b c d x))" if "memory_run S (rs_db s) (rs_db x)" for sel b c d x
    using that emit_run(2) by (blast intro: run_trans)
  show ?thesis
  proof (cases "rs_epochs s sid")
    case None
    obtain w db1 where w: "ensureMemoryWorkspace R (if TrimSpace path = [] then re_root R else path) (rs_db s) = (w, db1)" by force
    note r1 = ensure_run [OF w, of S]
    show ?thesis
    proof (cases w)
      case none: None
      then show ?thesis using e [of "s\<lparr>rs_db := db1\<rparr>"] r1 None w by (simp add: refreshMemory_def Let_def)
    next
      case (Some v)
      obtain r db2 where r: "selectMemory R sid (wr_id v) query phase db1 = (r, db2)" by force
      have r2: "memory_run S (rs_db s) db2" using r1 select_run [OF r] by (blast intro: run_trans)
      show ?thesis
      proof (cases r)
        case (Inl x)
        then show ?thesis using e [of "s\<lparr>rs_db := db2\<rparr>"] r2 None w Some r by (simp add: refreshMemory_def Let_def)
      next
        case (Inr x)
        then show ?thesis using r2 None w Some r by (simp add: refreshMemory_def Let_def e)
      qed
    qed
  qed (simp add: refreshMemory_def reuse_run)
qed

section \<open>The memory tool and the operator\<close>

lemma findMutable_Inr:
  assumes "findMutable R w i db = (Inr x, db1)"
  shows "memory_run S db db1" and "find_record (mm_id x) db1 \<noteq> None" and "mm_id x = i"
proof -
  from assms obtain rs where rs: "ListMemory (re_store R) ((all_of w)\<lparr>mf_expired := True\<rparr>) db = (Inr rs, db1)" "List.find (\<lambda>x. mm_id x = i) rs = Some x"
    unfolding findMutable_def unexpired_list_def by (auto split: prod.splits sum.splits option.splits if_splits)
  then have "x \<in> set rs" and i: "mm_id x = i" by (auto simp: find_Some_iff)
  show "memory_run S db db1" using rs(1) by (rule ListMemory_run)
  show "find_record (mm_id x) db1 \<noteq> None" using rs(1) \<open>x \<in> set rs\<close> by (rule listed_found)
  show "mm_id x = i" by (rule i)
qed

lemma findMutable_run: "findMutable R w i db = (r, db1) \<Longrightarrow> memory_run S db db1"
  unfolding findMutable_def unexpired_list_def
  by (auto split: prod.splits sum.splits option.splits if_splits intro: ListMemory_run)

lemma control_mutate_run:
  assumes "memory_run S db0 db" and "sv_fresh (re_store R) 0 \<noteq> []" and "well_used m db" and "mu_operation m \<noteq> ''restore''"
  shows "memory_run S db0 (rs_db (snd (control_mutate R sid w evt data m a s db)))"
  using assms(1) mutation_run [OF assms(2,3), of S sid "re_turn R" evt "data @ [(''version'', ''1'')]"] assms(4)
  by (auto simp: control_mutate_def split: prod.splits sum.splits intro: run_trans)

lemma correction_use: "find_record (mm_id old) db \<noteq> None \<Longrightarrow> well_used (correction R w sid origin t old) db"
  by (simp add: well_used_def correction_def blank_mutation_def blank_record_def)

lemma control_run:
  assumes "sv_fresh (re_store R) 0 \<noteq> []"
  shows "memory_run S (rs_db s) (rs_db (snd (controlMemory R sid path action args s)))"
proof -
  obtain w db where w: "ensureMemoryWorkspace R (if TrimSpace path = [] then re_root R else path) (rs_db s) = (w, db)" by force
  note r = ensure_run [OF w, of S]
  have fm: "memory_run S (rs_db s) db1" if "findMutable R v i db = (q, db1)" for v i q db1
    using r findMutable_run [OF that] by (blast intro: run_trans)
  have li: "memory_run S (rs_db s) db1" if "ListMemory E f db = (q, db1)" for E f q db1
    using r ListMemory_run [OF that] by (blast intro: run_trans)
  have "memory_run S (rs_db s) (rs_db (snd (propose R sid v args s db)))" for v
    using r by (auto simp: propose_def Let_def split: sum.splits intro!: control_mutate_run [OF _ assms] simp: blank_mutation_def)
  moreover have "memory_run S (rs_db s) (rs_db (snd (confirm R sid v args s db)))" for v
    using r by (auto simp: confirm_def Let_def split: sum.splits prod.splits intro!: control_mutate_run [OF _ assms] simp: blank_mutation_def intro: fm)
  moreover have "memory_run S (rs_db s) (rs_db (snd (correct_memory R sid v args s db)))" for v
    using r findMutable_Inr(2)
    by (auto simp: correct_memory_def Let_def split: sum.splits prod.splits intro!: control_mutate_run [OF _ assms] correction_use intro: fm)
      (simp add: correction_def blank_mutation_def)
  moreover have "memory_run S (rs_db s) (rs_db (snd (forget_memory R sid v args s db)))" for v
    using r by (auto simp: forget_memory_def Let_def split: sum.splits intro!: control_mutate_run [OF _ assms] simp: blank_mutation_def)
  ultimately have acts: "memory_run S (rs_db s) (rs_db (snd (propose R sid v args s db)))" "memory_run S (rs_db s) (rs_db (snd (confirm R sid v args s db)))"
    "memory_run S (rs_db s) (rs_db (snd (correct_memory R sid v args s db)))" "memory_run S (rs_db s) (rs_db (snd (forget_memory R sid v args s db)))" for v
    by blast+
  show ?thesis
  proof (cases w)
    case None
    then show ?thesis using r w by (simp add: controlMemory_def)
  next
    case (Some v)
    obtain q db1 where l: "unexpired_list R (wr_id v) db = (q, db1)" by force
    then have "memory_run S (rs_db s) db1" unfolding unexpired_list_def by (rule li)
    with acts [of v] r l show ?thesis by (cases q) (simp_all add: controlMemory_def w Some)
  qed
qed

lemma admin_action_use:
  assumes "admin_action R w action t x = Inr (evt, to_status, m)" and "find_record (mm_id x) db \<noteq> None"
  shows "well_used m db" and "mu_operation m = ''restore'' \<Longrightarrow> action = ''restore'' \<and> mu_id m = mm_id x"
proof -
  note d = admin_action_def correction_def blank_mutation_def
  show "mu_operation m = ''restore'' \<Longrightarrow> action = ''restore'' \<and> mu_id m = mm_id x"
    using assms(1) by (auto simp: d Let_def split: if_splits)
  show "well_used m db"
  proof (cases "mu_operation m = ''correct''")
    case True
    then have "m = correction R w (mm_session x) (mm_origin x) (TrimSpace t) x" using assms(1) by (auto simp: admin_action_def blank_mutation_def Let_def split: if_splits)
    with assms(2) show ?thesis by (simp add: correction_use)
  qed simp
qed

lemma admin_run:
  assumes "sv_fresh (re_store R) 0 \<noteq> []" and "action = ''restore'' \<Longrightarrow> i \<in> S"
  shows "memory_run S (rs_db s) (rs_db (snd (AdminMemory R path i action t actor reason s)))"
proof (cases "TrimSpace actor = [] \<or> TrimSpace reason = []")
  case True
  then show ?thesis by (simp add: AdminMemory_def)
next
  case False
  obtain w db where w: "ensureMemoryWorkspace R (if TrimSpace path = [] then re_root R else path) (rs_db s) = (w, db)" by force
  note r = ensure_run [OF w, of S]
  show ?thesis
  proof (cases w)
    case None
    then show ?thesis using False r w by (simp add: AdminMemory_def Let_def)
  next
    case (Some v)
    obtain q db1 where l: "ListMemory (re_store R) ((all_of (wr_id v))\<lparr>mf_expired := True, mf_deleted := True\<rparr>) db = (q, db1)" by force
    have r1: "memory_run S (rs_db s) db1" using r ListMemory_run [OF l] by (blast intro: run_trans)
    have go: "memory_run S (rs_db s) db2"
      if "q = Inr rs" "List.find (\<lambda>x. mm_id x = i) rs = Some x" "admin_action R (wr_id v) action t x = Inr (evt, to_status, m)"
        "ApplyMemoryMutationEvent (re_store R) (mm_session x) [] evt data m db1 = (y, db2)" for rs x evt to_status m data y db2
    proof -
      have x: "x \<in> set rs" "mm_id x = i" using that(2) by (auto simp: find_Some_iff)
      note u = admin_action_use [OF that(3) listed_found [OF l [unfolded that(1)] x(1)]]
      have "mu_operation m = ''restore'' \<Longrightarrow> mu_id m \<in> S" using u(2) x(2) assms(2) by simp
      from mutation_run [OF assms(1) u(1) this, of "mm_session x" "[]" evt data] that(4) r1 show ?thesis by (auto intro: run_trans)
    qed
    show ?thesis
      using False w Some l r1 by (auto simp: AdminMemory_def Let_def split: sum.splits option.splits prod.splits intro: go)
  qed
qed

section \<open>The sweep at startup\<close>

lemma cleanup_run:
  assumes "extract_env_ok X"
  shows "memory_run S (rs_db s) (rs_db (cleanupPendingMemory X s))"
proof -
  have one: "memory_run S (rs_db s) (rs_db (cleanup_one X w s))" for w s
  proof -
    let ?E = "re_store (xe_recall X)"
    obtain q db where l: "ListMemory ?E ((all_of (fst w))\<lparr>mf_status := ''pending''\<rparr>) (rs_db s) = (q, db)" by force
    have "memory_run S db (fold (\<lambda>x db. snd (ForgetMemory ?E (fst w) (mm_id x) db)) xs db)" for xs
      by (rule fold_run [where g = "\<lambda>x. x"]) (rule steps_run)
    with ListMemory_run [OF l, of S] have "memory_run S (rs_db s) (fold (\<lambda>x db. snd (ForgetMemory ?E (fst w) (mm_id x) db)) xs db)" for xs
      by (blast intro: run_trans)
    then show ?thesis using ListMemory_run [OF l, of S] retriage_run [OF assms] l
      by (cases w; cases q) (auto simp: cleanup_one_def Let_def)
  qed
  then show ?thesis unfolding cleanupPendingMemory_def using fold_run [of S rs_db "cleanup_one X"] by simp
qed

section \<open>The engine as a transition system\<close>

inductive recall_step :: "string set \<Rightarrow> recall_state \<Rightarrow> recall_state \<Rightarrow> bool" for S where
  tool: "sv_fresh (re_store R) 0 \<noteq> [] \<Longrightarrow> recall_step S s (snd (controlMemory R sid path action args s))"
| operator: "sv_fresh (re_store R) 0 \<noteq> [] \<Longrightarrow> (action = ''restore'' \<Longrightarrow> i \<in> S) \<Longrightarrow>
    recall_step S s (snd (AdminMemory R path i action t actor reason s))"
| boundary: "recall_step S s (refreshMemory R sid path query phase reason turn s)"
| compacted: "recall_step S s (setCacheBoundary sid s)"
| extraction: "extract_env_ok X \<Longrightarrow> recall_step S s (snd (persistMemoryCandidates X sid path cs refs s))"
| startup: "extract_env_ok X \<Longrightarrow> recall_step S s (cleanupPendingMemory X s)"
| store: "memory_step l (rs_db s) db \<Longrightarrow> (\<And>i. l = Some i \<Longrightarrow> i \<in> S) \<Longrightarrow> recall_step S s (s\<lparr>rs_db := db\<rparr>)"

inductive_cases recall_stepE: "recall_step S s s'"

definition empty_recall_state :: recall_state where
  "empty_recall_state = \<lparr>rs_db = empty_recall, rs_epochs = Map.empty\<rparr>"

lemma recall_step_run: "recall_step S s s' \<Longrightarrow> memory_run S (rs_db s) (rs_db s')"
  by (induction rule: recall_step.induct) (simp_all add: control_run admin_run refresh_run persist_run cleanup_run run_step)

lemma recall_steps_run: "(recall_step S)\<^sup>*\<^sup>* s s' \<Longrightarrow> memory_run S (rs_db s) (rs_db s')"
  by (induction rule: rtranclp_induct) (auto intro: run_trans recall_step_run)

lemma empty_recall_ok: "recall_ok (rs_db empty_recall_state)"
  by (simp add: empty_recall_state_def empty_recall_def recall_ok_def replacements_def acyclic_def)

end
