(* ===== verification/Recall_Props.thy ===== *)
theory Recall_Props
  imports Recall_Runs Conversation_Props
begin

text \<open>
  The properties of durable memory: the invariant of the records, that what a person had forgotten
  stays forgotten, that the model's view agrees with the store after an update, that a selection
  keeps its budgets and leaves out only what does not fit, and that extraction respects tombstones.
\<close>

section \<open>Selections\<close>

definition cost_of :: "bool \<Rightarrow> (memory_record \<times> nat) list \<Rightarrow> int" where
  "cost_of ids ks = sum_list (map (\<lambda>(r, _). memoryRecordCost r ids) ks)"

text \<open>
  The records \<open>new\<close> that the loop keeps of \<open>rs\<close>, whose first has position \<open>i\<close>, after \<open>k\<close> records of
  together \<open>tok\<close> tokens.
\<close>

definition first_fit :: "int \<Rightarrow> int \<Rightarrow> int \<Rightarrow> bool \<Rightarrow> nat \<Rightarrow> memory_record list \<Rightarrow> nat \<Rightarrow> int \<Rightarrow> (memory_record \<times> nat) list \<Rightarrow> bool" where
  "first_fit maxR maxT maxB ids i rs k tok new \<longleftrightarrow>
     sorted_wrt (<) (map snd new)
     \<and> (\<forall>(r, n) \<in> set new. i < n \<and> n \<le> i + length rs \<and> r = truncated maxB (rs ! (n - Suc i)))
     \<and> int (k + length new) \<le> max maxR (int k) \<and> tok + cost_of ids new \<le> max maxT tok
     \<and> (\<forall>p < length rs. Suc (i + p) \<notin> snd ` set new \<longrightarrow>
          (let before = filter (\<lambda>(_, n). n \<le> i + p) new in
           int (k + length before) \<ge> maxR \<or> tok + cost_of ids before + memoryRecordCost (truncated maxB (rs ! p)) ids > maxT))"

lemma cost_of_simps [simp]: "cost_of ids [] = 0" "cost_of ids ((r, n) # ks) = memoryRecordCost r ids + cost_of ids ks"
  by (simp_all add: cost_of_def)

lemma cost_pos: "1 \<le> memoryRecordCost r ids"
  by (simp add: memoryRecordCost_def estimate_def)

lemma first_fitI:
  assumes "sorted_wrt (<) (map snd new)"
    and "\<And>r n. (r, n) \<in> set new \<Longrightarrow> i < n \<and> n \<le> i + length rs \<and> r = truncated maxB (rs ! (n - Suc i))"
    and "int (k + length new) \<le> max maxR (int k)" and "tok + cost_of ids new \<le> max maxT tok"
    and "\<And>p. p < length rs \<Longrightarrow> Suc (i + p) \<notin> snd ` set new \<Longrightarrow>
          (let before = filter (\<lambda>(_, n). n \<le> i + p) new in
           int (k + length before) \<ge> maxR \<or> tok + cost_of ids before + memoryRecordCost (truncated maxB (rs ! p)) ids > maxT)"
  shows "first_fit maxR maxT maxB ids i rs k tok new"
  unfolding first_fit_def using assms(2) by (intro conjI ballI allI impI assms(1,3,4,5)) auto

lemma first_fitD:
  assumes "first_fit maxR maxT maxB ids i rs k tok new"
  shows "sorted_wrt (<) (map snd new)"
    and "(r, n) \<in> set new \<Longrightarrow> i < n \<and> n \<le> i + length rs \<and> r = truncated maxB (rs ! (n - Suc i))"
    and "int (k + length new) \<le> max maxR (int k)" and "tok + cost_of ids new \<le> max maxT tok"
    and "p < length rs \<Longrightarrow> Suc (i + p) \<notin> snd ` set new \<Longrightarrow>
          (let before = filter (\<lambda>(_, n). n \<le> i + p) new in
           int (k + length before) \<ge> maxR \<or> tok + cost_of ids before + memoryRecordCost (truncated maxB (rs ! p)) ids > maxT)"
  using assms unfolding first_fit_def by (elim conjE; blast)+

lemma shift_position:
  assumes "first_fit maxR maxT maxB ids (Suc i) rs k tok new" and "(x, n) \<in> set new"
  shows "Suc i < n" and "i < n \<and> n \<le> i + length (r # rs) \<and> x = truncated maxB ((r # rs) ! (n - Suc i))"
proof -
  have f: "Suc i < n" "n \<le> Suc i + length rs" "x = truncated maxB (rs ! (n - Suc (Suc i)))" using first_fitD(2) [OF assms] by simp_all
  then show "Suc i < n" by simp
  have "n - Suc i = Suc (n - Suc (Suc i))" using f(1) by linarith
  with f show "i < n \<and> n \<le> i + length (r # rs) \<and> x = truncated maxB ((r # rs) ! (n - Suc i))" by simp
qed

lemma first_fit_skip:
  assumes f: "first_fit maxR maxT maxB ids (Suc i) rs k tok new" and "tok + memoryRecordCost (truncated maxB r) ids > maxT"
  shows "first_fit maxR maxT maxB ids i (r # rs) k tok new"
proof (rule first_fitI [OF first_fitD(1) [OF f] shift_position(2) [OF f] first_fitD(3,4) [OF f]])
  fix p assume p: "p < length (r # rs)" "Suc (i + p) \<notin> snd ` set new"
  have z: "filter (\<lambda>(_, n). n \<le> i) new = []" using shift_position(1) [OF f] by (fastforce simp: filter_empty_conv)
  show "let before = filter (\<lambda>(_, n). n \<le> i + p) new in
      int (k + length before) \<ge> maxR \<or> tok + cost_of ids before + memoryRecordCost (truncated maxB ((r # rs) ! p)) ids > maxT"
  proof (cases p)
    case 0
    then show ?thesis using assms(2) z by simp
  next
    case (Suc q)
    with first_fitD(5) [OF f, of q] p show ?thesis by simp
  qed
qed

lemma first_fit_take:
  assumes f: "first_fit maxR maxT maxB ids (Suc i) rs (Suc k) (tok + memoryRecordCost (truncated maxB r) ids) new"
    and "tok + memoryRecordCost (truncated maxB r) ids \<le> maxT" and "int k < maxR"
  shows "first_fit maxR maxT maxB ids i (r # rs) k tok ((truncated maxB r, Suc i) # new)"
proof (rule first_fitI)
  let ?r = "truncated maxB r"
  have "\<forall>n \<in> set (map snd new). Suc i < n" using shift_position(1) [OF f] by auto
  with first_fitD(1) [OF f] show "sorted_wrt (<) (map snd ((?r, Suc i) # new))" by (simp del: set_map)
  show "int (k + length ((?r, Suc i) # new)) \<le> max maxR (int k)" using first_fitD(3) [OF f] assms(3) by simp
  show "tok + cost_of ids ((?r, Suc i) # new) \<le> max maxT tok" using first_fitD(4) [OF f] assms(2) cost_pos [of ?r ids] by simp
  show "i < n \<and> n \<le> i + length (r # rs) \<and> x = truncated maxB ((r # rs) ! (n - Suc i))" if "(x, n) \<in> set ((?r, Suc i) # new)" for x n
  proof (cases "(x, n) = (?r, Suc i)")
    case False
    with that have "(x, n) \<in> set new" by auto
    then show ?thesis by (rule shift_position(2) [OF f])
  qed simp
  fix p assume p: "p < length (r # rs)" "Suc (i + p) \<notin> snd ` set ((?r, Suc i) # new)"
  then obtain q where q: "p = Suc q" "q < length rs" "Suc (Suc i + q) \<notin> snd ` set new" by (cases p) auto
  show "let before = filter (\<lambda>(_, n). n \<le> i + p) ((?r, Suc i) # new) in
      int (k + length before) \<ge> maxR \<or> tok + cost_of ids before + memoryRecordCost (truncated maxB ((r # rs) ! p)) ids > maxT"
    using first_fitD(5) [OF f q(2,3)] q(1) by (simp add: Let_def ac_simps)
qed

lemma bound_loop_fits:
  "\<exists>new. bound_loop maxR maxT maxB ids i rs kept tok = kept @ new \<and> first_fit maxR maxT maxB ids i rs (length kept) tok new"
proof (induction rs arbitrary: i kept tok)
  case Nil
  then show ?case by (intro exI [of _ "[]"]) (simp add: first_fit_def)
next
  case (Cons r rs)
  let ?r = "truncated maxB r"
  consider "int (length kept) \<ge> maxR" | "int (length kept) < maxR" "tok + memoryRecordCost ?r ids > maxT"
    | "int (length kept) < maxR" "tok + memoryRecordCost ?r ids \<le> maxT" by linarith
  then show ?case
  proof cases
    case 1
    then show ?thesis by (intro exI [of _ "[]"]) (simp add: first_fit_def)
  next
    case 2
    with Cons.IH [of "Suc i" kept tok] show ?thesis by (auto simp: Let_def intro: first_fit_skip)
  next
    case 3
    obtain new where "bound_loop maxR maxT maxB ids (Suc i) rs (kept @ [(?r, Suc i)]) (tok + memoryRecordCost ?r ids) = (kept @ [(?r, Suc i)]) @ new"
      "first_fit maxR maxT maxB ids (Suc i) rs (length (kept @ [(?r, Suc i)])) (tok + memoryRecordCost ?r ids) new" using Cons.IH by blast
    with 3 show ?thesis by (intro exI [of _ "(?r, Suc i) # new"]) (simp add: Let_def first_fit_take)
  qed
qed

lemma sorted_prefix:
  "sorted_wrt (<) (map snd ks) \<Longrightarrow> map fst (filter (\<lambda>(_, n). n \<le> p) ks) = take (length (filter (\<lambda>n. n \<le> p) (map snd ks))) (map fst (ks :: ('a \<times> nat) list))"
proof (induction ks)
  case (Cons k ks)
  show ?case
  proof (cases "snd k \<le> p")
    case False
    with Cons.prems have "\<forall>j \<in> set ks. \<not> snd j \<le> p" by auto
    with False show ?thesis by (auto simp: filter_empty_conv filter_map comp_def case_prod_unfold)
  qed (use Cons in \<open>simp add: case_prod_unfold\<close>)
qed simp

lemma boundMemory_fits:
  obtains new where "boundMemory rs maxR maxT maxB ids = (map fst new, map snd new)" "first_fit maxR maxT maxB ids 0 rs 0 0 new"
  using bound_loop_fits [of maxR maxT maxB ids 0 rs "[]" 0] by (auto simp: boundMemory_def Let_def)

text \<open>
  Claim C24.  A selection of memory stays within its budgets and gives them away first come, first
  served: at most the configured number of records, at most the configured estimate of tokens; every kept
  record is one of the given, cut to the configured number of bytes, in the order of their ranks; and a record
  that was left out came when the number was reached or did not fit beside the records kept before it.
\<close>

theorem selection_within_budget:
  assumes "boundMemory rs maxR maxT maxB ids = (kept, ranks)"
  shows "length ranks = length kept \<and> int (length kept) \<le> max 0 maxR
    \<and> (\<Sum>r \<leftarrow> kept. memoryRecordCost r ids) \<le> max 0 maxT
    \<and> sorted_wrt (<) ranks \<and> (\<forall>j < length kept. 0 < ranks ! j \<and> ranks ! j \<le> length rs \<and> kept ! j = truncated maxB (rs ! (ranks ! j - 1)))
    \<and> (\<forall>p < length rs. Suc p \<notin> set ranks \<longrightarrow>
         (let before = take (length (filter (\<lambda>n. n \<le> p) ranks)) kept in
          int (length before) \<ge> maxR
          \<or> (\<Sum>r \<leftarrow> before. memoryRecordCost r ids) + memoryRecordCost (truncated maxB (rs ! p)) ids > maxT))"
proof -
  obtain new where new: "kept = map fst new" "ranks = map snd new" and f: "first_fit maxR maxT maxB ids 0 rs 0 0 new"
    using boundMemory_fits [of rs maxR maxT maxB ids] assms by auto
  have cost: "cost_of ids ks = (\<Sum>r \<leftarrow> map fst ks. memoryRecordCost r ids)" for ks by (simp add: cost_of_def case_prod_unfold comp_def)
  have pre: "map fst (filter (\<lambda>(_, n). n \<le> p) new) = take (length (filter (\<lambda>n. n \<le> p) ranks)) kept" for p
    using first_fitD(1) [OF f] sorted_prefix [of new p] by (simp add: new)
  have left: "let before = take (length (filter (\<lambda>n. n \<le> p) ranks)) kept in int (length before) \<ge> maxR
      \<or> (\<Sum>r \<leftarrow> before. memoryRecordCost r ids) + memoryRecordCost (truncated maxB (rs ! p)) ids > maxT"
    if "p < length rs" "Suc p \<notin> set ranks" for p
  proof -
    have "Suc (0 + p) \<notin> snd ` set new" using that(2) by (simp add: new)
    note l = first_fitD(5) [OF f that(1) this]
    have "length (filter (\<lambda>(_, n). n \<le> 0 + p) new) = length (take (length (filter (\<lambda>n. n \<le> p) ranks)) kept)"
      by (subst pre [symmetric]) simp
    with l show ?thesis unfolding cost Let_def by (simp only: pre add_0)
  qed
  have "0 < ranks ! j \<and> ranks ! j \<le> length rs \<and> kept ! j = truncated maxB (rs ! (ranks ! j - 1))" if "j < length kept" for j
    using first_fitD(2) [OF f, of "kept ! j" "ranks ! j"] that nth_mem [of j new] by (simp add: new)
  with left show ?thesis using first_fitD(1,3,4) [OF f] by (simp add: new cost max.commute del: map_map)
qed

definition demo_notes :: "memory_record list" where
  "demo_notes = map (\<lambda>t. blank_record\<lparr>mm_id := t, mm_text := t\<rparr>) [''run make first'', ''a very long note that does not fit in it'', ''ask'', ''last'']"

theorem selection_within_budget_witness:
  "snd (boundMemory demo_notes 2 8 100 False) = [1, 3] \<and> int (length [1 :: nat, 3]) \<le> max 0 (2 :: int)
    \<and> (\<Sum>r \<leftarrow> fst (boundMemory demo_notes 2 8 100 False). memoryRecordCost r False) \<le> max 0 8"
proof -
  have "snd (boundMemory demo_notes 2 8 100 False) = [1, 3]" by code_simp
  moreover from selection_within_budget [OF prod.collapse [symmetric, of "boundMemory demo_notes 2 8 100 False"]]
  have "int (length (fst (boundMemory demo_notes 2 8 100 False))) \<le> max 0 2"
    "(\<Sum>r \<leftarrow> fst (boundMemory demo_notes 2 8 100 False). memoryRecordCost r False) \<le> max 0 8" by blast+
  ultimately show ?thesis by simp
qed

section \<open>What the model is told\<close>

lemma tell_simps [simp]:
  "us_told (tell ids r s) = (us_told s)(mm_id r \<mapsto> memoryLine r ids)"
  "us_order (tell ids r s) = (if us_told s (mm_id r) = None then us_order s @ [mm_id r] else us_order s)"
  "us_lines (tell ids r s) = us_lines s" "us_changed (tell ids r s) = us_changed s" "us_corrected (tell ids r s) = us_corrected s"
  "us_forgotten (tell ids r s) = us_forgotten s" "us_new (tell ids r s) = us_new s"
  by (simp_all add: tell_def)

text \<open>The records \<open>D\<close> have been reviewed: what is told of them is their current line.\<close>

definition agrees :: "bool \<Rightarrow> (string \<rightharpoonup> memory_record) \<Rightarrow> (string \<rightharpoonup> string) \<Rightarrow> string set \<Rightarrow> (string \<rightharpoonup> string) \<Rightarrow> bool" where
  "agrees ids live old D told \<longleftrightarrow>
     (\<forall>i l. told i = Some l \<longrightarrow> i \<notin> D \<and> old i = Some l \<or> map_option (\<lambda>r. memoryLine r ids) (live i) = Some l)
     \<and> (\<forall>i. old i \<noteq> None \<longrightarrow> (told i = None \<longleftrightarrow> i \<in> D \<and> live i = None))"

definition order_ok :: "(string \<rightharpoonup> memory_record) \<Rightarrow> update_state \<Rightarrow> bool" where
  "order_ok live s \<longleftrightarrow>
     distinct (us_order s) \<and> dom (us_told s) \<subseteq> set (us_order s) \<and> (\<forall>i \<in> set (us_order s). us_told s i = None \<longrightarrow> live i = None)"

definition lives_by_id :: "(string \<rightharpoonup> memory_record) \<Rightarrow> bool" where
  "lives_by_id live \<longleftrightarrow> (\<forall>i r. live i = Some r \<longrightarrow> mm_id r = i)"

lemma tell_agrees:
  assumes "agrees ids live old D told" and "live (mm_id r) = Some r"
  shows "agrees ids live old D (told(mm_id r \<mapsto> memoryLine r ids))"
  using assms by (auto simp: agrees_def)

lemma tell_order:
  assumes "order_ok live s" and "live (mm_id r) = Some r"
  shows "order_ok live (tell ids r s)"
  using assms by (auto simp: order_ok_def)

lemma drop_agrees: "agrees ids live old D told \<Longrightarrow> live i = None \<Longrightarrow> agrees ids live old (insert i D) (told(i := None))"
  by (auto simp: agrees_def)

lemma done_agrees: "agrees ids live old D told \<Longrightarrow> live i = Some r \<Longrightarrow> told i = Some (memoryLine r ids) \<Longrightarrow> agrees ids live old (insert i D) told"
  by (auto simp: agrees_def)

lemma order_cong: "us_order s' = us_order s \<Longrightarrow> us_told s' = us_told s \<Longrightarrow> order_ok live s' = order_ok live s"
  by (simp add: order_ok_def)

text \<open>What is reported of a review: the records that are gone, and a line whenever the model's view changes.\<close>

definition reported :: "(string \<rightharpoonup> memory_record) \<Rightarrow> (string \<rightharpoonup> string) \<Rightarrow> string set \<Rightarrow> update_state \<Rightarrow> bool" where
  "reported live old D s \<longleftrightarrow>
     set (us_forgotten s) \<union> set (us_corrected s) = {i \<in> D. live i = None} \<and> (us_lines s = [] \<longrightarrow> us_told s = old)
     \<and> length (us_lines s) = length (us_changed s) + length (us_corrected s) + length (us_forgotten s) + length (us_new s)"

lemma review_one_ok:
  assumes "lives_by_id live" and "old i \<noteq> None" and "i \<notin> D"
    and a: "agrees ids live old D (us_told s)" and o: "order_ok live s" and r: "reported live old D s"
  shows "agrees ids live old (insert i D) (us_told (review_one ids raw live i s)) \<and> order_ok live (review_one ids raw live i s)
    \<and> reported live old (insert i D) (review_one ids raw live i s)"
proof -
  obtain l where l: "us_told s i = Some l" using a assms(2,3) by (auto simp: agrees_def)
  show ?thesis
  proof (cases "live i")
    case (Some cur)
    then have "mm_id cur = i" using assms(1) by (simp add: lives_by_id_def)
    note t = done_agrees [OF tell_agrees [OF a, of cur], of i cur] tell_order [OF o, of cur ids] done_agrees [OF a Some]
    show ?thesis
      using t o r Some \<open>mm_id cur = i\<close> l by (auto simp: review_one_def Let_def reported_def order_ok_def)
  next
    case None
    have o1: "order_ok live (s\<lparr>us_told := (us_told s)(i := None)\<rparr>)" using o None by (auto simp: order_ok_def)
    note d = drop_agrees [OF a None]
    show ?thesis
    proof (cases "\<exists>next_r. live (case raw i of Some r \<Rightarrow> mm_superseded r | None \<Rightarrow> []) = Some next_r \<and> (case raw i of Some r \<Rightarrow> mm_superseded r | None \<Rightarrow> []) \<noteq> []")
      case True
      then obtain n where n: "live (case raw i of Some r \<Rightarrow> mm_superseded r | None \<Rightarrow> []) = Some n" "(case raw i of Some r \<Rightarrow> mm_superseded r | None \<Rightarrow> []) \<noteq> []" by blast
      then have ln: "live (mm_id n) = Some n" using assms(1) by (auto simp: lives_by_id_def)
      have e: "review_one ids raw live i s = (tell ids n (s\<lparr>us_told := (us_told s)(i := None)\<rparr>))
          \<lparr>us_lines := us_lines s @ [''- corrected: '' @ l @ newline @ ''  now: '' @ memoryLine n ids], us_corrected := us_corrected s @ [i]\<rparr>"
        using l None n by (simp add: review_one_def Let_def)
      have "order_ok live (review_one ids raw live i s)" using tell_order [OF o1 ln, of ids] by (simp add: e order_ok_def)
      moreover have "agrees ids live old (insert i D) (us_told (review_one ids raw live i s))" using tell_agrees [OF d ln] by (simp add: e)
      moreover have "reported live old (insert i D) (review_one ids raw live i s)" using r None by (auto simp: e reported_def)
      ultimately show ?thesis by blast
    next
      case False
      have e: "review_one ids raw live i s = s\<lparr>us_told := (us_told s)(i := None), us_lines := us_lines s @ [''- forgotten, disregard: '' @ l], us_forgotten := us_forgotten s @ [i]\<rparr>"
        using l None False by (auto simp: review_one_def Let_def split: option.splits)
      have "order_ok live (review_one ids raw live i s)" using o1 by (simp add: e order_ok_def)
      moreover have "agrees ids live old (insert i D) (us_told (review_one ids raw live i s))" using d by (simp add: e)
      moreover have "reported live old (insert i D) (review_one ids raw live i s)" using r None by (auto simp: e reported_def)
      ultimately show ?thesis by blast
    qed
  qed
qed

lemma review_all_ok:
  assumes "lives_by_id live"
  shows "\<forall>i \<in> set xs. old i \<noteq> None \<Longrightarrow> distinct xs \<Longrightarrow> set xs \<inter> D = {} \<Longrightarrow> agrees ids live old D (us_told s) \<Longrightarrow> order_ok live s \<Longrightarrow> reported live old D s
    \<Longrightarrow> agrees ids live old (set xs \<union> D) (us_told (fold (review_one ids raw live) xs s)) \<and> order_ok live (fold (review_one ids raw live) xs s)
      \<and> reported live old (set xs \<union> D) (fold (review_one ids raw live) xs s)"
proof (induction xs arbitrary: D s)
  case (Cons x xs)
  have "agrees ids live old (insert x D) (us_told (review_one ids raw live x s)) \<and> order_ok live (review_one ids raw live x s)
      \<and> reported live old (insert x D) (review_one ids raw live x s)"
    by (rule review_one_ok [OF assms]) (use Cons.prems in auto)
  with Cons.IH [of "insert x D" "review_one ids raw live x s"] Cons.prems show ?case by simp
qed simp

lemma announce_ok:
  assumes "live (mm_id r) = Some r" and a: "agrees ids live old D (us_told s)" and o: "order_ok live s" and p: "reported live old D s"
  shows "agrees ids live old D (us_told (announce_new ids r s)) \<and> order_ok live (announce_new ids r s) \<and> reported live old D (announce_new ids r s)
    \<and> us_told (announce_new ids r s) (mm_id r) \<noteq> None \<and> dom (us_told s) \<subseteq> dom (us_told (announce_new ids r s))"
proof (cases "us_told s (mm_id r)")
  case None
  have "order_ok live (announce_new ids r s)" using tell_order [OF o assms(1), of ids] None by (simp add: announce_new_def order_ok_def)
  moreover have "agrees ids live old D (us_told (announce_new ids r s))" using tell_agrees [OF a assms(1)] None by (simp add: announce_new_def)
  ultimately show ?thesis using p None by (auto simp: announce_new_def reported_def)
qed (use a o p in \<open>simp add: announce_new_def\<close>)

lemma announce_all_ok:
  "\<forall>r \<in> set rs. live (mm_id r) = Some r \<Longrightarrow> agrees ids live old D (us_told s) \<Longrightarrow> order_ok live s \<Longrightarrow> reported live old D s
   \<Longrightarrow> agrees ids live old D (us_told (fold (announce_new ids) rs s)) \<and> order_ok live (fold (announce_new ids) rs s) \<and> reported live old D (fold (announce_new ids) rs s)
     \<and> mm_id ` set rs \<union> dom (us_told s) \<subseteq> dom (us_told (fold (announce_new ids) rs s))"
proof (induction rs arbitrary: s)
  case (Cons r rs)
  have "live (mm_id r) = Some r" using Cons.prems(1) by simp
  note a = announce_ok [OF this Cons.prems(2-4)]
  have "agrees ids live old D (us_told (fold (announce_new ids) rs (announce_new ids r s))) \<and> order_ok live (fold (announce_new ids) rs (announce_new ids r s))
    \<and> reported live old D (fold (announce_new ids) rs (announce_new ids r s))
    \<and> mm_id ` set rs \<union> dom (us_told (announce_new ids r s)) \<subseteq> dom (us_told (fold (announce_new ids) rs (announce_new ids r s)))"
    by (rule Cons.IH) (use Cons.prems(1) a in auto)
  moreover have "mm_id r \<in> dom (us_told (announce_new ids r s))" using a by blast
  ultimately show ?case using a by (simp only: fold_simps list.set image_insert) blast
qed simp

lemma by_ids_mem: "by_ids rs i = Some r \<Longrightarrow> r \<in> set rs \<and> mm_id r = i"
  by (auto simp: by_ids_def dest!: map_of_SomeD)

lemma by_ids_unique: "distinct (map mm_id rs) \<Longrightarrow> r \<in> set rs \<Longrightarrow> by_ids rs (mm_id r) = Some r"
  unfolding by_ids_def by (rule map_of_is_SomeI) (simp_all add: rev_map comp_def distinct_map)

lemma distinct_map_filter_id: "distinct (map mm_id rs) \<Longrightarrow> distinct (map mm_id (filter P rs))"
  by (rule distinct_map_filter)

lemma truncated_id [simp]: "mm_id (truncated n r) = mm_id r" "mm_status (truncated n r) = mm_status r"
  by (simp_all add: truncated_def)

lemma lives_distinct: "distinct (map mm_id rs) \<Longrightarrow> distinct (map mm_id (live_records R rs))"
  unfolding live_records_def visibleMemory_def Let_def by (simp add: comp_def distinct_map_filter_id)

lemma listed_distinct:
  assumes "ListMemory E f db = (Inr rs, db1)" and "distinct (map mm_id (rd_records db))"
  shows "distinct (map mm_id rs)"
proof -
  have ids: "map mm_id (rd_records (expire_due E w db)) = map mm_id (rd_records db)" for w
    by (simp add: expire_due_def update_records_def)
  have "mset (map mm_id rs) = mset (map mm_id (filter (selected E f) (rd_records (expire_due E (mf_workspace f) db))))"
    using assms(1) by (auto simp: ListMemory_def tx_def Let_def multiset.map_comp comp_def split: if_splits option.splits)
  moreover have "distinct (map mm_id (filter (selected E f) (rd_records (expire_due E (mf_workspace f) db))))"
    using assms(2) by (simp add: ids distinct_map_filter_id)
  ultimately show ?thesis by (metis mset_eq_imp_distinct_iff)
qed

definition told_ok :: "memory_epoch \<Rightarrow> bool" where
  "told_ok ep \<longleftrightarrow> distinct (ep_order ep) \<and> set (ep_order ep) = dom (ep_told ep)"


definition demo_recall_env :: recall_env where
  "demo_recall_env = \<lparr>re_store = demo_store_env\<lparr>sv_fresh := (\<lambda>_. ''m1''), sv_quote := (\<lambda>s. [CHR 0x22] @ s @ [CHR 0x22])\<rparr>,
     re_config = \<lparr>mg_inject = True, mg_maxRecords = 0, mg_maxTokens = 0, mg_maxRecordBytes = 0, mg_retainDays = 0, mg_keepUncertain = False, mg_showIDs = False\<rparr>,
     re_root = ''/w'', re_key = Some, re_turn = ''t1'', re_selector = None\<rparr>"

definition demo_recall_start :: recall_state where
  "demo_recall_start = empty_recall_state\<lparr>rs_db := empty_recall\<lparr>rd_store := snd (CreateSession demo_store_env demo_row empty_db)\<rparr>\<rparr>"

definition demo_args :: tool_args where
  "demo_args = [''text'' \<mapsto> AStr ''run make'', ''kind'' \<mapsto> AStr ''command'', ''evidence_refs'' \<mapsto> AList [AStr ''go.mod''],
     ''id'' \<mapsto> AStr ''m1'', ''user_confirmed'' \<mapsto> ABool True]"

definition demo_proposed :: recall_state where
  "demo_proposed = snd (controlMemory demo_recall_env ''s'' [] ''propose'' demo_args demo_recall_start)"

definition demo_forgotten :: recall_state where
  "demo_forgotten = snd (controlMemory demo_recall_env ''s'' [] ''forget'' demo_args demo_proposed)"

definition demo_epoch :: memory_epoch where
  "demo_epoch = \<lparr>ep_boundary = [], ep_workspace = ''m1'', ep_phase = [], ep_stale = False, ep_records = [], ep_rendered = [], ep_ranks = [], ep_source = [],
     ep_pinnedAt = 0, ep_told = [''m0'' \<mapsto> ''[fact/agent] old'', ''m1'' \<mapsto> ''[command/agent] old''], ep_order = [''m1'', ''m0'']\<rparr>"

lemma demo_listed: "map mm_text (projr (fst (ListMemory (re_store demo_recall_env) (all_of ''m1'') (rs_db demo_proposed)))) = [''run make'']
   \<and> \<not> isl (fst (ListMemory (re_store demo_recall_env) (all_of ''m1'') (rs_db demo_proposed)))"
  by code_simp


section \<open>The invariant\<close>

text \<open>
  Claim C13.  In every reachable state of memory, whatever sessions, operators, extraction and the startup
  sweep did: record identifiers and workspace keys are unique; every row has a known kind, provenance and
  status, a confidence between 0 and 1, a text, a JSON array of evidence, and shadows another only in its own
  scope; a superseded record, and no other but a deleted one, names its replacement, which is a record of the same workspace;
  and following replacements never leads back, but for a record that names itself.
\<close>

theorem memory_invariant:
  assumes "(recall_step UNIV)\<^sup>*\<^sup>* empty_recall_state s"
  shows "distinct (map mm_id (rd_records (rs_db s))) \<and> distinct (map wr_key (rd_workspaces (rs_db s)))
    \<and> (\<forall>x \<in> set (rd_records (rs_db s)). record_ok x \<and> refs_ok (rd_workspaces (rs_db s)) (rd_records (rs_db s)) x)
    \<and> acyclic (replacements (rd_records (rs_db s)))"
  using run_ok [OF recall_steps_run [OF assms] empty_recall_ok] unfolding recall_ok_def by (elim conjE) (intro conjI; assumption)

lemma demo_start_reachable: "(recall_step UNIV)\<^sup>*\<^sup>* empty_recall_state demo_recall_start"
proof -
  have "memory_step None (rs_db empty_recall_state) (rs_db demo_recall_start)"
    using memory_step.conversation [OF create, of "rs_db empty_recall_state" demo_store_env demo_row]
    by (simp add: demo_recall_start_def empty_recall_state_def empty_recall_def)
  then have "recall_step UNIV empty_recall_state (empty_recall_state\<lparr>rs_db := rs_db demo_recall_start\<rparr>)" by (rule recall_step.store) simp
  then show ?thesis by (simp add: demo_recall_start_def)
qed

lemma demo_proposed_reachable: "(recall_step UNIV)\<^sup>*\<^sup>* empty_recall_state demo_proposed"
  unfolding demo_proposed_def
  by (rule rtranclp.rtrancl_into_rtrancl [OF demo_start_reachable], rule tool) (simp add: demo_recall_env_def)

theorem memory_invariant_witness:
  "map mm_text (rd_records (rs_db demo_proposed)) = [''run make''] \<and> list_all record_ok (rd_records (rs_db demo_proposed))"
proof -
  have "map mm_text (rd_records (rs_db demo_proposed)) = [''run make'']" by code_simp
  with memory_invariant [OF demo_proposed_reachable] show ?thesis by (simp add: list_all_iff)
qed

section \<open>Forgetting\<close>

lemma bound_ids: "fst (boundMemory rs maxR maxT maxB ids) = kept \<Longrightarrow> mm_id ` set kept \<subseteq> mm_id ` set rs"
proof -
  assume k: "fst (boundMemory rs maxR maxT maxB ids) = kept"
  obtain new where new: "boundMemory rs maxR maxT maxB ids = (map fst new, map snd new)" and f: "first_fit maxR maxT maxB ids 0 rs 0 0 new"
    by (rule boundMemory_fits)
  have "mm_id r \<in> mm_id ` set rs" if rn: "(r, n) \<in> set new" for r n
  proof -
    have "n - Suc 0 < length rs" "r = truncated maxB (rs ! (n - Suc 0))" using first_fitD(2) [OF f rn] by auto
    then show ?thesis by (metis truncated_id(1) imageI nth_mem)
  qed
  with k new show ?thesis by auto
qed

lemma order_ids: "mm_id ` set (orderMemory E rs query maxB) = mm_id ` set rs"
  by (simp add: orderMemory_def Let_def image_image)

lemma visible_sub: "set (visibleMemory rs scopes) \<subseteq> set rs"
  by (auto simp: visibleMemory_def Let_def)

lemma chosen_sub: "set (chosen_once candidates seen rs) \<subseteq> set candidates"
  by (induction rs arbitrary: seen) (auto simp: find_Some_iff split: option.splits)

text \<open>A selection has only records that are not deleted.\<close>

lemma listed_ids:
  assumes "ListMemory E f db = (Inr rs, db1)" and "\<not> mf_deleted f" and "set cs \<subseteq> set rs"
  shows "mm_id ` set cs \<subseteq> mm_id ` {y \<in> set (rd_records db1). mm_status y \<noteq> ''deleted''}"
proof
  fix i assume "i \<in> mm_id ` set cs"
  then obtain r where r: "r \<in> set rs" "i = mm_id r" using assms(3) by blast
  then obtain y where "y \<in> set (rd_records db1)" "r = from_row y" "selected E f y" using ListMemory_Inr(2) [OF assms(1)] by blast
  then show "i \<in> mm_id ` {y \<in> set (rd_records db1). mm_status y \<noteq> ''deleted''}" using r(2) assms(2) by (auto simp: selected_def)
qed

lemma select_ids:
  assumes "selectMemory R sid w query phase db = (Inr sel, db1)"
  shows "mm_id ` set (sl_records sel) \<subseteq> mm_id ` {y \<in> set (rd_records db1). mm_status y \<noteq> ''deleted''}"
proof -
  let ?E = "re_store R" and ?b = "RecordBytes (re_config R)"
  have ord: "mm_id ` set (fst (boundMemory (orderMemory ?E cs query ?b) m t b ids)) \<subseteq> mm_id ` set cs" for cs m t b ids
    using bound_ids [OF refl, of "orderMemory ?E cs query ?b"] order_ids by blast
  show ?thesis
  proof (cases "re_selector R")
    case None
    with assms obtain rs where l: "ListMemory ?E ((all_of w)\<lparr>mf_status := ''active''\<rparr>) db = (Inr rs, db1)"
      and s: "sl_records sel = fst (boundMemory (orderMemory ?E (visibleMemory rs []) query ?b) (memory_Records (re_config R)) (memory_Tokens (re_config R)) ?b (mg_showIDs (re_config R)))"
      by (auto simp: selectMemory_def recallMemory_def selection_def Let_def split: prod.splits sum.splits)
    have "mm_id ` set (visibleMemory rs []) \<subseteq> mm_id ` {y \<in> set (rd_records db1). mm_status y \<noteq> ''deleted''}"
      by (rule listed_ids [OF l _ visible_sub]) (simp add: all_of_def)
    then show ?thesis unfolding s by (rule subset_trans [OF ord])
  next
    case (Some pick)
    with assms obtain rs where l: "ListMemory ?E (all_of w) db = (Inr rs, db1)"
      by (auto simp: selectMemory_def Let_def split: prod.splits sum.splits)
    define cands where "cands = filter (\<lambda>r. mm_status r = ''active'' \<or> mm_status r = ''pending'') (visibleMemory rs [])"
    have c: "mm_id ` set cands \<subseteq> mm_id ` {y \<in> set (rd_records db1). mm_status y \<noteq> ''deleted''}"
      by (rule listed_ids [OF l]) (use visible_sub in \<open>auto simp: all_of_def cands_def\<close>)
    have "mm_id ` set (sl_records sel) \<subseteq> mm_id ` set cands"
    proof (cases "pick \<lparr>mq_session = sid, mq_workspace = w, mq_spec = query, mq_phase = phase, mq_candidates = cands,
        mq_limit = memory_Records (re_config R), mq_tokens = memory_Tokens (re_config R)\<rparr>")
      case (Inl e)
      with assms Some l have "sl_records sel = fst (boundMemory (orderMemory ?E (filter (\<lambda>r. mm_status r = ''active'') cands) query ?b)
          (memory_Records (re_config R)) (memory_Tokens (re_config R)) ?b (mg_showIDs (re_config R)))"
        by (auto simp: selectMemory_def selection_def Let_def cands_def [symmetric])
      moreover have "mm_id ` set (filter (\<lambda>r. mm_status r = ''active'') cands) \<subseteq> mm_id ` set cands" by auto
      ultimately show ?thesis using subset_trans [OF ord] by (simp only:)
    next
      case (Inr rs')
      with assms Some l have "sl_records sel = fst (boundMemory (chosen_once cands [] rs')
          (memory_Records (re_config R)) (memory_Tokens (re_config R)) ?b (mg_showIDs (re_config R)))"
        by (auto simp: selectMemory_def selection_def Let_def cands_def [symmetric])
      then show ?thesis using subset_trans [OF bound_ids [OF refl] image_mono [OF chosen_sub]] by (simp only:)
    qed
    with c show ?thesis by blast
  qed
qed

text \<open>A candidate that repeats a forgotten record is not written.\<close>

lemma persist_tombstone:
  assumes "x \<in> set (rd_records (rs_db s))" and "mm_status x = ''deleted''" and "wr_id w = mm_workspace x"
    and "memoryDuplicate (re_store (xe_recall X)) (mm_text x) (TrimSpace (mc_words c))"
  shows "rd_records (rs_db (snd (persist_one X sid w refs c s))) \<in> {rd_records (rs_db s), rd_records (expire_due (re_store (xe_recall X)) (wr_id w) (rs_db s))}"
proof -
  let ?E = "re_store (xe_recall X)" and ?f = "(all_of (wr_id w))\<lparr>mf_expired := True, mf_deleted := True\<rparr>"
  have ws: "mf_workspace ?f = wr_id w" by (simp add: all_of_def)
  obtain q db where l: "ListMemory ?E ?f (rs_db s) = (q, db)" by force
  show ?thesis
  proof (cases q)
    case (Inl e)
    then have "db = rs_db s" using l by (auto simp: ListMemory_def tx_def Let_def split: if_splits option.splits)
    then show ?thesis using l Inl by (simp add: persist_one_def Let_def)
  next
    case (Inr rs)
    note i = ListMemory_Inr [OF l [unfolded Inr]]
    have db: "db = expire_due ?E (wr_id w) (rs_db s)" using i(1) ws by simp
    have "x \<in> set (rd_records db)" using assms(1,2) unfolding db
      by (auto simp: expire_due_def update_records_def MemoryExpired_def intro!: image_eqI [of _ _ x])
    moreover have "selected ?E ?f x" using assms(2,3) by (simp add: selected_def all_of_def MemoryFilterScopes_def NormalizeMemoryScope_def)
    ultimately have "from_row x \<in> set rs" using i(2) by blast
    then have "list_ex (\<lambda>r. memoryDuplicate ?E (mm_text r) (TrimSpace (mc_words c)) \<and> blocks r) rs"
      using assms(2,4) by (auto simp: list_ex_iff blocks_def intro!: bexI [of _ "from_row x"])
    then show ?thesis using l Inr db by (simp add: persist_one_def Let_def)
  qed
qed

text \<open>
  Claim C5.  What has been forgotten stays forgotten. From the moment a record of a reachable state is
  deleted, and whatever happens afterwards as long as no operator restores that record, its row stays as it
  was; no selection of memory, by the default ranking or by a host's selector, contains it; and extraction writes no record for
  a candidate of the same workspace that repeats its text.
\<close>

theorem forgotten_stays_forgotten:
  assumes "(recall_step UNIV)\<^sup>*\<^sup>* empty_recall_state s" and "(recall_step S)\<^sup>*\<^sup>* s s'"
    and "x \<in> set (rd_records (rs_db s))" and "mm_status x = ''deleted''" and "mm_id x \<notin> S"
  shows "x \<in> set (rd_records (rs_db s'))
    \<and> (\<forall>R sid w query phase sel db. selectMemory R sid w query phase (rs_db s') = (Inr sel, db) \<longrightarrow> mm_id x \<notin> mm_id ` set (sl_records sel))
    \<and> (\<forall>X sid w refs c. wr_id w = mm_workspace x \<and> memoryDuplicate (re_store (xe_recall X)) (mm_text x) (TrimSpace (mc_words c))
         \<longrightarrow> rd_records (rs_db (snd (persist_one X sid w refs c s'))) \<in> {rd_records (rs_db s'), rd_records (expire_due (re_store (xe_recall X)) (wr_id w) (rs_db s'))})"
proof -
  have kept: "x \<in> set (rd_records (rs_db s'))" using run_tombstone [OF recall_steps_run [OF assms(2)]] assms(3-5) .
  have ok: "recall_ok (rs_db s')" using run_ok [OF recall_steps_run [OF assms(2)]] run_ok [OF recall_steps_run [OF assms(1)] empty_recall_ok] .
  have "mm_id x \<notin> mm_id ` set (sl_records sel)" if sel: "selectMemory R sid w query phase (rs_db s') = (Inr sel, db)" for R sid w query phase sel db
  proof
    assume "mm_id x \<in> mm_id ` set (sl_records sel)"
    with select_ids [OF sel] obtain y where y: "y \<in> set (rd_records db)" "mm_id y = mm_id x" "mm_status y \<noteq> ''deleted''" by auto
    have "x \<in> set (rd_records db)" by (rule run_tombstone [OF select_run [OF sel, of "{}"] kept assms(4)]) simp
    moreover have "distinct (map mm_id (rd_records db))" using run_ok [OF select_run [OF sel] ok] by (simp add: recall_ok_def)
    ultimately have "x = y" using y(1,2) by (metis distinct_map inj_onD)
    with y(3) assms(4) show False by simp
  qed
  with kept persist_tombstone [OF kept assms(4)] show ?thesis by blast
qed

theorem forgotten_stays_forgotten_witness:
  "map mm_status (rd_records (rs_db demo_forgotten)) = [''deleted'']
   \<and> (\<exists>sel db. selectMemory demo_recall_env ''s'' ''m1'' ''make'' ''act'' (rs_db demo_forgotten) = (Inr sel, db) \<and> ''m1'' \<notin> mm_id ` set (sl_records sel))"
proof -
  have d: "map mm_status (rd_records (rs_db demo_forgotten)) = [''deleted'']" "map mm_id (rd_records (rs_db demo_forgotten)) = [''m1'']" by code_simp+
  then obtain x where x: "rd_records (rs_db demo_forgotten) = [x]" "mm_status x = ''deleted''" "mm_id x = ''m1''" by auto
  have "recall_step UNIV demo_proposed demo_forgotten" unfolding demo_forgotten_def by (rule tool) (simp add: demo_recall_env_def)
  then have r: "(recall_step UNIV)\<^sup>*\<^sup>* empty_recall_state demo_forgotten" by (rule rtranclp.rtrancl_into_rtrancl [OF demo_proposed_reachable])
  have "(recall_step {})\<^sup>*\<^sup>* demo_forgotten demo_forgotten" by simp
  note f = forgotten_stays_forgotten [OF r this, of x]
  let ?sel = "selectMemory demo_recall_env ''s'' ''m1'' ''make'' ''act'' (rs_db demo_forgotten)"
  let ?l = "ListMemory (re_store demo_recall_env) ((all_of ''m1'')\<lparr>mf_status := ''active''\<rparr>) (rs_db demo_forgotten)"
  have "\<not> isl (fst ?l)" by code_simp
  then obtain rs db where l: "?l = (Inr rs, db)" by (cases ?l; cases "fst ?l") auto
  have "re_selector demo_recall_env = None" by (simp add: demo_recall_env_def)
  with l obtain sel where sel: "?sel = (Inr sel, db)" by (simp add: selectMemory_def recallMemory_def Let_def)
  have "mm_id x \<notin> mm_id ` set (sl_records sel)" using f x sel by (simp only: list.set_intros) blast
  with sel x(3) d(1) show ?thesis by auto
qed

text \<open>
  \<^verbatim>\<open>SupersedeMemory\<close> refuses a record that would supersede itself; \<^verbatim>\<open>UpdateMemory\<close> does not, as the
  record is still active when the reference is checked.
\<close>

definition demo_self :: memory_record where
  "demo_self = (hd (rd_records (rs_db demo_proposed)))\<lparr>mm_status := ''superseded'', mm_superseded := ''m1''\<rparr>"

lemma update_supersedes_itself:
  "map (\<lambda>x. (mm_id x, mm_status x, mm_superseded x)) (rd_records (snd (UpdateMemory (re_store demo_recall_env) demo_self (rs_db demo_proposed))))
     = [(''m1'', ''superseded'', ''m1'')]"
  by code_simp

end
