(* ===== verification/Review_Diff.thy ===== *)
theory Review_Diff
  imports Conversation_Rewind Go_Path Go_Float
begin

text \<open>
  The diff an independent review reads (\<^verbatim>\<open>internal/review/diff.go\<close> and the size rules of
  \<^verbatim>\<open>cascade.go\<close>): its split into files, the class of a file, and which changes are large or touch tests.
  The Unicode part of \<^verbatim>\<open>strings.ToLower\<close> is a parameter.
\<close>

section \<open>Files\<close>

datatype file_status = Added | Modified | Deleted | Renamed

datatype file_class = Unclassified | Code | Asset | Lockfile | Generated | BinaryC | Other

record review_file =
  rf_path :: string
  rf_oldPath :: string
  rf_status :: file_status
  rf_added :: nat
  rf_removed :: nat
  rf_binary :: bool
  rf_patch :: string
  rf_class :: file_class

text \<open>\<^verbatim>\<open>bytes.SplitAfter\<close> at line feeds: the pieces with their line feed, the last one possibly empty.\<close>

fun split_after :: "string \<Rightarrow> string list" where
  "split_after [] = [[]]"
| "split_after (c # s) =
     (if c = line_feed then [c] # split_after s
      else case split_after s of p # ps \<Rightarrow> (c # p) # ps | [] \<Rightarrow> [[c]])"

definition trim_feeds :: "string \<Rightarrow> string" where
  "trim_feeds s = rev (dropWhile (\<lambda>c. c = line_feed) (rev s))"

definition gitPaths :: "string \<Rightarrow> string \<times> string" where
  "gitPaths header =
     (let rest = TrimPrefix header ''diff --git '' in
      case str_index rest '' b/'' of
        Some i \<Rightarrow> if prefix ''a/'' rest then (drop 2 (take i rest), drop (i + 3) rest) else ([], rest)
      | None \<Rightarrow> ([], rest))"

definition new_file :: "string \<Rightarrow> review_file" where
  "new_file header =
     \<lparr>rf_path = snd (gitPaths header), rf_oldPath = fst (gitPaths header), rf_status = Modified, rf_added = 0, rf_removed = 0,
      rf_binary = False, rf_patch = [], rf_class = Unclassified\<rparr>"

record parse_state =
  ps_files :: "review_file list"
  ps_cur :: "review_file option"
  ps_patch :: string
  ps_hunk :: bool

definition flush :: "parse_state \<Rightarrow> review_file list" where
  "flush s = ps_files s @ (case ps_cur s of Some f \<Rightarrow> [f\<lparr>rf_patch := ps_patch s\<rparr>] | None \<Rightarrow> [])"

text \<open>A line of a hunk, and a line of a file's header.\<close>

definition hunk_line :: "string \<Rightarrow> review_file \<Rightarrow> review_file" where
  "hunk_line t f =
     (if prefix ''@@'' t then f
      else if prefix ''+'' t then f\<lparr>rf_added := Suc (rf_added f), rf_binary := (rf_binary f \<or> t = ''+[binary file omitted]'')\<rparr>
      else if prefix ''-'' t then f\<lparr>rf_removed := Suc (rf_removed f)\<rparr>
      else f)"

definition header_line :: "string \<Rightarrow> review_file \<Rightarrow> review_file" where
  "header_line t f =
     (if prefix ''@@'' t then f
      else if prefix ''new file mode'' t then f\<lparr>rf_status := Added\<rparr>
      else if prefix ''deleted file mode'' t then f\<lparr>rf_status := Deleted\<rparr>
      else if prefix ''rename from '' t then f\<lparr>rf_status := Renamed, rf_oldPath := TrimPrefix t ''rename from ''\<rparr>
      else if prefix ''rename to '' t then f\<lparr>rf_path := TrimPrefix t ''rename to ''\<rparr>
      else if prefix ''Binary files '' t \<or> prefix ''GIT binary patch'' t then f\<lparr>rf_binary := True\<rparr>
      else if prefix ''+++ '' t
      then (let p = TrimPrefix (drop 4 t) ''b/'' in if p \<noteq> ''/dev/null'' then f\<lparr>rf_path := p\<rparr> else f)
      else f)"

definition opens_file :: "string \<Rightarrow> bool" where
  "opens_file line \<longleftrightarrow> prefix ''diff --git '' (trim_feeds line)"

definition parse_line :: "string \<Rightarrow> parse_state \<Rightarrow> parse_state" where
  "parse_line line s0 =
     (let t = trim_feeds line;
          s = (if opens_file line then \<lparr>ps_files = flush s0, ps_cur = Some (new_file t), ps_patch = [], ps_hunk = False\<rparr> else s0)
      in case ps_cur s of
           None \<Rightarrow> s
         | Some f \<Rightarrow>
             if ps_hunk s then s\<lparr>ps_patch := ps_patch s @ line, ps_cur := Some (hunk_line t f)\<rparr>
             else s\<lparr>ps_patch := ps_patch s @ line, ps_cur := Some (header_line t f), ps_hunk := prefix ''@@'' t\<rparr>)"

definition truncation_mark :: string where
  "truncation_mark = [line_feed] @ ''[diff truncated]'' @ [line_feed]"

definition ParseDiff :: "string \<Rightarrow> review_file list" where
  "ParseDiff diff =
     (let files = flush (fold parse_line (split_after diff) \<lparr>ps_files = [], ps_cur = None, ps_patch = [], ps_hunk = False\<rparr>) in
      if files \<noteq> [] \<and> diff \<noteq> [] \<and> last diff \<noteq> line_feed
      then butlast files @ [(last files)\<lparr>rf_patch := rf_patch (last files) @ truncation_mark\<rparr>] else files)"

section \<open>Classes\<close>

definition codeExtensions :: "string list" where
  "codeExtensions = [''.go'', ''.ts'', ''.tsx'', ''.js'', ''.jsx'', ''.mjs'', ''.cjs'', ''.py'', ''.rb'', ''.rs'', ''.java'', ''.kt'', ''.kts'', ''.scala'',
     ''.c'', ''.h'', ''.cc'', ''.cpp'', ''.hpp'', ''.cs'', ''.swift'', ''.m'', ''.php'', ''.lua'', ''.ex'', ''.exs'', ''.erl'', ''.hs'', ''.clj'',
     ''.sh'', ''.bash'', ''.zsh'', ''.fish'', ''.ps1'', ''.sql'', ''.proto'', ''.graphql'', ''.gql'', ''.tf'', ''.hcl'',
     ''.bzl'', ''.mk'', ''.cmake'', ''.gradle'', ''.vue'', ''.svelte'']"

definition codeNames :: "string list" where
  "codeNames = [''Makefile'', ''makefile'', ''GNUmakefile'', ''Dockerfile'', ''Containerfile'', ''BUILD'', ''BUILD.bazel'', ''WORKSPACE'', ''MODULE.bazel'',
     ''Justfile'', ''Rakefile'', ''Gemfile'', ''Jenkinsfile'', ''Taskfile'', ''go.mod'', ''CMakeLists.txt'', ''Vagrantfile'']"

definition assetExtensions :: "string list" where
  "assetExtensions = [''.svg'', ''.png'', ''.jpg'', ''.jpeg'', ''.gif'', ''.webp'', ''.ico'', ''.bmp'', ''.tiff'', ''.pdf'', ''.woff'', ''.woff2'', ''.ttf'',
     ''.otf'', ''.eot'', ''.mp3'', ''.mp4'', ''.mov'', ''.wav'', ''.zip'', ''.gz'', ''.tar'', ''.jar'', ''.wasm'']"

definition lockfiles :: "string list" where
  "lockfiles = [''package-lock.json'', ''npm-shrinkwrap.json'', ''yarn.lock'', ''pnpm-lock.yaml'', ''bun.lockb'', ''go.sum'', ''Cargo.lock'', ''poetry.lock'',
     ''Pipfile.lock'', ''uv.lock'', ''Gemfile.lock'', ''composer.lock'', ''mix.lock'', ''flake.lock'', ''MODULE.bazel.lock'', ''gradle.lockfile'',
     ''packages.lock.json'', ''Podfile.lock'']"

definition generatedMarkers :: "string list" where
  "generatedMarkers = [''code generated'', ''do not edit'', ''@generated'', ''autogenerated'', ''auto-generated'']"

definition generatedSuffixes :: "string list" where
  "generatedSuffixes = [''.pb.go'', ''.pb.gw.go'', ''_pb2.py'', ''_pb2_grpc.py'', ''.pb.ts'', ''_pb.ts'', ''_pb.js'', ''.gen.go'', ''.generated.go'',
     ''_generated.go'', ''.min.js'', ''.min.css'', ''.map'', ''.snap'']"

definition generatedDirs :: "string list" where
  "generatedDirs = [''dist/'', ''build/'', ''vendor/'', ''node_modules/'', ''gen/'', ''generated/'', ''__generated__/'', ''third_party/'']"

definition in_dir :: "string list \<Rightarrow> string \<Rightarrow> bool" where
  "in_dir dirs p \<longleftrightarrow> list_ex (\<lambda>d. prefix d p \<or> str_contains p (''/'' @ d)) dirs"

text \<open>The markers are looked for in the first five added lines.\<close>

definition generated :: "(string \<Rightarrow> string) \<Rightarrow> review_file \<Rightarrow> bool" where
  "generated uni f \<longleftrightarrow>
     (let lower = ToLower uni (rf_path f);
          adds = take 5 (filter (\<lambda>l. prefix ''+'' l \<and> \<not> prefix ''+++'' l) (split_byte line_feed (rf_patch f)))
      in list_ex (\<lambda>s. suffix s lower) generatedSuffixes \<or> in_dir generatedDirs lower
         \<or> list_ex (\<lambda>l. list_ex (str_contains (ToLower uni l)) generatedMarkers) adds)"

text \<open>\<^verbatim>\<open>path.Ext\<close> of a last path element.\<close>

definition path_Ext :: "string \<Rightarrow> string" where
  "path_Ext p =
     (let tail = takeWhile (\<lambda>c. c \<noteq> CHR 0x2E) (rev (last (split_byte slash p))) in
      if length tail < length (last (split_byte slash p)) then CHR 0x2E # rev tail else [])"

definition class_of :: "(string \<Rightarrow> string) \<Rightarrow> review_file \<Rightarrow> file_class" where
  "class_of uni f =
     (let name = Base (rf_path f); ext = ToLower uni (path_Ext name) in
      if rf_binary f then BinaryC
      else if name \<in> set lockfiles then Lockfile
      else if ext \<in> set assetExtensions then Asset
      else if generated uni f then Generated
      else if ext \<in> set codeExtensions \<or> name \<in> set codeNames \<or> suffix ''.mk'' name then Code
      else Other)"

definition Classify :: "(string \<Rightarrow> string) \<Rightarrow> review_file \<Rightarrow> review_file" where
  "Classify uni f = f\<lparr>rf_class := class_of uni f\<rparr>"

definition status_name :: "file_status \<Rightarrow> string" where
  "status_name s = (case s of Added \<Rightarrow> ''added'' | Modified \<Rightarrow> ''modified'' | Deleted \<Rightarrow> ''deleted'' | Renamed \<Rightarrow> ''renamed'')"

definition class_name :: "file_class \<Rightarrow> string" where
  "class_name c =
     (case c of Unclassified \<Rightarrow> [] | Code \<Rightarrow> ''code'' | Asset \<Rightarrow> ''asset'' | Lockfile \<Rightarrow> ''lockfile'' | Generated \<Rightarrow> ''generated''
      | BinaryC \<Rightarrow> ''binary'' | Other \<Rightarrow> ''other'')"

definition file_Summary :: "review_file \<Rightarrow> string" where
  "file_Summary f =
     rf_path f @ '' ('' @ status_name (rf_status f) @ '', '' @ class_name (rf_class f)
       @ (if rf_binary f then '', binary'' else '', +'' @ itoa_nat (rf_added f) @ ''/-'' @ itoa_nat (rf_removed f)) @ '')''"

section \<open>Size and tests\<close>

definition unread :: "file_class \<Rightarrow> bool" where
  "unread c \<longleftrightarrow> c \<in> {Asset, Lockfile, Generated, BinaryC}"

definition ReviewedSize :: "review_file list \<Rightarrow> nat \<times> nat" where
  "ReviewedSize files =
     (let rs = filter (\<lambda>f. \<not> unread (rf_class f)) files in (sum_list (map (\<lambda>f. rf_added f + rf_removed f) rs), length rs))"

definition CascadeMaxLines :: nat where "CascadeMaxLines = 400"

definition CascadeMaxFiles :: nat where "CascadeMaxFiles = 10"

definition Large :: "review_file list \<Rightarrow> bool" where
  "Large files \<longleftrightarrow> fst (ReviewedSize files) > CascadeMaxLines \<or> snd (ReviewedSize files) > CascadeMaxFiles"

definition isTestFile :: "(string \<Rightarrow> string) \<Rightarrow> string \<Rightarrow> bool" where
  "isTestFile uni p \<longleftrightarrow>
     (let lower = ToLower uni p; name = Base lower in
      suffix ''_test.go'' name \<or> suffix ''_test.py'' name \<or> prefix ''test_'' name \<or> str_contains name ''.test.'' \<or> str_contains name ''.spec.''
      \<or> suffix ''_spec.rb'' name \<or> in_dir [''test/'', ''tests/'', ''__tests__/'', ''spec/'', ''testdata/''] lower)"

definition TouchesTests :: "(string \<Rightarrow> string) \<Rightarrow> review_file list \<Rightarrow> bool" where
  "TouchesTests uni files \<longleftrightarrow>
     list_ex (\<lambda>f. isTestFile uni (rf_path f) \<and> (rf_status f = Deleted \<or> rf_removed f > 0)
       \<or> rf_oldPath f \<noteq> [] \<and> isTestFile uni (rf_oldPath f) \<and> \<not> isTestFile uni (rf_path f)) files"

section \<open>The files of a diff\<close>

lemma concat_split_after: "concat (split_after s) = s"
  by (induction s) (auto split: list.splits)

lemma flush_cur: "ps_cur s = Some f \<Longrightarrow> concat (map rf_patch (flush s)) = concat (map rf_patch (ps_files s)) @ ps_patch s"
  by (simp add: flush_def)

lemma parse_line_step:
  assumes "ps_cur s \<noteq> None \<or> opens_file l" and "ps_cur s = None \<Longrightarrow> ps_patch s = []"
  shows "ps_cur (parse_line l s) \<noteq> None" and "concat (map rf_patch (flush (parse_line l s))) = concat (map rf_patch (flush s)) @ l"
    and "length (flush (parse_line l s)) = length (flush s) + (if opens_file l then 1 else 0)"
  using assms by (cases "ps_cur s"; simp add: parse_line_def Let_def flush_def)+

lemma parse_line_skip: "ps_cur s = None \<Longrightarrow> \<not> opens_file l \<Longrightarrow> parse_line l s = s"
  by (simp add: parse_line_def Let_def)

lemma parse_lines_open:
  "ps_cur s \<noteq> None \<Longrightarrow> concat (map rf_patch (flush (fold parse_line ls s))) = concat (map rf_patch (flush s)) @ concat ls
     \<and> length (flush (fold parse_line ls s)) = length (flush s) + length (filter opens_file ls)"
proof (induction ls arbitrary: s)
  case (Cons l ls)
  have "ps_cur (parse_line l s) \<noteq> None" by (rule parse_line_step) (use Cons.prems in simp_all)
  from Cons.IH [OF this] parse_line_step(2,3) [of s l] Cons.prems show ?case by simp
qed simp

lemma parse_lines_start:
  "ps_cur s = None \<Longrightarrow> ps_patch s = [] \<Longrightarrow> concat (map rf_patch (flush (fold parse_line ls s)))
       = concat (map rf_patch (ps_files s)) @ concat (dropWhile (\<lambda>l. \<not> opens_file l) ls)
     \<and> length (flush (fold parse_line ls s)) = length (ps_files s) + length (filter opens_file ls)"
proof (induction ls arbitrary: s)
  case (Cons l ls)
  show ?case
  proof (cases "opens_file l")
    case True
    have "ps_cur (parse_line l s) \<noteq> None" by (rule parse_line_step) (use Cons.prems True in simp_all)
    from parse_lines_open [OF this] parse_line_step(2,3) [of s l] Cons.prems True show ?thesis by (simp add: flush_def)
  qed (use Cons parse_line_skip in simp)
qed (simp add: flush_def)

text \<open>
  Claim C40.  Reading a diff loses nothing. The patches of the files, one after the other, are the diff
  from its first file header on, and a mark when the diff ends within a line; there is one file for every
  header line, whatever the lines of the hunks look like.
\<close>

theorem parse_diff_partition:
  "concat (map rf_patch (ParseDiff diff)) = concat (dropWhile (\<lambda>l. \<not> opens_file l) (split_after diff))
       @ (if ParseDiff diff \<noteq> [] \<and> last diff \<noteq> line_feed then truncation_mark else [])
     \<and> length (ParseDiff diff) = length (filter opens_file (split_after diff)) \<and> concat (split_after diff) = diff"
proof -
  define files where "files = flush (fold parse_line (split_after diff) \<lparr>ps_files = [], ps_cur = None, ps_patch = [], ps_hunk = False\<rparr>)"
  have f: "concat (map rf_patch files) = concat (dropWhile (\<lambda>l. \<not> opens_file l) (split_after diff))" "length files = length (filter opens_file (split_after diff))"
    using parse_lines_start [of "\<lparr>ps_files = [], ps_cur = None, ps_patch = [], ps_hunk = False\<rparr>" "split_after diff"] by (simp_all add: files_def)
  have d: "diff \<noteq> []" if "files \<noteq> []"
  proof
    assume "diff = []"
    with that show False by (simp add: files_def parse_line_def flush_def opens_file_def trim_feeds_def)
  qed
  show ?thesis
  proof (cases "files \<noteq> [] \<and> last diff \<noteq> line_feed")
    case True
    then have p: "ParseDiff diff = butlast files @ [(last files)\<lparr>rf_patch := rf_patch (last files) @ truncation_mark\<rparr>]"
      using d by (simp add: ParseDiff_def Let_def files_def [symmetric])
    have "concat (map rf_patch files) = concat (map rf_patch (butlast files @ [last files]))" using True by simp
    then have "concat (map rf_patch (ParseDiff diff)) = concat (map rf_patch files) @ truncation_mark" by (simp add: p)
    moreover have "length (ParseDiff diff) = length files" "ParseDiff diff \<noteq> []" using True by (simp_all add: p)
    ultimately show ?thesis using f True by (simp add: concat_split_after)
  next
    case False
    then have "ParseDiff diff = files" using d by (auto simp: ParseDiff_def Let_def files_def [symmetric])
    then show ?thesis using f False by (auto simp: concat_split_after)
  qed
qed

end
