(* ===== verification/Review_Plan.thy ===== *)
theory Review_Plan
  imports Review_Diff
begin

text \<open>
  The plan of an independent review (\<^verbatim>\<open>internal/review/plan.go\<close>, \<^verbatim>\<open>jev.go\<close>, \<^verbatim>\<open>cascade.go\<close>): which files are read
  in full, how they are packed into the shards of several reviewers, what a reviewer is told, and how the verdicts of the
  reviewers are merged. The classifier's answers, and how \<^verbatim>\<open>fmt\<close> prints a score, are parameters.
\<close>

section \<open>The classifier\<close>

record file_question =
  fq_task :: string
  fq_file :: string
  fq_change :: string
  fq_kind :: string
  fq_added :: nat
  fq_removed :: nat
  fq_patch :: string

record verification =
  vf_command :: string
  vf_output :: string

record gate_question =
  gq_task :: string
  gq_files :: "string list"
  gq_patch :: string
  gq_commands :: "verification list"

text \<open>An answer is an error, or a probability that may be missing.\<close>

record jev_client =
  jc_file :: "file_question \<Rightarrow> string + float64 option"
  jc_gate :: "gate_question \<Rightarrow> string + float64 option"

definition clip :: "string \<Rightarrow> nat \<Rightarrow> string" where
  "clip s n = (if length s \<le> n then s else take n s @ [CHR 0xE2, CHR 0x80, CHR 0xA6])"

definition needsReviewChars :: nat where "needsReviewChars = 8000"

definition riskChars :: nat where "riskChars = 40000"

definition fileState :: "string \<Rightarrow> review_file \<Rightarrow> nat \<Rightarrow> file_question" where
  "fileState task f limit =
     \<lparr>fq_task = clip task 4000, fq_file = rf_path f, fq_change = status_name (rf_status f), fq_kind = class_name (rf_class f),
      fq_added = rf_added f, fq_removed = rf_removed f, fq_patch = clip (rf_patch f) limit\<rparr>"

definition answer_score :: "string \<Rightarrow> string + float64 option \<Rightarrow> string + float64" where
  "answer_score name a =
     (case a of Inl err \<Rightarrow> Inl err | Inr None \<Rightarrow> Inl (''jev: answer '' @ name @ '' has no probability'') | Inr (Some v) \<Rightarrow> Inr v)"

text \<open>One question per item; the first failure fails the batch.\<close>

definition each :: "string \<Rightarrow> (string + float64 option) list \<Rightarrow> string + float64 list" where
  "each name answers =
     (let outs = map (answer_score name) answers in
      case List.find isl outs of Some out \<Rightarrow> Inl (projl out) | None \<Rightarrow> Inr (map projr outs))"

definition NeedsReview :: "jev_client \<Rightarrow> string \<Rightarrow> review_file list \<Rightarrow> string + float64 list" where
  "NeedsReview j task files = each ''needs_review'' (map (\<lambda>f. jc_file j (fileState task f needsReviewChars)) files)"

definition Gate :: "jev_client \<Rightarrow> string \<Rightarrow> review_file list \<Rightarrow> verification list \<Rightarrow> string + float64" where
  "Gate j task files evidence =
     (let patch = fold (\<lambda>f p. if length p < riskChars then p @ rf_patch f else p) files [] in
      answer_score ''approve'' (jc_gate j \<lparr>gq_task = clip task 4000, gq_files = map file_Summary files, gq_patch = clip patch riskChars,
        gq_commands = map (\<lambda>v. \<lparr>vf_command = vf_command v, vf_output = clip (vf_output v) 2000\<rparr>) evidence\<rparr>))"

section \<open>Options\<close>

record review_options =
  op_shardChars :: int
  op_maxShards :: int
  op_cutoff :: float64

definition defaultNeedsReviewCutoff :: float64 where
  "defaultNeedsReviewCutoff = fl (35 / 100)"

definition withDefaults :: "review_options \<Rightarrow> review_options" where
  "withDefaults opts =
     \<lparr>op_shardChars = (if op_shardChars opts \<le> 0 then 60000 else op_shardChars opts),
      op_maxShards = (if op_maxShards opts \<le> 0 then 4 else op_maxShards opts),
      op_cutoff = (if op_cutoff opts \<le> 0 then defaultNeedsReviewCutoff else op_cutoff opts)\<rparr>"

section \<open>Decisions\<close>

record review_decision =
  de_file :: review_file
  de_included :: bool
  de_reason :: string
  de_score :: "float64 option"

record shard =
  sh_files :: "review_file list"
  sh_chars :: int
  sh_truncated :: "string list"

record review_plan =
  pl_decisions :: "review_decision list"
  pl_shards :: "shard list"
  pl_skip :: bool
  pl_skipReason :: string
  pl_turns :: int
  pl_error :: string

definition plan_Included :: "review_decision list \<Rightarrow> review_file list" where
  "plan_Included ds = map de_file (filter de_included ds)"

definition Summarized :: "review_decision list \<Rightarrow> review_decision list" where
  "Summarized ds = filter (\<lambda>d. \<not> de_included d) ds"

definition judged :: "review_file \<Rightarrow> bool" where
  "judged f \<longleftrightarrow> rf_class f \<noteq> Code \<and> \<not> unread (rf_class f) \<and> rf_status f \<noteq> Deleted"

definition first_decision :: "review_file \<Rightarrow> review_decision" where
  "first_decision f =
     (if rf_class f = Code then \<lparr>de_file = f, de_included = True, de_reason = ''code is always reviewed'', de_score = None\<rparr>
      else if unread (rf_class f)
      then \<lparr>de_file = f, de_included = False, de_reason = class_name (rf_class f) @ '' files are summarised'', de_score = None\<rparr>
      else if rf_status f = Deleted then \<lparr>de_file = f, de_included = False, de_reason = ''deleted non-code file'', de_score = None\<rparr>
      else \<lparr>de_file = f, de_included = True, de_reason = ''reviewed without a classifier'', de_score = None\<rparr>)"

definition scored_decision :: "(float64 \<Rightarrow> string) \<Rightarrow> review_options \<Rightarrow> review_decision \<Rightarrow> float64 \<Rightarrow> review_decision" where
  "scored_decision fmt opts d score =
     d\<lparr>de_score := Some score, de_included := (score \<ge> op_cutoff opts),
       de_reason := (if score \<ge> op_cutoff opts then ''classifier: needs review ('' @ fmt score @ '')''
         else ''classifier: prose, data, or configuration without behavioural risk ('' @ fmt score @ '')'')\<rparr>"

text \<open>The scores go to the judged files in order; there is one for each.\<close>

fun score_decisions :: "(float64 \<Rightarrow> string) \<Rightarrow> review_options \<Rightarrow> review_decision list \<Rightarrow> float64 list \<Rightarrow> review_decision list" where
  "score_decisions fmt opts [] scores = []"
| "score_decisions fmt opts (d # ds) scores =
     (if judged (de_file d)
      then (case scores of s # ss \<Rightarrow> scored_decision fmt opts d s # score_decisions fmt opts ds ss | [] \<Rightarrow> d # score_decisions fmt opts ds [])
      else d # score_decisions fmt opts ds scores)"

section \<open>Packing\<close>

definition topDir :: "string \<Rightarrow> string" where
  "topDir p = (case str_index p ''/'' of Some i \<Rightarrow> take i p | None \<Rightarrow> ''.'')"

definition cut_mark :: string where
  "cut_mark = [line_feed] @ ''[patch truncated to fit the review; read the file for the rest]'' @ [line_feed]"

definition omitted_mark :: string where
  "omitted_mark = ''[patch omitted: the review exceeds its reviewer budget; read the file directly]'' @ [line_feed]"

definition empty_shard :: shard where
  "empty_shard = \<lparr>sh_files = [], sh_chars = 0, sh_truncated = []\<rparr>"

definition cut_patch :: "review_options \<Rightarrow> string \<Rightarrow> string" where
  "cut_patch opts p = (if int (length p) > op_shardChars opts then take (nat (op_shardChars opts)) p @ cut_mark else p)"

definition add_to :: "review_options \<Rightarrow> review_file \<Rightarrow> shard \<Rightarrow> shard" where
  "add_to opts f s =
     (let patch = cut_patch opts (rf_patch f) in
      \<lparr>sh_files = sh_files s @ [f\<lparr>rf_patch := patch\<rparr>], sh_chars = sh_chars s + int (length patch),
       sh_truncated = sh_truncated s @ (if int (length (rf_patch f)) > op_shardChars opts then [rf_path f] else [])\<rparr>)"

definition add_file :: "review_options \<Rightarrow> review_file \<Rightarrow> shard list \<Rightarrow> shard list" where
  "add_file opts f shards =
     (let n = int (length (cut_patch opts (rf_patch f))) in
      if shards = [] \<or> sh_chars (last shards) + n > op_shardChars opts then shards @ [add_to opts f empty_shard]
      else butlast shards @ [add_to opts f (last shards)])"

definition dir_keys :: "review_file list \<Rightarrow> string list" where
  "dir_keys fs = fold (\<lambda>f ks. if topDir (rf_path f) \<in> set ks then ks else ks @ [topDir (rf_path f)]) fs []"

definition add_group :: "review_options \<Rightarrow> review_file list \<Rightarrow> shard list \<Rightarrow> shard list" where
  "add_group opts fs shards =
     (let size = sum_list (map (\<lambda>f. min (int (length (rf_patch f))) (op_shardChars opts)) fs) in
      fold (add_file opts) fs
        (if shards \<noteq> [] \<and> sh_chars (last shards) + size > op_shardChars opts \<and> size \<le> op_shardChars opts then shards @ [empty_shard] else shards))"

definition pack_shards :: "review_options \<Rightarrow> review_file list \<Rightarrow> shard list" where
  "pack_shards opts included =
     filter (\<lambda>s. sh_files s \<noteq> [])
       (fold (\<lambda>k. add_group opts (filter (\<lambda>f. topDir (rf_path f) = k) included)) (dir_keys included) [])"

text \<open>The files that may be summarised to keep within the number of reviewers, by position, least likely to need review first.\<close>

definition drop_candidates :: "review_decision list \<Rightarrow> (nat \<times> float64) list" where
  "drop_candidates ds =
     sort_key snd (map (\<lambda>(i, d). (i, case de_score d of Some s \<Rightarrow> s | None \<Rightarrow> 1))
       (filter (\<lambda>(i, d). de_included d \<and> rf_class (de_file d) \<noteq> Code) (enumerate 0 ds)))"

definition summarise :: "review_decision \<Rightarrow> review_decision" where
  "summarise d = d\<lparr>de_included := False, de_reason := ''summarised to keep the review within its reviewer budget''\<rparr>"

definition merge_rest :: "review_options \<Rightarrow> shard list \<Rightarrow> shard list" where
  "merge_rest opts shards =
     (let n = nat (op_maxShards opts); rest = concat (map sh_files (drop n shards)); l = shards ! (n - 1) in
      take (n - 1) shards @
        [l\<lparr>sh_files := sh_files l @ map (\<lambda>f. f\<lparr>rf_patch := omitted_mark\<rparr>) rest, sh_truncated := sh_truncated l @ map rf_path rest\<rparr>])"

definition droppable :: "review_decision \<Rightarrow> bool" where
  "droppable d \<longleftrightarrow> de_included d \<and> rf_class (de_file d) \<noteq> Code"

lemma drop_candidates_droppable:
  assumes "drop_candidates ds = (i, s) # cs"
  shows "i < length ds \<and> droppable (ds ! i)"
proof -
  have "(i, s) \<in> set (drop_candidates ds)" using assms by simp
  then obtain d where "(i, d) \<in> set (enumerate 0 ds)" "droppable d" by (auto simp: drop_candidates_def droppable_def)
  then show ?thesis by (auto simp: in_set_enumerate_eq)
qed

lemma fewer_droppable:
  assumes "i < length ds" and "droppable (ds ! i)"
  shows "length (filter droppable (ds[i := summarise (ds ! i)])) < length (filter droppable ds)"
proof -
  have "ds = take i ds @ ds ! i # drop (Suc i) ds" using assms(1) by (rule id_take_nth_drop)
  then have "length (filter droppable ds) = length (filter droppable (take i ds @ ds ! i # drop (Suc i) ds))" by simp
  moreover have "\<not> droppable (summarise (ds ! i))" by (simp add: droppable_def summarise_def)
  ultimately show ?thesis using assms by (simp add: upd_conv_take_nth_drop)
qed

function pack :: "review_options \<Rightarrow> review_file list \<Rightarrow> review_decision list \<Rightarrow> shard list \<times> review_decision list" where
  "pack opts included ds =
     (let shards = pack_shards opts included in
      if int (length shards) \<le> op_maxShards opts then (shards, ds)
      else case drop_candidates ds of
        [] \<Rightarrow> (merge_rest opts shards, ds)
      | (i, _) # _ \<Rightarrow> let ds' = ds[i := summarise (ds ! i)] in pack opts (plan_Included ds') ds')"
  by pat_completeness auto
termination
  by (relation "measure (\<lambda>(opts, included, ds). length (filter droppable ds))")
    (auto dest!: drop_candidates_droppable intro: fewer_droppable)

declare pack.simps [simp del]

section \<open>Plans\<close>

definition planned_turns :: "shard list \<Rightarrow> int" where
  "planned_turns shards = min 16 (6 + fold max (map sh_chars shards) 0 div 15000)"

definition Build :: "(string \<Rightarrow> string) \<Rightarrow> (float64 \<Rightarrow> string) \<Rightarrow> review_file list \<Rightarrow> string \<Rightarrow> jev_client option \<Rightarrow> review_options \<Rightarrow> review_plan" where
  "Build uni fmt files task c opts0 =
     (let opts = withDefaults opts0; ds0 = map (first_decision \<circ> Classify uni) files; batch = filter judged (map de_file ds0);
          (ds, err) = (case c of
             Some j \<Rightarrow> if batch = [] then (ds0, [])
               else (case NeedsReview j task batch of Inl e \<Rightarrow> (ds0, ''needs-review: '' @ e) | Inr scores \<Rightarrow> (score_decisions fmt opts ds0 scores, []))
           | None \<Rightarrow> (ds0, []))
      in if plan_Included ds = []
         then \<lparr>pl_decisions = ds, pl_shards = [], pl_skip = True,
               pl_skipReason = ''no reviewable changes: all '' @ itoa_nat (length files) @ '' changed files are summarised'', pl_turns = 0, pl_error = err\<rparr>
         else (case pack opts (plan_Included ds) ds of
           (shards, ds') \<Rightarrow> \<lparr>pl_decisions = ds', pl_shards = shards, pl_skip = False, pl_skipReason = [], pl_turns = planned_turns shards, pl_error = err\<rparr>))"

section \<open>Instructions\<close>

definition feed :: "string \<Rightarrow> string" where
  "feed s = s @ [line_feed]"

definition patch_text :: "review_file \<Rightarrow> string" where
  "patch_text f = (if suffix [line_feed] (rf_patch f) then rf_patch f else feed (rf_patch f))"

definition plan_Spec :: "review_plan \<Rightarrow> nat \<Rightarrow> string" where
  "plan_Spec p i =
     (let s = pl_shards p ! i; out = Summarized (pl_decisions p) in
      feed ''Review this proposed workspace diff. Report only correctness bugs introduced by the patch. Return JSON with pass=true only if there are no correctness findings.''
      @ (if length (pl_shards p) > 1
         then feed [] @ feed (''This is part '' @ itoa_nat (Suc i) @ '' of '' @ itoa_nat (length (pl_shards p)) @ '' of one review; other reviewers cover the other parts. ''
           @ ''Focus on the files below, and read other changed files only when a finding depends on them.'')
         else [])
      @ feed [] @ feed ''FILES IN THIS REVIEW'' @ concat (map (\<lambda>f. feed (''- '' @ file_Summary f)) (sh_files s))
      @ (if out \<noteq> []
         then feed [] @ feed ''ALSO CHANGED, NOT SHOWN (read a file directly if a finding depends on it)''
           @ concat (map (\<lambda>d. feed (''- '' @ file_Summary (de_file d) @ '': '' @ de_reason d)) out)
         else [])
      @ (if sh_truncated s \<noteq> [] then feed [] @ feed (''TRUNCATED PATCHES (read these files for the full change): '' @ join_str '', '' (sh_truncated s)) else [])
      @ feed [] @ feed ''DIFF'' @ concat (map patch_text (sh_files s)))"

definition LightMarker :: string where
  "LightMarker = ''Review this proposed workspace diff (light review).''"

definition light_rules :: string where
  "light_rules =
     feed (LightMarker @ '' Decide quickly from the request, the commands already run, and the diff below; read a file only when the diff alone is not enough.'') @ feed []
     @ feed ''Return JSON with one of three outcomes:''
     @ feed ''- approve: pass=true, findings=[]. The change is correct for its request.''
     @ feed (''- reject: pass=false, findings listing each concrete correctness bug the patch introduces, with the file, the line, and the input or case that breaks. ''
         @ ''Reject only for a bug you can point to.'')
     @ feed (''- escalate: escalate=true, pass=false, findings=[], and escalate_reason saying what needs checking. Use it when you suspect a problem but cannot confirm it, ''
         @ ''or when judging the change needs more code than this review allows. A deeper review follows.'')
     @ feed (''Style, naming, and missing tests are not correctness bugs. Deleting or weakening tests is fine when the request calls for it or the tests were wrong; ''
         @ ''reject or escalate when it hides a regression.'')"

definition LightSpec :: "string \<Rightarrow> review_file list \<Rightarrow> verification list \<Rightarrow> string" where
  "LightSpec task files evidence =
     light_rules @ feed [] @ feed ''REQUEST'' @ feed (clip task 4000)
     @ (if evidence \<noteq> []
        then feed [] @ feed ''COMMANDS RUN SINCE THE LAST EDIT'' @ concat (map (\<lambda>v. feed (''$ '' @ vf_command v) @ feed (clip (vf_output v) 2000)) evidence)
        else [])
     @ feed [] @ feed ''FILES'' @ concat (map (\<lambda>f. feed (''- '' @ file_Summary f)) files)
     @ feed [] @ feed ''DIFF'' @ concat (map patch_text files)"

text \<open>Whether every file is prose or an asset, the scores asked for by path, and why not.\<close>

definition ProseOnly :: "(float64 \<Rightarrow> string) \<Rightarrow> jev_client \<Rightarrow> string \<Rightarrow> review_file list \<Rightarrow> bool \<times> (string \<rightharpoonup> float64) \<times> string" where
  "ProseOnly fmt j task files =
     (case List.find (\<lambda>f. rf_class f = Code) files of
        Some f \<Rightarrow> (False, Map.empty, ''code changed: '' @ rf_path f)
      | None \<Rightarrow>
          let others = filter (\<lambda>f. \<not> unread (rf_class f)) files in
          if others = [] then (True, Map.empty, [])
          else case NeedsReview j task others of
            Inl err \<Rightarrow> (False, Map.empty, ''needs-review: '' @ err)
          | Inr scores \<Rightarrow>
              let why = (case List.find (\<lambda>(f, s). s \<ge> defaultNeedsReviewCutoff) (zip others scores) of
                           Some (f, s) \<Rightarrow> rf_path f @ '' changes behaviour ('' @ fmt s @ '')'' | None \<Rightarrow> [])
              in (why = [], map_of (rev (zip (map rf_path others) scores)), why))"

section \<open>Verdicts\<close>

record verdict =
  vd_shard :: nat
  vd_conclusive :: bool
  vd_pass :: bool
  vd_findings :: "string list"
  vd_accepted :: string
  vd_escalate :: bool
  vd_reason :: string
  vd_error :: string

record review_outcome =
  oc_pass :: bool
  oc_inconclusive :: bool
  oc_findings :: "string list"
  oc_notes :: "string list"
  oc_verdicts :: "verdict list"

definition merge_one :: "nat \<Rightarrow> verdict \<Rightarrow> review_outcome \<Rightarrow> review_outcome" where
  "merge_one parts v out =
     (if vd_accepted v \<noteq> [] then out\<lparr>oc_notes := oc_notes out @ [vd_accepted v]\<rparr>
      else if \<not> vd_conclusive v then out\<lparr>oc_inconclusive := True, oc_pass := False\<rparr>
      else if \<not> vd_pass v
      then out\<lparr>oc_pass := False, oc_findings := oc_findings out
             @ map (\<lambda>f. if parts > 1 then ''[part '' @ itoa_nat (Suc (vd_shard v)) @ ''] '' @ f else f) (vd_findings v)\<rparr>
      else out)"

definition Merge :: "review_plan \<Rightarrow> verdict list \<Rightarrow> review_outcome" where
  "Merge plan verdicts =
     (let out = fold (merge_one (length (pl_shards plan))) verdicts
            \<lparr>oc_pass = True, oc_inconclusive = False, oc_findings = [], oc_notes = [], oc_verdicts = verdicts\<rparr>
      in if oc_inconclusive out then out\<lparr>oc_pass := False\<rparr> else out)"

end
