(* ===== verification/Review_Props.thy ===== *)
theory Review_Props
  imports Review_Plan
begin

text \<open>
  Properties of review plans: every changed file has its decision, code is always read, the shards
  share out the included files within their budgets, and what a reviewer is not shown in full is named.
\<close>

section \<open>Packing keeps the files\<close>

definition bare :: "review_file \<Rightarrow> review_file" where
  "bare f = f\<lparr>rf_patch := []\<rparr>"

definition shard_files :: "shard list \<Rightarrow> review_file list" where
  "shard_files shards = concat (map sh_files shards)"

text \<open>A shard names every file it does not show in full.\<close>

definition honest :: "review_file set \<Rightarrow> shard \<Rightarrow> bool" where
  "honest fs s \<longleftrightarrow> (\<forall>g \<in> set (sh_files s). g \<in> fs \<or> rf_path g \<in> set (sh_truncated s))"

definition shard_fits :: "review_options \<Rightarrow> shard \<Rightarrow> bool" where
  "shard_fits opts s \<longleftrightarrow> 0 \<le> sh_chars s \<and> sh_chars s \<le> op_shardChars opts + int (length cut_mark)"

lemma bare_cut [simp]: "bare (f\<lparr>rf_patch := p\<rparr>) = bare f"
  by (simp add: bare_def)

lemma add_file_files:
  "map bare (shard_files (add_file opts f shards)) = map bare (shard_files shards) @ [bare f]"
proof (cases "shards = []")
  case True
  then show ?thesis by (simp add: add_file_def shard_files_def add_to_def empty_shard_def Let_def)
next
  case False
  then have "shard_files shards = shard_files (butlast shards) @ sh_files (last shards)"
    by (metis (no_types, lifting) append_butlast_last_id concat.simps concat_append list.simps(8,9) map_append shard_files_def append_Nil2)
  with False show ?thesis by (simp add: add_file_def shard_files_def add_to_def empty_shard_def Let_def)
qed

lemma add_files_files: "map bare (shard_files (fold (add_file opts) fs shards)) = map bare (shard_files shards) @ map bare fs"
  by (induction fs arbitrary: shards) (simp_all add: add_file_files)

lemma add_group_files: "map bare (shard_files (add_group opts fs shards)) = map bare (shard_files shards) @ map bare fs"
  by (simp add: add_group_def Let_def add_files_files) (simp add: shard_files_def empty_shard_def)

lemma shard_files_filter: "shard_files (filter (\<lambda>s. sh_files s \<noteq> []) shards) = shard_files shards"
  by (induction shards) (simp_all add: shard_files_def)

lemma add_groups_files:
  "map bare (shard_files (fold (\<lambda>k. add_group opts (g k)) ks shards)) = map bare (shard_files shards) @ map bare (concat (map g ks))"
  by (induction ks arbitrary: shards) (simp_all add: add_group_files)

lemma dir_keys_fold:
  "distinct ks \<Longrightarrow> distinct (fold (\<lambda>f ks. if topDir (rf_path f) \<in> set ks then ks else ks @ [topDir (rf_path f)]) fs ks)
     \<and> set (fold (\<lambda>f ks. if topDir (rf_path f) \<in> set ks then ks else ks @ [topDir (rf_path f)]) fs ks) = set ks \<union> (topDir \<circ> rf_path) ` set fs"
  by (induction fs arbitrary: ks) auto

lemma dir_keys: "distinct (dir_keys fs)" "set (dir_keys fs) = (topDir \<circ> rf_path) ` set fs"
  using dir_keys_fold [of "[]" fs] by (simp_all add: dir_keys_def)

lemma groups_mset:
  assumes "distinct ks" and "h ` set fs \<subseteq> set ks"
  shows "mset (concat (map (\<lambda>k. filter (\<lambda>f. h f = k) fs) ks)) = mset fs"
  using assms
proof (induction ks arbitrary: fs)
  case (Cons k ks)
  let ?rest = "filter (\<lambda>f. h f \<noteq> k) fs"
  have "filter (\<lambda>f. h f = k') fs = filter (\<lambda>f. h f = k') ?rest" if "k' \<in> set ks" for k'
    using that Cons.prems(1) by (auto intro!: filter_cong)
  then have "map (\<lambda>k'. filter (\<lambda>f. h f = k') fs) ks = map (\<lambda>k'. filter (\<lambda>f. h f = k') ?rest) ks" by (intro map_cong) auto
  moreover have "mset (concat (map (\<lambda>k'. filter (\<lambda>f. h f = k') ?rest) ks)) = mset ?rest"
    by (rule Cons.IH) (use Cons.prems in auto)
  moreover have "mset (filter (\<lambda>f. h f = k) fs) + mset ?rest = mset fs" using multiset_partition [of "mset fs" "\<lambda>f. h f = k"] by simp
  ultimately show ?case by (simp only: list.simps concat.simps mset_append)
qed simp

lemma pack_shards_files: "mset (map bare (shard_files (pack_shards opts fs))) = mset (map bare fs)"
proof -
  have "map bare (shard_files (pack_shards opts fs)) = map bare (concat (map (\<lambda>k. filter (\<lambda>f. topDir (rf_path f) = k) fs) (dir_keys fs)))"
    by (simp add: pack_shards_def shard_files_filter add_groups_files) (simp add: shard_files_def)
  moreover have "mset (concat (map (\<lambda>k. filter (\<lambda>f. topDir (rf_path f) = k) fs) (dir_keys fs))) = mset fs"
    by (rule groups_mset) (use dir_keys in auto)
  ultimately show ?thesis by (metis mset_map)
qed

lemma shards_inv:
  assumes step: "\<And>f s. f \<in> F \<Longrightarrow> P s \<Longrightarrow> sh_chars s + int (length (cut_patch opts (rf_patch f))) \<le> op_shardChars opts \<Longrightarrow> P (add_to opts f s)"
    and one: "\<And>f. f \<in> F \<Longrightarrow> P (add_to opts f empty_shard)" and none: "P empty_shard"
  shows "set fs \<subseteq> F \<Longrightarrow> \<forall>s \<in> set shards. P s \<Longrightarrow> \<forall>s \<in> set (add_group opts fs shards). P s"
proof -
  have add: "\<forall>s \<in> set (add_file opts f ss). P s" if "f \<in> F" "\<forall>s \<in> set ss. P s" for f ss
    using that step [of f "last ss"] one [of f] by (auto simp: add_file_def Let_def dest: in_set_butlastD)
  have "\<forall>s \<in> set (fold (add_file opts) fs ss). P s" if "set fs \<subseteq> F" "\<forall>s \<in> set ss. P s" for fs ss
    by (rule fold_invariant [where Q = "\<lambda>f. f \<in> F"]) (use that add in auto)
  note files = this
  assume fs: "set fs \<subseteq> F" "\<forall>s \<in> set shards. P s"
  define start where "start = (if shards \<noteq> [] \<and> sh_chars (last shards) + sum_list (map (\<lambda>f. min (int (length (rf_patch f))) (op_shardChars opts)) fs) > op_shardChars opts
      \<and> sum_list (map (\<lambda>f. min (int (length (rf_patch f))) (op_shardChars opts)) fs) \<le> op_shardChars opts then shards @ [empty_shard] else shards)"
  have "\<forall>s \<in> set start. P s" using fs(2) none by (simp add: start_def)
  from files [OF fs(1) this] show "\<forall>s \<in> set (add_group opts fs shards). P s" by (simp only: add_group_def Let_def start_def)
qed

lemma pack_shards_inv:
  assumes "\<And>f s. f \<in> set fs \<Longrightarrow> P s \<Longrightarrow> sh_chars s + int (length (cut_patch opts (rf_patch f))) \<le> op_shardChars opts \<Longrightarrow> P (add_to opts f s)"
    and "\<And>f. f \<in> set fs \<Longrightarrow> P (add_to opts f empty_shard)" and "P empty_shard"
  shows "\<forall>s \<in> set (pack_shards opts fs). P s"
proof -
  have "\<forall>s \<in> set (fold (\<lambda>k. add_group opts (filter (\<lambda>f. topDir (rf_path f) = k) fs)) ks shards). P s" if "\<forall>s \<in> set shards. P s" for ks shards
  proof (rule fold_invariant [where Q = "\<lambda>_. True"])
    show "\<forall>s \<in> set (add_group opts (filter (\<lambda>f. topDir (rf_path f) = k) fs) ss). P s" if "\<forall>s \<in> set ss. P s" for k ss
      by (rule shards_inv [where F = "set fs" and P = P, OF assms]) (use that in auto)
  qed (use that in simp_all)
  from this [of "[]" "dir_keys fs"] show ?thesis by (auto simp: pack_shards_def)
qed

lemma honest_add: "f \<in> fs \<Longrightarrow> honest fs s \<Longrightarrow> honest fs (add_to opts f s)"
  by (auto simp: honest_def add_to_def cut_patch_def Let_def)

lemma pack_shards_honest: "\<forall>s \<in> set (pack_shards opts fs). honest (set fs) s"
proof -
  have "honest (set fs) empty_shard" by (simp add: honest_def empty_shard_def)
  then show ?thesis by (intro pack_shards_inv honest_add)
qed

lemma pack_shards_fit:
  assumes "0 < op_shardChars opts"
  shows "\<forall>s \<in> set (pack_shards opts fs). shard_fits opts s"
  by (rule pack_shards_inv)
    (use assms in \<open>auto simp: shard_fits_def add_to_def cut_patch_def empty_shard_def Let_def\<close>)

lemma pack_shards_nonempty: "\<forall>s \<in> set (pack_shards opts fs). sh_files s \<noteq> []"
  by (simp add: pack_shards_def)

lemma pack_shards_length: "length (pack_shards opts fs) \<le> length fs"
proof -
  have "length shards \<le> length (shard_files shards)" if "\<forall>s \<in> set shards. sh_files s \<noteq> []" for shards
    using that by (induction shards) (auto simp: shard_files_def Suc_le_eq add_strict_increasing)
  from this [OF pack_shards_nonempty] show ?thesis
    using arg_cong [OF pack_shards_files, of size] by (metis length_map size_mset)
qed

section \<open>Keeping within the number of reviewers\<close>

definition kept_decisions :: "review_decision list \<Rightarrow> review_decision list \<Rightarrow> bool" where
  "kept_decisions = list_all2 (\<lambda>d d'. de_file d' = de_file d \<and> (de_included d' \<longrightarrow> de_included d)
     \<and> (rf_class (de_file d) = Code \<longrightarrow> de_included d' = de_included d))"

lemma decisions_refl: "kept_decisions ds ds"
  by (simp add: kept_decisions_def list_all2_refl)

lemma kept_trans: "kept_decisions a b \<Longrightarrow> kept_decisions b c \<Longrightarrow> kept_decisions a c"
  by (auto simp: kept_decisions_def list_all2_conv_all_nth)

lemma kept_summarise:
  assumes "i < length ds" and "droppable (ds ! i)"
  shows "kept_decisions ds (ds[i := summarise (ds ! i)])"
  using assms by (auto simp: kept_decisions_def list_all2_conv_all_nth nth_list_update summarise_def droppable_def)

definition shared_out :: "review_options \<Rightarrow> review_file list \<Rightarrow> shard list \<Rightarrow> bool" where
  "shared_out opts fs shards \<longleftrightarrow>
     mset (map bare (shard_files shards)) = mset (map bare fs) \<and> int (length shards) \<le> op_maxShards opts
     \<and> (\<forall>s \<in> set shards. sh_files s \<noteq> [] \<and> honest (set fs) s \<and> shard_fits opts s)"

lemma merge_rest_ok:
  assumes "0 < op_shardChars opts" and "0 < op_maxShards opts" and "\<not> int (length (pack_shards opts fs)) \<le> op_maxShards opts"
  shows "shared_out opts fs (merge_rest opts (pack_shards opts fs))"
proof -
  let ?shards = "pack_shards opts fs" and ?n = "nat (op_maxShards opts)"
  define l where "l = ?shards ! (?n - 1)"
  define rest where "rest = concat (map sh_files (drop ?n ?shards))"
  define l' where "l' = l\<lparr>sh_files := sh_files l @ map (\<lambda>f. f\<lparr>rf_patch := omitted_mark\<rparr>) rest, sh_truncated := sh_truncated l @ map rf_path rest\<rparr>"
  have n: "?n - 1 < length ?shards" "Suc (?n - 1) = ?n" using assms(2,3) by linarith+
  then have split: "?shards = take (?n - 1) ?shards @ l # drop ?n ?shards" unfolding l_def by (metis id_take_nth_drop)
  have m: "merge_rest opts ?shards = take (?n - 1) ?shards @ [l']" by (simp add: merge_rest_def Let_def l'_def l_def rest_def)
  have "map bare (shard_files ?shards) = map bare (shard_files (take (?n - 1) ?shards @ l # drop ?n ?shards))" using split by simp
  also have "\<dots> = map bare (shard_files (merge_rest opts ?shards))" unfolding m by (simp add: shard_files_def l'_def rest_def)
  finally have files: "mset (map bare (shard_files (merge_rest opts ?shards))) = mset (map bare fs)" using pack_shards_files [of opts fs] by simp
  have ok: "\<forall>s \<in> set ?shards. sh_files s \<noteq> [] \<and> honest (set fs) s \<and> shard_fits opts s"
    using pack_shards_nonempty pack_shards_honest pack_shards_fit [OF assms(1)] by blast
  then have "sh_files l \<noteq> []" "honest (set fs) l" "shard_fits opts l" using n(1) unfolding l_def by simp_all
  then have "sh_files l' \<noteq> [] \<and> honest (set fs) l' \<and> shard_fits opts l'" by (auto simp: l'_def honest_def shard_fits_def)
  with ok have "\<forall>s \<in> set (merge_rest opts ?shards). sh_files s \<noteq> [] \<and> honest (set fs) s \<and> shard_fits opts s" unfolding m by (auto dest: in_set_takeD)
  moreover have "int (length (merge_rest opts ?shards)) \<le> op_maxShards opts" unfolding m using n assms(2) by simp
  ultimately show ?thesis using files by (simp add: shared_out_def)
qed

lemma included_fewer:
  assumes "i < length ds" and "de_included (ds ! i)"
  shows "length (plan_Included (ds[i := summarise (ds ! i)])) = length (plan_Included ds) - 1"
proof -
  have "ds = take i ds @ ds ! i # drop (Suc i) ds" using assms(1) by (rule id_take_nth_drop)
  then have "length (plan_Included ds) = length (plan_Included (take i ds @ ds ! i # drop (Suc i) ds))" by simp
  then show ?thesis using assms by (simp add: upd_conv_take_nth_drop plan_Included_def summarise_def)
qed

lemma pack_ok:
  "0 < op_shardChars opts \<Longrightarrow> 0 < op_maxShards opts \<Longrightarrow> pack opts fs ds = (shards, ds') \<Longrightarrow> fs = plan_Included ds \<Longrightarrow> fs \<noteq> [] \<Longrightarrow>
    kept_decisions ds ds' \<and> shared_out opts (plan_Included ds') shards \<and> plan_Included ds' \<noteq> []"
proof (induction opts fs ds arbitrary: shards ds' rule: pack.induct)
  case (1 opts fs ds)
  show ?case
  proof (cases "int (length (pack_shards opts fs)) \<le> op_maxShards opts")
    case True
    then have "shards = pack_shards opts fs" "ds' = ds" using "1.prems"(3) by (simp_all add: pack.simps [of opts fs] Let_def)
    with True "1.prems"(1,4,5) show ?thesis
      using pack_shards_files [of opts fs] pack_shards_nonempty [of opts fs] pack_shards_honest [of opts fs] pack_shards_fit [of opts fs]
      by (simp add: shared_out_def decisions_refl)
  next
    case False
    show ?thesis
    proof (cases "drop_candidates ds")
      case Nil
      then have "shards = merge_rest opts (pack_shards opts fs)" "ds' = ds" using "1.prems"(3) False by (simp_all add: pack.simps [of opts fs] Let_def)
      with merge_rest_ok [OF "1.prems"(1,2) False] "1.prems"(4,5) show ?thesis by (simp add: decisions_refl)
    next
      case (Cons c cs)
      obtain i sc where c: "c = (i, sc)" by force
      define ds1 where "ds1 = ds[i := summarise (ds ! i)]"
      have i: "i < length ds" "droppable (ds ! i)" using drop_candidates_droppable Cons c by blast+
      have p: "pack opts (plan_Included ds1) ds1 = (shards, ds')"
        using "1.prems"(3) False Cons c by (simp add: pack.simps [of opts fs] Let_def ds1_def)
      have "length (plan_Included ds1) = length fs - 1" using included_fewer i "1.prems"(4) by (simp add: ds1_def droppable_def)
      moreover have "2 \<le> length fs" using False "1.prems"(2) pack_shards_length [of opts fs] by linarith
      ultimately have ne: "plan_Included ds1 \<noteq> []" by auto
      have "kept_decisions ds1 ds' \<and> shared_out opts (plan_Included ds') shards \<and> plan_Included ds' \<noteq> []"
        by (rule "1.IH" [OF refl False Cons c [symmetric] ds1_def "1.prems"(1,2) p refl ne])
      then show ?thesis using kept_trans [OF kept_summarise [OF i]] by (simp add: ds1_def)
    qed
  qed
qed

section \<open>Plans\<close>

lemma each_length: "each name answers = Inr scores \<Longrightarrow> length scores = length answers"
  by (auto simp: each_def Let_def split: option.splits)

lemma scored_files: "map de_file (score_decisions fmt opts ds scores) = map de_file ds"
  by (induction fmt opts ds scores rule: score_decisions.induct) (auto simp: scored_decision_def split: list.splits)

lemma scored_code:
  "list_all2 (\<lambda>d d'. de_file d' = de_file d \<and> (\<not> judged (de_file d) \<longrightarrow> d' = d)) ds (score_decisions fmt opts ds scores)"
  by (induction fmt opts ds scores rule: score_decisions.induct) (auto simp: scored_decision_def split: list.splits)

definition all_decided :: "review_file list \<Rightarrow> review_decision list \<Rightarrow> bool" where
  "all_decided files ds \<longleftrightarrow> map de_file ds = files \<and> (\<forall>d \<in> set ds. rf_class (de_file d) = Code \<longrightarrow> de_included d)
     \<and> (\<forall>d \<in> set ds. unread (rf_class (de_file d)) \<longrightarrow> \<not> de_included d)"

lemma first_decided: "all_decided (map (Classify uni) files) (map (first_decision \<circ> Classify uni) files)"
  by (auto simp: all_decided_def first_decision_def unread_def Classify_def)

lemma scored_decided: "all_decided fs ds \<Longrightarrow> all_decided fs (score_decisions fmt opts ds scores)"
proof -
  assume d: "all_decided fs ds"
  have "de_included d' = de_included d \<and> de_file d' = de_file d" if "d = ds ! i" "d' = score_decisions fmt opts ds scores ! i" "i < length ds" "\<not> judged (de_file d')" for d d' i
    using scored_code [of ds fmt opts scores] that by (auto simp: list_all2_conv_all_nth)
  moreover have "length (score_decisions fmt opts ds scores) = length ds" using scored_files [of fmt opts ds scores] by (metis length_map)
  ultimately show ?thesis using d scored_files [of fmt opts ds scores] unfolding all_decided_def
    by (metis (no_types, lifting) in_set_conv_nth judged_def)
qed

lemma kept_decided: "all_decided fs ds \<Longrightarrow> kept_decisions ds ds' \<Longrightarrow> all_decided fs ds'"
  unfolding all_decided_def kept_decisions_def
  by (auto simp: list_all2_conv_all_nth in_set_conv_nth intro!: nth_equalityI) (metis nth_mem)+

lemma defaults_pos: "0 < op_shardChars (withDefaults opts)" "0 < op_maxShards (withDefaults opts)"
  by (simp_all add: withDefaults_def)

lemma planned_turns_bounds: "\<forall>s \<in> set shards. 0 \<le> sh_chars s \<Longrightarrow> 6 \<le> planned_turns shards \<and> planned_turns shards \<le> 16"
proof -
  have "0 \<le> fold max (map sh_chars shards) (0 :: int)" by (rule fold_invariant [where Q = "\<lambda>_. True" and P = "\<lambda>x. 0 \<le> x"]) auto
  then show ?thesis by (simp add: planned_turns_def)
qed

text \<open>The decisions before packing.\<close>

definition judged_decisions :: "(string \<Rightarrow> string) \<Rightarrow> (float64 \<Rightarrow> string) \<Rightarrow> review_file list \<Rightarrow> string \<Rightarrow> jev_client option \<Rightarrow> review_options \<Rightarrow> review_decision list" where
  "judged_decisions uni fmt files task c opts =
     (let ds0 = map (first_decision \<circ> Classify uni) files in
      case c of
        Some j \<Rightarrow> (case NeedsReview j task (filter judged (map de_file ds0)) of Inr scores \<Rightarrow> score_decisions fmt opts ds0 scores | Inl _ \<Rightarrow> ds0)
      | None \<Rightarrow> ds0)"

lemma judged_decided: "all_decided (map (Classify uni) files) (judged_decisions uni fmt files task c opts)"
  by (auto simp: judged_decisions_def Let_def first_decided scored_decided split: option.split sum.split)

lemma score_none: "filter judged (map de_file ds) = [] \<Longrightarrow> score_decisions fmt opts ds scores = ds"
  by (induction fmt opts ds scores rule: score_decisions.induct) (auto split: if_splits)

lemma Build_cases:
  fixes fmt task c opts0
  assumes "plan = Build uni fmt files task c opts0"
  obtains (skipped) "plan_Included (judged_decisions uni fmt files task c (withDefaults opts0)) = []" "pl_skip plan" "pl_shards plan = []"
      "pl_decisions plan = judged_decisions uni fmt files task c (withDefaults opts0)"
  | (packed) "plan_Included (judged_decisions uni fmt files task c (withDefaults opts0)) \<noteq> []" "\<not> pl_skip plan" "pl_turns plan = planned_turns (pl_shards plan)"
      "pack (withDefaults opts0) (plan_Included (judged_decisions uni fmt files task c (withDefaults opts0))) (judged_decisions uni fmt files task c (withDefaults opts0))
         = (pl_shards plan, pl_decisions plan)"
proof -
  let ?opts = "withDefaults opts0" and ?first = "map (first_decision \<circ> Classify uni) files"
  let ?batch = "filter judged (map de_file ?first)" and ?ds = "judged_decisions uni fmt files task c ?opts"
  define p where "p = (case c of Some j \<Rightarrow> if ?batch = [] then (?first, [])
      else (case NeedsReview j task ?batch of Inl e \<Rightarrow> (?first, ''needs-review: '' @ e) | Inr scores \<Rightarrow> (score_decisions fmt ?opts ?first scores, [])) | None \<Rightarrow> (?first, []))"
  have p1: "fst p = ?ds"
  proof (cases c)
    case (Some j)
    have e: "score_decisions fmt ?opts ?first scores = ?first" if "?batch = []" for scores using score_none [OF that] .
    show ?thesis by (cases "NeedsReview j task ?batch"; cases "?batch = []") (simp_all only: p_def judged_decisions_def Let_def Some option.case sum.case if_True if_False fst_conv e simp_thms)
  qed (simp add: p_def judged_decisions_def)
  have b: "plan = (if plan_Included (fst p) = []
      then \<lparr>pl_decisions = fst p, pl_shards = [], pl_skip = True,
        pl_skipReason = ''no reviewable changes: all '' @ itoa_nat (length files) @ '' changed files are summarised'', pl_turns = 0, pl_error = snd p\<rparr>
      else (case pack ?opts (plan_Included (fst p)) (fst p) of
        (shards, ds') \<Rightarrow> \<lparr>pl_decisions = ds', pl_shards = shards, pl_skip = False, pl_skipReason = [], pl_turns = planned_turns shards, pl_error = snd p\<rparr>))"
    using assms by (simp add: Build_def Let_def p_def [symmetric] case_prod_unfold)
  show thesis
  proof (cases "plan_Included ?ds = []")
    case True
    then show thesis using b p1 by (intro skipped) simp_all
  next
    case False
    then show thesis using b p1 by (intro packed) (simp_all add: case_prod_unfold)
  qed
qed

lemma review_plan_facts:
  assumes "plan = Build uni fmt files task c opts"
  shows "map de_file (pl_decisions plan) = map (Classify uni) files"
    and "\<forall>d \<in> set (pl_decisions plan). rf_class (de_file d) = Code \<longrightarrow> de_included d"
    and "mset (map bare (concat (map sh_files (pl_shards plan)))) = mset (map bare (plan_Included (pl_decisions plan)))"
    and "\<forall>s \<in> set (pl_shards plan). sh_files s \<noteq> [] \<and> sh_chars s \<le> op_shardChars (withDefaults opts) + int (length cut_mark)
        \<and> (\<forall>g \<in> set (sh_files s). g \<in> set (plan_Included (pl_decisions plan)) \<or> rf_path g \<in> set (sh_truncated s))"
    and "pl_skip plan \<longleftrightarrow> pl_shards plan = []" and "pl_skip plan \<longleftrightarrow> plan_Included (pl_decisions plan) = []"
    and "int (length (pl_shards plan)) \<le> op_maxShards (withDefaults opts)"
    and "\<not> pl_skip plan \<longrightarrow> 6 \<le> pl_turns plan \<and> pl_turns plan \<le> 16"
proof -
  have "map de_file (pl_decisions plan) = map (Classify uni) files \<and> (\<forall>d \<in> set (pl_decisions plan). rf_class (de_file d) = Code \<longrightarrow> de_included d)
    \<and> mset (map bare (concat (map sh_files (pl_shards plan)))) = mset (map bare (plan_Included (pl_decisions plan)))
    \<and> (\<forall>s \<in> set (pl_shards plan). sh_files s \<noteq> [] \<and> sh_chars s \<le> op_shardChars (withDefaults opts) + int (length cut_mark)
        \<and> (\<forall>g \<in> set (sh_files s). g \<in> set (plan_Included (pl_decisions plan)) \<or> rf_path g \<in> set (sh_truncated s)))
    \<and> (pl_skip plan \<longleftrightarrow> pl_shards plan = []) \<and> (pl_skip plan \<longleftrightarrow> plan_Included (pl_decisions plan) = [])
    \<and> int (length (pl_shards plan)) \<le> op_maxShards (withDefaults opts) \<and> (\<not> pl_skip plan \<longrightarrow> 6 \<le> pl_turns plan \<and> pl_turns plan \<le> 16)"
    using assms
  proof (cases rule: Build_cases)
    case skipped
    then show ?thesis using judged_decided [of uni files fmt task c "withDefaults opts"] defaults_pos(2) [of opts]
      by (simp add: all_decided_def less_imp_le)
  next
    case packed
    note p = pack_ok [OF defaults_pos packed(4) refl packed(1)]
    have d: "all_decided (map (Classify uni) files) (pl_decisions plan)" using kept_decided [OF judged_decided] p by blast
    have s: "shared_out (withDefaults opts) (plan_Included (pl_decisions plan)) (pl_shards plan)" using p by blast
    have m: "mset (map bare (concat (map sh_files (pl_shards plan)))) = mset (map bare (plan_Included (pl_decisions plan)))"
      using s by (simp add: shared_out_def shard_files_def)
    then have ne: "pl_shards plan \<noteq> []" using p by auto
    have sh: "\<forall>s \<in> set (pl_shards plan). sh_files s \<noteq> [] \<and> honest (set (plan_Included (pl_decisions plan))) s \<and> shard_fits (withDefaults opts) s"
      using s by (simp add: shared_out_def)
    then have "6 \<le> pl_turns plan \<and> pl_turns plan \<le> 16" unfolding packed(3) by (intro planned_turns_bounds) (simp add: shard_fits_def)
    moreover have "int (length (pl_shards plan)) \<le> op_maxShards (withDefaults opts)" using s by (simp add: shared_out_def)
    moreover have "\<forall>s \<in> set (pl_shards plan). sh_files s \<noteq> [] \<and> sh_chars s \<le> op_shardChars (withDefaults opts) + int (length cut_mark)
        \<and> (\<forall>g \<in> set (sh_files s). g \<in> set (plan_Included (pl_decisions plan)) \<or> rf_path g \<in> set (sh_truncated s))"
      using sh unfolding honest_def shard_fits_def by blast
    moreover have "map de_file (pl_decisions plan) = map (Classify uni) files" "\<forall>d \<in> set (pl_decisions plan). rf_class (de_file d) = Code \<longrightarrow> de_included d"
      using d unfolding all_decided_def by blast+
    ultimately show ?thesis using m ne p packed(2) by blast
  qed
  note all = this
  show "map de_file (pl_decisions plan) = map (Classify uni) files" using all by (elim conjE)
  show "\<forall>d \<in> set (pl_decisions plan). rf_class (de_file d) = Code \<longrightarrow> de_included d" using all by (elim conjE)
  show "mset (map bare (concat (map sh_files (pl_shards plan)))) = mset (map bare (plan_Included (pl_decisions plan)))" using all by (elim conjE)
  show "\<forall>s \<in> set (pl_shards plan). sh_files s \<noteq> [] \<and> sh_chars s \<le> op_shardChars (withDefaults opts) + int (length cut_mark)
      \<and> (\<forall>g \<in> set (sh_files s). g \<in> set (plan_Included (pl_decisions plan)) \<or> rf_path g \<in> set (sh_truncated s))" using all by (elim conjE)
  show "pl_skip plan \<longleftrightarrow> pl_shards plan = []" "pl_skip plan \<longleftrightarrow> plan_Included (pl_decisions plan) = []"
    "int (length (pl_shards plan)) \<le> op_maxShards (withDefaults opts)" "\<not> pl_skip plan \<longrightarrow> 6 \<le> pl_turns plan \<and> pl_turns plan \<le> 16"
    using all by - (elim conjE, assumption)+
qed


definition demo_file :: "string \<Rightarrow> string \<Rightarrow> review_file" where
  "demo_file p d = \<lparr>rf_path = p, rf_oldPath = [], rf_status = Modified, rf_added = 1, rf_removed = 0, rf_binary = False, rf_patch = d, rf_class = Unclassified\<rparr>"

definition demo_shards :: review_plan where
  "demo_shards = Build (\<lambda>s. s) (\<lambda>_. []) [demo_file ''a.go'' ''+one line'', demo_file ''doc/b.md'' ''+text'', demo_file ''c/d.go'' ''+more code'', demo_file ''go.sum'' ''+x'']
     [] None \<lparr>op_shardChars = 12, op_maxShards = 1, op_cutoff = 0\<rparr>"


end
