(* ===== verification/Compaction_State.thy ===== *)
theory Compaction_State
  imports Recall_Control Conversation_Rewind Completion_Gate Model_Catalog Go_Sha256
begin

text \<open>
  What compaction keeps of a session (\<^verbatim>\<open>internal/core/compaction.go\<close>, \<^verbatim>\<open>helpers.go\<close>, \<^verbatim>\<open>context_bounds.go\<close>): where the history is
  cut, the anchor that names the work to continue, the requests that count as resolved, the audit of a summary, and the
  transcript a summary is made of. Decoding and encoding JSON, \<^verbatim>\<open>%q\<close> of \<^verbatim>\<open>fmt\<close> and the Unicode part of
  \<^verbatim>\<open>strings.ToLower\<close> are parameters. A message that does not decode is read as one without fields.
\<close>

section \<open>Messages\<close>

record tool_call =
  tc_id :: string
  tc_name :: string
  tc_args :: string

record provider_message =
  pm_role :: string
  pm_content :: string
  pm_callID :: string
  pm_calls :: "tool_call list"
  pm_harness :: bool
  pm_extra :: string

definition blank_message :: provider_message where
  "blank_message = \<lparr>pm_role = [], pm_content = [], pm_callID = [], pm_calls = [], pm_harness = False, pm_extra = []\<rparr>"

record durable_state =
  ds_objective :: string
  ds_current :: string
  ds_report :: string
  ds_resolved :: "string list"
  ds_requirements :: "string list"
  ds_decisions :: "string list"
  ds_completed :: "string list"
  ds_files :: "string list"
  ds_verification :: "string list"
  ds_open :: "string list"
  ds_blockers :: "string list"
  ds_instructions :: "string list"
  ds_workers :: "string list"
  ds_prior :: string
  ds_compactedAt :: string
  ds_schema :: int
  ds_from :: int
  ds_to :: int
  ds_refs :: "string list"
  ds_candidates :: "memory_candidate list"
  ds_trigger :: string
  ds_inputTokens :: int
  ds_outputTokens :: int
  ds_cleared :: int
  ds_evidence :: int
  ds_validated :: bool
  ds_boundary :: string

definition blank_state :: durable_state where
  "blank_state = \<lparr>ds_objective = [], ds_current = [], ds_report = [], ds_resolved = [], ds_requirements = [], ds_decisions = [], ds_completed = [],
     ds_files = [], ds_verification = [], ds_open = [], ds_blockers = [], ds_instructions = [], ds_workers = [], ds_prior = [], ds_compactedAt = [],
     ds_schema = 0, ds_from = 0, ds_to = 0, ds_refs = [], ds_candidates = [], ds_trigger = [], ds_inputTokens = 0, ds_outputTokens = 0, ds_cleared = 0, ds_evidence = 0,
     ds_validated = False, ds_boundary = []\<rparr>"

record codec =
  cd_uni :: "string \<Rightarrow> string"
  cd_message :: "string \<Rightarrow> provider_message option"
  cd_write :: "provider_message \<Rightarrow> string"
  cd_state :: "string \<Rightarrow> durable_state option"
  cd_save :: "durable_state \<Rightarrow> string"
  cd_json :: "string \<Rightarrow> string"
  cd_quote :: "string \<Rightarrow> string"

definition parsed :: "codec \<Rightarrow> message_row \<Rightarrow> provider_message" where
  "parsed C m = (case cd_message C (ms_content m) of Some p \<Rightarrow> p | None \<Rightarrow> blank_message)"

definition lower :: "codec \<Rightarrow> string \<Rightarrow> string" where
  "lower C = ToLower (cd_uni C)"

definition messagesText :: "message_row list \<Rightarrow> string" where
  "messagesText ms = concat (map ms_content ms)"

definition durable_valid :: "durable_state \<Rightarrow> bool" where
  "durable_valid d \<longleftrightarrow> TrimSpace (ds_objective d) \<noteq> []
     \<and> (ds_requirements d \<noteq> [] \<or> ds_completed d \<noteq> [] \<or> ds_open d \<noteq> [] \<or> ds_decisions d \<noteq> [] \<or> ds_verification d \<noteq> [] \<or> ds_blockers d \<noteq> [])"

definition appendBounded :: "string list \<Rightarrow> string \<Rightarrow> nat \<Rightarrow> string list" where
  "appendBounded items v limit = (if length items \<ge> limit then items else items @ [v])"

section \<open>Where the history is cut\<close>

text \<open>The last position with a property, and the position of the \<open>k\<close>-th last one.\<close>

definition last_index :: "('a \<Rightarrow> bool) \<Rightarrow> 'a list \<Rightarrow> nat option" where
  "last_index P xs = (let is = filter (\<lambda>i. P (xs ! i)) [0..<length xs] in if is = [] then None else Some (last is))"

definition back_index :: "nat \<Rightarrow> ('a \<Rightarrow> bool) \<Rightarrow> 'a list \<Rightarrow> nat option" where
  "back_index k P xs =
     (let is = filter (\<lambda>i. P (xs ! i)) [0..<length xs] in if 0 < k \<and> k \<le> length is then Some (is ! (length is - k)) else None)"

definition said :: "codec \<Rightarrow> message_row \<Rightarrow> bool" where
  "said C m \<longleftrightarrow> ms_role m = ''user'' \<and> \<not> pm_harness (parsed C m)"

definition compactionKeepIndex :: "codec \<Rightarrow> message_row list \<Rightarrow> nat \<Rightarrow> nat" where
  "compactionKeepIndex C msgs turnsToKeep =
     (let latest = (case last_index (said C) msgs of Some i \<Rightarrow> i | None \<Rightarrow> 0) in
      if 0 < latest \<and> sum_list (map (length \<circ> ms_content) (drop latest msgs)) \<le> 40000 then latest
      else case back_index turnsToKeep (\<lambda>m. ms_role m = ''assistant'') msgs of Some i \<Rightarrow> i | None \<Rightarrow> length msgs)"

section \<open>The todo snapshot in a summary\<close>

definition planSnapshotBegin :: string where
  "planSnapshotBegin = [line_feed] @ ''[TODO SNAPSHOT]'' @ [line_feed]"

definition planSnapshotEnd :: string where
  "planSnapshotEnd = [line_feed] @ ''[/TODO SNAPSHOT]''"

definition splitPlanSnapshot :: "string \<Rightarrow> string \<times> string" where
  "splitPlanSnapshot summary =
     (case str_index summary planSnapshotBegin of
        None \<Rightarrow> (summary, [])
      | Some i \<Rightarrow>
          let rest = drop (i + length planSnapshotBegin) summary in
          (case str_index rest planSnapshotEnd of
             None \<Rightarrow> (summary, [])
           | Some j \<Rightarrow> (take i summary @ drop (j + length planSnapshotEnd) rest, take j rest)))"

definition setPlanSnapshot :: "string \<Rightarrow> string \<Rightarrow> string" where
  "setPlanSnapshot summary plan = fst (splitPlanSnapshot summary) @ planSnapshotBegin @ plan @ planSnapshotEnd"

definition withoutPlanSnapshot :: "string \<Rightarrow> string" where
  "withoutPlanSnapshot summary = fst (splitPlanSnapshot summary)"

section \<open>Bounded tool results\<close>

definition maxToolResultChars :: nat where "maxToolResultChars = 100000"

definition toolResultHead :: nat where "toolResultHead = 80000"

definition toolResultTail :: nat where "toolResultTail = 10000"

definition capToolResult :: "codec \<Rightarrow> string \<Rightarrow> string \<Rightarrow> string" where
  "capToolResult C tool content =
     (if length content \<le> maxToolResultChars then content
      else ''{'' @ join_str '','' (map (\<lambda>(k, v). cd_json C k @ '':'' @ v)
        [(''head'', cd_json C (take toolResultHead content)),
         (''hint'', cd_json C (''This result was too large to keep in context. Narrow the call (a smaller range, a more specific query, a start offset) ''
            @ ''to see the omitted middle.'')),
         (''original_chars'', itoa_nat (length content)), (''tail'', cd_json C (drop (length content - toolResultTail) content)),
         (''tool'', cd_json C tool), (''truncated'', ''true'')]) @ ''}'')"

definition shrinkStoredToolMessage :: "codec \<Rightarrow> string \<Rightarrow> string" where
  "shrinkStoredToolMessage C contentJSON =
     (case cd_message C contentJSON of
        None \<Rightarrow> contentJSON
      | Some msg \<Rightarrow>
          let capped = capToolResult C [] (pm_content msg) in
          if capped = pm_content msg then contentJSON else cd_write C (msg\<lparr>pm_content := capped\<rparr>))"

definition clearedToolBytes :: "codec \<Rightarrow> message_row list \<Rightarrow> int" where
  "clearedToolBytes C msgs =
     sum_list (map (\<lambda>m. case cd_message C (ms_content m) of
        None \<Rightarrow> 0
      | Some msg \<Rightarrow>
          let capped = capToolResult C [] (pm_content msg) in
          if capped = pm_content msg then 0 else int (length (pm_content msg)) - int (length capped))
       (filter (\<lambda>m. ms_role m = ''tool'') msgs))"

section \<open>The anchor\<close>

record durable_anchor =
  da_current :: string
  da_report :: string
  da_source :: string
  da_position :: int
  da_phase :: string
  da_status :: string
  da_text :: string

definition active_report :: string where
  "active_report = ''Complete the active todo before final response; then report the changes, verification, and any blockers. Do not reopen resolved requests.''"

definition done_report :: "codec \<Rightarrow> string \<Rightarrow> string" where
  "done_report C t = ''The active plan is complete. Produce the final report for the completed todo '' @ cd_quote C t
     @ '', its files, verification, and blockers; do not re-answer resolved earlier questions.''"

definition phase_or :: "string \<Rightarrow> string \<Rightarrow> string" where
  "phase_or phase d = or_default (TrimSpace phase) d"

definition active_anchor :: "string \<Rightarrow> string \<Rightarrow> nat \<Rightarrow> string \<Rightarrow> durable_anchor" where
  "active_anchor status phase i t =
     \<lparr>da_current = ''Continue the active '' @ phase @ '' task: '' @ t, da_report = active_report, da_source = status, da_position = int i,
      da_phase = phase, da_status = status, da_text = t\<rparr>"

definition done_anchor :: "codec \<Rightarrow> string \<Rightarrow> string \<Rightarrow> nat \<Rightarrow> string \<Rightarrow> durable_anchor" where
  "done_anchor C status phase i t =
     \<lparr>da_current = ''Wrap up the completed '' @ phase @ '' task: '' @ t, da_report = done_report C t, da_source = ''completed_wrap_up'', da_position = int i,
      da_phase = phase, da_status = status, da_text = t\<rparr>"

definition todo_wrap_up :: durable_anchor where
  "todo_wrap_up =
     \<lparr>da_current = ''Wrap up the active task: report the completed plan and verification; do not revisit prior resolved requests.'',
      da_report = ''The active plan is complete. Produce the final report for its completed work, files, verification, and blockers; do not re-answer resolved earlier questions.'',
      da_source = ''todo_wrap_up'', da_position = - 1, da_phase = [], da_status = [], da_text = []\<rparr>"

definition phase_anchor :: "string \<Rightarrow> durable_anchor" where
  "phase_anchor phase =
     \<lparr>da_current = ''Continue the current '' @ phase @ '' work for the original task.'',
      da_report = ''Before final response, report the active work, verification, and any blockers. Do not reopen resolved requests.'',
      da_source = ''session_phase'', da_position = - 1, da_phase = [], da_status = [], da_text = []\<rparr>"

definition ledgerActiveAnchor :: "session_row \<Rightarrow> continuation \<Rightarrow> work_item list \<Rightarrow> durable_anchor option" where
  "ledgerActiveAnchor s cont items =
     (if ct_active cont = [] then None
      else map_option (\<lambda>(i, w). active_anchor (wi_status w) (phase_or (wi_phase w) (sr_phase s)) i (wi_objective w))
             (List.find (\<lambda>(i, w). wi_id w = ct_active cont) (enumerate 0 items)))"

definition time_after :: "go_time \<Rightarrow> go_time \<Rightarrow> bool" where
  "time_after a b = (case a of None \<Rightarrow> False | Some x \<Rightarrow> (case b of None \<Rightarrow> True | Some y \<Rightarrow> x > y))"

definition later_item :: "nat \<times> work_item \<Rightarrow> (nat \<times> work_item) option \<Rightarrow> (nat \<times> work_item) option" where
  "later_item iw best =
     (let w = snd iw in
      if wi_status w = ''completed'' \<and> TrimSpace (wi_objective w) \<noteq> []
         \<and> (case best of None \<Rightarrow> True
            | Some (_, l) \<Rightarrow> time_after (wi_completed w) (wi_completed l) \<or> wi_completed w = wi_completed l \<and> wi_position w > wi_position l)
      then Some iw else best)"

definition ledgerWrapUpAnchor :: "codec \<Rightarrow> session_row \<Rightarrow> continuation \<Rightarrow> work_item list \<Rightarrow> durable_anchor option" where
  "ledgerWrapUpAnchor C s cont items =
     (if \<not> ct_report cont then None
      else case fold later_item (enumerate 0 items) None of
        Some (i, w) \<Rightarrow> Some (done_anchor C (wi_status w) (phase_or (wi_phase w) (sr_phase s)) i (wi_objective w))
      | None \<Rightarrow> Some todo_wrap_up)"

definition todo_anchor :: "session_row \<Rightarrow> todo list \<Rightarrow> string \<Rightarrow> durable_anchor option" where
  "todo_anchor s todos status =
     map_option (\<lambda>(i, t). active_anchor status (phase_or (td_phase t) (sr_phase s)) i (TrimSpace (td_text t)))
       (List.find (\<lambda>(i, t). td_status t = status \<and> TrimSpace (td_text t) \<noteq> []) (enumerate 0 todos))"

definition selectDurableAnchor :: "codec \<Rightarrow> session_row \<Rightarrow> todo list \<Rightarrow> continuation \<Rightarrow> work_item list \<Rightarrow> durable_anchor" where
  "selectDurableAnchor C s todos cont items =
     (if ct_session cont \<noteq> [] then
        (case ledgerActiveAnchor s cont items of
           Some a \<Rightarrow> a
         | None \<Rightarrow> (case ledgerWrapUpAnchor C s cont items of Some a \<Rightarrow> a | None \<Rightarrow> phase_anchor (sr_phase s)))
      else case todo_anchor s todos ''in_progress'' of
        Some a \<Rightarrow> a
      | None \<Rightarrow> (case todo_anchor s todos ''pending'' of
          Some a \<Rightarrow> a
        | None \<Rightarrow>
            (case last_index (\<lambda>t. td_status t = ''completed'' \<and> TrimSpace (td_text t) \<noteq> []) todos of
               Some i \<Rightarrow> done_anchor C (td_status (todos ! i)) (phase_or (td_phase (todos ! i)) (sr_phase s)) i (TrimSpace (td_text (todos ! i)))
             | None \<Rightarrow> if todos \<noteq> [] then todo_wrap_up else phase_anchor (sr_phase s))))"

definition durableTaskAnchor :: "codec \<Rightarrow> session_row \<Rightarrow> todo list \<Rightarrow> continuation \<Rightarrow> work_item list \<Rightarrow> string" where
  "durableTaskAnchor C s todos cont items =
     (let a = selectDurableAnchor C s todos cont items in
      ''CURRENT OBJECTIVE'' @ [line_feed] @ da_current a @ [line_feed, line_feed] @ ''PENDING REPORT'' @ [line_feed] @ da_report a)"

definition containsFold :: "codec \<Rightarrow> string \<Rightarrow> string \<Rightarrow> bool" where
  "containsFold C haystack needle \<longleftrightarrow> str_contains (lower C haystack) (lower C (TrimSpace needle))"

definition validateCompactionAnchor :: "codec \<Rightarrow> durable_state \<Rightarrow> durable_anchor \<Rightarrow> string option" where
  "validateCompactionAnchor C st a =
     (if TrimSpace (ds_current st) = [] then Some ''compaction anchor missing current objective''
      else if TrimSpace (ds_report st) = [] then Some ''compaction anchor missing pending report''
      else if da_source a = ''in_progress'' \<or> da_source a = ''pending'' then
        (if TrimSpace (da_text a) \<noteq> [] \<and> \<not> containsFold C (ds_current st) (da_text a)
         then Some (''compaction anchor current objective lost '' @ da_source a @ '' todo'')
         else if list_ex (\<lambda>r. TrimSpace r \<noteq> [] \<and> containsFold C (da_text a) (TrimSpace r)) (ds_resolved st)
         then Some ''compaction anchor reopened a resolved request as active work''
         else None)
      else if da_source a = ''completed_wrap_up'' then
        (if TrimSpace (da_text a) \<noteq> [] \<and> \<not> containsFold C (ds_current st @ [line_feed] @ ds_report st) (da_text a)
         then Some ''compaction wrap-up anchor lost completed todo'' else None)
      else None)"

section \<open>Resolved requests\<close>

definition priorResolvedRequests :: "codec \<Rightarrow> string \<Rightarrow> string list" where
  "priorResolvedRequests C summary = (case cd_state C summary of None \<Rightarrow> [] | Some st \<Rightarrow> ds_resolved st)"

definition messageContent :: "codec \<Rightarrow> message_row \<Rightarrow> string" where
  "messageContent C m =
     (case cd_message C (ms_content m) of Some p \<Rightarrow> if TrimSpace (pm_content p) \<noteq> [] then pm_content p else ms_content m | None \<Rightarrow> ms_content m)"

definition questionLike :: "codec \<Rightarrow> string \<Rightarrow> bool" where
  "questionLike C t0 \<longleftrightarrow>
     (let t = lower C (TrimSpace t0) in
      str_contains t ''?'' \<or> list_ex (\<lambda>w. prefix w t) [''what '', ''when '', ''where '', ''who '', ''why '', ''how ''])"

fun answeredBeforeNextUser :: "codec \<Rightarrow> message_row list \<Rightarrow> bool" where
  "answeredBeforeNextUser C [] = False"
| "answeredBeforeNextUser C (m # ms) =
     (if ms_role m = ''user'' then False
      else if ms_role m = ''assistant'' \<and> (case cd_message C (ms_content m) of Some p \<Rightarrow> pm_calls p = [] \<and> TrimSpace (pm_content p) \<noteq> [] | None \<Rightarrow> False)
      then True else answeredBeforeNextUser C ms)"

definition answeredOriginalRequest :: "codec \<Rightarrow> message_row list \<Rightarrow> bool" where
  "answeredOriginalRequest = answeredBeforeNextUser"

fun resolved_loop :: "codec \<Rightarrow> message_row list \<Rightarrow> string list \<Rightarrow> string list" where
  "resolved_loop C [] acc = acc"
| "resolved_loop C (m # ms) acc =
     (let p = messageContent C m in
      resolved_loop C ms
        (if ms_role m \<noteq> ''user'' \<or> \<not> questionLike C p \<or> \<not> answeredBeforeNextUser C ms then acc
         else appendBounded acc (truncate_str (TrimSpace p) 360) 12))"

definition resolvedRequests :: "codec \<Rightarrow> session_row \<Rightarrow> message_row list \<Rightarrow> string list" where
  "resolvedRequests C s msgs =
     (let r = resolved_loop C msgs [] in
      if questionLike C (sr_spec s) \<and> answeredOriginalRequest C msgs then appendBounded r (truncate_str (TrimSpace (sr_spec s)) 360) 12 else r)"

definition merge_resolved :: "string \<Rightarrow> string list \<times> string list \<Rightarrow> string list \<times> string list" where
  "merge_resolved item0 sm =
     (let item = TrimSpace item0 in
      if item = [] \<or> item \<in> set (fst sm) then sm else (item # fst sm, appendBounded (snd sm) item 12))"

definition mergeResolvedRequests :: "string list list \<Rightarrow> string list" where
  "mergeResolvedRequests groups = snd (fold merge_resolved (concat groups) ([], []))"

definition anchorDurableState ::
  "codec \<Rightarrow> durable_state \<Rightarrow> session_row \<Rightarrow> todo list \<Rightarrow> continuation \<Rightarrow> work_item list \<Rightarrow> message_row list \<Rightarrow> durable_state \<times> durable_anchor \<times> nat list" where
  "anchorDurableState C st s todos cont items old =
     (let a = selectDurableAnchor C s todos cont items; prior = priorResolvedRequests C (sr_summary s); detected = resolvedRequests C s old;
          merged = mergeResolvedRequests [prior, ds_resolved st, detected]
      in (st\<lparr>ds_current := da_current a, ds_report := da_report a, ds_resolved := merged\<rparr>, a,
          [length prior, length (ds_resolved st), length detected, length merged]))"

definition normalize_char :: "char \<Rightarrow> string" where
  "normalize_char c =
     (let n = (of_char c :: nat) in
      if 97 \<le> n \<and> n \<le> 122 \<or> 48 \<le> n \<and> n \<le> 57 \<or> n = 32 then [c] else if n = 10 \<or> n = 9 then '' '' else [])"

definition normalizeRequest :: "codec \<Rightarrow> string \<Rightarrow> string" where
  "normalizeRequest C s = join_str '' '' (Fields (concat (map normalize_char (lower C s))))"

definition same_request :: "string \<Rightarrow> string \<Rightarrow> bool" where
  "same_request want got \<longleftrightarrow> got = want \<or> 6 \<le> length want \<and> (str_contains got want \<or> 6 \<le> length got \<and> str_contains want got)"

definition withoutRequest :: "codec \<Rightarrow> string list \<Rightarrow> string \<Rightarrow> string list" where
  "withoutRequest C resolved request =
     (let want = normalizeRequest C request in
      if want = [] then resolved else filter (\<lambda>r. \<not> same_request want (normalizeRequest C r)) resolved)"

section \<open>Transcripts\<close>

definition find_call :: "string \<Rightarrow> tool_call list \<Rightarrow> tool_call option" where
  "find_call ident = List.find (\<lambda>c. ident = [] \<or> tc_id c = ident)"

text \<open>The call a message answers: in the messages before it, the latest first.\<close>

fun call_before :: "codec \<Rightarrow> string \<Rightarrow> message_row list \<Rightarrow> string \<times> string" where
  "call_before C ident [] = (''tool'', [])"
| "call_before C ident (m # ms) =
     (if ms_role m \<noteq> ''assistant'' then call_before C ident ms
      else case find_call ident (pm_calls (parsed C m)) of Some c \<Rightarrow> (tc_name c, tc_args c) | None \<Rightarrow> call_before C ident ms)"

definition matchingCall :: "codec \<Rightarrow> message_row list \<Rightarrow> nat \<Rightarrow> string \<Rightarrow> string \<times> string" where
  "matchingCall C msgs idx ident = call_before C ident (rev (take idx msgs))"

definition toolOutcome :: "codec \<Rightarrow> string \<Rightarrow> string" where
  "toolOutcome C content =
     (let l = lower C content in if str_contains l ''error'' \<or> str_contains l ''fail'' \<or> str_contains l ''panic'' then ''error'' else ''ok'')"

definition projectAssistant :: "provider_message \<Rightarrow> string" where
  "projectAssistant msg =
     join_str '' | '' ((''assistant: '' @ truncate_str (join_str '' '' (Fields (pm_content msg))) 500)
       # map (\<lambda>c. ''call '' @ tc_name c @ '' '' @ truncate_str (tc_args c) 500) (pm_calls msg))"

definition projectTool :: "codec \<Rightarrow> string \<Rightarrow> string \<Rightarrow> string \<Rightarrow> string" where
  "projectTool C name args content =
     (let head = (if isEditTool name then 4000 else if name \<in> {''read'', ''fetch'', ''search''} then 400
                  else if name = ''exec'' \<and> (str_contains args ''test'' \<or> str_contains args ''build'' \<or> str_contains args ''vet'') then 4000 else 1500)
      in ''tool '' @ name @ '' args='' @ truncate_str args 500 @ '' outcome='' @ toolOutcome C content @ '' head='' @ truncate_str content head)"

definition project_line :: "codec \<Rightarrow> message_row list \<Rightarrow> nat \<Rightarrow> string" where
  "project_line C msgs i =
     (let m = msgs ! i; p = (case cd_message C (ms_content m) of Some p \<Rightarrow> p | None \<Rightarrow> blank_message\<lparr>pm_role := ms_role m, pm_content := ms_content m\<rparr>) in
      if ms_role m = ''user'' then ''user: '' @ pm_content p
      else if ms_role m = ''assistant'' then projectAssistant p
      else case matchingCall C msgs i (pm_callID p) of (name, args) \<Rightarrow> projectTool C name args (pm_content p))"

definition projectTranscript :: "codec \<Rightarrow> message_row list \<Rightarrow> string list" where
  "projectTranscript C msgs = map (project_line C msgs) [0..<length msgs]"

text \<open>A line that is longer than a chunk is cut into full chunks and a rest.\<close>

function chop :: "nat \<Rightarrow> string \<Rightarrow> string list \<times> string" where
  "chop limit l = (if 0 < limit \<and> length l > limit then (let (cs, r) = chop limit (drop limit l) in (take limit l # cs, r)) else ([], l))"
  by pat_completeness auto
termination
  by (relation "measure (\<lambda>(limit, l). length l)") auto

declare chop.simps [simp del]

definition flush_chunk :: "string list \<times> string \<Rightarrow> string list" where
  "flush_chunk cb = fst cb @ (if snd cb = [] then [] else [snd cb])"

definition chunk_line :: "nat \<Rightarrow> string \<Rightarrow> string list \<times> string \<Rightarrow> string list \<times> string" where
  "chunk_line limit l cb =
     (case chop limit l of
        (ps, rest) \<Rightarrow>
          let (cs, b) = (if ps = [] then cb else (flush_chunk cb @ ps, [])) in
          if rest = [] then (cs, b)
          else if b \<noteq> [] \<and> length b + (length rest + 1) > limit then (cs @ [b], rest)
          else (cs, (if b = [] then [] else b @ [line_feed]) @ rest))"

definition transcriptChunks :: "codec \<Rightarrow> message_row list \<Rightarrow> int \<Rightarrow> string list" where
  "transcriptChunks C msgs limit0 =
     (let limit = (if limit0 < 1 then 8000 else nat limit0) in
      flush_chunk (fold (chunk_line limit) (projectTranscript C msgs) ([], [])))"

definition summaryTranscriptBudget :: "model_spec \<Rightarrow> int" where
  "summaryTranscriptBudget spec = (if ms_context spec \<le> 0 then 96000 else max (ms_context spec div 2) 8000)"

section \<open>Auditing a summary\<close>

definition audit_one :: "codec \<Rightarrow> string \<Rightarrow> message_row list \<Rightarrow> nat \<Rightarrow> durable_state \<Rightarrow> durable_state" where
  "audit_one C joined msgs i st =
     (let m = msgs ! i; p = parsed C m; (name, args) = matchingCall C msgs i (pm_callID p);
          st1 = (if ms_role m = ''user'' \<and> \<not> pm_harness p \<and> \<not> str_contains joined (lower C (truncate_str (pm_content p) 80))
                 then st\<lparr>ds_instructions := appendBounded (ds_instructions st) (pm_content p) 12\<rparr> else st);
          st2 = (if isEditTool name \<and> \<not> str_contains joined (lower C args) then st1\<lparr>ds_files := appendBounded (ds_files st1) args 12\<rparr> else st1)
      in if name = ''exec'' \<and> (str_contains args ''test'' \<or> str_contains args ''build'') \<and> \<not> str_contains joined (lower C args)
         then st2\<lparr>ds_verification := appendBounded (ds_verification st2) (args @ '' '' @ toolOutcome C (pm_content p)) 12\<rparr> else st2)"

definition auditDurableState :: "codec \<Rightarrow> durable_state \<Rightarrow> message_row list \<Rightarrow> durable_state" where
  "auditDurableState C st msgs =
     (let joined = lower C (join_str [line_feed] (ds_files st @ ds_verification st @ ds_instructions st)) in
      fold (audit_one C joined msgs) [0..<length msgs] st)"

definition compactionEvidenceRefs :: "string \<Rightarrow> durable_state \<Rightarrow> nat \<Rightarrow> string list" where
  "compactionEvidenceRefs sid st keepAt =
     fold (\<lambda>f refs. appendBounded refs (''session:'' @ sid @ ''/messages:0-'' @ itoa_nat (keepAt - 1) @ ''/'' @ truncate_str f 200) 24) (ds_files st) []"

section \<open>Without a summary\<close>

definition digest_line :: "codec \<Rightarrow> message_row \<Rightarrow> durable_state \<Rightarrow> durable_state" where
  "digest_line C m st =
     (let line = ms_role m @ '': '' @ truncate_str (join_str '' '' (Fields (ms_content m))) 900; l = lower C line in
      if str_contains l ''workspace_instructions'' \<or> str_contains l ''skill'' then st\<lparr>ds_instructions := appendBounded (ds_instructions st) line 8\<rparr>
      else if str_contains l ''job'' \<and> (str_contains l ''result'' \<or> str_contains l ''worker'') then st\<lparr>ds_workers := appendBounded (ds_workers st) line 8\<rparr>
      else if str_contains l ''test'' \<or> str_contains l ''go test'' \<or> str_contains l ''verified'' then st\<lparr>ds_verification := appendBounded (ds_verification st) line 10\<rparr>
      else if str_contains l ''edit'' \<or> str_contains l ''patch'' then st\<lparr>ds_files := appendBounded (ds_files st) line 12\<rparr>
      else if ms_role m = ''assistant'' then st\<lparr>ds_decisions := appendBounded (ds_decisions st) line 12\<rparr>
      else st\<lparr>ds_open := appendBounded (ds_open st) line 12\<rparr>)"

definition fallbackDurableState :: "codec \<Rightarrow> string \<Rightarrow> session_row \<Rightarrow> message_row list \<Rightarrow> durable_state" where
  "fallbackDurableState C stamp s old =
     (fold (digest_line C) old blank_state)\<lparr>ds_objective := sr_spec s, ds_prior := truncate_str (withoutPlanSnapshot (sr_summary s)) 4000, ds_compactedAt := stamp\<rparr>"

definition recallHistory :: "codec \<Rightarrow> checkpoint list \<Rightarrow> string \<Rightarrow> string list" where
  "recallHistory C cps query =
     fold (\<lambda>(cp, i, m) out. if str_contains (lower C (ms_content m)) (lower C query)
          then appendBounded out (cp_id cp @ ''#'' @ itoa_nat i @ '': '' @ truncate_str (ms_content m) 240) 12 else out)
       (concat (map (\<lambda>cp. case cp_messages cp of Some ms \<Rightarrow> map (\<lambda>(i, m). (cp, i, m)) (enumerate 0 ms) | None \<Rightarrow> []) cps)) []"

end
