(* ===== verification/Compaction_Run.thy ===== *)
theory Compaction_Run
  imports Compaction_State
begin

text \<open>
  Compaction of a session (\<^verbatim>\<open>compactState\<close> and what it calls in \<^verbatim>\<open>internal/core/compaction.go\<close>, the choice of a side model in
  \<^verbatim>\<open>title.go\<close>, \<^verbatim>\<open>modelJSON\<close> in \<^verbatim>\<open>helpers.go\<close>), on the tables of the store and of memory. The provider's answers are a parameter. One failure
  of the database is a failure of every store call of the run, as elsewhere; a failed decoding leaves the summary blank.
\<close>

section \<open>JSON in an answer\<close>

definition json_valid :: "string \<Rightarrow> bool" where
  "json_valid s \<longleftrightarrow> (case json_value (Suc (length s)) s of Some t \<Rightarrow> dropWhile json_space t = [] | None \<Rightarrow> False)"

text \<open>The values among prose; every step consumes a character, so the length is enough fuel.\<close>

fun json_found :: "nat \<Rightarrow> string \<Rightarrow> string list" where
  "json_found 0 s = []"
| "json_found (Suc n) [] = []"
| "json_found (Suc n) (c # s) =
     (if c \<noteq> CHR 0x7B \<and> c \<noteq> CHR 0x5B then json_found n s
      else case json_value (Suc (length (c # s))) (c # s) of
        None \<Rightarrow> json_found n s
      | Some rest \<Rightarrow> take (length (c # s) - length rest) (c # s) # json_found n rest)"

definition fence :: string where
  "fence = [CHR 0x60, CHR 0x60, CHR 0x60]"

definition fenced :: "string \<Rightarrow> string option" where
  "fenced s =
     (case str_index s fence of
        None \<Rightarrow> None
      | Some i \<Rightarrow>
          let body = drop (i + 3) s;
              body1 = (case str_index body [line_feed] of
                         Some nl \<Rightarrow> if ContainsAny (take nl body) ''{['' then body else drop (Suc nl) body | None \<Rightarrow> body);
              body2 = (case str_index body1 fence of Some j \<Rightarrow> take j body1 | None \<Rightarrow> body1);
              b = TrimSpace body2
          in if json_valid b then Some b else None)"

definition modelJSON :: "string \<Rightarrow> string" where
  "modelJSON s0 =
     (let s = TrimSpace s0 in
      if json_valid s then s
      else case fenced s of
        Some b \<Rightarrow> b
      | None \<Rightarrow> (case json_found (length s) s of [v] \<Rightarrow> v | _ \<Rightarrow> s))"

section \<open>Models\<close>

definition tier_rank :: "string \<Rightarrow> nat" where
  "tier_rank t = (if t = Tiny then 1 else if t = Efficient then 2 else if t = Frontier then 3 else 0)"

definition tierAtLeast :: "string \<Rightarrow> string \<Rightarrow> bool" where
  "tierAtLeast tier minTier \<longleftrightarrow> tier_rank tier \<ge> tier_rank minTier \<and> tier_rank minTier > 0"

definition cheaper :: "model_spec \<Rightarrow> model_spec option \<Rightarrow> model_spec option" where
  "cheaper m best =
     (case best of
        None \<Rightarrow> Some m
      | Some b \<Rightarrow>
          let cost = (\<lambda>x. fadd (pr_input (ms_pricing x)) (pr_output (ms_pricing x))) in
          if cost b < 0 \<or> cost m < cost b then Some m else best)"

definition cheapestModel :: "model_spec list \<Rightarrow> (model_spec \<Rightarrow> bool) \<Rightarrow> model_spec option" where
  "cheapestModel models accept = fold cheaper (filter accept models) None"

record model_request =
  cq_model :: string
  cq_prompt :: string
  cq_maxOutput :: int
  cq_effort :: string

record model_answer =
  co_content :: string
  co_truncated :: bool
  co_stop :: string
  co_in :: int
  co_out :: int
  co_cacheRead :: int
  co_cacheWrite :: int

record compact_env =
  ce_extract :: extract_env
  ce_codec :: codec
  ce_catalog :: "model_spec list"
  ce_available :: "model_spec \<Rightarrow> bool"
  ce_complete :: "model_request \<Rightarrow> string + model_answer"
  ce_decodeError :: "string \<Rightarrow> string"
  ce_stamp :: string
  ce_mcp :: "string option"
  ce_checkpointID :: string
  ce_boundaryID :: string

abbreviation ce_recall :: "compact_env \<Rightarrow> recall_env" where "ce_recall X \<equiv> xe_recall (ce_extract X)"
abbreviation ce_store :: "compact_env \<Rightarrow> store_env" where "ce_store X \<equiv> re_store (xe_recall (ce_extract X))"

definition sideModel :: "compact_env \<Rightarrow> string \<Rightarrow> model_spec option" where
  "sideModel X minTier =
     cheapestModel (filter (\<lambda>m. ce_available X m \<and> \<not> ms_explicitOnly m) (ce_catalog X)) (\<lambda>m. \<not> ms_discovered m \<and> tierAtLeast (ms_tier m) minTier)"

section \<open>Summaries\<close>

record summary_meta =
  su_strategy :: string
  su_error :: string
  su_model :: string
  su_in :: int
  su_out :: int
  su_cost :: float64

definition low_effort :: "model_spec \<Rightarrow> string" where
  "low_effort spec = (if ms_effort spec = [] \<or> EffortLow \<in> set (ms_effort spec) then EffortLow else hd (ms_effort spec))"

definition summary_prompt :: "compact_env \<Rightarrow> session_row \<Rightarrow> todo list \<Rightarrow> continuation \<Rightarrow> work_item list \<Rightarrow> string \<Rightarrow> store_db \<Rightarrow> string" where
  "summary_prompt X s todos cont items transcript db =
     (let nl = [line_feed]; latest = (case LatestRequest (sr_id s) db of Inr l \<Rightarrow> l | Inl _ \<Rightarrow> []);
          active = (if latest \<noteq> [] \<and> TrimSpace latest \<noteq> TrimSpace (sr_spec s)
             then nl @ nl @ ''ACTIVE REQUEST (the person'' @ [CHR 0x27] @ ''s latest message; it is the work in progress and must never be listed in resolved_requests)'' @ nl @ latest else [])
      in ''ORIGINAL TASK'' @ nl @ sr_spec s @ active @ nl @ nl @ ''LIVE TODO ANCHOR (authoritative)'' @ nl @ durableTaskAnchor (ce_codec X) s todos cont items
         @ nl @ nl @ ''PRIOR DURABLE STATE'' @ nl @ sr_summary s @ nl @ nl @ ''ACTIVITY TO COMPACT'' @ nl @ transcript)"

text \<open>One try per output limit; every answer is charged to the session.\<close>

fun summary_attempts ::
  "compact_env \<Rightarrow> string \<Rightarrow> model_spec \<Rightarrow> string \<Rightarrow> int list \<Rightarrow> float64 \<Rightarrow> store_db \<Rightarrow> (string + durable_state \<times> model_answer \<times> float64) \<times> store_db" where
  "summary_attempts X sid spec prompt [] cost db = (Inr (blank_state, \<lparr>co_content = [], co_truncated = False, co_stop = [], co_in = 0, co_out = 0, co_cacheRead = 0, co_cacheWrite = 0\<rparr>, cost), db)"
| "summary_attempts X sid spec prompt (limit # limits) cost db =
     (case ce_complete X \<lparr>cq_model = ms_id spec, cq_prompt = prompt, cq_maxOutput = min limit (ms_maxOutput spec), cq_effort = low_effort spec\<rparr> of
        Inl err \<Rightarrow> (Inl err, db)
      | Inr resp \<Rightarrow>
          let c = EstimateDetailed (ms_pricing spec) (co_in resp) (co_out resp) (co_cacheRead resp) (co_cacheWrite resp);
              db1 = snd (AddSpend (ce_store X) sid c db); txt_s = modelJSON (co_content resp)
          in case cd_state (ce_codec X) txt_s of
               Some st \<Rightarrow> (Inr (st, resp, fadd cost c), db1)
             | None \<Rightarrow>
                 if \<not> co_truncated resp \<or> limits = []
                 then (Inl (''decode semantic summary (stop reason '' @ cd_quote (ce_codec X) (co_stop resp) @ ''): '' @ ce_decodeError X txt_s), db1)
                 else summary_attempts X sid spec prompt limits (fadd cost c) db1)"

definition usable_model :: "compact_env \<Rightarrow> string \<Rightarrow> model_spec option" where
  "usable_model X name = (case Get (ce_catalog X) name of Some spec \<Rightarrow> if ce_available X spec then Some spec else None | None \<Rightarrow> None)"

definition summary_unavailable :: string where
  "summary_unavailable = ''current model unavailable for semantic summary''"

definition summarizeTranscript ::
  "compact_env \<Rightarrow> session_row \<Rightarrow> todo list \<Rightarrow> continuation \<Rightarrow> work_item list \<Rightarrow> string \<Rightarrow> store_db \<Rightarrow> (string + durable_state \<times> summary_meta) \<times> store_db" where
  "summarizeTranscript X s todos cont items transcript db =
     (case usable_model X (sr_model s) of
        None \<Rightarrow> (Inl summary_unavailable, db)
      | Some spec \<Rightarrow>
          let prompt = summary_prompt X s todos cont items transcript db in
          if sr_budget s > 0 \<and> Estimate (ms_pricing spec) (estimate prompt) 4000 0 > fsub (sr_budget s) (sr_spent s)
          then (Inl ''insufficient remaining budget for semantic summary'', db)
          else case summary_attempts X (sr_id s) spec prompt [4000, 12000] 0 db of
            (Inl err, db1) \<Rightarrow> (Inl err, db1)
          | (Inr (st0, resp, cost), db1) \<Rightarrow>
              let st = st0\<lparr>ds_prior := truncate_str (withoutPlanSnapshot (sr_summary s)) 4000, ds_compactedAt := ce_stamp X\<rparr> in
              if \<not> durable_valid st then (Inl ''semantic summary omitted recovery state'', db1)
              else (Inr (st, \<lparr>su_strategy = ''semantic'', su_error = [], su_model = ms_id spec, su_in = co_in resp, su_out = co_out resp, su_cost = cost\<rparr>), db1))"

fun foldSummaries ::
  "compact_env \<Rightarrow> session_row \<Rightarrow> todo list \<Rightarrow> continuation \<Rightarrow> work_item list \<Rightarrow> string list \<Rightarrow> (durable_state \<times> summary_meta) \<Rightarrow> string \<Rightarrow> store_db
     \<Rightarrow> (string + durable_state \<times> summary_meta) \<times> store_db" where
  "foldSummaries X s todos cont items [] res prior db = (Inr res, db)"
| "foldSummaries X s todos cont items (chunk # chunks) res prior db =
     (case summarizeTranscript X (s\<lparr>sr_summary := prior\<rparr>) todos cont items chunk db of
        (Inl err, db1) \<Rightarrow> (Inl err, db1)
      | (Inr (st, meta), db1) \<Rightarrow> foldSummaries X s todos cont items chunks (st, meta) (cd_save (ce_codec X) st) db1)"

definition blank_meta :: summary_meta where
  "blank_meta = \<lparr>su_strategy = [], su_error = [], su_model = [], su_in = 0, su_out = 0, su_cost = 0\<rparr>"

definition semanticSummaryWithModel ::
  "compact_env \<Rightarrow> session_row \<Rightarrow> todo list \<Rightarrow> continuation \<Rightarrow> work_item list \<Rightarrow> message_row list \<Rightarrow> store_db \<Rightarrow> (string + durable_state \<times> summary_meta) \<times> store_db" where
  "semanticSummaryWithModel X s todos cont items old db =
     (case usable_model X (sr_model s) of
        None \<Rightarrow> (Inl summary_unavailable, db)
      | Some spec \<Rightarrow>
          (case transcriptChunks (ce_codec X) old (summaryTranscriptBudget spec) of
             [] \<Rightarrow> summarizeTranscript X s todos cont items [] db
           | [c] \<Rightarrow> summarizeTranscript X s todos cont items c db
           | cs \<Rightarrow> foldSummaries X s todos cont items cs (blank_state, blank_meta) (sr_summary s) db))"

definition semanticSummary ::
  "compact_env \<Rightarrow> session_row \<Rightarrow> todo list \<Rightarrow> continuation \<Rightarrow> work_item list \<Rightarrow> message_row list \<Rightarrow> store_db \<Rightarrow> (string + durable_state \<times> summary_meta) \<times> store_db" where
  "semanticSummary X s todos cont items old db =
     (case sideModel X Efficient of
        Some cheap \<Rightarrow>
          if ms_id cheap \<noteq> [] \<and> ms_id cheap \<noteq> sr_model s \<and> \<not> ms_discovered cheap \<and> tierAtLeast (ms_tier cheap) Efficient
          then (case semanticSummaryWithModel X (s\<lparr>sr_model := ms_id cheap\<rparr>) todos cont items old db of
                  (Inr res, db1) \<Rightarrow> (Inr res, db1)
                | (Inl _, db1) \<Rightarrow>
                    semanticSummaryWithModel X (case SessionRow (sr_id s) db1 of Inr cur \<Rightarrow> s\<lparr>sr_spent := sr_spent cur\<rparr> | Inl _ \<Rightarrow> s) todos cont items old db1)
          else semanticSummaryWithModel X s todos cont items old db
      | None \<Rightarrow> semanticSummaryWithModel X s todos cont items old db)"

section \<open>Compaction\<close>

definition on_store :: "(store_db \<Rightarrow> 'a \<times> store_db) \<Rightarrow> recall_state \<Rightarrow> 'a \<times> recall_state" where
  "on_store f s = (case f (rd_store (rs_db s)) of (r, st) \<Rightarrow> (r, s\<lparr>rs_db := (rs_db s)\<lparr>rd_store := st\<rparr>\<rparr>))"

definition on_recall :: "(recall_db \<Rightarrow> 'a \<times> recall_db) \<Rightarrow> recall_state \<Rightarrow> 'a \<times> recall_state" where
  "on_recall f s = (case f (rs_db s) of (r, db) \<Rightarrow> (r, s\<lparr>rs_db := db\<rparr>))"

definition compacted_seq :: "string \<Rightarrow> int \<Rightarrow> store_db \<Rightarrow> nat" where
  "compacted_seq sid created db = fold (\<lambda>e seq. if \<not> er_created e > created then er_seq e else seq) (filter (\<lambda>e. er_session e = sid) (t_events db)) 0"

text \<open>The state a compaction writes, with its anchor and the counts of resolved requests.\<close>

definition anchored_state ::
  "compact_env \<Rightarrow> durable_state \<Rightarrow> session_row \<Rightarrow> todo list \<Rightarrow> continuation \<Rightarrow> work_item list \<Rightarrow> message_row list \<Rightarrow> string \<Rightarrow> durable_state \<times> durable_anchor \<times> nat list" where
  "anchored_state X st0 row todos cont items old latest =
     (let C = ce_codec X; (st1, a, counts) = anchorDurableState C st0 row todos cont items old; st2 = auditDurableState C st1 old in
      if latest \<noteq> []
      then let rs = withoutRequest C (ds_resolved st2) latest in
        (st2\<lparr>ds_resolved := rs\<rparr>, a, take 3 counts @ [length rs, length (ds_resolved st2) - length rs])
      else (st2, a, counts @ [0]))"

definition finished_state :: "compact_env \<Rightarrow> string \<Rightarrow> string \<Rightarrow> durable_state \<Rightarrow> message_row list \<Rightarrow> nat \<Rightarrow> durable_state" where
  "finished_state X sid reason st msgs keepAt =
     (let C = ce_codec X; old = take keepAt msgs; refs = compactionEvidenceRefs sid st keepAt in
      st\<lparr>ds_schema := 1, ds_from := 0, ds_to := int keepAt - 1, ds_trigger := reason, ds_inputTokens := estimate (messagesText old),
         ds_refs := refs, ds_evidence := int (length refs), ds_cleared := clearedToolBytes C old, ds_validated := True, ds_boundary := ce_boundaryID X\<rparr>)"

definition compacted_summary :: "compact_env \<Rightarrow> session_row \<Rightarrow> durable_state \<Rightarrow> string" where
  "compacted_summary X row st =
     (let enc = cd_save (ce_codec X) st; plan = snd (splitPlanSnapshot (sr_summary row)) in
      if plan \<noteq> [] then setPlanSnapshot enc plan else enc)"

definition anchorCompactionMeta :: "compact_env \<Rightarrow> durable_anchor \<Rightarrow> nat list \<Rightarrow> (string \<times> string) list" where
  "anchorCompactionMeta X a counts =
     (let q = sv_quote (ce_store X); keys = [''resolved_requests_prior'', ''resolved_requests_semantic'', ''resolved_requests_detected'',
            ''resolved_requests_final'', ''resolved_requests_active_dropped''] in
      [(''anchor_source'', q (da_source a)),
       (''anchor_hash'', q (take 16 (hex_encode (sha256 (da_current a @ [line_feed, line_feed] @ da_report a)))))]
      @ zip keys (map itoa_nat counts)
      @ (if da_position a \<ge> 0 then [(''anchor_todo_position'', itoa_nat (nat (da_position a)))] else [])
      @ (if TrimSpace (da_phase a) \<noteq> [] then [(''anchor_todo_phase'', q (da_phase a))] else [])
      @ (if TrimSpace (da_status a) \<noteq> [] then [(''anchor_todo_status'', q (da_status a))] else []))"

definition itoa_signed :: "int \<Rightarrow> string" where
  "itoa_signed n = (if n < 0 then ''-'' @ itoa_nat (nat (- n)) else itoa_nat (nat n))"

definition compaction_meta ::
  "compact_env \<Rightarrow> summary_meta \<Rightarrow> durable_anchor \<Rightarrow> nat list \<Rightarrow> durable_state \<Rightarrow> message_row list \<Rightarrow> nat \<Rightarrow> string \<Rightarrow> string \<Rightarrow> (string \<times> string) list" where
  "compaction_meta X meta a counts st msgs keepAt cp reason =
     (let q = sv_quote (ce_store X) in
      (if su_strategy meta = ''semantic''
       then [(''strategy'', q ''semantic''), (''model'', q (su_model meta)), (''input_tokens'', itoa_signed (su_in meta)), (''output_tokens'', itoa_signed (su_out meta)),
             (''cost_usd'', xe_score (ce_extract X) (su_cost meta))]
       else [(''strategy'', q ''structured_fallback''), (''error'', q (su_error meta))])
      @ anchorCompactionMeta X a counts
      @ [(''kept_messages'', itoa_nat (length msgs - keepAt)), (''kept_turns'', ''4''), (''checkpoint_id'', q cp), (''reason'', q reason),
         (''schema_version'', itoa_signed (ds_schema st)), (''input_from_message'', itoa_signed (ds_from st)), (''input_to_message'', itoa_signed (ds_to st)),
         (''trigger'', q (ds_trigger st)), (''input_token_estimate'', itoa_signed (ds_inputTokens st)), (''cleared_tool_bytes'', itoa_signed (ds_cleared st)),
         (''evidence_count'', itoa_signed (ds_evidence st)), (''validated'', json_bool (ds_validated st)), (''cache_boundary_id'', q (ds_boundary st)),
         (''memory_cache_boundary_reason'', q ''compaction'')])"

text \<open>What follows the replacement of the history: memory, the cache epoch and the events.\<close>

definition after_compaction ::
  "compact_env \<Rightarrow> string \<Rightarrow> session_row \<Rightarrow> durable_state \<Rightarrow> summary_meta \<Rightarrow> bool \<Rightarrow> nat \<Rightarrow> (string \<times> string) list \<Rightarrow> recall_state \<Rightarrow> string option \<times> recall_state" where
  "after_compaction X sid row st meta summarised seq data s =
     (let R = ce_recall X; E = ce_store X; q = sv_quote E;
          (r1, s1) = (if ds_candidates st \<noteq> [] then persistMemoryCandidates (ce_extract X) sid (sr_workspace row) (ds_candidates st) (ds_refs st) s else (Inr (), s))
      in case r1 of
           Inl err \<Rightarrow> (Some err, s1)
         | Inr _ \<Rightarrow>
             let (r2, s2) = (if summarised then on_recall (AdvanceMemoryWatermark E sid (int seq)) s1 else (Inr (), s1)) in
             (case r2 of
                Inl err \<Rightarrow> (Some err, s2)
              | Inr _ \<Rightarrow>
                  let s3 = (case ce_mcp X of Some err \<Rightarrow> emit R sid ''runtime_config.reload_failed'' [(''error'', q err)] s2 | None \<Rightarrow> s2);
                      s4 = setCacheBoundary sid s3;
                      s5 = (if su_strategy meta = ''semantic''
                        then emit R sid ''usage.reported'' [(''model'', q (su_model meta)), (''kind'', q ''compaction''), (''input_tokens'', itoa_signed (su_in meta)),
                               (''output_tokens'', itoa_signed (su_out meta)), (''cost_usd'', xe_score (ce_extract X) (su_cost meta))] s4
                        else s4)
                  in (None, emit R sid ''context.compacted'' data s5)))"

text \<open>From the checkpoint on: the summary, its anchor, the replacement of the history and what follows.\<close>

definition write_compaction ::
  "compact_env \<Rightarrow> string \<Rightarrow> string \<Rightarrow> session_row \<Rightarrow> message_row list \<Rightarrow> nat \<Rightarrow> string \<Rightarrow> recall_state \<Rightarrow> string option \<times> recall_state" where
  "write_compaction X sid reason row msgs keepAt cp s1 =
     (let C = ce_codec X; E = ce_store X; db1 = rd_store (rs_db s1); old = take keepAt msgs;
          todos = Todos sid db1; cont = Continuation sid db1; items = WorkItems sid db1;
          (sum, s2) = on_store (semanticSummary X row todos cont items old) s1;
          (st0, meta) = (case sum of
             Inr res \<Rightarrow> res
           | Inl err \<Rightarrow> (fallbackDurableState C (ce_stamp X) row old, blank_meta\<lparr>su_strategy := ''structured_fallback'', su_error := err\<rparr>));
          latest = (case LatestRequest sid (rd_store (rs_db s2)) of Inr l \<Rightarrow> l | Inl _ \<Rightarrow> []);
          (st1, a, counts) = anchored_state X st0 row todos cont items old latest
      in (case validateCompactionAnchor C st1 a of
            Some err \<Rightarrow> (Some err, s2)
          | None \<Rightarrow>
              let st = finished_state X sid reason st1 msgs keepAt;
                  seq = compacted_seq sid (ms_created (msgs ! (keepAt - 1))) (rd_store (rs_db s2));
                  row1 = row\<lparr>sr_summary := compacted_summary X row st\<rparr>
              in (case on_store (ApplyCompaction E row1 (int (length msgs - keepAt))) s2 of
                    (Inl err, s3) \<Rightarrow> (Some err, s3)
                  | (Inr _, s3) \<Rightarrow>
                      after_compaction X sid row st meta (\<not> isl sum) seq (compaction_meta X meta a counts st msgs keepAt cp reason) s3)))"

definition compactState :: "compact_env \<Rightarrow> string \<Rightarrow> string \<Rightarrow> recall_state \<Rightarrow> string option \<times> recall_state" where
  "compactState X sid reason0 s =
     (let C = ce_codec X; E = ce_store X; db = rd_store (rs_db s); msgs = Messages sid db; keepAt = compactionKeepIndex C msgs 4 in
      case sv_io E of
        Some err \<Rightarrow> (Some err, s)
      | None \<Rightarrow>
          if keepAt = length msgs \<or> keepAt = 0 then (None, s)
          else case SessionRow sid db of
            Inl err \<Rightarrow> (Some err, s)
          | Inr row \<Rightarrow>
              let reason = or_default reason0 ''manual'' in
              (case on_store (CreateCheckpoint E (ce_checkpointID X) sid ''Before compaction'' reason) s of
                 (Inl err, s1) \<Rightarrow> (Some (''checkpoint before compaction: '' @ err), s1)
               | (Inr cp, s1) \<Rightarrow> write_compaction X sid reason row msgs keepAt (cp_id cp) s1))"

definition Compact :: "compact_env \<Rightarrow> bool \<Rightarrow> string \<Rightarrow> string \<Rightarrow> recall_state \<Rightarrow> string option \<times> recall_state" where
  "Compact X idle sid reason s = (if \<not> idle then (Some ''session has an active turn'', s) else compactState X sid reason s)"

definition compact :: "compact_env \<Rightarrow> string \<Rightarrow> recall_state \<Rightarrow> recall_state" where
  "compact X sid s =
     (case compactState X sid ''phase_or_context_boundary'' s of
        (None, s1) \<Rightarrow> s1
      | (Some err, s1) \<Rightarrow> emit (ce_recall X) sid ''context.compaction_failed'' [(''error'', sv_quote (ce_store X) err)] s1)"

definition recoverOversizedHistory :: "compact_env \<Rightarrow> string \<Rightarrow> int \<Rightarrow> recall_state \<Rightarrow> bool \<times> recall_state" where
  "recoverOversizedHistory X sid inputTokens s =
     (let E = ce_store X; q = sv_quote E;
          (r, s1) = on_store (ShrinkMessages E sid ''tool'' maxToolResultChars (shrinkStoredToolMessage (ce_codec X))) s;
          shrunk = (case r of Inr n \<Rightarrow> n | Inl _ \<Rightarrow> 0);
          s2 = emit (ce_recall X) sid ''context.oversized''
            [(''input_tokens'', itoa_signed inputTokens), (''tool_results_shrunk'', itoa_nat shrunk), (''error'', q (case r of Inl err \<Rightarrow> err | Inr _ \<Rightarrow> []))] s1;
          db = rd_store (rs_db s2); stored = (if sv_io E = None then Messages sid db else []);
          txt_s = (case SessionRow sid db of Inr x \<Rightarrow> if sv_io E = None then sr_spec x @ sr_summary x else [] | Inl _ \<Rightarrow> []) @ messagesText stored
      in if estimate txt_s < inputTokens * 3 div 4 then (0 < shrunk, s2) else (True, compact X sid s2))"

end
