(* ===== verification/Compaction_Undo.thy ===== *)
theory Compaction_Undo
  imports Compaction_Run Conversation_Checkpoint Recall_Runs
begin

text \<open>
  What compaction leaves of the store: the history is cut once, the rest of every session stays, and the
  checkpoint that was taken first brings the conversation back.
\<close>

section \<open>Charges and events\<close>

text \<open>The tables without what a charge or an event changes.\<close>

definition bare :: "string \<Rightarrow> session_row \<Rightarrow> session_row" where
  "bare sid x = (if sr_id x = sid then x\<lparr>sr_spent := 0, sr_updated := 0\<rparr> else x)"

definition essence :: "string \<Rightarrow> store_db \<Rightarrow> store_db" where
  "essence sid db = db\<lparr>t_events := [], t_sessions := map (bare sid) (t_sessions db)\<rparr>"

lemma essence_tables:
  assumes "essence sid b = essence sid a"
  shows "t_messages b = t_messages a" "t_todos b = t_todos a" "t_items b = t_items a" "t_conts b = t_conts a" "t_pending b = t_pending a"
    "t_checkpoints b = t_checkpoints a" "t_receipts b = t_receipts a" "t_queued b = t_queued a"
    "map (bare sid) (t_sessions b) = map (bare sid) (t_sessions a)"
  using arg_cong [OF assms, of t_messages] arg_cong [OF assms, of t_todos] arg_cong [OF assms, of t_items] arg_cong [OF assms, of t_conts]
    arg_cong [OF assms, of t_pending] arg_cong [OF assms, of t_checkpoints] arg_cong [OF assms, of t_receipts] arg_cong [OF assms, of t_queued]
    arg_cong [OF assms, of t_sessions]
  by (simp_all add: essence_def)

lemma bare_fields [simp]:
  "sr_id (bare sid x) = sr_id x" "sr_summary (bare sid x) = sr_summary x" "sr_spec (bare sid x) = sr_spec x" "sr_phase (bare sid x) = sr_phase x"
  "sr_model (bare sid x) = sr_model x" "sr_turn (bare sid x) = sr_turn x" "sr_status (bare sid x) = sr_status x" "sr_owner (bare sid x) = sr_owner x" "sr_latest (bare sid x) = sr_latest x"
  by (simp_all add: bare_def)

lemma SessionRow_bare: "map_sum (\<lambda>e. e) (bare sid) (SessionRow k db) = (case List.find (\<lambda>x. sr_id x = k) (map (bare sid) (t_sessions db)) of Some x \<Rightarrow> Inr x | None \<Rightarrow> Inl sql_no_rows)"
proof -
  have "List.find (\<lambda>x. sr_id x = k) (map (bare sid) xs) = map_option (bare sid) (List.find (\<lambda>x. sr_id x = k) xs)" for xs by (induction xs) auto
  then show ?thesis by (simp add: SessionRow_def split: option.split)
qed

lemma essence_row: "essence sid b = essence sid a \<Longrightarrow> map_sum (\<lambda>e. e) (bare sid) (SessionRow k b) = map_sum (\<lambda>e. e) (bare sid) (SessionRow k a)"
  unfolding SessionRow_bare by (drule essence_tables(9)) simp

lemma essence_row_cases:
  assumes "essence sid b = essence sid a" and "SessionRow k a = Inr x"
  obtains y where "SessionRow k b = Inr y" "bare sid y = bare sid x"
  using essence_row [OF assms(1), of k] assms(2) that by (cases "SessionRow k b") auto

lemma essence_reads:
  assumes "essence sid b = essence sid a"
  shows "Messages k b = Messages k a" "Todos k b = Todos k a" "WorkItems k b = WorkItems k a" "PendingInputs k b = PendingInputs k a"
    "Continuation k b = Continuation k a" "Checkpoint cid b = Checkpoint cid a"
  using essence_tables [OF assms]
  by (simp_all add: Messages_def Todos_def WorkItems_def ledger_rows_def PendingInputs_def Continuation_def Checkpoint_def)

lemma spend_essence [simp]: "essence sid (snd (AddSpend E sid usd db)) = essence sid db"
  by (auto simp: AddSpend_def tx_def update_session_def essence_def bare_def split: option.split)

lemma event_essence: "essence sid (snd (AddEventForTurn E k turnID evt d db)) = essence sid db"
  by (auto simp: AddEventForTurn_def tx_def append_event_def essence_def split: option.split)

lemma update_one_store: "rd_store (snd (update_one err P f db)) = rd_store db"
  by (simp add: update_one_def update_records_def)

lemma insert_record_store: "rd_store (snd (insert_record x db)) = rd_store db"
  by (simp add: insert_record_def)

lemma mutate_rows_store: "rd_store (snd (mutate_rows E m x db)) = rd_store db"
proof -
  obtain r db1 where i: "insert_record ((stamped E x)\<lparr>mm_superseded := []\<rparr>) db = (r, db1)" by force
  then have "rd_store db1 = rd_store db" using insert_record_store by (metis snd_conv)
  with i show ?thesis by (cases r) (simp_all add: mutate_rows_def update_one_store insert_record_store)
qed

lemma mutation_essence: "essence sid (rd_store (snd (ApplyMemoryMutationEvent E k turnID evt kvs m db))) = essence sid (rd_store db)"
proof -
  have "essence sid (append_event E k turnID evt d st) = essence sid st" for d st by (simp add: append_event_def essence_def)
  note ev = this
  have rows: "mutate_rows E m x db = (r, db1) \<Longrightarrow> rd_store db1 = rd_store db" for x r db1 using mutate_rows_store [of E m x db] by simp
  show ?thesis
    by (auto simp: ApplyMemoryMutationEvent_def tx_def Let_def ev split: option.split sum.split prod.split dest: rows)
qed

interpretation quiet: memory_ops "\<lambda>a b. essence sid (rd_store b) = essence sid (rd_store a)" for sid
proof unfold_locales
  show "essence sid (rd_store (snd (ListMemory E f db))) = essence sid (rd_store db)" for E f db
    by (simp add: ListMemory_def tx_def expire_due_def update_records_def Let_def split: option.split)
  show "essence sid (rd_store (snd (ObserveMemory E i k db))) = essence sid (rd_store db)" for E i k db
    by (auto simp: ObserveMemory_def tx_def Let_def split: option.split)
  show "essence sid (rd_store (snd (EnsureWorkspace E key db))) = essence sid (rd_store db)" for E key db
    by (auto simp: EnsureWorkspace_def tx_def Let_def split: option.split)
  have "rd_store (snd (tx E body db)) = rd_store db" if "rd_store (snd (body db)) = rd_store db" for E and db :: recall_db and body :: "recall_db \<Rightarrow> (string + unit) \<times> recall_db"
    using that by (cases "body db"; cases "fst (body db)") (auto simp: tx_def split: option.split)
  then show "essence sid (rd_store (snd (UpdateMemory E x db))) = essence sid (rd_store db)"
    "essence sid (rd_store (snd (ForgetMemory E w i db))) = essence sid (rd_store db)" for E x db w i
    by (simp_all add: UpdateMemory_def ForgetMemory_def update_one_store split: sum.split)
qed (simp_all add: event_essence mutation_essence)

declare quiet.refl [simp del]

lemma watermark_store: "rd_store (rs_db (snd (on_recall (AdvanceMemoryWatermark E sid n) s))) = rd_store (rs_db s)"
  by (simp add: on_recall_def AdvanceMemoryWatermark_def tx_def split: prod.split option.split)

lemma after_essence:
  assumes "extract_env_ok (ce_extract X)"
  shows "essence sid (rd_store (rs_db (snd (after_compaction X sid row st meta summarised seq kvs s)))) = essence sid (rd_store (rs_db s))"
proof -
  obtain r1 s1 where p: "(if ds_candidates st \<noteq> [] then persistMemoryCandidates (ce_extract X) sid (sr_workspace row) (ds_candidates st) (ds_refs st) s else (Inr (), s)) = (r1, s1)"
    by force
  have e1: "essence sid (rd_store (rs_db s1)) = essence sid (rd_store (rs_db s))"
  proof (cases "ds_candidates st = []")
    case False
    with p have "s1 = snd (persistMemoryCandidates (ce_extract X) sid (sr_workspace row) (ds_candidates st) (ds_refs st) s)" by simp
    then show ?thesis by (simp only: quiet.persist_rel [OF assms])
  qed (use p in simp)
  obtain r2 s2 where w: "(if summarised then on_recall (AdvanceMemoryWatermark (ce_store X) sid (int seq)) s1 else (Inr (), s1)) = (r2, s2)" by force
  have e2: "essence sid (rd_store (rs_db s2)) = essence sid (rd_store (rs_db s))"
    using watermark_store [of "ce_store X" sid "int seq" s1] w e1 by (cases summarised) simp_all
  have em: "essence sid (rd_store (rs_db (emit R k evt d x))) = essence sid (rd_store (rs_db x))" for R k evt d x by (rule quiet.emit_rel)
  show ?thesis using w unfolding after_compaction_def Let_def p
    by (cases summarised; cases r1; cases r2) (simp_all add: e1 e2 em split: option.split)
qed

section \<open>Charging summaries\<close>

lemma attempts_essence: "essence sid (snd (summary_attempts X sid spec prompt limits cost db)) = essence sid db"
proof (induction limits arbitrary: cost db)
  case (Cons limit limits)
  then show ?case by (auto simp: Let_def split: sum.split option.split)
qed simp

lemma transcript_essence: "essence (sr_id s) (snd (summarizeTranscript X s todos cont items transcript db)) = essence (sr_id s) db"
proof -
  have step: "summary_attempts X (sr_id s) spec prompt limits cost db = (r, db1) \<Longrightarrow> essence (sr_id s) db1 = essence (sr_id s) db"
    for spec prompt limits cost r db1
    using attempts_essence [of "sr_id s" X spec prompt limits cost db] by simp
  show ?thesis by (auto simp: summarizeTranscript_def Let_def simp del: summary_attempts.simps split: option.split prod.split sum.split dest: step)
qed

lemma fold_essence: "essence (sr_id s) (snd (foldSummaries X s todos cont items chunks res prior db)) = essence (sr_id s) db"
proof (induction chunks arbitrary: res prior db)
  case (Cons chunk chunks)
  have step: "summarizeTranscript X (s\<lparr>sr_summary := prior\<rparr>) todos cont items chunk db = (r, db1) \<Longrightarrow> essence (sr_id s) db1 = essence (sr_id s) db"
    for r db1
    using transcript_essence [of "s\<lparr>sr_summary := prior\<rparr>" X todos cont items chunk db] by simp
  show ?case by (auto simp: Cons.IH split: prod.split sum.split dest: step)
qed simp

lemma model_essence: "essence (sr_id s) (snd (semanticSummaryWithModel X s todos cont items old db)) = essence (sr_id s) db"
  by (simp add: semanticSummaryWithModel_def transcript_essence fold_essence del: foldSummaries.simps split: option.split list.split)

lemma summary_essence: "essence (sr_id s) (snd (semanticSummary X s todos cont items old db)) = essence (sr_id s) db"
proof -
  have model: "essence (sr_id s) (snd (semanticSummaryWithModel X t todos cont items old db)) = essence (sr_id s) db" if "sr_id t = sr_id s" for t db
    using model_essence [of t X todos cont items old db] that by simp
  then have step: "semanticSummaryWithModel X (s\<lparr>sr_model := m\<rparr>) todos cont items old db = (r, db1) \<Longrightarrow> essence (sr_id s) db1 = essence (sr_id s) db" for m r db1
    using model [of "s\<lparr>sr_model := m\<rparr>" db] by simp
  show ?thesis by (auto simp: semanticSummary_def model split: option.split prod.split sum.split dest: step)
qed

section \<open>The cut\<close>

lemma drop_messages_filter:
  "filter (\<lambda>x. ms_session x = k) (drop_messages n sid xs)
     = (if k = sid then drop n (filter (\<lambda>x. ms_session x = k) xs) else filter (\<lambda>x. ms_session x = k) xs)"
  by (induction n sid xs rule: drop_messages.induct) (auto simp: drop_Cons')

lemma apply_cut:
  assumes "ApplyCompaction E x (int keep) db = (Inr u, db')"
  shows "Messages k db' = (if k = sr_id x then drop (length (Messages k db) - keep) (Messages k db) else Messages k db)"
    and "t_todos db' = t_todos db" "t_items db' = t_items db" "t_conts db' = t_conts db" "t_pending db' = t_pending db" "t_checkpoints db' = t_checkpoints db"
    and "SessionRow k db' = map_sum (\<lambda>e. e) (\<lambda>y. if k = sr_id x then y\<lparr>sr_summary := sr_summary x, sr_phase := sr_phase x, sr_model := sr_model x,
      sr_turn := sr_turn x, sr_status := sr_status x, sr_owner := (if sr_status x = ''running'' then sv_pid E else sr_owner y), sr_updated := sv_now E\<rparr> else y)
      (SessionRow k db)"
proof -
  have f: "List.find (\<lambda>y. sr_id y = k) (map (\<lambda>y. if sr_id y = sr_id x then g y else y) ys)
      = map_option (\<lambda>y. if k = sr_id x then g y else y) (List.find (\<lambda>y. sr_id y = k) ys)"
    if "\<And>y. sr_id (g y) = sr_id y" for g and ys :: "session_row list" using that by (induction ys) auto
  note d = assms [unfolded ApplyCompaction_def tx_def Let_def]
  show "Messages k db' = (if k = sr_id x then drop (length (Messages k db) - keep) (Messages k db) else Messages k db)"
    "t_todos db' = t_todos db" "t_items db' = t_items db" "t_conts db' = t_conts db" "t_pending db' = t_pending db" "t_checkpoints db' = t_checkpoints db"
    using d by (auto simp: Messages_def update_session_def cool_cache_def drop_messages_filter split: option.splits)
  show "SessionRow k db' = map_sum (\<lambda>e. e) (\<lambda>y. if k = sr_id x then y\<lparr>sr_summary := sr_summary x, sr_phase := sr_phase x, sr_model := sr_model x,
      sr_turn := sr_turn x, sr_status := sr_status x, sr_owner := (if sr_status x = ''running'' then sv_pid E else sr_owner y), sr_updated := sv_now E\<rparr> else y)
      (SessionRow k db)"
  proof -
    define g :: "session_row \<Rightarrow> session_row" where "g = (\<lambda>y. y\<lparr>sr_summary := sr_summary x, sr_phase := sr_phase x, sr_model := sr_model x, sr_turn := sr_turn x,
      sr_status := sr_status x, sr_owner := (if sr_status x = ''running'' then sv_pid E else sr_owner y), sr_updated := sv_now E\<rparr>)"
    have "t_sessions db' = map (\<lambda>y. if sr_id y = sr_id x then g y else y) (t_sessions db)"
      using d unfolding g_def by (cases "sv_io E") (simp_all add: update_session_def cool_cache_def, drule sym, simp)
    then show ?thesis unfolding SessionRow_def g_def [symmetric] by (simp add: f g_def split: option.split)
  qed
qed

lemma last_index_less: "last_index P xs = Some i \<Longrightarrow> i < length xs \<and> P (xs ! i)"
proof -
  assume "last_index P xs = Some i"
  then have "i \<in> set (filter (\<lambda>i. P (xs ! i)) [0..<length xs])"
    unfolding last_index_def Let_def by (metis last_in_set option.distinct(1) option.inject)
  then show ?thesis by simp
qed

lemma back_index_less: "back_index k P xs = Some i \<Longrightarrow> i < length xs \<and> P (xs ! i)"
proof -
  assume "back_index k P xs = Some i"
  then have "i \<in> set (filter (\<lambda>i. P (xs ! i)) [0..<length xs])"
    unfolding back_index_def Let_def by (auto split: if_splits simp del: set_filter intro!: nth_mem)
  then show ?thesis by simp
qed

lemma keep_index_bound: "compactionKeepIndex C msgs n \<le> length msgs"
  using last_index_less [of "said C" msgs] back_index_less [of n "\<lambda>m. ms_role m = ''assistant''" msgs]
  by (auto simp: compactionKeepIndex_def Let_def split: option.splits)

text \<open>What is kept starts with a message a person wrote or with an answer of the model, never with a tool result.\<close>

lemma keep_index_start:
  assumes "compactionKeepIndex C msgs n < length msgs" and "compactionKeepIndex C msgs n \<noteq> 0"
  shows "said C (msgs ! compactionKeepIndex C msgs n) \<or> ms_role (msgs ! compactionKeepIndex C msgs n) = ''assistant''"
  using assms last_index_less [of "said C" msgs] back_index_less [of n "\<lambda>m. ms_role m = ''assistant''" msgs]
  by (auto simp: compactionKeepIndex_def Let_def split: option.splits if_splits)

section \<open>The state that is written\<close>

lemma audit_keeps:
  "ds_current (auditDurableState C st msgs) = ds_current st" "ds_report (auditDurableState C st msgs) = ds_report st"
  "ds_resolved (auditDurableState C st msgs) = ds_resolved st"
proof -
  have one: "ds_current (audit_one C j msgs i x) = ds_current x \<and> ds_report (audit_one C j msgs i x) = ds_report x \<and> ds_resolved (audit_one C j msgs i x) = ds_resolved x" for j i x
    by (simp add: audit_one_def Let_def split: prod.split)
  have "ds_current (fold (audit_one C j msgs) is st) = ds_current st \<and> ds_report (fold (audit_one C j msgs) is st) = ds_report st
      \<and> ds_resolved (fold (audit_one C j msgs) is st) = ds_resolved st" for j "is"
    by (induction "is" arbitrary: st) (simp_all add: one)
  then show "ds_current (auditDurableState C st msgs) = ds_current st" "ds_report (auditDurableState C st msgs) = ds_report st"
    "ds_resolved (auditDurableState C st msgs) = ds_resolved st"
    by (simp_all add: auditDurableState_def)
qed

lemma blank_request [simp]: "withoutRequest C rs [] = rs"
  by (simp add: withoutRequest_def normalizeRequest_def lower_def ToLower_def Fields_def)

lemma withoutRequest_idem: "withoutRequest C (withoutRequest C rs l) l = withoutRequest C rs l"
  by (simp add: withoutRequest_def Let_def)

lemma anchored_keeps:
  assumes "anchored_state X st0 row todos cont items old latest = (st, a, counts)"
  shows "a = selectDurableAnchor (ce_codec X) row todos cont items" and "ds_current st = da_current a" and "ds_report st = da_report a"
    and "withoutRequest (ce_codec X) (ds_resolved st) latest = ds_resolved st"
  using assms by (auto simp: anchored_state_def anchorDurableState_def Let_def audit_keeps withoutRequest_idem split: if_splits)

lemma finished_keeps:
  "ds_current (finished_state X sid reason st msgs n) = ds_current st" "ds_report (finished_state X sid reason st msgs n) = ds_report st"
  "ds_resolved (finished_state X sid reason st msgs n) = ds_resolved st" "ds_to (finished_state X sid reason st msgs n) = int n - 1"
  by (simp_all add: finished_state_def Let_def)

lemma finished_valid: "validateCompactionAnchor C (finished_state X sid reason st msgs n) a = validateCompactionAnchor C st a"
  by (simp add: validateCompactionAnchor_def finished_keeps)

end
