(* ===== verification/Compaction_Props.thy ===== *)
theory Compaction_Props
  imports Compaction_Undo Recall_Props
begin

text \<open>Compaction as a whole.\<close>

section \<open>The steps of a compaction\<close>

lemma on_store_eq: "on_store f s = (r, s') \<Longrightarrow> f (rd_store (rs_db s)) = (r, rd_store (rs_db s'))"
  by (auto simp: on_store_def split: prod.splits)

lemma SessionRow_exists: "SessionRow sid db = Inr x \<Longrightarrow> known db sid"
  using SessionRow_known by (auto simp: known_ids)

lemma latest_request: "essence sid db2 = essence sid db \<Longrightarrow> SessionRow sid db = Inr row \<Longrightarrow> LatestRequest sid db2 = Inr (sr_latest row)"
  by (erule (1) essence_row_cases) (simp add: LatestRequest_def, metis bare_fields(9))

text \<open>What is written when the history is cut: the anchor of the plan in a state that was validated, whose resolved requests do not name the active one.\<close>

definition anchored :: "compact_env \<Rightarrow> string \<Rightarrow> nat \<Rightarrow> session_row \<Rightarrow> store_db \<Rightarrow> durable_state \<Rightarrow> bool" where
  "anchored X sid keep row db st \<longleftrightarrow>
     (let C = ce_codec X; a = selectDurableAnchor C row (Todos sid db) (Continuation sid db) (WorkItems sid db) in
      ds_current st = da_current a \<and> ds_report st = da_report a \<and> validateCompactionAnchor C st a = None \<and> ds_to st = int keep - 1
      \<and> withoutRequest C (ds_resolved st) (sr_latest row) = ds_resolved st)"

text \<open>Why a compaction that was started does not happen: the database, or an anchor that is not valid.\<close>

definition refused :: "compact_env \<Rightarrow> string \<Rightarrow> store_db \<Rightarrow> string \<Rightarrow> bool" where
  "refused X sid db m \<longleftrightarrow>
     sv_io (ce_store X) = Some m
     \<or> (\<exists>row st a. SessionRow sid db = Inr row \<and> a = selectDurableAnchor (ce_codec X) row (Todos sid db) (Continuation sid db) (WorkItems sid db)
          \<and> ds_current st = da_current a \<and> ds_report st = da_report a \<and> validateCompactionAnchor (ce_codec X) st a = Some m)"

lemma write_compaction_cases:
  assumes "write_compaction X sid reason row msgs keep cp s1 = (err, s')" and "extract_env_ok (ce_extract X)" and "SessionRow sid (rd_store (rs_db s1)) = Inr row"
  obtains m where "err = Some m" "refused X sid (rd_store (rs_db s1)) m" "essence sid (rd_store (rs_db s')) = essence sid (rd_store (rs_db s1))"
  | st db2 db3 u where "anchored X sid keep row (rd_store (rs_db s1)) st" "essence sid db2 = essence sid (rd_store (rs_db s1))"
      "ApplyCompaction (ce_store X) (row\<lparr>sr_summary := compacted_summary X row st\<rparr>) (int (length msgs - keep)) db2 = (Inr u, db3)"
      "essence sid (rd_store (rs_db s')) = essence sid db3"
proof -
  define db1 where "db1 = rd_store (rs_db s1)"
  obtain r2 s2 where c2: "on_store (semanticSummary X row (Todos sid db1) (Continuation sid db1) (WorkItems sid db1) (take keep msgs)) s1 = (r2, s2)" by force
  have id: "sr_id row = sid" using assms(3) by (auto dest: SessionRow_known)
  have e2: "essence sid (rd_store (rs_db s2)) = essence sid db1"
    using summary_essence [of row X "Todos sid db1" "Continuation sid db1" "WorkItems sid db1" "take keep msgs" db1] on_store_eq [OF c2]
    by (simp add: id db1_def)
  note latest = latest_request [OF e2 assms(3) [folded db1_def]]
  obtain st0 meta where m: "(case r2 of Inr res \<Rightarrow> res | Inl err \<Rightarrow> (fallbackDurableState (ce_codec X) (ce_stamp X) row (take keep msgs),
      blank_meta\<lparr>su_strategy := ''structured_fallback'', su_error := err\<rparr>)) = (st0, meta)" by force
  obtain st1 a counts where an: "anchored_state X st0 row (Todos sid db1) (Continuation sid db1) (WorkItems sid db1) (take keep msgs) (sr_latest row) = (st1, a, counts)"
    by (metis prod.collapse)
  note step = assms(1) [unfolded write_compaction_def Let_def, folded db1_def, unfolded c2 prod.case latest m an sum.case]
  show thesis
  proof (cases "validateCompactionAnchor (ce_codec X) st1 a")
    case (Some e)
    then have "refused X sid db1 e" using anchored_keeps [OF an] assms(3) unfolding refused_def db1_def by blast
    then show thesis using that(1) [of e] step e2 Some by (simp add: db1_def)
  next
    case None
    define st where "st = finished_state X sid reason st1 msgs keep"
    obtain r3 s3 where c3: "on_store (ApplyCompaction (ce_store X) (row\<lparr>sr_summary := compacted_summary X row st\<rparr>) (int (length msgs - keep))) s2 = (r3, s3)" by force
    note c = on_store_eq [OF c3]
    show thesis
    proof (cases r3)
      case (Inl e)
      then have "rd_store (rs_db s3) = rd_store (rs_db s2)" "sv_io (ce_store X) = Some e"
        using c by (auto simp: ApplyCompaction_def tx_def Let_def split: option.splits)
      then show thesis using that(1) [of e] step e2 None Inl c3 by (simp add: db1_def st_def refused_def)
    next
      case (Inr u)
      have "anchored X sid keep row db1 st"
        using anchored_keeps [OF an] None by (simp add: anchored_def Let_def st_def finished_keeps finished_valid)
      moreover have "essence sid (rd_store (rs_db s')) = essence sid (rd_store (rs_db s3))"
        using step None Inr c3 after_essence [OF assms(2), of sid] by (simp add: st_def) (metis snd_conv)
      ultimately show thesis using that(2) [of st "rd_store (rs_db s2)" u "rd_store (rs_db s3)"] c Inr e2 by (simp add: db1_def)
    qed
  qed
qed

lemma checkpointed_reads:
  "Messages k (db\<lparr>t_checkpoints := c\<rparr>) = Messages k db" "Todos k (db\<lparr>t_checkpoints := c\<rparr>) = Todos k db" "WorkItems k (db\<lparr>t_checkpoints := c\<rparr>) = WorkItems k db"
  "PendingInputs k (db\<lparr>t_checkpoints := c\<rparr>) = PendingInputs k db" "Continuation k (db\<lparr>t_checkpoints := c\<rparr>) = Continuation k db"
  "SessionRow k (db\<lparr>t_checkpoints := c\<rparr>) = SessionRow k db"
  by (simp_all add: Messages_def Todos_def WorkItems_def ledger_rows_def PendingInputs_def Continuation_def SessionRow_def)

lemma refused_checkpointed: "refused X sid (db\<lparr>t_checkpoints := c\<rparr>) m = refused X sid db m"
  by (simp add: refused_def checkpointed_reads)

lemma bare_other: "SessionRow k db = Inr x \<Longrightarrow> k \<noteq> sid \<Longrightarrow> bare sid x = x"
  using SessionRow_known by (auto simp: bare_def)

lemma essence_other:
  assumes "essence sid b = essence sid a" and "k \<noteq> sid"
  shows "SessionRow k b = SessionRow k a"
  using essence_row [OF assms(1), of k] bare_other [OF _ assms(2)]
  by (cases "SessionRow k a"; cases "SessionRow k b") auto

text \<open>What no compaction touches.\<close>

definition others_kept :: "string \<Rightarrow> store_db \<Rightarrow> store_db \<Rightarrow> bool" where
  "others_kept sid db db' \<longleftrightarrow>
     (\<forall>k. Todos k db' = Todos k db \<and> WorkItems k db' = WorkItems k db \<and> PendingInputs k db' = PendingInputs k db \<and> Continuation k db' = Continuation k db
        \<and> (k \<noteq> sid \<longrightarrow> Messages k db' = Messages k db \<and> SessionRow k db' = SessionRow k db))"

lemma essence_others:
  assumes "essence sid b = essence sid a"
  shows "others_kept sid a b"
  using essence_reads [OF assms] essence_other [OF assms] by (simp add: others_kept_def)

lemma others_trans: "others_kept sid a b \<Longrightarrow> others_kept sid b c \<Longrightarrow> others_kept sid a c"
  by (simp add: others_kept_def)

lemma cut_others:
  assumes "ApplyCompaction E x (int keep) db = (Inr u, db')" and "sr_id x = sid"
  shows "others_kept sid db db'"
  using assms(2) unfolding others_kept_def Todos_def WorkItems_def ledger_rows_def PendingInputs_def Continuation_def apply_cut [OF assms(1)]
  by (simp add: sum.map_ident)

lemma undo_cut:
  assumes "store_ok db" and "sid \<noteq> []" and "sv_io E = None" and row: "SessionRow sid db = Inr row"
    and cp: "CreateCheckpoint E0 cid sid label reason db = (Inr cp, db1)" and e2: "essence sid db2 = essence sid db1"
    and cut: "ApplyCompaction E0 x (int n) db2 = (Inr u, db3)" and "sr_id x = sid" and e4: "essence sid db4 = essence sid db3"
  shows "\<exists>db5 row5. RestoreCheckpoint E sid cid db4 = (Inr (), db5) \<and> Messages sid db5 = Messages sid db \<and> SessionRow sid db5 = Inr row5
    \<and> sr_summary row5 = sr_summary row \<and> sr_model row5 = sr_model row \<and> sr_phase row5 = sr_phase row \<and> sr_turn row5 = sr_turn row"
proof -
  from cp have db1: "Checkpoint cid db1 = Inr cp" "db1 = db\<lparr>t_checkpoints := t_checkpoints db @ [cp]\<rparr>" by (rule CreateCheckpoint_cases, simp)+
  have cp4: "Checkpoint cid db4 = Inr cp"
    using db1(1) essence_reads(6) [OF e2, of cid] essence_reads(6) [OF e4, of cid] apply_cut(6) [OF cut] by (simp add: Checkpoint_def)
  obtain y where y: "SessionRow sid db2 = Inr y"
    using row by (auto simp: db1(2) checkpointed_reads intro: essence_row_cases [OF e2, of sid row])
  then have "\<exists>z. SessionRow sid db3 = Inr z" by (simp add: apply_cut(7) [OF cut])
  then have k4: "known db4 sid" by (auto intro: SessionRow_exists elim: essence_row_cases [OF e4])
  have tabs: "t_pending db4 = t_pending db" "t_items db4 = t_items db"
    using essence_tables(3,5) [OF e2] essence_tables(3,5) [OF e4] apply_cut(3,5) [OF cut] by (simp_all add: db1(2))
  have p4: "\<forall>p \<in> set (t_pending db4). pi_session p \<noteq> sid \<longrightarrow> pi_id p \<notin> pi_id ` set (PendingInputs sid db)"
    unfolding tabs PendingInputs_def set_sort set_filter using store_okD(14) [OF assms(1)] by (auto simp: distinct_map inj_on_def)
  have w4: "\<forall>w \<in> set (t_items db4). wi_session w \<noteq> sid \<longrightarrow> wi_id w \<notin> wi_id ` set (WorkItems sid db)"
    unfolding tabs snapshot_keys(3) [OF assms(1)] using store_okD(12) [OF assms(1)] by (auto simp: distinct_map inj_on_def)
  from checkpoint_restores [OF assms(1,2) cp cp4 k4 assms(3) p4 w4] obtain db5 snap row4 where r: "RestoreCheckpoint E sid cid db4 = (Inr (), db5)" "Messages sid db5 = Messages sid db" "SessionRow sid db = Inr snap"
      "SessionRow sid db5 = Inr (row4\<lparr>sr_summary := sr_summary snap, sr_phase := sr_phase snap, sr_model := sr_model snap,
        sr_turn := sr_turn snap, sr_status := ''interrupted'', sr_request := sr_request snap, sr_updated := sv_now E\<rparr>)"
    by (elim exE conjE) (rule that; assumption)
  from r(3) row have "snap = row" by simp
  with r show ?thesis by (intro exI conjI) (assumption, assumption, assumption, simp_all)
qed


lemma failed_outcome:
  assumes "essence sid db' = essence sid (db\<lparr>t_checkpoints := c\<rparr>)"
  shows "others_kept sid db db'" and "Messages sid db' = Messages sid db"
    and "map_sum (\<lambda>e. e) sr_summary (SessionRow sid db') = map_sum (\<lambda>e. e) sr_summary (SessionRow sid db)"
proof -
  show "others_kept sid db db'" using essence_others [OF assms] by (simp add: others_kept_def checkpointed_reads)
  show "Messages sid db' = Messages sid db" using essence_reads(1) [OF assms] by (simp add: checkpointed_reads)
  show "map_sum (\<lambda>e. e) sr_summary (SessionRow sid db') = map_sum (\<lambda>e. e) sr_summary (SessionRow sid db)"
    using arg_cong [OF essence_row [OF assms, of sid], of "map_sum (\<lambda>e. e) sr_summary"] by (simp add: sum.map_comp comp_def checkpointed_reads)
qed

lemma cut_outcome:
  assumes cp: "CreateCheckpoint E0 cid sid label reason db = (Inr cp, db1)" and row: "SessionRow sid db = Inr row"
    and e2: "essence sid db2 = essence sid db1"
    and cut: "ApplyCompaction E0 (row\<lparr>sr_summary := summary\<rparr>) (int (length (Messages sid db) - keep)) db2 = (Inr u, db3)"
    and e4: "essence sid db' = essence sid db3" and "keep < length (Messages sid db)"
  obtains row' where "others_kept sid db db'" "Messages sid db' = drop keep (Messages sid db)" "SessionRow sid db' = Inr row'" "sr_summary row' = summary"
proof -
  have db1: "db1 = db\<lparr>t_checkpoints := t_checkpoints db @ [cp]\<rparr>" using cp by (rule CreateCheckpoint_cases)
  have row1: "SessionRow sid db1 = Inr row" using row by (simp add: db1 checkpointed_reads)
  have ident: "sr_id (row\<lparr>sr_summary := summary\<rparr>) = sid" using row by (auto dest: SessionRow_known)
  have "others_kept sid db db1" by (simp add: others_kept_def db1 checkpointed_reads)
  from others_trans [OF others_trans [OF this essence_others [OF e2]] others_trans [OF cut_others [OF cut ident] essence_others [OF e4]]]
  have kept: "others_kept sid db db'" .
  have msgs: "Messages sid db' = drop keep (Messages sid db)"
    using assms(6) essence_reads(1) [OF e4, of sid] essence_reads(1) [OF e2, of sid] apply_cut(1) [OF cut, of sid] ident by (simp add: db1 checkpointed_reads)
  obtain y where "SessionRow sid db2 = Inr y" by (rule essence_row_cases [OF e2 row1])
  then have "\<exists>z. SessionRow sid db3 = Inr z \<and> sr_summary z = summary" using apply_cut(7) [OF cut, of sid] ident by simp
  then obtain z where "SessionRow sid db3 = Inr z" "sr_summary z = summary" by blast
  then obtain row' where "SessionRow sid db' = Inr row'" "sr_summary row' = summary"
    by (elim essence_row_cases [OF e4]) (metis bare_fields(2))
  with kept msgs that show thesis by blast
qed

lemma compactState_cases:
  assumes "compactState X sid reason s = (err, s')" and "extract_env_ok (ce_extract X)" and "rd_store (rs_db s) = db"
    and "keep = compactionKeepIndex (ce_codec X) (Messages sid db) 4"
  obtains "err = None" "s' = s" "keep = 0 \<or> keep = length (Messages sid db)"
  | m c where "err = Some m" "refused X sid db m \<or> SessionRow sid db = Inl m \<or> ce_checkpointID X \<in> cp_id ` set (t_checkpoints db)" "essence sid (rd_store (rs_db s')) = essence sid (db\<lparr>t_checkpoints := c\<rparr>)"
  | row cp why db1 db2 db3 st u where "0 < keep" "keep < length (Messages sid db)" "SessionRow sid db = Inr row"
      "CreateCheckpoint (ce_store X) (ce_checkpointID X) sid ''Before compaction'' why db = (Inr cp, db1)" "anchored X sid keep row db st"
      "essence sid db2 = essence sid db1"
      "ApplyCompaction (ce_store X) (row\<lparr>sr_summary := compacted_summary X row st\<rparr>) (int (length (Messages sid db) - keep)) db2 = (Inr u, db3)"
      "essence sid (rd_store (rs_db s')) = essence sid db3"
proof -
  note start = assms(1) [unfolded compactState_def Let_def assms(3), folded assms(4)]
  have same: "essence sid (rd_store (rs_db s)) = essence sid (db\<lparr>t_checkpoints := t_checkpoints db\<rparr>)" by (simp add: assms(3))
  consider "err = None" "s' = s" "keep = 0 \<or> keep = length (Messages sid db)" | m where "err = Some m" "s' = s" "refused X sid db m \<or> SessionRow sid db = Inl m \<or> ce_checkpointID X \<in> cp_id ` set (t_checkpoints db)"
    | row where "sv_io (ce_store X) = None" "0 < keep" "keep < length (Messages sid db)" "SessionRow sid db = Inr row"
  proof (cases "sv_io (ce_store X)")
    case (Some e)
    then show thesis using start that(2) [of e] by (simp add: refused_def)
  next
    case None
    note io = this
    show thesis
    proof (cases "keep = length (Messages sid db) \<or> keep = 0")
      case True
      then show thesis using start io that(1) by auto
    next
      case False
      then have "0 < keep" "keep < length (Messages sid db)"
        using keep_index_bound [of "ce_codec X" "Messages sid db" 4] assms(4) by auto
      then show thesis using start io False that(2,3) by (cases "SessionRow sid db") (auto simp: refused_def)
    qed
  qed
  then show thesis
  proof cases
    case 1
    then show thesis by (rule that(1))
  next
    case (2 m)
    then show thesis using that(2) [of m "t_checkpoints db"] same by simp
  next
    case (3 row)
    define why where "why = or_default reason ''manual''"
    obtain r1 s1 where c1: "on_store (CreateCheckpoint (ce_store X) (ce_checkpointID X) sid ''Before compaction'' why) s = (r1, s1)" by force
    note c = on_store_eq [OF c1, unfolded assms(3)]
    show thesis
    proof (cases r1)
      case (Inl e)
      then have "rd_store (rs_db s1) = db" "ce_checkpointID X \<in> cp_id ` set (t_checkpoints db)"
        using c 3(1,4) by (auto simp: CreateCheckpoint_def tx_def Let_def split: if_splits)
      then show thesis using that(2) [of "''checkpoint before compaction: '' @ e" "t_checkpoints db"] start 3 c1 Inl by (auto simp: why_def refused_def)
    next
      case (Inr cp)
      then have cp: "CreateCheckpoint (ce_store X) (ce_checkpointID X) sid ''Before compaction'' why db = (Inr cp, rd_store (rs_db s1))" using c by simp
      then have db1: "rd_store (rs_db s1) = db\<lparr>t_checkpoints := t_checkpoints db @ [cp]\<rparr>" by (rule CreateCheckpoint_cases)
      have row1: "SessionRow sid (rd_store (rs_db s1)) = Inr row" using 3(4) by (simp add: db1 checkpointed_reads)
      have "write_compaction X sid why row (Messages sid db) keep (cp_id cp) s1 = (err, s')" using start 3 c1 Inr by (simp add: why_def)
      from this assms(2) row1 show thesis
      proof (rule write_compaction_cases)
        fix m assume "err = Some m" "refused X sid (rd_store (rs_db s1)) m" "essence sid (rd_store (rs_db s')) = essence sid (rd_store (rs_db s1))"
        then show thesis using that(2) [of m "t_checkpoints db @ [cp]"] by (simp add: db1 refused_checkpointed)
      next
        fix st db2 db3 u
        assume a: "anchored X sid keep row (rd_store (rs_db s1)) st"
          and r: "essence sid db2 = essence sid (rd_store (rs_db s1))"
            "ApplyCompaction (ce_store X) (row\<lparr>sr_summary := compacted_summary X row st\<rparr>) (int (length (Messages sid db) - keep)) db2 = (Inr u, db3)"
            "essence sid (rd_store (rs_db s')) = essence sid db3"
        have "anchored X sid keep row db st" using a by (simp add: anchored_def db1 checkpointed_reads)
        with 3(2-4) cp show thesis using r by (rule that(3))
      qed
    qed
  qed
qed


definition demo_codec :: codec where
  "demo_codec = \<lparr>cd_uni = (\<lambda>s. s), cd_message = (\<lambda>_. None), cd_write = (\<lambda>_. []), cd_state = (\<lambda>_. None), cd_save = (\<lambda>_. ''state''),
     cd_json = (\<lambda>s. s), cd_quote = (\<lambda>s. s)\<rparr>"

definition demo_compact_env :: compact_env where
  "demo_compact_env = \<lparr>ce_extract = \<lparr>xe_recall = demo_recall_env, xe_classifier = False, xe_durable = (\<lambda>_. None), xe_conflict = (\<lambda>_ _. None),
       xe_visit = (\<lambda>l. l), xe_temp = (\<lambda>_. False), xe_decode = (\<lambda>_. []), xe_score = (\<lambda>_. [])\<rparr>,
     ce_codec = demo_codec, ce_catalog = [], ce_available = (\<lambda>_. True), ce_complete = (\<lambda>_. Inl ''down''), ce_decodeError = (\<lambda>s. s), ce_stamp = [],
     ce_mcp = None, ce_checkpointID = ''c'', ce_boundaryID = ''b''\<rparr>"

definition demo_long :: store_db where
  "demo_long = snd (AddMessage demo_store_env ''s'' ''user'' ''again'' demo_conversation)"

definition demo_compactable :: recall_state where
  "demo_compactable = empty_recall_state\<lparr>rs_db := empty_recall\<lparr>rd_store := demo_long\<rparr>\<rparr>"


end
