(* ===== verification/Compaction_Chunks.thy ===== *)
theory Compaction_Chunks
  imports Compaction_Run
begin

text \<open>The transcript a summary is made of: cut into chunks that fit the model, with nothing lost.\<close>

section \<open>Chunks of a transcript\<close>

lemma chop_parts:
  assumes "0 < limit"
  shows "case chop limit l of (ps, r) \<Rightarrow> concat ps @ r = l \<and> list_all (\<lambda>p. length p = limit) ps \<and> length r \<le> limit"
  using assms
proof (induction limit l rule: chop.induct)
  case (1 limit l)
  obtain ps r where c: "chop limit (drop limit l) = (ps, r)" by force
  show ?case
  proof (cases "limit < length l")
    case True
    with 1 c have "concat ps @ r = drop limit l" "list_all (\<lambda>p. length p = limit) ps" "length r \<le> limit" by auto
    then show ?thesis using True 1(2) c by (simp add: chop.simps [of limit l])
  qed (simp add: chop.simps [of limit l])
qed

text \<open>The state of the loop after some lines: chunks that fit, a buffer that fits, and the text so far but for line feeds.\<close>

definition chunked :: "nat \<Rightarrow> string list \<Rightarrow> string list \<times> string \<Rightarrow> bool" where
  "chunked limit ls cb \<longleftrightarrow> list_all (\<lambda>c. c \<noteq> [] \<and> length c \<le> limit) (fst cb) \<and> length (snd cb) \<le> limit
     \<and> filter (\<lambda>c. c \<noteq> line_feed) (concat (fst cb) @ snd cb) = filter (\<lambda>c. c \<noteq> line_feed) (concat ls)"

lemma flush_chunked: "chunked limit ls cb \<Longrightarrow> chunked limit ls (flush_chunk cb, [])"
  by (auto simp: chunked_def flush_chunk_def)

lemma chunk_line_chunked:
  assumes "0 < limit" and "chunked limit ls cb"
  shows "chunked limit (ls @ [l]) (chunk_line limit l cb)"
proof -
  obtain ps r where c: "chop limit l = (ps, r)" by force
  with chop_parts [OF assms(1), of l] have l: "l = concat ps @ r" and ps: "list_all (\<lambda>p. length p = limit) ps" and r: "length r \<le> limit" by auto
  define cb1 where "cb1 = (if ps = [] then cb else (flush_chunk cb @ ps, []))"
  have "list_all (\<lambda>p. p \<noteq> [] \<and> length p \<le> limit) ps" using ps assms(1) by (auto simp: list_all_iff)
  then have "chunked limit (ls @ [concat ps]) cb1"
    using assms(2) flush_chunked [OF assms(2)] by (auto simp: cb1_def chunked_def)
  moreover have "chunk_line limit l cb = (let (cs, b) = cb1 in if r = [] then (cs, b)
      else if b \<noteq> [] \<and> length b + (length r + 1) > limit then (cs @ [b], r) else (cs, (if b = [] then [] else b @ [line_feed]) @ r))"
    by (simp add: chunk_line_def c cb1_def)
  ultimately show ?thesis using r by (cases cb1) (auto simp: chunked_def l)
qed

lemma chunks_chunked:
  assumes "0 < limit" and "chunked limit ls cb"
  shows "chunked limit (ls @ lines) (fold (chunk_line limit) lines cb)"
  using assms(2)
proof (induction lines arbitrary: ls cb)
  case (Cons l lines)
  from Cons.IH [OF chunk_line_chunked [OF assms(1) Cons.prems]] show ?case by simp
qed simp

text \<open>
  Claim C26. The chunks a history is summarised in are never empty and never longer than the limit (8000 bytes for a limit below one), and together they
  hold the projected transcript: the same characters in the same order, but for line feeds between lines.
\<close>

theorem transcript_chunks:
  "list_all (\<lambda>c. c \<noteq> [] \<and> int (length c) \<le> (if limit < 1 then 8000 else limit)) (transcriptChunks C msgs limit)
    \<and> filter (\<lambda>c. c \<noteq> line_feed) (concat (transcriptChunks C msgs limit)) = filter (\<lambda>c. c \<noteq> line_feed) (concat (projectTranscript C msgs))"
proof -
  define n where "n = (if limit < 1 then 8000 else nat limit)"
  have n: "0 < n" "int n = (if limit < 1 then 8000 else limit)" by (auto simp: n_def)
  have "chunked n [] ([], [])" by (simp add: chunked_def)
  from flush_chunked [OF chunks_chunked [OF n(1) this, of "projectTranscript C msgs"]]
  have "chunked n (projectTranscript C msgs) (transcriptChunks C msgs limit, [])"
    by (simp add: transcriptChunks_def n_def Let_def)
  then show ?thesis unfolding chunked_def n(2) [symmetric] by simp
qed

end
