(* ===== verification/Spec2Isabelle.thy ===== *)
theory Spec2Isabelle
  imports Hashline_Correct Unified_Diff Replace_Props Work_Items_Props Exec_Guard_Props Router_Decide
    Completion_Props Retention_Books Conversation_Checkpoint Recall_Props Review_Run Compaction_Props Compaction_Chunks
begin

text \<open>
  A verification development of Orrery, a Go agent harness: an engine that runs coding sessions of
  a language model, chooses the model for every call, gives it tools to edit a workspace, and keeps
  everything in a store. File names below are relative to \<^verbatim>\<open>src/\<close>.

  \<^bold>\<open>How the parts fit together.\<close> The engine (\<^verbatim>\<open>internal/core\<close>) runs a session turn by turn. For
  each call the router (\<^verbatim>\<open>internal/router\<close>) picks a model and an effort from the catalog
  (\<^verbatim>\<open>internal/model\<close>). The model answers with tool calls, which \<^verbatim>\<open>internal/tools\<close> executes: reading and
  editing files with content-anchored patches (\<^verbatim>\<open>internal/hashline\<close>), replacing text, running commands
  behind a guard. Files live in a workspace (\<^verbatim>\<open>workspace\<close>), on disk or in memory; workers get isolated copies that
  are merged back. A tracker notices lack of progress, and a final answer passes a gate
  before it counts. Messages, events, plans, checkpoints and memory are rows of a store
  (\<^verbatim>\<open>storage\<close>, \<^verbatim>\<open>internal/store\<close>); retention keeps its size in bounds; memory of earlier sessions is selected
  into the prompt and kept up to date.

  \<^bold>\<open>Go and its library.\<close> \<open>Go_Prelude\<close>, \<open>Go_Strings\<close>, \<open>Go_Path\<close>, \<open>Go_Sha256\<close> and \<open>Go_Float\<close> model what the
  code uses of the language and its standard library: 64-bit integers that wrap, byte strings, slashed
  paths, the digest behind the anchors, and binary64 arithmetic as correctly rounded rationals. What
  no theory can compute from its arguments (time, the file system below a path, processes, random identifiers, JSON
  text of arbitrary values, the Unicode tables, a classifier's or a person's answer) is an argument of the definitions. Fallible
  operations return a sum or an option with the error on the left, and stateful ones take and return a record.

  \<^bold>\<open>Theories and what they show.\<close>
  \<^item> \<open>Hashline\<close> is \<^verbatim>\<open>internal/hashline/hashline.go\<close>; \<open>Hashline_Correct\<close> proves that applying a patch refines its
    abstract specification, never panics, never deletes a line other than the anchored one, and that
    what is written reads back.
  \<^item> \<open>Memory_FS\<close> is the in-memory workspace with its isolated copies (\<^verbatim>\<open>workspace/memory.go\<close>); \<open>Memory_Correct\<close> and
    \<open>Memory_Merge\<close> give each operation's effect and the tree invariant, and \<open>Memory_Props\<close> that the
    merge is a conflict-checked three-way merge, that operations round trip, and that marks track changes.
  \<^item> \<open>Line_Align\<close> and \<open>Unified_Diff\<close> are the alignment of file versions and \<^verbatim>\<open>internal/core/unified_diff.go\<close>: the table is a longest
    common subsequence, the script minimal, and the printed hunks are a patch from the old file to the new one.
  \<^item> \<open>Tool_Paths\<close> and \<open>Edit_Tools\<close> are path resolution and the file tools of \<^verbatim>\<open>internal/tools\<close>. \<open>Edit_Correct\<close> states what
    they rely on of a workspace as the locale \<open>workspace_fs\<close>, proves the tools against it and interprets
    it on the in-memory workspace; \<open>Edit_Props\<close> and \<open>Replace_Props\<close> hold the properties (paths stay inside, edits
    apply or leave the file alone, replacements are all or nothing, session histories stay bounded).
  \<^item> \<open>Exec_Guard\<close> and \<open>Exec_Guard_Props\<close>: the guard of \<^verbatim>\<open>internal/tools/execguard.go\<close> over the syntax tree the shell
    parser returns, with its termination; what it lets through and what it refuses however nested.
  \<^item> \<open>Model_Catalog\<close>, \<open>Router\<close>, \<open>Router_Props\<close>, \<open>Router_Decide\<close>: the built-in catalog and the routing decision; eligibility,
    progress, optimality of the choice and the accuracy of cost estimates.
  \<^item> \<open>Work_Items\<close> and \<open>Work_Items_Props\<close>: the reconciliation of the work-item ledger with the plan (\<^verbatim>\<open>storage/rules.go\<close>).
  \<^item> \<open>Progress\<close>, \<open>Completion_Gate\<close>, \<open>Completion_Props\<close>: the progress tracker and the gate of a final answer
    (\<^verbatim>\<open>internal/core/progress.go\<close>, \<^verbatim>\<open>engine.go\<close> and the files they use) as a step relation; what an accepted answer
    has passed, and the bound on refusals for an unchanged diff.
  \<^item> \<open>Session_Store\<close>, \<open>Retention\<close>, \<open>Retention_Props\<close>, \<open>Retention_Books\<close>: archives and one retention pass
    (\<^verbatim>\<open>internal/core/retention.go\<close>). The locale \<open>session_store\<close> is the contract the pass relies on; it is
    interpreted on the SQLite model, for which the properties are stated.
  \<^item> \<open>Conversation_Store\<close> and \<open>Conversation_Rewind\<close> are the conversation tables of \<^verbatim>\<open>internal/store/store.go\<close>, one
    definition per operation; \<open>Conversation_Inv\<close> makes them the steps of a transition system with its
    invariant; \<open>Conversation_Props\<close> and \<open>Conversation_Checkpoint\<close> prove that messages are accepted exactly
    once, that a checkpoint brings back the conversation and that a fork copies it.
  \<^item> \<open>Recall_Records\<close>, \<open>Recall_Select\<close>, \<open>Recall_Control\<close>: durable memory (\<^verbatim>\<open>internal/store/memory.go\<close>,
    \<^verbatim>\<open>internal/core/memory.go\<close>, \<^verbatim>\<open>memory_admin.go\<close>, \<^verbatim>\<open>memory_extraction.go\<close>). \<open>Recall_Inv\<close> makes the tables a transition system
    with its invariant, \<open>Recall_Runs\<close> shows that everything the engine does to memory is a run of it, and \<open>Recall_Props\<close> proves
    that the invariant always holds, that forgotten records stay forgotten, that the model's view agrees with the
    store after an update, and that selections keep their budgets.
  \<^item> \<open>Review_Diff\<close>, \<open>Review_Plan\<close>, \<open>Review_Props\<close>, \<open>Review_Run\<close>: the independent review (\<^verbatim>\<open>internal/review\<close>,
    \<^verbatim>\<open>internal/core/review.go\<close>, \<^verbatim>\<open>review_dispute.go\<close>), which the completion gate asks for: reading a diff loses nothing, a
    plan covers the change within its budgets, and a review passes only on the grounds the cascade allows.
  \<^item> \<open>Compaction_State\<close> and \<open>Compaction_Run\<close>: compaction of a history (\<^verbatim>\<open>internal/core/compaction.go\<close>, \<^verbatim>\<open>context_bounds.go\<close> and parts
    of \<^verbatim>\<open>helpers.go\<close> and \<^verbatim>\<open>title.go\<close>) on the tables of the store and of memory. \<open>Compaction_Chunks\<close> shows that a transcript is cut
    into chunks without loss, and \<open>Compaction_Undo\<close> and \<open>Compaction_Props\<close> that a compaction cuts the history once or not at all, keeps
    the plan's anchor and can be undone. The locale \<open>memory_ops\<close> of \<open>Recall_Runs\<close> is what a relation on the tables has to respect for all of
    extraction to respect it; it is interpreted on runs of memory and on the tables up to charges and events.

  \<^bold>\<open>Bounds and fuel.\<close> Recursion is structural or has a termination proof. Fuel is used by the JSON recogniser, where
  every call consumes a character, so that the length of the text is enough, and in the guard's nesting
  depth, which is the code's own limit. Loops over
  tables are folds.

  \<^bold>\<open>Granularity.\<close> A method that holds its mutex, a transaction, and an operation of the single database
  connection are one step each. A failure of the database is an argument and hits before the first write; reads an operation makes before its
  transaction are part of the step. Times are instants, and one step sees one time.

  \<^bold>\<open>Not modelled.\<close> Provider clients, transports, user interfaces, the command line, configuration
  loading, catalog discovery, telemetry, and evaluation: input and output, HTTP and generated code. The turn
  loop's goroutines and streams, and the assembly of prompts and instructions; what a summary says rests on a model's
  answer, which is an argument. Workspaces on disk, worktrees, searches and child processes, which are calls into the operating
  system; the file tools are proved against the contract such a workspace offers. Of the store: jobs,
  routing records, per-model statistics and schema migration.
\<close>

end
